(* ===== verification/Prelude.thy ===== *)
theory Prelude
  imports Main "HOL-Library.Word" "HOL-Library.State_Monad"
begin

text \<open>
  Shared vocabulary of the development: the machine integer types of the kernel, a few
  state-monad operations with their execution rules, and three small calculi over stateful
  code that the component theories use throughout:
  \<^item> \<open>keeps f m\<close>: running \<open>m\<close> leaves the projection \<open>f\<close> of the state unchanged (frames);
  \<^item> \<open>preserves P m\<close>: running \<open>m\<close> keeps the invariant \<open>P\<close>;
  \<^item> \<open>ensures P m Q\<close>: from a state with \<open>P\<close>, \<open>m\<close> returns a value and a state with \<open>Q\<close>.
  Each has one rule per combinator, collected in \<open>keeps_rules\<close>, \<open>preserves_rules\<close> and
  \<open>ensures_rules\<close>.
\<close>

unbundle bit_operations_syntax

subsection \<open>Types\<close>

type_synonym u8 = "8 word"
type_synonym u16 = "16 word"
type_synonym u32 = "32 word"
type_synonym u64 = "64 word"
type_synonym s32 = int
  \<comment> \<open>error codes and other signed C ints; the model writes out the conversions\<close>

definition s32_of_u32 :: "u32 \<Rightarrow> s32" where
  "s32_of_u32 w = sint w"

definition u32_of_s32 :: "s32 \<Rightarrow> u32" where
  "u32_of_s32 i = word_of_int i"

named_theorems keeps_rules and preserves_rules and ensures_rules
named_theorems exec_simps \<comment> \<open>execution of the state-monad operations\<close>

subsection \<open>State-monad operations\<close>

definition gets :: "('s \<Rightarrow> 'a) \<Rightarrow> ('s, 'a) state" where
  "gets f = State (\<lambda>s. (f s, s))"

definition modify :: "('s \<Rightarrow> 's) \<Rightarrow> ('s, unit) state" where
  "modify f = State (\<lambda>s. ((), f s))"

definition whenM :: "bool \<Rightarrow> ('s, unit) state \<Rightarrow> ('s, unit) state" where
  "whenM b m = (if b then m else State_Monad.return ())"

primrec for_each :: "'a list \<Rightarrow> ('a \<Rightarrow> ('s, unit) state) \<Rightarrow> ('s, unit) state" where
  "for_each [] f = State_Monad.return ()"
| "for_each (x # xs) f = do { f x; for_each xs f }"

primrec mapM :: "'a list \<Rightarrow> ('a \<Rightarrow> ('s, 'b) state) \<Rightarrow> ('s, 'b list) state" where
  "mapM [] f = State_Monad.return []"
| "mapM (x # xs) f = do { y \<leftarrow> f x; ys \<leftarrow> mapM xs f; State_Monad.return (y # ys) }"

abbreviation ret :: "'a \<Rightarrow> ('s, 'a) state" where
  "ret \<equiv> State_Monad.return"

lemma run_ret [exec_simps, simp]: "run_state (ret x) s = (x, s)"
  by (simp add: State_Monad.return_def)

lemma run_gets [exec_simps, simp]: "run_state (gets f) s = (f s, s)"
  by (simp add: gets_def)

lemma run_modify [exec_simps, simp]: "run_state (modify f) s = ((), f s)"
  by (simp add: modify_def)

lemma run_bind [exec_simps, simp]:
  "run_state (State_Monad.bind m f) s = (case run_state m s of (a, s') \<Rightarrow> run_state (f a) s')"
  by (simp add: State_Monad.bind_def)

lemma whenM_simps [exec_simps, simp]: "whenM True m = m" "whenM False m = ret ()"
  by (simp_all add: whenM_def)

lemma run_whenM [exec_simps]: "run_state (whenM b m) s = (if b then run_state m s else ((), s))"
  by (simp add: whenM_def)

lemma run_for_each_append:
  "run_state (for_each (xs @ ys) f) s = run_state (for_each ys f) (snd (run_state (for_each xs f) s))"
  by (induction xs arbitrary: s) (auto split: prod.splits)

subsection \<open>Frames: code that leaves a projection of the state unchanged\<close>

definition keeps :: "('s \<Rightarrow> 'b) \<Rightarrow> ('s, 'a) state \<Rightarrow> bool" where
  "keeps f m \<longleftrightarrow> (\<forall>s. f (snd (run_state m s)) = f s)"

lemma keepsD: "keeps f m \<Longrightarrow> run_state m s = (a, s') \<Longrightarrow> f s' = f s"
  unfolding keeps_def by (metis snd_conv)

lemma keeps_snd: "keeps f m \<Longrightarrow> f (snd (run_state m s)) = f s"
  by (simp add: keeps_def)

lemma keeps_ret [keeps_rules]: "keeps f (ret x)"
  by (simp add: keeps_def)

lemma keeps_gets [keeps_rules]: "keeps f (gets g)"
  by (simp add: keeps_def)

lemma keeps_modify [keeps_rules]: "(\<And>s. f (g s) = f s) \<Longrightarrow> keeps f (modify g)"
  by (simp add: keeps_def)

lemma keeps_bind [keeps_rules]:
  "keeps f m \<Longrightarrow> (\<And>a. keeps f (g a)) \<Longrightarrow> keeps f (State_Monad.bind m g)"
  unfolding keeps_def by (auto split: prod.splits) (metis snd_conv)

lemma keeps_if [keeps_rules]:
  "(c \<Longrightarrow> keeps f a) \<Longrightarrow> (\<not> c \<Longrightarrow> keeps f b) \<Longrightarrow> keeps f (if c then a else b)"
  by simp

lemma keeps_whenM [keeps_rules]: "(c \<Longrightarrow> keeps f m) \<Longrightarrow> keeps f (whenM c m)"
  by (simp add: whenM_def keeps_ret)

lemma keeps_Let [keeps_rules]: "(\<And>x. keeps f (g x)) \<Longrightarrow> keeps f (let x = v in g x)"
  by simp

lemma keeps_case_prod [keeps_rules]:
  "(\<And>x y. keeps f (g x y)) \<Longrightarrow> keeps f (case p of (x, y) \<Rightarrow> g x y)"
  by (simp split: prod.splits)

lemma keeps_case_option [keeps_rules]:
  "keeps f a \<Longrightarrow> (\<And>x. keeps f (g x)) \<Longrightarrow> keeps f (case v of None \<Rightarrow> a | Some x \<Rightarrow> g x)"
  by (simp split: option.splits)

lemma keeps_for_each [keeps_rules]: "(\<And>x. keeps f (g x)) \<Longrightarrow> keeps f (for_each xs g)"
  by (induction xs) (auto intro: keeps_rules)

lemma keeps_mapM [keeps_rules]: "(\<And>x. keeps f (g x)) \<Longrightarrow> keeps f (mapM xs g)"
  by (induction xs) (auto intro!: keeps_rules)

lemma keeps_compose: "keeps f m \<Longrightarrow> keeps (\<lambda>s. g (f s)) m"
  by (simp add: keeps_def)

subsection \<open>Hoare triples over stateful code\<close>

definition ensures :: "('s \<Rightarrow> bool) \<Rightarrow> ('s, 'a) state \<Rightarrow> ('a \<Rightarrow> 's \<Rightarrow> bool) \<Rightarrow> bool" where
  "ensures P m Q \<longleftrightarrow> (\<forall>s. P s \<longrightarrow> (case run_state m s of (a, s') \<Rightarrow> Q a s'))"

lemma ensuresD: "ensures P m Q \<Longrightarrow> P s \<Longrightarrow> run_state m s = (a, s') \<Longrightarrow> Q a s'"
  unfolding ensures_def by fastforce

lemma ensures_ret [ensures_rules]: "(\<And>s. P s \<Longrightarrow> Q x s) \<Longrightarrow> ensures P (ret x) Q"
  by (simp add: ensures_def)

lemma ensures_gets [ensures_rules]: "(\<And>s. P s \<Longrightarrow> Q (f s) s) \<Longrightarrow> ensures P (gets f) Q"
  by (simp add: ensures_def)

lemma ensures_modify [ensures_rules]: "(\<And>s. P s \<Longrightarrow> Q () (f s)) \<Longrightarrow> ensures P (modify f) Q"
  by (simp add: ensures_def)

lemma ensures_bind:
  "ensures P m R \<Longrightarrow> (\<And>a. ensures (R a) (g a) Q) \<Longrightarrow> ensures P (State_Monad.bind m g) Q"
  unfolding ensures_def by (fastforce split: prod.splits)

lemma ensures_if [ensures_rules]:
  "(c \<Longrightarrow> ensures P a Q) \<Longrightarrow> (\<not> c \<Longrightarrow> ensures P b Q) \<Longrightarrow> ensures P (if c then a else b) Q"
  by simp

lemma ensures_conseq:
  "ensures P' m Q' \<Longrightarrow> (\<And>s. P s \<Longrightarrow> P' s) \<Longrightarrow> (\<And>a s. Q' a s \<Longrightarrow> Q a s) \<Longrightarrow> ensures P m Q"
  unfolding ensures_def by (fastforce split: prod.splits)

subsection \<open>Invariants\<close>

definition preserves :: "('s \<Rightarrow> bool) \<Rightarrow> ('s, 'a) state \<Rightarrow> bool" where
  "preserves P m \<longleftrightarrow> ensures P m (\<lambda>_ s. P s)"

lemma preservesI: "(\<And>s. P s \<Longrightarrow> P (snd (run_state m s))) \<Longrightarrow> preserves P m"
  by (auto simp: preserves_def ensures_def split: prod.splits) (metis snd_conv)

lemma preserves_snd: "preserves P m \<Longrightarrow> P s \<Longrightarrow> P (snd (run_state m s))"
  by (cases "run_state m s") (auto simp: preserves_def ensures_def split: prod.splits)

lemma preservesD: "preserves P m \<Longrightarrow> P s \<Longrightarrow> run_state m s = (a, s') \<Longrightarrow> P s'"
  using preserves_snd by fastforce

lemma preserves_ret [preserves_rules]: "preserves P (ret x)"
  by (simp add: preserves_def ensures_ret)

lemma preserves_gets [preserves_rules]: "preserves P (gets g)"
  by (simp add: preserves_def ensures_gets)

lemma preserves_modify [preserves_rules]: "(\<And>s. P s \<Longrightarrow> P (g s)) \<Longrightarrow> preserves P (modify g)"
  by (simp add: preserves_def ensures_modify)

lemma preserves_bind [preserves_rules]:
  "preserves P m \<Longrightarrow> (\<And>a. preserves P (g a)) \<Longrightarrow> preserves P (State_Monad.bind m g)"
  unfolding preserves_def by (rule ensures_bind)

lemma preserves_if [preserves_rules]:
  "(c \<Longrightarrow> preserves P a) \<Longrightarrow> (\<not> c \<Longrightarrow> preserves P b) \<Longrightarrow> preserves P (if c then a else b)"
  by simp

lemma preserves_whenM [preserves_rules]: "(c \<Longrightarrow> preserves P m) \<Longrightarrow> preserves P (whenM c m)"
  by (simp add: whenM_def preserves_ret)

lemma preserves_Let [preserves_rules]:
  "(\<And>x. preserves P (g x)) \<Longrightarrow> preserves P (let x = v in g x)"
  by simp

lemma preserves_case_prod [preserves_rules]:
  "(\<And>x y. preserves P (g x y)) \<Longrightarrow> preserves P (case p of (x, y) \<Rightarrow> g x y)"
  by (simp split: prod.splits)

lemma preserves_case_option [preserves_rules]:
  "preserves P a \<Longrightarrow> (\<And>x. preserves P (g x)) \<Longrightarrow>
     preserves P (case v of None \<Rightarrow> a | Some x \<Rightarrow> g x)"
  by (simp split: option.splits)

lemma preserves_for_each [preserves_rules]: "(\<And>x. preserves P (g x)) \<Longrightarrow> preserves P (for_each xs g)"
  by (induction xs) (auto intro: preserves_rules)

lemma preserves_mapM [preserves_rules]: "(\<And>x. preserves P (g x)) \<Longrightarrow> preserves P (mapM xs g)"
  by (induction xs) (auto intro!: preserves_rules)

lemma preserves_keeps: "keeps f m \<Longrightarrow> preserves (\<lambda>s. Q (f s)) m"
  by (auto simp: keeps_def intro: preservesI)

lemma length_mapM: "run_state (mapM xs f) s = (ys, s') \<Longrightarrow> length ys = length xs"
  by (induction xs arbitrary: s ys) (auto split: prod.splits)

subsection \<open>Words\<close>

lemma unat_ucast_u16_u32 [simp]: "unat (ucast (i :: u16) :: u32) = unat i"
  by (simp add: unsigned_ucast_eq take_bit_nat_eq_self_iff less_trans [OF unsigned_less])

lemma unat_u16_less: "unat (i :: u16) < 65536"
proof -
  have "unat i < 2 ^ LENGTH(16)" by (rule unsigned_less)
  then show ?thesis by simp
qed

end
