(* ===== verification/Hw.thy ===== *)
theory Hw
  imports Prelude
begin

text \<open>
  The hardware abstraction of the driver: the structures of \<open>ixgbe_vf.h\<close> and \<open>ixgbe_mbx.h\<close>,
  the register file of the virtual function, and register access as \<open>ixgbevf_main.c\<close> and
  \<open>ixgbevf_osdep2.h\<close> implement it, with detection of a surprise-removed adapter.

  The device, the physical-function driver behind the mailbox, the clock and PCI config space
  are not code of the repository. They are the parameter \<open>env\<close>: the value a register read
  returns is an arbitrary function of the whole history of I/O of the driver, so every
  behaviour of a device, of a concurrent PF and of the passage of time (delays are part of
  the history) is some \<open>env\<close>. The history is the field \<open>io\<close> of \<open>ixgbe_hw\<close>, newest event first.
\<close>

subsection \<open>Constants of the shared headers\<close>

definition IXGBE_ERR_CONFIG :: s32 where [simp]: "IXGBE_ERR_CONFIG = -4"
definition IXGBE_ERR_PARAM :: s32 where [simp]: "IXGBE_ERR_PARAM = -5"
definition IXGBE_ERR_INVALID_MAC_ADDR :: s32 where [simp]: "IXGBE_ERR_INVALID_MAC_ADDR = -10"
definition IXGBE_ERR_RESET_FAILED :: s32 where [simp]: "IXGBE_ERR_RESET_FAILED = -15"
definition IXGBE_ERR_INVALID_ARGUMENT :: s32 where [simp]: "IXGBE_ERR_INVALID_ARGUMENT = -32"
definition IXGBE_ERR_OUT_OF_MEM :: s32 where [simp]: "IXGBE_ERR_OUT_OF_MEM = -34"
definition IXGBE_ERR_FEATURE_NOT_SUPPORTED :: s32 where
  [simp]: "IXGBE_ERR_FEATURE_NOT_SUPPORTED = -36"
definition IXGBE_ERR_MBX :: s32 where [simp]: "IXGBE_ERR_MBX = -41"
definition IXGBE_ERR_MBX_NOMSG :: s32 where [simp]: "IXGBE_ERR_MBX_NOMSG = -42"
definition IXGBE_ERR_TIMEOUT :: s32 where [simp]: "IXGBE_ERR_TIMEOUT = -43"

definition IXGBE_DEAD_READ_RETRIES :: nat where [simp]: "IXGBE_DEAD_READ_RETRIES = 10"
definition IXGBE_DEAD_READ_REG :: u32 where [simp]: "IXGBE_DEAD_READ_REG = 0xdeadbeef"
definition IXGBE_FAILED_READ_REG :: u32 where [simp]: "IXGBE_FAILED_READ_REG = 0xffffffff"

text \<open>Virtual-function registers, by byte offset.\<close>

definition IXGBE_VFCTRL :: u32 where [simp]: "IXGBE_VFCTRL = 0x00000"
definition IXGBE_VFSTATUS :: u32 where [simp]: "IXGBE_VFSTATUS = 0x00008"
definition IXGBE_VFLINKS :: u32 where [simp]: "IXGBE_VFLINKS = 0x00010"
definition IXGBE_VTEICR :: u32 where [simp]: "IXGBE_VTEICR = 0x00100"
definition IXGBE_VTEICS :: u32 where [simp]: "IXGBE_VTEICS = 0x00104"
definition IXGBE_VTEIMS :: u32 where [simp]: "IXGBE_VTEIMS = 0x00108"
definition IXGBE_VTEIMC :: u32 where [simp]: "IXGBE_VTEIMC = 0x0010C"
definition IXGBE_VTEIAC :: u32 where [simp]: "IXGBE_VTEIAC = 0x00110"
definition IXGBE_VTEIAM :: u32 where [simp]: "IXGBE_VTEIAM = 0x00114"
definition IXGBE_VTEITR :: "u32 \<Rightarrow> u32" where [simp]: "IXGBE_VTEITR x = 0x00820 + 4 * x"
definition IXGBE_VTIVAR :: "u32 \<Rightarrow> u32" where [simp]: "IXGBE_VTIVAR x = 0x00120 + 4 * x"
definition IXGBE_VTIVAR_MISC :: u32 where [simp]: "IXGBE_VTIVAR_MISC = 0x00140"
definition IXGBE_VFRDH :: "u32 \<Rightarrow> u32" where [simp]: "IXGBE_VFRDH x = 0x01010 + 0x40 * x"
definition IXGBE_VFRDT :: "u32 \<Rightarrow> u32" where [simp]: "IXGBE_VFRDT x = 0x01018 + 0x40 * x"
definition IXGBE_VFRXDCTL :: "u32 \<Rightarrow> u32" where [simp]: "IXGBE_VFRXDCTL x = 0x01028 + 0x40 * x"
definition IXGBE_VFSRRCTL :: "u32 \<Rightarrow> u32" where [simp]: "IXGBE_VFSRRCTL x = 0x01014 + 0x40 * x"
definition IXGBE_VFPSRTYPE :: u32 where [simp]: "IXGBE_VFPSRTYPE = 0x00300"
definition IXGBE_VFTDH :: "u32 \<Rightarrow> u32" where [simp]: "IXGBE_VFTDH x = 0x02010 + 0x40 * x"
definition IXGBE_VFTDT :: "u32 \<Rightarrow> u32" where [simp]: "IXGBE_VFTDT x = 0x02018 + 0x40 * x"
definition IXGBE_VFTXDCTL :: "u32 \<Rightarrow> u32" where [simp]: "IXGBE_VFTXDCTL x = 0x02028 + 0x40 * x"
definition IXGBE_VFTDWBAL :: "u32 \<Rightarrow> u32" where [simp]: "IXGBE_VFTDWBAL x = 0x02038 + 0x40 * x"
definition IXGBE_VFTDWBAH :: "u32 \<Rightarrow> u32" where [simp]: "IXGBE_VFTDWBAH x = 0x0203C + 0x40 * x"
definition IXGBE_VFDCA_RXCTRL :: "u32 \<Rightarrow> u32" where
  [simp]: "IXGBE_VFDCA_RXCTRL x = 0x0100C + 0x40 * x"
definition IXGBE_VFDCA_TXCTRL :: "u32 \<Rightarrow> u32" where
  [simp]: "IXGBE_VFDCA_TXCTRL x = 0x0200c + 0x40 * x"

subsection \<open>MAC types\<close>

datatype ixgbe_mac_type =
    Ixgbe_mac_unknown | Ixgbe_mac_82598EB | Ixgbe_mac_82599EB | Ixgbe_mac_82599_vf
  | Ixgbe_mac_X540 | Ixgbe_mac_X540_vf | Ixgbe_mac_X550 | Ixgbe_mac_X550EM_x
  | Ixgbe_mac_X550EM_a | Ixgbe_mac_X550_vf | Ixgbe_mac_X550EM_x_vf | Ixgbe_mac_X550EM_a_vf
  | Ixgbe_mac_E610 | Ixgbe_mac_E610_vf

text \<open>The code compares MAC types with \<open>>=\<close>: they are ordered by their enumeration value.\<close>

fun mac_type_value :: "ixgbe_mac_type \<Rightarrow> nat" where
  "mac_type_value Ixgbe_mac_unknown = 0"
| "mac_type_value Ixgbe_mac_82598EB = 1"
| "mac_type_value Ixgbe_mac_82599EB = 2"
| "mac_type_value Ixgbe_mac_82599_vf = 3"
| "mac_type_value Ixgbe_mac_X540 = 4"
| "mac_type_value Ixgbe_mac_X540_vf = 5"
| "mac_type_value Ixgbe_mac_X550 = 6"
| "mac_type_value Ixgbe_mac_X550EM_x = 7"
| "mac_type_value Ixgbe_mac_X550EM_a = 8"
| "mac_type_value Ixgbe_mac_X550_vf = 9"
| "mac_type_value Ixgbe_mac_X550EM_x_vf = 10"
| "mac_type_value Ixgbe_mac_X550EM_a_vf = 11"
| "mac_type_value Ixgbe_mac_E610 = 12"
| "mac_type_value Ixgbe_mac_E610_vf = 13"

lemma mac_type_value_inj: "mac_type_value a = mac_type_value b \<Longrightarrow> a = b"
  by (cases a; cases b) simp_all

instantiation ixgbe_mac_type :: linorder
begin
definition less_eq_ixgbe_mac_type :: "ixgbe_mac_type \<Rightarrow> ixgbe_mac_type \<Rightarrow> bool" where
  [simp]: "less_eq_ixgbe_mac_type a b = (mac_type_value a \<le> mac_type_value b)"
definition less_ixgbe_mac_type :: "ixgbe_mac_type \<Rightarrow> ixgbe_mac_type \<Rightarrow> bool" where
  [simp]: "less_ixgbe_mac_type a b = (mac_type_value a < mac_type_value b)"
instance
  by standard (auto intro: mac_type_value_inj)
end

definition ixgbe_is_mac_E6xx :: "ixgbe_mac_type \<Rightarrow> bool" where
  "ixgbe_is_mac_E6xx t \<longleftrightarrow> t = Ixgbe_mac_E610"

definition is_vf_mac :: "ixgbe_mac_type \<Rightarrow> bool" where
  \<comment> \<open>the types of \<open>ixgbevf_info_tbl\<close>: the only ones the probe routine assigns\<close>
  "is_vf_mac t \<longleftrightarrow> t \<in> {Ixgbe_mac_82599_vf, Ixgbe_mac_X540_vf, Ixgbe_mac_X550_vf,
     Ixgbe_mac_X550EM_x_vf, Ixgbe_mac_X550EM_a_vf, Ixgbe_mac_E610_vf}"

subsection \<open>Function pointers\<close>

text \<open>
  The operation tables hold pointers to functions of the repository. Each slot is a datatype
  with one constructor per function that is ever stored in it; \<open>None\<close> is \<open>NULL\<close>.
\<close>

datatype release_fn = Release_mbx_lock_dummy | Release_mbx_lock_vf | Release_mbx_lock_pf
datatype read_fn = Read_mbx_vf_legacy | Read_mbx_vf | Read_mbx_pf_legacy | Read_mbx_pf
datatype write_fn = Write_mbx_vf_legacy | Write_mbx_vf | Write_mbx_pf_legacy | Write_mbx_pf
datatype check_fn = Check_vf | Check_pf
  \<comment> \<open>\<open>ixgbe_check_for_{msg,ack,rst}_vf\<close> and their \<open>_pf\<close> counterparts\<close>
datatype clear_fn = Clear_mbx_pf
datatype init_params_fn = Init_mbx_params_vf

record ixgbe_mbx_operations =
  op_init_params :: "init_params_fn option"
  op_release :: "release_fn option"
  op_read :: "read_fn option"
  op_write :: "write_fn option"
  op_check_for_msg :: "check_fn option"
  op_check_for_ack :: "check_fn option"
  op_check_for_rst :: "check_fn option"
  op_clear :: "clear_fn option"

record ixgbe_mbx_stats =
  msgs_tx :: u32
  msgs_rx :: u32
  acks :: u32
  reqs :: u32
  rsts :: u32

text \<open>\<open>struct ixgbe_mbx_info\<close>; the array \<open>ops[64]\<close> is a function of the mailbox id.\<close>

record ixgbe_mbx_info =
  mbx_ops :: "u16 \<Rightarrow> ixgbe_mbx_operations"
  mbx_stats :: ixgbe_mbx_stats
  mbx_timeout :: u32
  mbx_udelay :: u32
  mbx_vf_mailbox :: u32
  mbx_size :: u16
  msg_timeout_count :: u32
  msg_exp :: u8
  msg_window_end :: u64

datatype reset_hw_fn = Reset_hw_vf | Hv_reset_hw_vf
datatype check_link_fn = Check_mac_link_vf | Hv_check_mac_link_vf | Hv_check_mac_link_e6xx
datatype variant_fn = Native_fn | Hyperv_fn
  \<comment> \<open>slots that hold either the function of \<open>ixgbe_vf.c\<close> or its Hyper-V variant\<close>

record ixgbe_mac_operations =
  op_init_hw :: "variant_fn option"
  op_reset_hw :: "reset_hw_fn option"
  op_start_hw :: "variant_fn option"
  op_get_mac_addr :: "variant_fn option"
  op_stop_adapter :: "variant_fn option"
  op_negotiate_api_version :: "variant_fn option"
  op_negotiate_features :: "variant_fn option"
  op_setup_link :: "variant_fn option"
  op_check_link :: "check_link_fn option"
  op_set_rar :: "variant_fn option"
  op_set_uc_addr :: "variant_fn option"
  op_update_mc_addr_list :: "variant_fn option"
  op_update_xcast_mode :: "variant_fn option"
  op_get_link_state :: "variant_fn option"
  op_set_vfta :: "variant_fn option"
  op_set_rlpml :: "variant_fn option"

record ixgbe_mac_info =
  mac_ops :: ixgbe_mac_operations
  mac_addr :: "u8 list"
  perm_addr :: "u8 list"
  mac_type :: ixgbe_mac_type
  mc_filter_type :: s32
  get_link_status :: bool
  max_tx_queues :: u32
  max_rx_queues :: u32

subsection \<open>The I/O history and the environment\<close>

datatype io_event =
    MMIO_Read u32 u32            \<comment> \<open>offset, value returned\<close>
  | MMIO_Write u32 u32           \<comment> \<open>offset, value written\<close>
  | Udelay u32
  | Msleep nat
  | Cfg_Read nat int u8          \<comment> \<open>PCI config byte: offset, error code, byte\<close>
  | Timeout_log u16 "(u32 \<times> u32) option"
      \<comment> \<open>line printed by \<open>ixgbe_mbx_log_timeout\<close>: mailbox id, (count, seconds) when batched\<close>
  | Schedule_service             \<comment> \<open>\<open>schedule_work(&adapter->service_task)\<close>\<close>
  | Null_call                    \<comment> \<open>a call through a \<open>NULL\<close> function pointer\<close>
  | Kernel_call string "int list"  \<comment> \<open>a call of a kernel service, by name, with its arguments\<close>

record env =
  mmio :: "io_event list \<Rightarrow> u32 \<Rightarrow> u32"
  jiffies_at :: "io_event list \<Rightarrow> u64"
  HZ :: u32
  pci_cfg :: "io_event list \<Rightarrow> nat \<Rightarrow> int \<times> u8"
  kernel :: "io_event list \<Rightarrow> string \<Rightarrow> int list \<Rightarrow> int"

datatype ixgbevf_state_t =
    IXGBEVF_TESTING | IXGBEVF_RESETTING | IXGBEVF_DOWN | IXGBEVF_DISABLED | IXGBEVF_REMOVING
  | IXGBEVF_SERVICE_SCHED | IXGBEVF_SERVICE_INITED | IXGBEVF_RESET_REQUESTED
  | IXGBEVF_QUEUE_RESET_REQUESTED

text \<open>
  \<open>struct ixgbe_hw\<close>. The pointer \<open>back\<close> leads to the adapter; the shared code reaches only
  the bit set \<open>adapter->state\<close> through it, which is the field \<open>back_state\<close>. \<open>hw_addr\<close> is the
  mapped base address, 0 being \<open>NULL\<close>.
\<close>

record ixgbe_hw =
  hw_addr :: u64
  back_state :: "ixgbevf_state_t set"
  mac :: ixgbe_mac_info
  mbx :: ixgbe_mbx_info
  adapter_stopped :: bool
  api_version :: int
  io :: "io_event list"

type_synonym 'a hwop = "(ixgbe_hw, 'a) state"

subsection \<open>Raw I/O\<close>

definition log_io :: "io_event \<Rightarrow> unit hwop" where
  "log_io ev = modify (\<lambda>hw. hw\<lparr>io := ev # io hw\<rparr>)"

definition readl :: "env \<Rightarrow> u32 \<Rightarrow> u32 hwop" where
  "readl E reg = do {
     v \<leftarrow> gets (\<lambda>hw. mmio E (io hw) reg);
     log_io (MMIO_Read reg v);
     ret v }"

definition writel :: "u32 \<Rightarrow> u32 \<Rightarrow> unit hwop" where
  "writel value reg = log_io (MMIO_Write reg value)"

definition udelay :: "u32 \<Rightarrow> unit hwop" where
  "udelay n = log_io (Udelay n)"

definition msleep :: "nat \<Rightarrow> unit hwop" where
  "msleep n = log_io (Msleep n)"

text \<open>
  A service of the kernel whose result the code uses (an allocation, a DMA mapping): the result
  is the environment's, the call is part of the history. A call through a \<open>NULL\<close> pointer, which
  would stop the kernel, is the event \<open>Null_call\<close>; the model goes on with the given result, and
  the lemmas that need it state that the slots are filled.
\<close>

definition kcall :: "env \<Rightarrow> string \<Rightarrow> int list \<Rightarrow> int hwop" where
  "kcall E name args = do {
     v \<leftarrow> gets (\<lambda>hw. kernel E (io hw) name args);
     log_io (Kernel_call name args);
     ret v }"

definition null_call :: "'a \<Rightarrow> 'a hwop" where
  "null_call x = do { log_io Null_call; ret x }"

subsection \<open>Register access\<close>

definition ixgbevf_service_event_schedule :: "unit hwop" where
  "ixgbevf_service_event_schedule = do {
     st \<leftarrow> gets back_state;
     if IXGBEVF_DOWN \<notin> st \<and> IXGBEVF_REMOVING \<notin> st then do {
       \<comment> \<open>\<open>test_and_set_bit\<close>\<close>
       modify (\<lambda>hw. hw\<lparr>back_state := insert IXGBEVF_SERVICE_SCHED (back_state hw)\<rparr>);
       whenM (IXGBEVF_SERVICE_SCHED \<notin> st) (log_io Schedule_service)
     } else ret () }"

definition ixgbevf_remove_adapter :: "unit hwop" where
  "ixgbevf_remove_adapter = do {
     a \<leftarrow> gets hw_addr;
     if a = 0 then ret () else do {
       modify (\<lambda>hw. hw\<lparr>hw_addr := 0\<rparr>);
       st \<leftarrow> gets back_state;
       whenM (IXGBEVF_SERVICE_INITED \<in> st) ixgbevf_service_event_schedule } }"

primrec dead_read_loop :: "env \<Rightarrow> u32 \<Rightarrow> nat \<Rightarrow> u32 \<Rightarrow> u32 hwop" where
  "dead_read_loop E reg 0 value = ret value"
| "dead_read_loop E reg (Suc n) value = do {
     v \<leftarrow> readl E reg;
     if v \<noteq> IXGBE_DEAD_READ_REG then ret v else dead_read_loop E reg n v }"

definition ixgbevf_validate_register_read :: "env \<Rightarrow> u32 \<Rightarrow> u32 hwop" where
  "ixgbevf_validate_register_read E reg = do {
     a \<leftarrow> gets hw_addr;
     if a = 0 then ret IXGBE_FAILED_READ_REG
     else dead_read_loop E reg IXGBE_DEAD_READ_RETRIES 0 }"

function ixgbe_read_reg :: "env \<Rightarrow> u32 \<Rightarrow> u32 hwop"
  and ixgbevf_check_remove :: "env \<Rightarrow> u32 \<Rightarrow> unit hwop" where
  "ixgbe_read_reg E reg = do {
     a \<leftarrow> gets hw_addr;
     if a = 0 then ret IXGBE_FAILED_READ_REG else do {
       value \<leftarrow> readl E reg;
       whenM (value = IXGBE_FAILED_READ_REG) (ixgbevf_check_remove E reg);
       if value = IXGBE_DEAD_READ_REG then ixgbevf_validate_register_read E reg
       else ret value } }"
| "ixgbevf_check_remove E reg =
     (if reg = IXGBE_VFSTATUS then ixgbevf_remove_adapter else do {
       value \<leftarrow> ixgbe_read_reg E IXGBE_VFSTATUS;
       whenM (value = IXGBE_FAILED_READ_REG) ixgbevf_remove_adapter })"
  by pat_completeness auto
termination
  by (relation "measure (\<lambda>x. case x of
      Inl (E, reg) \<Rightarrow> (if reg = IXGBE_VFSTATUS then 1 else 3)
    | Inr (E, reg) \<Rightarrow> (if reg = IXGBE_VFSTATUS then 0 else 2))") auto

declare ixgbe_read_reg.simps [simp del] ixgbevf_check_remove.simps [simp del]

definition IXGBE_WRITE_REG :: "u32 \<Rightarrow> u32 \<Rightarrow> unit hwop" where
  "IXGBE_WRITE_REG reg value = do {
     a \<leftarrow> gets hw_addr;
     if a = 0 then ret () else writel value reg }"

definition IXGBE_READ_REG_ARRAY :: "env \<Rightarrow> u32 \<Rightarrow> nat \<Rightarrow> u32 hwop" where
  "IXGBE_READ_REG_ARRAY E reg i = ixgbe_read_reg E (reg + push_bit 2 (of_nat i))"

definition IXGBE_WRITE_REG_ARRAY :: "u32 \<Rightarrow> nat \<Rightarrow> u32 \<Rightarrow> unit hwop" where
  "IXGBE_WRITE_REG_ARRAY reg i value = IXGBE_WRITE_REG (reg + push_bit 2 (of_nat i)) value"

definition IXGBE_WRITE_FLUSH :: "env \<Rightarrow> unit hwop" where
  "IXGBE_WRITE_FLUSH E = do { ixgbe_read_reg E IXGBE_VFSTATUS; ret () }"

subsection \<open>What I/O a piece of code performs\<close>

text \<open>
  \<open>emits Q m\<close>: the history only grows while \<open>m\<close> runs, and every event \<open>m\<close> adds satisfies
  \<open>Q\<close>. Like the calculi of the prelude it has one rule per combinator, so that statements
  about the I/O of a whole routine follow from its leaves.
\<close>

named_theorems emits_rules

definition emits :: "(io_event \<Rightarrow> bool) \<Rightarrow> 'a hwop \<Rightarrow> bool" where
  "emits Q m \<longleftrightarrow> (\<forall>hw. \<exists>evs. io (snd (run_state m hw)) = evs @ io hw \<and> list_all Q evs)"

lemma emitsE:
  assumes "emits Q m"
  obtains evs where "io (snd (run_state m hw)) = evs @ io hw" and "list_all Q evs"
  using assms unfolding emits_def by blast

lemma emits_keeps: "keeps io m \<Longrightarrow> emits Q m"
  by (simp add: keeps_def emits_def)

lemma emits_ret [emits_rules]: "emits Q (ret x)"
  by (simp add: emits_def)

lemma emits_gets [emits_rules]: "emits Q (gets f)"
  by (simp add: emits_def)

lemma emits_modify [emits_rules]: "(\<And>hw. io (f hw) = io hw) \<Longrightarrow> emits Q (modify f)"
  by (simp add: emits_def)

lemma emits_log_io [emits_rules]: "Q ev \<Longrightarrow> emits Q (log_io ev)"
  by (simp add: emits_def log_io_def)

lemma emits_bind [emits_rules]:
  assumes "emits Q m" and "\<And>a. emits Q (g a)"
  shows "emits Q (State_Monad.bind m g)"
  unfolding emits_def
proof
  fix hw
  obtain a hw' where m: "run_state m hw = (a, hw')" by fastforce
  from assms(1) obtain evs where "io hw' = evs @ io hw" "list_all Q evs"
    using m by (metis emitsE snd_conv)
  moreover obtain evs' where "io (snd (run_state (g a) hw')) = evs' @ io hw'" "list_all Q evs'"
    using assms(2) by (rule emitsE)
  ultimately have "io (snd (run_state (State_Monad.bind m g) hw)) = (evs' @ evs) @ io hw
      \<and> list_all Q (evs' @ evs)"
    using m by simp
  then show "\<exists>evs. io (snd (run_state (State_Monad.bind m g) hw)) = evs @ io hw
      \<and> list_all Q evs"
    by blast
qed

lemma emits_if [emits_rules]:
  "(c \<Longrightarrow> emits Q a) \<Longrightarrow> (\<not> c \<Longrightarrow> emits Q b) \<Longrightarrow> emits Q (if c then a else b)"
  by simp

lemma emits_whenM [emits_rules]: "(c \<Longrightarrow> emits Q m) \<Longrightarrow> emits Q (whenM c m)"
  by (simp add: whenM_def emits_ret)

lemma emits_Let [emits_rules]: "(\<And>x. emits Q (g x)) \<Longrightarrow> emits Q (let x = v in g x)"
  by simp

lemma emits_case_prod [emits_rules]:
  "(\<And>x y. emits Q (g x y)) \<Longrightarrow> emits Q (case p of (x, y) \<Rightarrow> g x y)"
  by (simp split: prod.splits)

lemma emits_case_option [emits_rules]:
  "emits Q a \<Longrightarrow> (\<And>x. emits Q (g x)) \<Longrightarrow> emits Q (case v of None \<Rightarrow> a | Some x \<Rightarrow> g x)"
  by (simp split: option.splits)

lemma emits_for_each [emits_rules]:
  "(\<And>x. x \<in> set xs \<Longrightarrow> emits Q (g x)) \<Longrightarrow> emits Q (for_each xs g)"
  by (induction xs) (auto intro: emits_rules)

lemma emits_mapM [emits_rules]: "(\<And>x. emits Q (g x)) \<Longrightarrow> emits Q (mapM xs g)"
  by (induction xs) (auto intro!: emits_rules)

lemma emits_mono: "emits Q m \<Longrightarrow> (\<And>ev. Q ev \<Longrightarrow> Q' ev) \<Longrightarrow> emits Q' m"
  unfolding emits_def by (metis (mono_tags, lifting) list.pred_mono_strong)

text \<open>Classes of events that the safety lemmas speak of.\<close>

definition no_mmio_write :: "io_event \<Rightarrow> bool" where
  "no_mmio_write ev \<longleftrightarrow> (\<forall>r v. ev \<noteq> MMIO_Write r v)"

definition writes_within :: "u32 set \<Rightarrow> io_event \<Rightarrow> bool" where
  "writes_within R ev \<longleftrightarrow> (\<forall>r v. ev = MMIO_Write r v \<longrightarrow> r \<in> R)"

lemma no_mmio_write_simps [simp]:
  "no_mmio_write (MMIO_Read r v)" "\<not> no_mmio_write (MMIO_Write r v)" "no_mmio_write (Udelay n)"
  "no_mmio_write (Msleep k)" "no_mmio_write (Cfg_Read o' e b)" "no_mmio_write (Timeout_log i x)"
  "no_mmio_write Schedule_service" "no_mmio_write Null_call" "no_mmio_write (Kernel_call s as)"
  by (simp_all add: no_mmio_write_def)

lemma writes_within_simps [simp]:
  "writes_within R (MMIO_Read r v)" "writes_within R (MMIO_Write r v) \<longleftrightarrow> r \<in> R"
  "writes_within R (Udelay n)" "writes_within R (Msleep k)" "writes_within R (Cfg_Read o' e b)"
  "writes_within R (Timeout_log i x)" "writes_within R Schedule_service" "writes_within R Null_call" "writes_within R (Kernel_call s as)"
  by (simp_all add: writes_within_def)

lemma no_write_within: "no_mmio_write ev \<Longrightarrow> writes_within R ev"
  by (simp add: no_mmio_write_def writes_within_def)

subsection \<open>Register access, lemmas\<close>

text \<open>The frame of register access: everything but the history, the mapping and the adapter bits.\<close>

definition hw_core :: "ixgbe_hw \<Rightarrow> ixgbe_mac_info \<times> ixgbe_mbx_info \<times> bool \<times> int" where
  "hw_core hw = (mac hw, mbx hw, adapter_stopped hw, api_version hw)"

lemma hw_core_simps [simp]:
  "hw_core (hw\<lparr>io := l\<rparr>) = hw_core hw" "hw_core (hw\<lparr>hw_addr := a\<rparr>) = hw_core hw"
  "hw_core (hw\<lparr>back_state := b\<rparr>) = hw_core hw"
  by (simp_all add: hw_core_def)

lemma keeps_core_mac: "keeps hw_core m \<Longrightarrow> keeps mac m"
  by (auto simp: keeps_def hw_core_def)

lemma keeps_core_mbx: "keeps hw_core m \<Longrightarrow> keeps mbx m"
  by (auto simp: keeps_def hw_core_def)

lemma keeps_core_api: "keeps hw_core m \<Longrightarrow> keeps api_version m"
  by (auto simp: keeps_def hw_core_def)

lemma keeps_core_stopped: "keeps hw_core m \<Longrightarrow> keeps adapter_stopped m"
  by (auto simp: keeps_def hw_core_def)

lemma log_io_core [keeps_rules]: "keeps hw_core (log_io ev)"
  by (simp add: keeps_def log_io_def)

lemma raw_io_core [keeps_rules]:
  "keeps hw_core (readl E reg)" "keeps hw_core (writel v reg)" "keeps hw_core (udelay n)"
  "keeps hw_core (msleep k)"
  unfolding readl_def writel_def udelay_def msleep_def by (intro keeps_rules)+

lemma call_core [keeps_rules]: "keeps hw_core (kcall E s as)" "keeps hw_core (null_call x)"
  unfolding kcall_def null_call_def by (intro keeps_rules)+

lemma service_event_schedule_core [keeps_rules]: "keeps hw_core ixgbevf_service_event_schedule"
  unfolding ixgbevf_service_event_schedule_def by (intro keeps_rules) auto

lemma remove_adapter_core [keeps_rules]: "keeps hw_core ixgbevf_remove_adapter"
  unfolding ixgbevf_remove_adapter_def by (intro keeps_rules) auto

lemma dead_read_loop_core [keeps_rules]: "keeps hw_core (dead_read_loop E reg n v)"
  by (induction n arbitrary: v) (auto intro!: keeps_rules)

lemma validate_register_read_core [keeps_rules]:
  "keeps hw_core (ixgbevf_validate_register_read E reg)"
  unfolding ixgbevf_validate_register_read_def by (intro keeps_rules)

lemma read_reg_core [keeps_rules]:
  "keeps hw_core (ixgbe_read_reg E reg)" "keeps hw_core (ixgbevf_check_remove E reg)"
proof (induction E reg and E reg rule: ixgbe_read_reg_ixgbevf_check_remove.induct)
  case (1 E reg)
  then show ?case by (subst ixgbe_read_reg.simps) (intro keeps_rules, auto)
next
  case (2 E reg)
  then show ?case by (subst ixgbevf_check_remove.simps) (intro keeps_rules, auto)
qed

lemma write_reg_core [keeps_rules]:
  "keeps hw_core (IXGBE_WRITE_REG reg v)" "keeps hw_core (IXGBE_WRITE_REG_ARRAY reg i v)"
  "keeps hw_core (IXGBE_READ_REG_ARRAY E reg i)" "keeps hw_core (IXGBE_WRITE_FLUSH E)"
  unfolding IXGBE_WRITE_REG_def IXGBE_WRITE_REG_ARRAY_def IXGBE_READ_REG_ARRAY_def
    IXGBE_WRITE_FLUSH_def
  by (intro keeps_rules)+

lemma readl_reads [emits_rules]: "emits no_mmio_write (readl E reg)"
  unfolding readl_def by (intro emits_rules) auto

lemma delay_reads [emits_rules]:
  "emits no_mmio_write (udelay n)" "emits no_mmio_write (msleep k)"
  unfolding udelay_def msleep_def by (intro emits_rules, simp)+

lemma call_emits [emits_rules]:
  "Q (Kernel_call s as) \<Longrightarrow> emits Q (kcall E s as)" "Q Null_call \<Longrightarrow> emits Q (null_call x)"
  unfolding kcall_def null_call_def by (intro emits_rules; simp)+

lemma remove_adapter_reads [emits_rules]: "emits no_mmio_write ixgbevf_remove_adapter"
  unfolding ixgbevf_remove_adapter_def ixgbevf_service_event_schedule_def
  by (intro emits_rules) auto

lemma dead_read_loop_reads [emits_rules]: "emits no_mmio_write (dead_read_loop E reg n v)"
  by (induction n arbitrary: v) (auto intro!: emits_rules)

lemma read_reg_reads [emits_rules]:
  "emits no_mmio_write (ixgbe_read_reg E reg)" "emits no_mmio_write (ixgbevf_check_remove E reg)"
proof (induction E reg and E reg rule: ixgbe_read_reg_ixgbevf_check_remove.induct)
  case (1 E reg)
  then show ?case
    by (subst ixgbe_read_reg.simps)
       (auto simp: ixgbevf_validate_register_read_def intro!: emits_rules)
next
  case (2 E reg)
  then show ?case by (subst ixgbevf_check_remove.simps) (intro emits_rules, auto)
qed

lemma read_reg_array_reads [emits_rules]:
  "emits no_mmio_write (IXGBE_READ_REG_ARRAY E reg i)" "emits no_mmio_write (IXGBE_WRITE_FLUSH E)"
  unfolding IXGBE_READ_REG_ARRAY_def IXGBE_WRITE_FLUSH_def by (intro emits_rules)+

lemma write_reg_emits [emits_rules]:
  "reg \<in> R \<Longrightarrow> emits (writes_within R) (IXGBE_WRITE_REG reg v)"
  unfolding IXGBE_WRITE_REG_def writel_def by (intro emits_rules) auto

text \<open>The common case: the adapter is present and the register does not read as a fault pattern.\<close>

lemma read_reg_live:
  assumes "hw_addr hw \<noteq> 0" and "mmio E (io hw) reg = v"
    and "v \<noteq> IXGBE_FAILED_READ_REG" and "v \<noteq> IXGBE_DEAD_READ_REG"
  shows "run_state (ixgbe_read_reg E reg) hw = (v, hw\<lparr>io := MMIO_Read reg v # io hw\<rparr>)"
  using assms by (subst ixgbe_read_reg.simps) (simp add: readl_def log_io_def run_whenM)

lemma write_reg_live:
  "hw_addr hw \<noteq> 0 \<Longrightarrow>
     run_state (IXGBE_WRITE_REG reg v) hw = ((), hw\<lparr>io := MMIO_Write reg v # io hw\<rparr>)"
  by (simp add: IXGBE_WRITE_REG_def writel_def log_io_def)

lemma read_reg_removed:
  "hw_addr hw = 0 \<Longrightarrow> run_state (ixgbe_read_reg E reg) hw = (IXGBE_FAILED_READ_REG, hw)"
  by (subst ixgbe_read_reg.simps) simp

lemma write_reg_removed: "hw_addr hw = 0 \<Longrightarrow> run_state (IXGBE_WRITE_REG reg v) hw = ((), hw)"
  by (simp add: IXGBE_WRITE_REG_def)

subsection \<open>The sequence of register writes\<close>

fun mmio_writes :: "io_event list \<Rightarrow> (u32 \<times> u32) list" where
  "mmio_writes [] = []"
| "mmio_writes (MMIO_Write r v # evs) = mmio_writes evs @ [(r, v)]"
| "mmio_writes (_ # evs) = mmio_writes evs"

lemma mmio_writes_append: "mmio_writes (xs @ ys) = mmio_writes ys @ mmio_writes xs"
  by (induction xs rule: mmio_writes.induct) auto

lemma mmio_writes_none: "list_all no_mmio_write evs \<Longrightarrow> mmio_writes evs = []"
  by (induction evs rule: mmio_writes.induct) auto

text \<open>
  \<open>performs m P\<close>: if the adapter is still mapped after \<open>m\<close> has returned \<open>r\<close> (so that no write
  was suppressed), it was mapped before, and \<open>m\<close> wrote a sequence \<open>ws\<close> of registers with
  \<open>P r ws\<close>, in the order of the sequence.
\<close>

definition performs :: "'a hwop \<Rightarrow> ('a \<Rightarrow> (u32 \<times> u32) list \<Rightarrow> bool) \<Rightarrow> bool" where
  "performs m P \<longleftrightarrow> (\<forall>hw r hw'. run_state m hw = (r, hw') \<longrightarrow> hw_addr hw' \<noteq> 0 \<longrightarrow>
     hw_addr hw \<noteq> 0 \<and> (\<exists>ws. mmio_writes (io hw') = mmio_writes (io hw) @ ws \<and> P r ws))"

named_theorems performs_rules

lemma performsD:
  assumes "performs m P" and "run_state m hw = (r, hw')" and "hw_addr hw' \<noteq> 0"
  shows "hw_addr hw \<noteq> 0" and "\<exists>ws. mmio_writes (io hw') = mmio_writes (io hw) @ ws \<and> P r ws"
  using assms unfolding performs_def by blast+

lemma performs_mono: "performs m P \<Longrightarrow> (\<And>r ws. P r ws \<Longrightarrow> Q r ws) \<Longrightarrow> performs m Q"
  unfolding performs_def by blast

lemma performs_bind:
  assumes m: "performs m P" and g: "\<And>a. performs (g a) (Q a)"
    and R: "\<And>a r ws1 ws2. P a ws1 \<Longrightarrow> Q a r ws2 \<Longrightarrow> R r (ws1 @ ws2)"
  shows "performs (State_Monad.bind m g) R"
  unfolding performs_def
proof (intro allI impI)
  fix hw r hw'
  assume "run_state (State_Monad.bind m g) hw = (r, hw')" and live: "hw_addr hw' \<noteq> 0"
  then obtain a hw1 where 1: "run_state m hw = (a, hw1)" and 2: "run_state (g a) hw1 = (r, hw')"
    by (auto split: prod.splits)
  from performsD [OF g 2 live] obtain ws2 where "hw_addr hw1 \<noteq> 0"
    and "mmio_writes (io hw') = mmio_writes (io hw1) @ ws2" and "Q a r ws2" by blast
  moreover from performsD [OF m 1 this(1)] obtain ws1 where "hw_addr hw \<noteq> 0"
    and "mmio_writes (io hw1) = mmio_writes (io hw) @ ws1" and "P a ws1" by blast
  ultimately show "hw_addr hw \<noteq> 0 \<and>
      (\<exists>ws. mmio_writes (io hw') = mmio_writes (io hw) @ ws \<and> R r ws)"
    using R by (metis append.assoc)
qed

lemma performs_seq:
  "performs m (\<lambda>_ ws. ws = us) \<Longrightarrow> (\<And>a. performs (g a) (\<lambda>r ws. Q r (us @ ws))) \<Longrightarrow>
     performs (State_Monad.bind m g) Q"
  by (rule performs_bind [where P = "\<lambda>_ ws. ws = us" and Q = "\<lambda>_ r ws. Q r (us @ ws)"]) auto

definition silent :: "'a hwop \<Rightarrow> bool" where
  "silent m \<longleftrightarrow> performs m (\<lambda>_ ws. ws = [])"

lemma performs_silent: "silent m \<Longrightarrow> performs m (\<lambda>_ ws. ws = [])"
  by (simp add: silent_def)

lemma silentI:
  assumes "emits no_mmio_write m" and "preserves (\<lambda>hw. hw_addr hw = 0) m"
  shows "silent m"
  unfolding silent_def performs_def
proof (intro allI impI)
  fix hw r hw'
  assume run: "run_state m hw = (r, hw')" and live: "hw_addr hw' \<noteq> 0"
  from assms(2) run live have "hw_addr hw \<noteq> 0" by (blast dest: preservesD)
  moreover obtain evs where "io (snd (run_state m hw)) = evs @ io hw" "list_all no_mmio_write evs"
    using assms(1) by (rule emitsE)
  then have "mmio_writes (io hw') = mmio_writes (io hw)"
    using run by (simp add: mmio_writes_append mmio_writes_none)
  ultimately show "hw_addr hw \<noteq> 0 \<and>
      (\<exists>ws. mmio_writes (io hw') = mmio_writes (io hw) @ ws \<and> ws = [])" by simp
qed

lemma performs_ret: "Q x [] \<Longrightarrow> performs (ret x) Q"
  by (simp add: performs_def)

lemma performs_if:
  "(c \<Longrightarrow> performs a P) \<Longrightarrow> (\<not> c \<Longrightarrow> performs b P) \<Longrightarrow> performs (if c then a else b) P"
  by simp

lemma gone_raw [preserves_rules]:
  "preserves (\<lambda>hw. hw_addr hw = 0) (log_io ev)" "preserves (\<lambda>hw. hw_addr hw = 0) (readl E reg)"
  "preserves (\<lambda>hw. hw_addr hw = 0) (writel v reg)" "preserves (\<lambda>hw. hw_addr hw = 0) (udelay n)"
  "preserves (\<lambda>hw. hw_addr hw = 0) (msleep k)" "preserves (\<lambda>hw. hw_addr hw = 0) (kcall E s as)"
  "preserves (\<lambda>hw. hw_addr hw = 0) (null_call x)"
  unfolding readl_def writel_def udelay_def msleep_def log_io_def kcall_def null_call_def by (intro preserves_rules; simp)+

lemma gone_read_reg [preserves_rules]:
  "preserves (\<lambda>hw. hw_addr hw = 0) (ixgbe_read_reg E reg)"
  "preserves (\<lambda>hw. hw_addr hw = 0) (IXGBE_READ_REG_ARRAY E a i)"
  "preserves (\<lambda>hw. hw_addr hw = 0) (IXGBE_WRITE_FLUSH E)"
proof -
  show r: "preserves (\<lambda>hw. hw_addr hw = 0) (ixgbe_read_reg E reg)" for reg
    by (rule preservesI) (simp add: read_reg_removed)
  then show "preserves (\<lambda>hw. hw_addr hw = 0) (IXGBE_READ_REG_ARRAY E a i)"
    by (simp add: IXGBE_READ_REG_ARRAY_def)
  show "preserves (\<lambda>hw. hw_addr hw = 0) (IXGBE_WRITE_FLUSH E)"
    unfolding IXGBE_WRITE_FLUSH_def by (intro preserves_rules r)
qed

lemma gone_write_reg [preserves_rules]:
  "preserves (\<lambda>hw. hw_addr hw = 0) (IXGBE_WRITE_REG reg v)"
  by (rule preservesI) (simp add: write_reg_removed)

lemma silent_leaves [performs_rules]:
  "silent (ixgbe_read_reg E reg)" "silent (IXGBE_READ_REG_ARRAY E a i)"
  "silent (IXGBE_WRITE_FLUSH E)" "silent (udelay n)" "silent (msleep k)" "silent (gets f)"
  "silent (kcall E s as)" "silent (null_call x)"
  by (intro silentI emits_rules preserves_rules; simp)+

lemma silent_modify:
  "(\<And>hw. io (f hw) = io hw \<and> hw_addr (f hw) = hw_addr hw) \<Longrightarrow> silent (modify f)"
  by (intro silentI emits_rules preserves_rules) auto

lemma silent_bind [performs_rules]:
  "silent m \<Longrightarrow> (\<And>a. silent (g a)) \<Longrightarrow> silent (State_Monad.bind m g)"
  unfolding silent_def by (erule performs_bind, assumption) simp

lemma silent_ret [performs_rules]: "silent (ret x)"
  by (simp add: silent_def performs_ret)

lemma silent_if [performs_rules]:
  "(c \<Longrightarrow> silent a) \<Longrightarrow> (\<not> c \<Longrightarrow> silent b) \<Longrightarrow> silent (if c then a else b)"
  by simp

lemma silent_whenM [performs_rules]: "(c \<Longrightarrow> silent m) \<Longrightarrow> silent (whenM c m)"
  by (simp add: whenM_def silent_ret)

lemma silent_Let [performs_rules]: "(\<And>x. silent (g x)) \<Longrightarrow> silent (let x = v in g x)"
  by simp

lemma silent_case_option [performs_rules]:
  "silent a \<Longrightarrow> (\<And>x. silent (g x)) \<Longrightarrow> silent (case v of None \<Rightarrow> a | Some x \<Rightarrow> g x)"
  by (simp split: option.splits)

lemma silent_mapM [performs_rules]: "(\<And>x. silent (g x)) \<Longrightarrow> silent (mapM xs g)"
  by (induction xs) (auto intro!: performs_rules)

lemma performs_write_reg: "performs (IXGBE_WRITE_REG reg v) (\<lambda>_ ws. ws = [(reg, v)])"
  unfolding performs_def IXGBE_WRITE_REG_def writel_def log_io_def by auto

lemma performs_for_each:
  "(\<And>x. x \<in> set xs \<Longrightarrow> performs (g x) (\<lambda>_ ws. ws = f x)) \<Longrightarrow>
     performs (for_each xs g) (\<lambda>_ ws. ws = concat (map f xs))"
proof (induction xs)
  case Nil
  show ?case by (simp add: performs_ret)
next
  case (Cons x xs)
  from Cons.prems [of x] have "performs (g x) (\<lambda>_ ws. ws = f x)" by simp
  moreover from Cons have "performs (for_each xs g) (\<lambda>_ ws. ws = concat (map f xs))" by simp
  ultimately show ?case by (auto intro: performs_bind)
qed

end
