(* ===== verification/Mailbox.thy ===== *)
theory Mailbox
  imports Hw
begin

text \<open>
  \<open>ixgbe_mbx.c\<close>: the PF/VF mailbox. First the operations of the VF side and of the PF side,
  then the dispatch through \<open>mbx->ops[mbx_id]\<close>, the polling loops with the batched timeout
  log, the legacy and the upgraded read and write routines, the entry points
  \<open>ixgbe_read_mbx\<close>, \<open>ixgbe_poll_mbx\<close>, \<open>ixgbe_write_mbx\<close>, and the parameter initialisers.

  The loops \<open>while (countdown--)\<close> recurse on the countdown, which the code takes from
  \<open>mbx->timeout\<close> (0 or 2000 in the driver, so the conversion to \<open>int\<close> is exact); the
  message buffers are word lists, \<open>msg[i]\<close> being \<open>msg ! i\<close>.
\<close>

subsection \<open>Constants\<close>

definition IXGBE_VFMAILBOX_SIZE :: u16 where [simp]: "IXGBE_VFMAILBOX_SIZE = 16"
definition IXGBE_VFMAILBOX :: u32 where [simp]: "IXGBE_VFMAILBOX = 0x002FC"
definition IXGBE_VFMBMEM :: u32 where [simp]: "IXGBE_VFMBMEM = 0x00200"

definition IXGBE_VFMAILBOX_REQ :: u32 where [simp]: "IXGBE_VFMAILBOX_REQ = 0x01"
definition IXGBE_VFMAILBOX_ACK :: u32 where [simp]: "IXGBE_VFMAILBOX_ACK = 0x02"
definition IXGBE_VFMAILBOX_VFU :: u32 where [simp]: "IXGBE_VFMAILBOX_VFU = 0x04"
definition IXGBE_VFMAILBOX_PFU :: u32 where [simp]: "IXGBE_VFMAILBOX_PFU = 0x08"
definition IXGBE_VFMAILBOX_PFSTS :: u32 where [simp]: "IXGBE_VFMAILBOX_PFSTS = 0x10"
definition IXGBE_VFMAILBOX_PFACK :: u32 where [simp]: "IXGBE_VFMAILBOX_PFACK = 0x20"
definition IXGBE_VFMAILBOX_RSTI :: u32 where [simp]: "IXGBE_VFMAILBOX_RSTI = 0x40"
definition IXGBE_VFMAILBOX_RSTD :: u32 where [simp]: "IXGBE_VFMAILBOX_RSTD = 0x80"
definition IXGBE_VFMAILBOX_R2C_BITS :: u32 where [simp]: "IXGBE_VFMAILBOX_R2C_BITS = 0xB0"

definition IXGBE_PFMAILBOX_STS :: u32 where [simp]: "IXGBE_PFMAILBOX_STS = 0x01"
definition IXGBE_PFMAILBOX_ACK :: u32 where [simp]: "IXGBE_PFMAILBOX_ACK = 0x02"
definition IXGBE_PFMAILBOX_VFU :: u32 where [simp]: "IXGBE_PFMAILBOX_VFU = 0x04"
definition IXGBE_PFMAILBOX_PFU :: u32 where [simp]: "IXGBE_PFMAILBOX_PFU = 0x08"
definition IXGBE_PFMBICR_VFREQ_VF1 :: u32 where [simp]: "IXGBE_PFMBICR_VFREQ_VF1 = 0x00000001"
definition IXGBE_PFMBICR_VFACK_VF1 :: u32 where [simp]: "IXGBE_PFMBICR_VFACK_VF1 = 0x00010000"

definition IXGBE_PFMAILBOX :: "u32 \<Rightarrow> u32" where [simp]: "IXGBE_PFMAILBOX i = 0x04B00 + 4 * i"
definition IXGBE_PFMBMEM :: "u32 \<Rightarrow> u32" where [simp]: "IXGBE_PFMBMEM i = 0x13000 + 64 * i"
definition IXGBE_PFMBICR_INDEX :: "u32 \<Rightarrow> u32" where
  [simp]: "IXGBE_PFMBICR_INDEX i = drop_bit 4 i"
definition IXGBE_PFMBICR_SHIFT :: "u32 \<Rightarrow> nat" where
  [simp]: "IXGBE_PFMBICR_SHIFT i = unat i mod 16"
definition IXGBE_PFMBICR :: "u32 \<Rightarrow> u32" where [simp]: "IXGBE_PFMBICR i = 0x00710 + 4 * i"
definition IXGBE_PFVFLRE :: "u32 \<Rightarrow> u32" where
  [simp]: "IXGBE_PFVFLRE i = (if i AND 1 \<noteq> 0 then 0x001C0 else 0x00600)"
definition IXGBE_PFVFLREC :: "u32 \<Rightarrow> u32" where [simp]: "IXGBE_PFVFLREC i = 0x00700 + i * 4"
definition IXGBE_PFVFLRE_INDEX :: "u32 \<Rightarrow> u32" where
  [simp]: "IXGBE_PFVFLRE_INDEX i = drop_bit 5 i"
definition IXGBE_PFVFLRE_SHIFT :: "u32 \<Rightarrow> nat" where
  [simp]: "IXGBE_PFVFLRE_SHIFT i = unat i mod 32"

definition IXGBE_VT_MSGTYPE_SUCCESS :: u32 where [simp]: "IXGBE_VT_MSGTYPE_SUCCESS = 0x80000000"
definition IXGBE_VT_MSGTYPE_FAILURE :: u32 where [simp]: "IXGBE_VT_MSGTYPE_FAILURE = 0x40000000"
definition IXGBE_VT_MSGTYPE_CTS :: u32 where [simp]: "IXGBE_VT_MSGTYPE_CTS = 0x20000000"
definition IXGBE_VT_MSGINFO_SHIFT :: nat where [simp]: "IXGBE_VT_MSGINFO_SHIFT = 16"

definition IXGBE_VF_MBX_INIT_TIMEOUT :: u32 where [simp]: "IXGBE_VF_MBX_INIT_TIMEOUT = 2000"
definition IXGBE_VF_MBX_INIT_DELAY :: u32 where [simp]: "IXGBE_VF_MBX_INIT_DELAY = 500"

subsection \<open>Updates of the mailbox structure\<close>

definition upd_mbx :: "(ixgbe_mbx_info \<Rightarrow> ixgbe_mbx_info) \<Rightarrow> unit hwop" where
  "upd_mbx f = modify (\<lambda>hw. hw\<lparr>mbx := f (mbx hw)\<rparr>)"

definition upd_stats :: "(ixgbe_mbx_stats \<Rightarrow> ixgbe_mbx_stats) \<Rightarrow> unit hwop" where
  "upd_stats f = upd_mbx (\<lambda>m. m\<lparr>mbx_stats := f (mbx_stats m)\<rparr>)"

definition inc_reqs :: "unit hwop" where "inc_reqs = upd_stats (\<lambda>st. st\<lparr>reqs := reqs st + 1\<rparr>)"
definition inc_acks :: "unit hwop" where "inc_acks = upd_stats (\<lambda>st. st\<lparr>acks := acks st + 1\<rparr>)"
definition inc_rsts :: "unit hwop" where "inc_rsts = upd_stats (\<lambda>st. st\<lparr>rsts := rsts st + 1\<rparr>)"
definition inc_msgs_tx :: "unit hwop" where
  "inc_msgs_tx = upd_stats (\<lambda>st. st\<lparr>msgs_tx := msgs_tx st + 1\<rparr>)"
definition inc_msgs_rx :: "unit hwop" where
  "inc_msgs_rx = upd_stats (\<lambda>st. st\<lparr>msgs_rx := msgs_rx st + 1\<rparr>)"

subsection \<open>VF side: status bits\<close>

definition ixgbe_read_mailbox_vf :: "env \<Rightarrow> u32 hwop" where
  "ixgbe_read_mailbox_vf E = do {
     r \<leftarrow> ixgbe_read_reg E IXGBE_VFMAILBOX;
     cached \<leftarrow> gets (\<lambda>hw. mbx_vf_mailbox (mbx hw));
     let vf_mailbox = r OR cached;
     upd_mbx (\<lambda>m. m\<lparr>mbx_vf_mailbox :=
       mbx_vf_mailbox m OR (vf_mailbox AND IXGBE_VFMAILBOX_R2C_BITS)\<rparr>);
     ret vf_mailbox }"

definition clear_cached :: "u32 \<Rightarrow> unit hwop" where
  "clear_cached bits = upd_mbx (\<lambda>m. m\<lparr>mbx_vf_mailbox := mbx_vf_mailbox m AND NOT bits\<rparr>)"

definition ixgbe_clear_msg_vf :: "env \<Rightarrow> unit hwop" where
  "ixgbe_clear_msg_vf E = do {
     vf_mailbox \<leftarrow> ixgbe_read_mailbox_vf E;
     whenM (vf_mailbox AND IXGBE_VFMAILBOX_PFSTS \<noteq> 0) (do {
       inc_reqs; clear_cached IXGBE_VFMAILBOX_PFSTS }) }"

definition ixgbe_clear_ack_vf :: "env \<Rightarrow> unit hwop" where
  "ixgbe_clear_ack_vf E = do {
     vf_mailbox \<leftarrow> ixgbe_read_mailbox_vf E;
     whenM (vf_mailbox AND IXGBE_VFMAILBOX_PFACK \<noteq> 0) (do {
       inc_acks; clear_cached IXGBE_VFMAILBOX_PFACK }) }"

definition ixgbe_clear_rst_vf :: "env \<Rightarrow> unit hwop" where
  "ixgbe_clear_rst_vf E = do {
     vf_mailbox \<leftarrow> ixgbe_read_mailbox_vf E;
     whenM (vf_mailbox AND (IXGBE_VFMAILBOX_RSTI OR IXGBE_VFMAILBOX_RSTD) \<noteq> 0) (do {
       inc_rsts; clear_cached (IXGBE_VFMAILBOX_RSTI OR IXGBE_VFMAILBOX_RSTD) }) }"

definition ixgbe_check_for_bit_vf :: "env \<Rightarrow> u32 \<Rightarrow> s32 hwop" where
  "ixgbe_check_for_bit_vf E bits = do {
     vf_mailbox \<leftarrow> ixgbe_read_mailbox_vf E;
     ret (if vf_mailbox AND bits \<noteq> 0 then 0 else IXGBE_ERR_MBX) }"

definition ixgbe_check_for_msg_vf :: "env \<Rightarrow> u16 \<Rightarrow> s32 hwop" where
  "ixgbe_check_for_msg_vf E mbx_id = do {
     r \<leftarrow> ixgbe_check_for_bit_vf E IXGBE_VFMAILBOX_PFSTS;
     ret (if r = 0 then 0 else IXGBE_ERR_MBX) }"

definition ixgbe_check_for_ack_vf :: "env \<Rightarrow> u16 \<Rightarrow> s32 hwop" where
  "ixgbe_check_for_ack_vf E mbx_id = do {
     r \<leftarrow> ixgbe_check_for_bit_vf E IXGBE_VFMAILBOX_PFACK;
     if r = 0 then do { ixgbe_clear_ack_vf E; ret 0 } else ret IXGBE_ERR_MBX }"

definition ixgbe_check_for_rst_vf :: "env \<Rightarrow> u16 \<Rightarrow> s32 hwop" where
  "ixgbe_check_for_rst_vf E mbx_id = do {
     r \<leftarrow> ixgbe_check_for_bit_vf E (IXGBE_VFMAILBOX_RSTI OR IXGBE_VFMAILBOX_RSTD);
     if r = 0 then do { ixgbe_clear_rst_vf E; ret 0 } else ret IXGBE_ERR_MBX }"

subsection \<open>VF side: the mailbox lock\<close>

primrec obtain_lock_loop_vf :: "env \<Rightarrow> nat \<Rightarrow> s32 hwop" where
  "obtain_lock_loop_vf E 0 = ret IXGBE_ERR_MBX"
| "obtain_lock_loop_vf E (Suc countdown) = do {
     vf_mailbox \<leftarrow> ixgbe_read_mailbox_vf E;
     got \<leftarrow> (if vf_mailbox AND (IXGBE_VFMAILBOX_VFU OR IXGBE_VFMAILBOX_PFU) \<noteq> 0 then ret False
            else do {
              IXGBE_WRITE_REG IXGBE_VFMAILBOX (vf_mailbox OR IXGBE_VFMAILBOX_VFU);
              v \<leftarrow> ixgbe_read_mailbox_vf E;
              ret (v AND IXGBE_VFMAILBOX_VFU \<noteq> 0) });
     if got then ret 0 else do {
       d \<leftarrow> gets (\<lambda>hw. mbx_udelay (mbx hw));
       udelay d;
       obtain_lock_loop_vf E countdown } }"

definition ixgbe_obtain_mbx_lock_vf :: "env \<Rightarrow> s32 hwop" where
  "ixgbe_obtain_mbx_lock_vf E = do {
     t \<leftarrow> gets (\<lambda>hw. mbx_timeout (mbx hw));
     if t = 0 then ret IXGBE_ERR_CONFIG else do {
       ret_val \<leftarrow> obtain_lock_loop_vf E (unat t);
       ret (if ret_val \<noteq> 0 then IXGBE_ERR_TIMEOUT else ret_val) } }"

definition ixgbe_release_mbx_lock_dummy :: "u16 \<Rightarrow> unit hwop" where
  "ixgbe_release_mbx_lock_dummy mbx_id = ret ()"

definition ixgbe_release_mbx_lock_vf :: "env \<Rightarrow> u16 \<Rightarrow> unit hwop" where
  "ixgbe_release_mbx_lock_vf E mbx_id = do {
     vf_mailbox \<leftarrow> ixgbe_read_mailbox_vf E;
     IXGBE_WRITE_REG IXGBE_VFMAILBOX (vf_mailbox AND NOT IXGBE_VFMAILBOX_VFU) }"

subsection \<open>PF side: status bits\<close>

definition ixgbe_clear_msg_pf :: "env \<Rightarrow> u16 \<Rightarrow> unit hwop" where
  "ixgbe_clear_msg_pf E vf_id = do {
     let vf_shift = IXGBE_PFMBICR_SHIFT (ucast vf_id);
     let index = IXGBE_PFMBICR_INDEX (ucast vf_id);
     pfmbicr \<leftarrow> ixgbe_read_reg E (IXGBE_PFMBICR index);
     whenM (pfmbicr AND push_bit vf_shift IXGBE_PFMBICR_VFREQ_VF1 \<noteq> 0) inc_reqs;
     IXGBE_WRITE_REG (IXGBE_PFMBICR index) (push_bit vf_shift IXGBE_PFMBICR_VFREQ_VF1) }"

definition ixgbe_clear_ack_pf :: "env \<Rightarrow> u16 \<Rightarrow> unit hwop" where
  "ixgbe_clear_ack_pf E vf_id = do {
     let vf_shift = IXGBE_PFMBICR_SHIFT (ucast vf_id);
     let index = IXGBE_PFMBICR_INDEX (ucast vf_id);
     pfmbicr \<leftarrow> ixgbe_read_reg E (IXGBE_PFMBICR index);
     whenM (pfmbicr AND push_bit vf_shift IXGBE_PFMBICR_VFACK_VF1 \<noteq> 0) inc_acks;
     IXGBE_WRITE_REG (IXGBE_PFMBICR index) (push_bit vf_shift IXGBE_PFMBICR_VFACK_VF1) }"

definition ixgbe_check_for_bit_pf :: "env \<Rightarrow> u32 \<Rightarrow> u32 \<Rightarrow> s32 hwop" where
  "ixgbe_check_for_bit_pf E bits index = do {
     pfmbicr \<leftarrow> ixgbe_read_reg E (IXGBE_PFMBICR index);
     ret (if pfmbicr AND bits \<noteq> 0 then 0 else IXGBE_ERR_MBX) }"

definition ixgbe_check_for_msg_pf :: "env \<Rightarrow> u16 \<Rightarrow> s32 hwop" where
  "ixgbe_check_for_msg_pf E vf_id = do {
     let vf_shift = IXGBE_PFMBICR_SHIFT (ucast vf_id);
     let index = IXGBE_PFMBICR_INDEX (ucast vf_id);
     r \<leftarrow> ixgbe_check_for_bit_pf E (push_bit vf_shift IXGBE_PFMBICR_VFREQ_VF1) index;
     ret (if r = 0 then 0 else IXGBE_ERR_MBX) }"

definition ixgbe_check_for_ack_pf :: "env \<Rightarrow> u16 \<Rightarrow> s32 hwop" where
  "ixgbe_check_for_ack_pf E vf_id = do {
     let vf_shift = IXGBE_PFMBICR_SHIFT (ucast vf_id);
     let index = IXGBE_PFMBICR_INDEX (ucast vf_id);
     r \<leftarrow> ixgbe_check_for_bit_pf E (push_bit vf_shift IXGBE_PFMBICR_VFACK_VF1) index;
     if r = 0 then do { ixgbe_clear_ack_pf E vf_id; ret 0 } else ret IXGBE_ERR_MBX }"

definition ixgbe_check_for_rst_pf :: "env \<Rightarrow> u16 \<Rightarrow> s32 hwop" where
  "ixgbe_check_for_rst_pf E vf_id = do {
     let vf_shift = IXGBE_PFVFLRE_SHIFT (ucast vf_id);
     let index = IXGBE_PFVFLRE_INDEX (ucast vf_id);
     t \<leftarrow> gets (\<lambda>hw. mac_type (mac hw));
     vflre \<leftarrow> (if t = Ixgbe_mac_82599EB then ixgbe_read_reg E (IXGBE_PFVFLRE index)
        else if t \<in> {Ixgbe_mac_X550, Ixgbe_mac_X550EM_x, Ixgbe_mac_X550EM_a, Ixgbe_mac_X540,
                     Ixgbe_mac_E610} then ixgbe_read_reg E (IXGBE_PFVFLREC index)
        else ret 0);
     if vflre AND push_bit vf_shift 1 \<noteq> 0 then do {
       IXGBE_WRITE_REG (IXGBE_PFVFLREC index) (push_bit vf_shift 1);
       inc_rsts;
       ret 0
     } else ret IXGBE_ERR_MBX }"

subsection \<open>PF side: the mailbox lock\<close>

primrec obtain_lock_loop_pf :: "env \<Rightarrow> u16 \<Rightarrow> nat \<Rightarrow> s32 hwop" where
  "obtain_lock_loop_pf E vf_id 0 = ret IXGBE_ERR_MBX"
| "obtain_lock_loop_pf E vf_id (Suc countdown) = do {
     pf_mailbox \<leftarrow> ixgbe_read_reg E (IXGBE_PFMAILBOX (ucast vf_id));
     got \<leftarrow> (if pf_mailbox AND (IXGBE_PFMAILBOX_PFU OR IXGBE_PFMAILBOX_VFU) \<noteq> 0 then ret False
            else do {
              IXGBE_WRITE_REG (IXGBE_PFMAILBOX (ucast vf_id)) (pf_mailbox OR IXGBE_PFMAILBOX_PFU);
              v \<leftarrow> ixgbe_read_reg E (IXGBE_PFMAILBOX (ucast vf_id));
              ret (v AND IXGBE_PFMAILBOX_PFU \<noteq> 0) });
     if got then ret 0 else do {
       d \<leftarrow> gets (\<lambda>hw. mbx_udelay (mbx hw));
       udelay d;
       obtain_lock_loop_pf E vf_id countdown } }"

definition ixgbe_obtain_mbx_lock_pf :: "env \<Rightarrow> u16 \<Rightarrow> s32 hwop" where
  "ixgbe_obtain_mbx_lock_pf E vf_id = do {
     t \<leftarrow> gets (\<lambda>hw. mbx_timeout (mbx hw));
     if t = 0 then ret IXGBE_ERR_CONFIG else do {
       ret_val \<leftarrow> obtain_lock_loop_pf E vf_id (unat t);
       ret (if ret_val \<noteq> 0 then IXGBE_ERR_TIMEOUT else ret_val) } }"

definition ixgbe_release_mbx_lock_pf :: "env \<Rightarrow> u16 \<Rightarrow> unit hwop" where
  "ixgbe_release_mbx_lock_pf E vf_id = do {
     pf_mailbox \<leftarrow> ixgbe_read_reg E (IXGBE_PFMAILBOX (ucast vf_id));
     IXGBE_WRITE_REG (IXGBE_PFMAILBOX (ucast vf_id)) (pf_mailbox AND NOT IXGBE_PFMAILBOX_PFU) }"

subsection \<open>The batched timeout log\<close>

text \<open>\<open>time_before(a, b)\<close> compares jiffies by the sign of their wrapping difference.\<close>

definition time_before :: "u64 \<Rightarrow> u64 \<Rightarrow> bool" where
  "time_before a b \<longleftrightarrow> sint (a - b) < 0"

definition ixgbe_mbx_log_timeout :: "env \<Rightarrow> u16 \<Rightarrow> unit hwop" where
  "ixgbe_mbx_log_timeout E mbx_id = do {
     m \<leftarrow> gets mbx;
     now \<leftarrow> gets (\<lambda>hw. jiffies_at E (io hw));
     if msg_window_end m \<noteq> 0 \<and> time_before now (msg_window_end m) then
       upd_mbx (\<lambda>m. m\<lparr>msg_timeout_count := msg_timeout_count m + 1\<rparr>)
     else do {
       log_io (Timeout_log mbx_id
         (if msg_timeout_count m \<noteq> 0
          then Some (msg_timeout_count m + 1, push_bit (unat (msg_exp m)) 1) else None));
       upd_mbx (\<lambda>m. m\<lparr>msg_exp := min (max (msg_exp m) 1 + 1) 16\<rparr>);
       upd_mbx (\<lambda>m. m\<lparr>msg_timeout_count := 0\<rparr>);
       now' \<leftarrow> gets (\<lambda>hw. jiffies_at E (io hw));
       upd_mbx (\<lambda>m. m\<lparr>msg_window_end := now' + ucast (push_bit (unat (msg_exp m)) 1 * HZ E)\<rparr>)
     } }"

definition ixgbe_mbx_reset_timeout :: "unit hwop" where
  "ixgbe_mbx_reset_timeout = upd_mbx (\<lambda>m. m\<lparr>msg_timeout_count := 0, msg_exp := 1,
     msg_window_end := 0\<rparr>)"

subsection \<open>Dispatch of the status operations and the polling loops\<close>

definition call_check_for_msg :: "env \<Rightarrow> check_fn \<Rightarrow> u16 \<Rightarrow> s32 hwop" where
  "call_check_for_msg E f mbx_id = (case f of
     Check_vf \<Rightarrow> ixgbe_check_for_msg_vf E mbx_id | Check_pf \<Rightarrow> ixgbe_check_for_msg_pf E mbx_id)"

definition call_check_for_ack :: "env \<Rightarrow> check_fn \<Rightarrow> u16 \<Rightarrow> s32 hwop" where
  "call_check_for_ack E f mbx_id = (case f of
     Check_vf \<Rightarrow> ixgbe_check_for_ack_vf E mbx_id | Check_pf \<Rightarrow> ixgbe_check_for_ack_pf E mbx_id)"

definition call_check_for_rst :: "env \<Rightarrow> check_fn \<Rightarrow> u16 \<Rightarrow> s32 hwop" where
  "call_check_for_rst E f mbx_id = (case f of
     Check_vf \<Rightarrow> ixgbe_check_for_rst_vf E mbx_id | Check_pf \<Rightarrow> ixgbe_check_for_rst_pf E mbx_id)"

text \<open>The loop shared by both polls: returns the countdown that is left, 0 on timeout.\<close>

primrec poll_loop :: "s32 hwop \<Rightarrow> nat \<Rightarrow> nat hwop" where
  "poll_loop check 0 = ret 0"
| "poll_loop check (Suc countdown) = do {
     r \<leftarrow> check;
     if r = 0 then ret (Suc countdown)
     else if countdown = 0 then ret 0
     else do {
       d \<leftarrow> gets (\<lambda>hw. mbx_udelay (mbx hw));
       udelay d;
       poll_loop check countdown } }"

definition ixgbe_poll_for_msg :: "env \<Rightarrow> u16 \<Rightarrow> s32 hwop" where
  "ixgbe_poll_for_msg E mbx_id = do {
     t \<leftarrow> gets (\<lambda>hw. mbx_timeout (mbx hw));
     op \<leftarrow> gets (\<lambda>hw. op_check_for_msg (mbx_ops (mbx hw) mbx_id));
     case op of None \<Rightarrow> ret IXGBE_ERR_CONFIG | Some f \<Rightarrow>
     if t = 0 then ret IXGBE_ERR_CONFIG else do {
       countdown \<leftarrow> poll_loop (call_check_for_msg E f mbx_id) (unat t);
       if countdown = 0 then do { ixgbe_mbx_log_timeout E mbx_id; ret IXGBE_ERR_TIMEOUT }
       else ret 0 } }"

definition ixgbe_poll_for_ack :: "env \<Rightarrow> u16 \<Rightarrow> s32 hwop" where
  "ixgbe_poll_for_ack E mbx_id = do {
     t \<leftarrow> gets (\<lambda>hw. mbx_timeout (mbx hw));
     op \<leftarrow> gets (\<lambda>hw. op_check_for_ack (mbx_ops (mbx hw) mbx_id));
     case op of None \<Rightarrow> ret IXGBE_ERR_CONFIG | Some f \<Rightarrow>
     if t = 0 then ret IXGBE_ERR_CONFIG else do {
       countdown \<leftarrow> poll_loop (call_check_for_ack E f mbx_id) (unat t);
       if countdown = 0 then do { ixgbe_mbx_log_timeout E mbx_id; ret IXGBE_ERR_TIMEOUT }
       else ret 0 } }"

subsection \<open>Writing and reading messages\<close>

definition copy_to_mailbox :: "u32 \<Rightarrow> u32 list \<Rightarrow> u16 \<Rightarrow> unit hwop" where
  "copy_to_mailbox mem msg sz =
     for_each [0..<unat sz] (\<lambda>i. IXGBE_WRITE_REG_ARRAY mem i (msg ! i))"

definition copy_from_mailbox :: "env \<Rightarrow> u32 \<Rightarrow> u32 list \<Rightarrow> u16 \<Rightarrow> u32 list hwop" where
  "copy_from_mailbox E mem msg sz = do {
     ws \<leftarrow> mapM [0..<unat sz] (\<lambda>i. IXGBE_READ_REG_ARRAY E mem i);
     ret (ws @ drop (unat sz) msg) }"

definition ixgbe_write_mbx_vf_legacy :: "env \<Rightarrow> u32 list \<Rightarrow> u16 \<Rightarrow> u16 \<Rightarrow> s32 hwop" where
  "ixgbe_write_mbx_vf_legacy E msg sz mbx_id = do {
     ret_val \<leftarrow> ixgbe_obtain_mbx_lock_vf E;
     if ret_val \<noteq> 0 then ret ret_val else do {
       ixgbe_check_for_msg_vf E 0;
       ixgbe_clear_msg_vf E;
       ixgbe_check_for_ack_vf E 0;
       ixgbe_clear_ack_vf E;
       copy_to_mailbox IXGBE_VFMBMEM msg sz;
       inc_msgs_tx;
       IXGBE_WRITE_REG IXGBE_VFMAILBOX IXGBE_VFMAILBOX_REQ;
       ret 0 } }"

definition ixgbe_write_mbx_vf :: "env \<Rightarrow> u32 list \<Rightarrow> u16 \<Rightarrow> u16 \<Rightarrow> s32 hwop" where
  "ixgbe_write_mbx_vf E msg sz mbx_id = do {
     ret_val \<leftarrow> ixgbe_obtain_mbx_lock_vf E;
     if ret_val \<noteq> 0 then ret ret_val else do {
       ixgbe_clear_msg_vf E;
       ixgbe_clear_ack_vf E;
       copy_to_mailbox IXGBE_VFMBMEM msg sz;
       inc_msgs_tx;
       vf_mailbox \<leftarrow> ixgbe_read_mailbox_vf E;
       IXGBE_WRITE_REG IXGBE_VFMAILBOX (vf_mailbox OR IXGBE_VFMAILBOX_REQ);
       ixgbe_release_mbx_lock_vf E 0;
       ixgbe_poll_for_ack E 0 } }"

definition ixgbe_read_mbx_vf_legacy ::
    "env \<Rightarrow> u32 list \<Rightarrow> u16 \<Rightarrow> u16 \<Rightarrow> (s32 \<times> u32 list) hwop" where
  "ixgbe_read_mbx_vf_legacy E msg sz mbx_id = do {
     ret_val \<leftarrow> ixgbe_obtain_mbx_lock_vf E;
     if ret_val \<noteq> 0 then ret (ret_val, msg) else do {
       msg' \<leftarrow> copy_from_mailbox E IXGBE_VFMBMEM msg sz;
       IXGBE_WRITE_REG IXGBE_VFMAILBOX IXGBE_VFMAILBOX_ACK;
       inc_msgs_rx;
       ret (0, msg') } }"

definition ixgbe_read_mbx_vf ::
    "env \<Rightarrow> u32 list \<Rightarrow> u16 \<Rightarrow> u16 \<Rightarrow> (s32 \<times> u32 list) hwop" where
  "ixgbe_read_mbx_vf E msg sz mbx_id = do {
     ret_val \<leftarrow> ixgbe_check_for_msg_vf E 0;
     if ret_val \<noteq> 0 then ret (IXGBE_ERR_MBX_NOMSG, msg) else do {
       ixgbe_clear_msg_vf E;
       msg' \<leftarrow> copy_from_mailbox E IXGBE_VFMBMEM msg sz;
       vf_mailbox \<leftarrow> ixgbe_read_mailbox_vf E;
       IXGBE_WRITE_REG IXGBE_VFMAILBOX (vf_mailbox OR IXGBE_VFMAILBOX_ACK);
       inc_msgs_rx;
       ret (0, msg') } }"

definition ixgbe_write_mbx_pf_legacy :: "env \<Rightarrow> u32 list \<Rightarrow> u16 \<Rightarrow> u16 \<Rightarrow> s32 hwop" where
  "ixgbe_write_mbx_pf_legacy E msg sz vf_id = do {
     ret_val \<leftarrow> ixgbe_obtain_mbx_lock_pf E vf_id;
     if ret_val \<noteq> 0 then ret ret_val else do {
       ixgbe_check_for_msg_pf E vf_id;
       ixgbe_clear_msg_pf E vf_id;
       ixgbe_check_for_ack_pf E vf_id;
       ixgbe_clear_ack_pf E vf_id;
       copy_to_mailbox (IXGBE_PFMBMEM (ucast vf_id)) msg sz;
       IXGBE_WRITE_REG (IXGBE_PFMAILBOX (ucast vf_id)) IXGBE_PFMAILBOX_STS;
       inc_msgs_tx;
       ret 0 } }"

definition ixgbe_write_mbx_pf :: "env \<Rightarrow> u32 list \<Rightarrow> u16 \<Rightarrow> u16 \<Rightarrow> s32 hwop" where
  "ixgbe_write_mbx_pf E msg sz vf_id = do {
     ret_val \<leftarrow> ixgbe_obtain_mbx_lock_pf E vf_id;
     if ret_val \<noteq> 0 then ret ret_val else do {
       ixgbe_clear_msg_pf E vf_id;
       ixgbe_clear_ack_pf E vf_id;
       copy_to_mailbox (IXGBE_PFMBMEM (ucast vf_id)) msg sz;
       pf_mailbox \<leftarrow> ixgbe_read_reg E (IXGBE_PFMAILBOX (ucast vf_id));
       IXGBE_WRITE_REG (IXGBE_PFMAILBOX (ucast vf_id)) (pf_mailbox OR IXGBE_PFMAILBOX_STS);
       ixgbe_release_mbx_lock_pf E vf_id;
       whenM (msg ! 0 AND IXGBE_VT_MSGTYPE_CTS \<noteq> 0) (do { ixgbe_poll_for_ack E vf_id; ret () });
       inc_msgs_tx;
       ret ret_val } }"

definition ixgbe_read_mbx_pf_legacy ::
    "env \<Rightarrow> u32 list \<Rightarrow> u16 \<Rightarrow> u16 \<Rightarrow> (s32 \<times> u32 list) hwop" where
  "ixgbe_read_mbx_pf_legacy E msg sz vf_id = do {
     ret_val \<leftarrow> ixgbe_obtain_mbx_lock_pf E vf_id;
     if ret_val \<noteq> 0 then ret (ret_val, msg) else do {
       msg' \<leftarrow> copy_from_mailbox E (IXGBE_PFMBMEM (ucast vf_id)) msg sz;
       IXGBE_WRITE_REG (IXGBE_PFMAILBOX (ucast vf_id)) IXGBE_PFMAILBOX_ACK;
       inc_msgs_rx;
       ret (0, msg') } }"

definition ixgbe_read_mbx_pf ::
    "env \<Rightarrow> u32 list \<Rightarrow> u16 \<Rightarrow> u16 \<Rightarrow> (s32 \<times> u32 list) hwop" where
  "ixgbe_read_mbx_pf E msg sz vf_id = do {
     ret_val \<leftarrow> ixgbe_check_for_msg_pf E vf_id;
     if ret_val \<noteq> 0 then ret (IXGBE_ERR_MBX_NOMSG, msg) else do {
       ixgbe_clear_msg_pf E vf_id;
       msg' \<leftarrow> copy_from_mailbox E (IXGBE_PFMBMEM (ucast vf_id)) msg sz;
       pf_mailbox \<leftarrow> ixgbe_read_reg E (IXGBE_PFMAILBOX (ucast vf_id));
       IXGBE_WRITE_REG (IXGBE_PFMAILBOX (ucast vf_id)) (pf_mailbox OR IXGBE_PFMAILBOX_ACK);
       inc_msgs_rx;
       ret (0, msg') } }"

definition ixgbe_clear_mbx_pf :: "u16 \<Rightarrow> s32 hwop" where
  "ixgbe_clear_mbx_pf vf_id = do {
     mbx_size \<leftarrow> gets (\<lambda>hw. mbx_size (mbx hw));
     if vf_id > 63 then ret IXGBE_ERR_PARAM else do {
       for_each [0..<unat mbx_size]
         (\<lambda>i. IXGBE_WRITE_REG_ARRAY (IXGBE_PFMBMEM (ucast vf_id)) i 0);
       ret 0 } }"

subsection \<open>Entry points\<close>

definition call_read :: "env \<Rightarrow> read_fn \<Rightarrow> u32 list \<Rightarrow> u16 \<Rightarrow> u16 \<Rightarrow> (s32 \<times> u32 list) hwop" where
  "call_read E f msg sz mbx_id = (case f of
     Read_mbx_vf_legacy \<Rightarrow> ixgbe_read_mbx_vf_legacy E msg sz mbx_id
   | Read_mbx_vf \<Rightarrow> ixgbe_read_mbx_vf E msg sz mbx_id
   | Read_mbx_pf_legacy \<Rightarrow> ixgbe_read_mbx_pf_legacy E msg sz mbx_id
   | Read_mbx_pf \<Rightarrow> ixgbe_read_mbx_pf E msg sz mbx_id)"

definition call_write :: "env \<Rightarrow> write_fn \<Rightarrow> u32 list \<Rightarrow> u16 \<Rightarrow> u16 \<Rightarrow> s32 hwop" where
  "call_write E f msg sz mbx_id = (case f of
     Write_mbx_vf_legacy \<Rightarrow> ixgbe_write_mbx_vf_legacy E msg sz mbx_id
   | Write_mbx_vf \<Rightarrow> ixgbe_write_mbx_vf E msg sz mbx_id
   | Write_mbx_pf_legacy \<Rightarrow> ixgbe_write_mbx_pf_legacy E msg sz mbx_id
   | Write_mbx_pf \<Rightarrow> ixgbe_write_mbx_pf E msg sz mbx_id)"

definition ixgbe_read_mbx :: "env \<Rightarrow> u32 list \<Rightarrow> u16 \<Rightarrow> u16 \<Rightarrow> (s32 \<times> u32 list) hwop" where
  "ixgbe_read_mbx E msg sz mbx_id = do {
     m \<leftarrow> gets mbx;
     let sz = (if sz > mbx_size m then mbx_size m else sz);
     case op_read (mbx_ops m mbx_id) of
       Some f \<Rightarrow> call_read E f msg sz mbx_id
     | None \<Rightarrow> ret (IXGBE_ERR_CONFIG, msg) }"

definition ixgbe_poll_mbx :: "env \<Rightarrow> u32 list \<Rightarrow> u16 \<Rightarrow> u16 \<Rightarrow> (s32 \<times> u32 list) hwop" where
  "ixgbe_poll_mbx E msg sz mbx_id = do {
     m \<leftarrow> gets mbx;
     case op_read (mbx_ops m mbx_id) of None \<Rightarrow> ret (IXGBE_ERR_CONFIG, msg) | Some f \<Rightarrow>
     if op_check_for_msg (mbx_ops m mbx_id) = None \<or> mbx_timeout m = 0
     then ret (IXGBE_ERR_CONFIG, msg)
     else do {
       let sz = (if sz > mbx_size m then mbx_size m else sz);
       ret_val \<leftarrow> ixgbe_poll_for_msg E mbx_id;
       if ret_val = 0 then do {
         (ret_val, msg') \<leftarrow> call_read E f msg sz mbx_id;
         whenM (ret_val = 0) ixgbe_mbx_reset_timeout;
         ret (ret_val, msg')
       } else ret (ret_val, msg) } }"

definition ixgbe_write_mbx :: "env \<Rightarrow> u32 list \<Rightarrow> u16 \<Rightarrow> u16 \<Rightarrow> s32 hwop" where
  "ixgbe_write_mbx E msg sz mbx_id = do {
     m \<leftarrow> gets mbx;
     case op_write (mbx_ops m mbx_id) of None \<Rightarrow> ret IXGBE_ERR_CONFIG | Some f \<Rightarrow>
     if op_check_for_ack (mbx_ops m mbx_id) = None \<or> op_release (mbx_ops m mbx_id) = None
        \<or> mbx_timeout m = 0 then ret IXGBE_ERR_CONFIG
     else if sz > mbx_size m then ret IXGBE_ERR_PARAM
     else call_write E f msg sz mbx_id }"

subsection \<open>Parameters\<close>

definition zero_stats :: ixgbe_mbx_stats where
  "zero_stats = \<lparr>msgs_tx = 0, msgs_rx = 0, acks = 0, reqs = 0, rsts = 0\<rparr>"

definition set_ops ::
    "u16 \<Rightarrow> (ixgbe_mbx_operations \<Rightarrow> ixgbe_mbx_operations) \<Rightarrow> unit hwop" where
  "set_ops i f = upd_mbx (\<lambda>m. m\<lparr>mbx_ops := (mbx_ops m)(i := f (mbx_ops m i))\<rparr>)"

definition ixgbe_init_mbx_params_vf :: "unit hwop" where
  "ixgbe_init_mbx_params_vf = do {
     upd_mbx (\<lambda>m. m\<lparr>mbx_timeout := IXGBE_VF_MBX_INIT_TIMEOUT,
       mbx_udelay := IXGBE_VF_MBX_INIT_DELAY, mbx_size := IXGBE_VFMAILBOX_SIZE\<rparr>);
     set_ops 0 (\<lambda>ops. ops\<lparr>
       op_release := Some Release_mbx_lock_dummy,
       op_read := Some Read_mbx_vf_legacy,
       op_write := Some Write_mbx_vf_legacy,
       op_check_for_msg := Some Check_vf,
       op_check_for_ack := Some Check_vf,
       op_check_for_rst := Some Check_vf,
       op_clear := None\<rparr>);
     upd_stats (\<lambda>_. zero_stats) }"

definition ixgbe_upgrade_mbx_params_vf :: "unit hwop" where
  "ixgbe_upgrade_mbx_params_vf = do {
     upd_mbx (\<lambda>m. m\<lparr>mbx_timeout := IXGBE_VF_MBX_INIT_TIMEOUT,
       mbx_udelay := IXGBE_VF_MBX_INIT_DELAY, mbx_size := IXGBE_VFMAILBOX_SIZE\<rparr>);
     set_ops 0 (\<lambda>ops. ops\<lparr>
       op_release := Some Release_mbx_lock_vf,
       op_read := Some Read_mbx_vf,
       op_write := Some Write_mbx_vf,
       op_check_for_msg := Some Check_vf,
       op_check_for_ack := Some Check_vf,
       op_check_for_rst := Some Check_vf,
       op_clear := None\<rparr>);
     upd_stats (\<lambda>_. zero_stats) }"

definition ixgbe_init_mbx_params_pf_id :: "u16 \<Rightarrow> unit hwop" where
  "ixgbe_init_mbx_params_pf_id vf_id = set_ops vf_id (\<lambda>ops. ops\<lparr>
       op_release := Some Release_mbx_lock_dummy,
       op_read := Some Read_mbx_pf_legacy,
       op_write := Some Write_mbx_pf_legacy,
       op_check_for_msg := Some Check_pf,
       op_check_for_ack := Some Check_pf,
       op_check_for_rst := Some Check_pf,
       op_clear := Some Clear_mbx_pf\<rparr>)"

definition is_pf_mac :: "ixgbe_mac_type \<Rightarrow> bool" where
  "is_pf_mac t \<longleftrightarrow> \<not> (t \<noteq> Ixgbe_mac_82599EB \<and> t \<noteq> Ixgbe_mac_X550 \<and> t \<noteq> Ixgbe_mac_X550EM_x \<and>
     t \<noteq> Ixgbe_mac_X550EM_a \<and> t \<noteq> Ixgbe_mac_X540 \<and> \<not> ixgbe_is_mac_E6xx t)"

definition ixgbe_init_mbx_params_pf :: "unit hwop" where
  "ixgbe_init_mbx_params_pf = do {
     t \<leftarrow> gets (\<lambda>hw. mac_type (mac hw));
     if \<not> is_pf_mac t then ret () else do {
       upd_mbx (\<lambda>m. m\<lparr>mbx_timeout := IXGBE_VF_MBX_INIT_TIMEOUT,
         mbx_udelay := IXGBE_VF_MBX_INIT_DELAY, mbx_size := IXGBE_VFMAILBOX_SIZE\<rparr>);
       upd_stats (\<lambda>_. zero_stats);
       for_each [0..<64] (\<lambda>i. ixgbe_init_mbx_params_pf_id (of_nat i)) } }"

definition ixgbe_upgrade_mbx_params_pf :: "u16 \<Rightarrow> unit hwop" where
  "ixgbe_upgrade_mbx_params_pf vf_id = do {
     t \<leftarrow> gets (\<lambda>hw. mac_type (mac hw));
     if \<not> is_pf_mac t then ret () else do {
       upd_mbx (\<lambda>m. m\<lparr>mbx_timeout := IXGBE_VF_MBX_INIT_TIMEOUT,
         mbx_udelay := IXGBE_VF_MBX_INIT_DELAY, mbx_size := IXGBE_VFMAILBOX_SIZE\<rparr>);
       set_ops vf_id (\<lambda>ops. ops\<lparr>
         op_release := Some Release_mbx_lock_pf,
         op_read := Some Read_mbx_pf,
         op_write := Some Write_mbx_pf,
         op_check_for_msg := Some Check_pf,
         op_check_for_ack := Some Check_pf,
         op_check_for_rst := Some Check_pf,
         op_clear := Some Clear_mbx_pf\<rparr>);
       upd_stats (\<lambda>_. zero_stats) } }"

end
