(* ===== verification/Mailbox_Facts.thy ===== *)
theory Mailbox_Facts
  imports Mailbox
begin

text \<open>
  Lemmas on the mailbox of theory Mailbox: its frame, the I/O it performs, the cache of
  read-to-clear status bits, the lock, polling and the batched timeout log; then the
  interface the MAC layer relies on, the locale \<open>mbx_transport\<close>, and its interpretation on
  \<open>ixgbe_write_mbx\<close> and \<open>ixgbe_poll_mbx\<close>.
\<close>

subsection \<open>Frame\<close>

text \<open>What no mailbox transfer changes: the MAC state, the API version, the mailbox parameters.\<close>

definition frame ::
    "ixgbe_hw \<Rightarrow> ixgbe_mac_info \<times> bool \<times> int \<times> (u16 \<Rightarrow> ixgbe_mbx_operations) \<times> u32 \<times> u32 \<times> u16" where
  "frame hw = (mac hw, adapter_stopped hw, api_version hw, mbx_ops (mbx hw),
     mbx_timeout (mbx hw), mbx_udelay (mbx hw), mbx_size (mbx hw))"

lemma core_frame: "keeps hw_core m \<Longrightarrow> keeps frame m"
  by (auto simp: keeps_def hw_core_def frame_def)

lemmas frame_leaves [keeps_rules] =
  log_io_core [THEN core_frame] raw_io_core [THEN core_frame]
  read_reg_core [THEN core_frame] write_reg_core [THEN core_frame] call_core [THEN core_frame]

lemma upd_mbx_frame:
  "(\<And>m. mbx_ops (f m) = mbx_ops m \<and> mbx_timeout (f m) = mbx_timeout m \<and>
      mbx_udelay (f m) = mbx_udelay m \<and> mbx_size (f m) = mbx_size m) \<Longrightarrow> keeps frame (upd_mbx f)"
  by (simp add: upd_mbx_def keeps_def frame_def)

lemma upd_stats_frame [keeps_rules]: "keeps frame (upd_stats f)"
  unfolding upd_stats_def by (rule upd_mbx_frame) simp

lemma inc_frame [keeps_rules]:
  "keeps frame inc_reqs" "keeps frame inc_acks" "keeps frame inc_rsts" "keeps frame inc_msgs_tx"
  "keeps frame inc_msgs_rx"
  unfolding inc_reqs_def inc_acks_def inc_rsts_def inc_msgs_tx_def inc_msgs_rx_def
  by (intro keeps_rules)+

lemma clear_cached_frame [keeps_rules]: "keeps frame (clear_cached b)"
  unfolding clear_cached_def by (rule upd_mbx_frame) simp

lemma read_mailbox_vf_frame [keeps_rules]: "keeps frame (ixgbe_read_mailbox_vf E)"
  unfolding ixgbe_read_mailbox_vf_def by (intro keeps_rules upd_mbx_frame) simp

lemma clear_vf_frame [keeps_rules]:
  "keeps frame (ixgbe_clear_msg_vf E)" "keeps frame (ixgbe_clear_ack_vf E)"
  "keeps frame (ixgbe_clear_rst_vf E)"
  unfolding ixgbe_clear_msg_vf_def ixgbe_clear_ack_vf_def ixgbe_clear_rst_vf_def
  by (intro keeps_rules)+

lemma check_vf_frame [keeps_rules]:
  "keeps frame (ixgbe_check_for_bit_vf E b)" "keeps frame (ixgbe_check_for_msg_vf E i)"
  "keeps frame (ixgbe_check_for_ack_vf E i)" "keeps frame (ixgbe_check_for_rst_vf E i)"
  unfolding ixgbe_check_for_bit_vf_def ixgbe_check_for_msg_vf_def ixgbe_check_for_ack_vf_def
    ixgbe_check_for_rst_vf_def
  by (intro keeps_rules)+

lemma clear_pf_frame [keeps_rules]:
  "keeps frame (ixgbe_clear_msg_pf E i)" "keeps frame (ixgbe_clear_ack_pf E i)"
  unfolding ixgbe_clear_msg_pf_def ixgbe_clear_ack_pf_def by (intro keeps_rules)+

lemma check_pf_frame [keeps_rules]:
  "keeps frame (ixgbe_check_for_bit_pf E b n)" "keeps frame (ixgbe_check_for_msg_pf E i)"
  "keeps frame (ixgbe_check_for_ack_pf E i)" "keeps frame (ixgbe_check_for_rst_pf E i)"
  unfolding ixgbe_check_for_bit_pf_def ixgbe_check_for_msg_pf_def ixgbe_check_for_ack_pf_def
    ixgbe_check_for_rst_pf_def
  by (intro keeps_rules)+

lemma call_check_frame [keeps_rules]:
  "keeps frame (call_check_for_msg E f i)" "keeps frame (call_check_for_ack E f i)"
  "keeps frame (call_check_for_rst E f i)"
  unfolding call_check_for_msg_def call_check_for_ack_def call_check_for_rst_def
  by (cases f; simp add: keeps_rules)+

lemma obtain_lock_frame [keeps_rules]:
  "keeps frame (obtain_lock_loop_vf E n)" "keeps frame (ixgbe_obtain_mbx_lock_vf E)"
  "keeps frame (obtain_lock_loop_pf E i n)" "keeps frame (ixgbe_obtain_mbx_lock_pf E i)"
proof -
  show vf: "keeps frame (obtain_lock_loop_vf E n)" for n
    by (induction n) (auto intro!: keeps_rules)
  show pf: "keeps frame (obtain_lock_loop_pf E i n)" for n
    by (induction n) (auto intro!: keeps_rules)
  show "keeps frame (ixgbe_obtain_mbx_lock_vf E)"
    unfolding ixgbe_obtain_mbx_lock_vf_def by (intro keeps_rules vf)
  show "keeps frame (ixgbe_obtain_mbx_lock_pf E i)"
    unfolding ixgbe_obtain_mbx_lock_pf_def by (intro keeps_rules pf)
qed

lemma release_lock_frame [keeps_rules]:
  "keeps frame (ixgbe_release_mbx_lock_dummy i)" "keeps frame (ixgbe_release_mbx_lock_vf E i)"
  "keeps frame (ixgbe_release_mbx_lock_pf E i)"
  unfolding ixgbe_release_mbx_lock_dummy_def ixgbe_release_mbx_lock_vf_def
    ixgbe_release_mbx_lock_pf_def
  by (intro keeps_rules)+

lemma log_timeout_frame [keeps_rules]:
  "keeps frame (ixgbe_mbx_log_timeout E i)" "keeps frame ixgbe_mbx_reset_timeout"
  unfolding ixgbe_mbx_log_timeout_def ixgbe_mbx_reset_timeout_def
  by (intro keeps_rules upd_mbx_frame; simp)+

lemma poll_loop_frame [keeps_rules]: "keeps frame chk \<Longrightarrow> keeps frame (poll_loop chk n)"
  by (induction n) (auto intro!: keeps_rules)

lemma poll_frame [keeps_rules]:
  "keeps frame (ixgbe_poll_for_msg E i)" "keeps frame (ixgbe_poll_for_ack E i)"
  unfolding ixgbe_poll_for_msg_def ixgbe_poll_for_ack_def by (intro keeps_rules)+

lemma copy_frame [keeps_rules]:
  "keeps frame (copy_to_mailbox mem msg sz)" "keeps frame (copy_from_mailbox E mem msg sz)"
  unfolding copy_to_mailbox_def copy_from_mailbox_def by (intro keeps_rules)+

lemma write_mbx_frame [keeps_rules]:
  "keeps frame (ixgbe_write_mbx_vf_legacy E msg sz i)" "keeps frame (ixgbe_write_mbx_vf E msg sz i)"
  "keeps frame (ixgbe_write_mbx_pf_legacy E msg sz i)" "keeps frame (ixgbe_write_mbx_pf E msg sz i)"
  unfolding ixgbe_write_mbx_vf_legacy_def ixgbe_write_mbx_vf_def ixgbe_write_mbx_pf_legacy_def
    ixgbe_write_mbx_pf_def
  by (intro keeps_rules)+

lemma read_mbx_frame [keeps_rules]:
  "keeps frame (ixgbe_read_mbx_vf_legacy E msg sz i)" "keeps frame (ixgbe_read_mbx_vf E msg sz i)"
  "keeps frame (ixgbe_read_mbx_pf_legacy E msg sz i)" "keeps frame (ixgbe_read_mbx_pf E msg sz i)"
  unfolding ixgbe_read_mbx_vf_legacy_def ixgbe_read_mbx_vf_def ixgbe_read_mbx_pf_legacy_def
    ixgbe_read_mbx_pf_def
  by (intro keeps_rules)+

lemma call_mbx_frame [keeps_rules]:
  "keeps frame (call_read E rf msg sz i)" "keeps frame (call_write E w msg sz i)"
  unfolding call_read_def call_write_def by (cases rf; cases w; simp add: keeps_rules)+

lemma mbx_entry_frame [keeps_rules]:
  "keeps frame (ixgbe_read_mbx E msg sz i)" "keeps frame (ixgbe_poll_mbx E msg sz i)"
  "keeps frame (ixgbe_write_mbx E msg sz i)"
  unfolding ixgbe_read_mbx_def ixgbe_poll_mbx_def ixgbe_write_mbx_def by (intro keeps_rules)+

subsection \<open>Register writes\<close>

text \<open>Checking and clearing status bits of the VF mailbox never writes a register.\<close>

lemma upd_mbx_emits [emits_rules]: "emits Q (upd_mbx f)" "emits Q (upd_stats g)"
  unfolding upd_stats_def upd_mbx_def by (intro emits_rules; simp)+

lemma inc_emits [emits_rules]:
  "emits Q inc_reqs" "emits Q inc_acks" "emits Q inc_rsts" "emits Q inc_msgs_tx"
  "emits Q inc_msgs_rx" "emits Q (clear_cached b)"
  unfolding inc_reqs_def inc_acks_def inc_rsts_def inc_msgs_tx_def inc_msgs_rx_def clear_cached_def
  by (intro emits_rules)+

lemma read_mailbox_vf_reads [emits_rules]: "emits no_mmio_write (ixgbe_read_mailbox_vf E)"
  unfolding ixgbe_read_mailbox_vf_def by (intro emits_rules)

lemma status_vf_reads [emits_rules]:
  "emits no_mmio_write (ixgbe_clear_msg_vf E)" "emits no_mmio_write (ixgbe_clear_ack_vf E)"
  "emits no_mmio_write (ixgbe_clear_rst_vf E)" "emits no_mmio_write (ixgbe_check_for_bit_vf E b)"
  unfolding ixgbe_clear_msg_vf_def ixgbe_clear_ack_vf_def ixgbe_clear_rst_vf_def
    ixgbe_check_for_bit_vf_def
  by (intro emits_rules)+

lemma check_vf_reads [emits_rules]:
  "emits no_mmio_write (ixgbe_check_for_msg_vf E i)"
  "emits no_mmio_write (ixgbe_check_for_ack_vf E i)"
  "emits no_mmio_write (ixgbe_check_for_rst_vf E i)"
  unfolding ixgbe_check_for_msg_vf_def ixgbe_check_for_ack_vf_def ixgbe_check_for_rst_vf_def
  by (intro emits_rules)+

lemma log_timeout_reads [emits_rules]:
  "emits no_mmio_write (ixgbe_mbx_log_timeout E i)" "emits Q ixgbe_mbx_reset_timeout"
  unfolding ixgbe_mbx_log_timeout_def ixgbe_mbx_reset_timeout_def by (intro emits_rules; simp)+

lemma poll_loop_emits [emits_rules]:
  "emits no_mmio_write chk \<Longrightarrow> emits no_mmio_write (poll_loop chk n)"
  by (induction n) (auto intro!: emits_rules)

subsection \<open>The cache of read-to-clear bits\<close>

text \<open>
  The hardware clears PFSTS, PFACK and RSTD when the register is read, so the driver collects
  them in \<open>mbx->vf_mailbox\<close>. \<open>collects K m\<close> says that \<open>m\<close> loses none of the bits of \<open>K\<close>: what
  was cached, or reported by a read of the mailbox register while \<open>m\<close> ran, is cached after.
\<close>

definition vf_cache :: "ixgbe_hw \<Rightarrow> u32" where
  "vf_cache hw = mbx_vf_mailbox (mbx hw)"

definition reported :: "nat \<Rightarrow> io_event list \<Rightarrow> bool" where
  "reported b evs \<longleftrightarrow>
     (\<exists>v. MMIO_Read IXGBE_VFMAILBOX v \<in> set evs \<and> v \<noteq> IXGBE_DEAD_READ_REG \<and> bit v b)"

definition collects :: "nat set \<Rightarrow> 'a hwop \<Rightarrow> bool" where
  "collects K m \<longleftrightarrow> (\<forall>hw. \<exists>evs. io (snd (run_state m hw)) = evs @ io hw \<and>
     (\<forall>b\<in>K. bit (vf_cache hw) b \<or> reported b evs \<longrightarrow> bit (vf_cache (snd (run_state m hw))) b))"

named_theorems collects_rules

lemma reported_append [simp]: "reported b (xs @ ys) \<longleftrightarrow> reported b xs \<or> reported b ys"
  by (auto simp: reported_def)

lemma collectsE:
  assumes "collects K m" and "run_state m hw = (a, hw')"
  obtains evs where "io hw' = evs @ io hw"
    and "\<And>b. b \<in> K \<Longrightarrow> bit (vf_cache hw) b \<or> reported b evs \<Longrightarrow> bit (vf_cache hw') b"
  using assms unfolding collects_def by (metis snd_conv)

lemma collects_bind [collects_rules]:
  assumes "collects K m" and "\<And>a. collects K (g a)"
  shows "collects K (State_Monad.bind m g)"
  unfolding collects_def
proof
  fix hw
  obtain a hw1 where m: "run_state m hw = (a, hw1)" by fastforce
  obtain c hw2 where g: "run_state (g a) hw1 = (c, hw2)" by fastforce
  from collectsE [OF assms(1) m] obtain e1 where e1: "io hw1 = e1 @ io hw"
    "\<And>b. b \<in> K \<Longrightarrow> bit (vf_cache hw) b \<or> reported b e1 \<Longrightarrow> bit (vf_cache hw1) b" by blast
  from collectsE [OF assms(2) g] obtain e2 where e2: "io hw2 = e2 @ io hw1"
    "\<And>b. b \<in> K \<Longrightarrow> bit (vf_cache hw1) b \<or> reported b e2 \<Longrightarrow> bit (vf_cache hw2) b" by blast
  have "io hw2 = (e2 @ e1) @ io hw" using e1 e2 by simp
  then show "\<exists>evs. io (snd (run_state (State_Monad.bind m g) hw)) = evs @ io hw \<and>
      (\<forall>b\<in>K. bit (vf_cache hw) b \<or> reported b evs \<longrightarrow>
         bit (vf_cache (snd (run_state (State_Monad.bind m g) hw))) b)"
    using m g e1(2) e2(2) by (intro exI [of _ "e2 @ e1"]) auto
qed

lemma collects_pure:
  "(\<And>hw. io (snd (run_state m hw)) = io hw) \<Longrightarrow>
   (\<And>hw b. b \<in> K \<Longrightarrow> bit (vf_cache hw) b \<Longrightarrow> bit (vf_cache (snd (run_state m hw))) b) \<Longrightarrow>
     collects K m"
  by (simp add: collects_def reported_def)

lemma collects_ret [collects_rules]: "collects K (ret x)"
  by (rule collects_pure) simp_all

lemma collects_gets [collects_rules]: "collects K (gets f)"
  by (rule collects_pure) simp_all

lemma collects_if [collects_rules]:
  "(c \<Longrightarrow> collects K a) \<Longrightarrow> (\<not> c \<Longrightarrow> collects K b) \<Longrightarrow> collects K (if c then a else b)"
  by simp

lemma collects_whenM [collects_rules]: "(c \<Longrightarrow> collects K m) \<Longrightarrow> collects K (whenM c m)"
  by (simp add: whenM_def collects_ret)

lemma collects_Let [collects_rules]: "(\<And>x. collects K (g x)) \<Longrightarrow> collects K (let x = v in g x)"
  by simp

lemma collects_case_option [collects_rules]:
  "collects K a \<Longrightarrow> (\<And>x. collects K (g x)) \<Longrightarrow>
     collects K (case v of None \<Rightarrow> a | Some x \<Rightarrow> g x)"
  by (simp split: option.splits)

lemma collects_for_each [collects_rules]:
  "(\<And>x. x \<in> set xs \<Longrightarrow> collects K (g x)) \<Longrightarrow> collects K (for_each xs g)"
  by (induction xs) (auto intro: collects_rules)

lemma collects_mapM [collects_rules]:
  "(\<And>x. x \<in> set xs \<Longrightarrow> collects K (g x)) \<Longrightarrow> collects K (mapM xs g)"
  by (induction xs) (auto intro!: collects_rules)

text \<open>A read of one register is not a read of another, the status register apart.\<close>

definition no_read_of :: "u32 \<Rightarrow> io_event \<Rightarrow> bool" where
  "no_read_of r ev \<longleftrightarrow> (\<forall>v. ev \<noteq> MMIO_Read r v)"

lemma no_read_of_simps [simp]:
  "no_read_of r (MMIO_Read r' v) \<longleftrightarrow> r' \<noteq> r" "no_read_of r (MMIO_Write r' v)"
  "no_read_of r (Udelay n)" "no_read_of r (Msleep k)" "no_read_of r (Timeout_log i x)"
  "no_read_of r Schedule_service" "no_read_of r Null_call" "no_read_of r (Kernel_call s as)"
  "no_read_of r (Cfg_Read o' e b)"
  by (auto simp: no_read_of_def)

lemma readl_no_read_of [emits_rules]: "reg \<noteq> r \<Longrightarrow> emits (no_read_of r) (readl E reg)"
  unfolding readl_def by (intro emits_rules) auto

lemma remove_adapter_no_read_of [emits_rules]: "emits (no_read_of r) ixgbevf_remove_adapter"
  unfolding ixgbevf_remove_adapter_def ixgbevf_service_event_schedule_def
  by (intro emits_rules) auto

lemma dead_read_loop_no_read_of [emits_rules]:
  "reg \<noteq> r \<Longrightarrow> emits (no_read_of r) (dead_read_loop E reg n v)"
  by (induction n arbitrary: v) (auto intro!: emits_rules)

lemma read_reg_no_read_of [emits_rules]:
  "r \<noteq> IXGBE_VFSTATUS \<Longrightarrow> reg \<noteq> r \<Longrightarrow> emits (no_read_of r) (ixgbe_read_reg E reg)"
  "r \<noteq> IXGBE_VFSTATUS \<Longrightarrow> emits (no_read_of r) (ixgbevf_check_remove E reg)"
proof (induction E reg and E reg rule: ixgbe_read_reg_ixgbevf_check_remove.induct)
  case (1 E reg)
  then show ?case
    by (subst ixgbe_read_reg.simps)
       (auto simp: ixgbevf_validate_register_read_def intro!: emits_rules)
next
  case (2 E reg)
  then show ?case by (subst ixgbevf_check_remove.simps) (intro emits_rules, auto)
qed

lemma not_reported: "list_all (no_read_of IXGBE_VFMAILBOX) evs \<Longrightarrow> \<not> reported b evs"
  by (auto simp: reported_def list_all_iff no_read_of_def simp del: IXGBE_VFMAILBOX_def)

lemma collects_leaf:
  assumes "emits (no_read_of IXGBE_VFMAILBOX) m" and "keeps vf_cache m"
  shows "collects K m"
  unfolding collects_def
proof
  fix hw
  from assms(1) obtain evs where "io (snd (run_state m hw)) = evs @ io hw"
    and "list_all (no_read_of IXGBE_VFMAILBOX) evs" by (rule emitsE)
  then show "\<exists>evs. io (snd (run_state m hw)) = evs @ io hw \<and>
      (\<forall>b\<in>K. bit (vf_cache hw) b \<or> reported b evs \<longrightarrow>
        bit (vf_cache (snd (run_state m hw))) b)"
    using keeps_snd [OF assms(2)] not_reported by (intro exI [of _ evs]) auto
qed

lemma core_cache: "keeps hw_core m \<Longrightarrow> keeps vf_cache m"
  by (auto simp: keeps_def hw_core_def vf_cache_def)

lemmas cache_leaves [keeps_rules] =
  log_io_core [THEN core_cache] raw_io_core [THEN core_cache]
  read_reg_core [THEN core_cache] write_reg_core [THEN core_cache]

lemma upd_mbx_cache:
  "(\<And>m. mbx_vf_mailbox (f m) = mbx_vf_mailbox m) \<Longrightarrow> keeps vf_cache (upd_mbx f)"
  by (simp add: upd_mbx_def keeps_def vf_cache_def)

lemma inc_cache [keeps_rules]:
  "keeps vf_cache (upd_stats f)" "keeps vf_cache inc_reqs" "keeps vf_cache inc_acks"
  "keeps vf_cache inc_rsts" "keeps vf_cache inc_msgs_tx" "keeps vf_cache inc_msgs_rx"
  unfolding inc_reqs_def inc_acks_def inc_rsts_def inc_msgs_tx_def inc_msgs_rx_def upd_stats_def
  by (rule upd_mbx_cache, simp)+

lemma log_timeout_cache [keeps_rules]:
  "keeps vf_cache (ixgbe_mbx_log_timeout E i)" "keeps vf_cache ixgbe_mbx_reset_timeout"
  unfolding ixgbe_mbx_log_timeout_def ixgbe_mbx_reset_timeout_def
  by (intro keeps_rules upd_mbx_cache; simp)+

lemma log_timeout_no_read_of [emits_rules]: "emits (no_read_of r) (ixgbe_mbx_log_timeout E i)"
  unfolding ixgbe_mbx_log_timeout_def by (intro emits_rules; simp)+

lemma write_reg_no_read_of [emits_rules]:
  "emits (no_read_of r) (IXGBE_WRITE_REG reg v)" "emits (no_read_of r) (udelay n)"
  "emits (no_read_of r) (msleep k)"
  unfolding IXGBE_WRITE_REG_def writel_def udelay_def msleep_def by (intro emits_rules; simp)+

lemma collects_leaves [collects_rules]:
  "collects K (IXGBE_WRITE_REG reg v)" "collects K (udelay n)"
  "collects K inc_reqs" "collects K inc_acks" "collects K inc_rsts" "collects K inc_msgs_tx"
  "collects K inc_msgs_rx" "collects K (ixgbe_mbx_log_timeout E i)"
  "collects K ixgbe_mbx_reset_timeout"
  by (intro collects_leaf emits_rules keeps_rules)+

lemma collects_clear_cached [collects_rules]:
  "(\<And>b. b \<in> K \<Longrightarrow> \<not> bit bits b) \<Longrightarrow> collects K (clear_cached bits)"
  by (rule collects_pure)
     (auto simp: clear_cached_def upd_mbx_def vf_cache_def bit_simps dest: bit_imp_le_length)

lemma collects_read_other:
  "reg \<noteq> IXGBE_VFMAILBOX \<Longrightarrow> collects K (ixgbe_read_reg E reg)"
  by (intro collects_leaf emits_rules keeps_rules) simp_all

text \<open>What a read of the mailbox register returns contains everything it reported.\<close>

lemma dead_read_loop_value:
  assumes "run_state (dead_read_loop E reg n v) hw = (r, hw')"
  shows "\<exists>evs. io hw' = evs @ io hw \<and>
    (\<forall>w. MMIO_Read reg w \<in> set evs \<and> w \<noteq> IXGBE_DEAD_READ_REG \<longrightarrow> w = r)"
  using assms
proof (induction n arbitrary: v hw)
  case 0
  then show ?case by simp
next
  case (Suc n)
  let ?v = "mmio E (io hw) reg"
  let ?hw = "hw\<lparr>io := MMIO_Read reg ?v # io hw\<rparr>"
  show ?case
  proof (cases "?v = IXGBE_DEAD_READ_REG")
    case True
    with Suc.prems have "run_state (dead_read_loop E reg n ?v) ?hw = (r, hw')"
      by (simp add: readl_def log_io_def)
    from Suc.IH [OF this] obtain evs where "io hw' = evs @ io ?hw"
      "\<forall>w. MMIO_Read reg w \<in> set evs \<and> w \<noteq> IXGBE_DEAD_READ_REG \<longrightarrow> w = r" by blast
    with True show ?thesis by (intro exI [of _ "evs @ [MMIO_Read reg ?v]"]) auto
  next
    case False
    with Suc.prems show ?thesis
      by (intro exI [of _ "[MMIO_Read reg ?v]"]) (auto simp: readl_def log_io_def)
  qed
qed

lemma read_reg_value:
  assumes "reg \<noteq> IXGBE_VFSTATUS" and "run_state (ixgbe_read_reg E reg) hw = (r, hw')"
  shows "\<exists>evs. io hw' = evs @ io hw \<and>
    (\<forall>w. MMIO_Read reg w \<in> set evs \<and> w \<noteq> IXGBE_DEAD_READ_REG \<longrightarrow> w = r)"
proof (cases "hw_addr hw = 0")
  case True
  with assms(2) show ?thesis by (subst (asm) ixgbe_read_reg.simps) auto
next
  case live: False
  let ?v = "mmio E (io hw) reg"
  let ?hw = "hw\<lparr>io := MMIO_Read reg ?v # io hw\<rparr>"
  consider "?v = IXGBE_FAILED_READ_REG" | "?v = IXGBE_DEAD_READ_REG"
    | "?v \<noteq> IXGBE_FAILED_READ_REG \<and> ?v \<noteq> IXGBE_DEAD_READ_REG" by blast
  then show ?thesis
  proof cases
    case 1
    obtain u hw2 where c: "run_state (ixgbevf_check_remove E reg) ?hw = (u, hw2)"
      by (cases "run_state (ixgbevf_check_remove E reg) ?hw") simp
    with 1 live assms(2) have "r = ?v" "hw' = hw2"
      by (auto simp: ixgbe_read_reg.simps [of E reg] readl_def log_io_def)
    moreover from emitsE [OF read_reg_no_read_of(2) [OF assms(1), of E reg], of ?hw]
    obtain evs where "io hw2 = evs @ io ?hw" "list_all (no_read_of reg) evs"
      using c by (metis snd_conv)
    ultimately show ?thesis
      by (intro exI [of _ "evs @ [MMIO_Read reg ?v]"])
         (auto simp: list_all_iff no_read_of_def)
  next
    case 2
    with live assms(2) have "run_state (dead_read_loop E reg IXGBE_DEAD_READ_RETRIES 0) ?hw = (r, hw')"
      by (simp add: ixgbe_read_reg.simps [of E reg] readl_def log_io_def
            ixgbevf_validate_register_read_def del: dead_read_loop.simps IXGBE_DEAD_READ_RETRIES_def)
    from dead_read_loop_value [OF this] obtain evs where "io hw' = evs @ io ?hw"
      "\<forall>w. MMIO_Read reg w \<in> set evs \<and> w \<noteq> IXGBE_DEAD_READ_REG \<longrightarrow> w = r" by blast
    with 2 show ?thesis by (intro exI [of _ "evs @ [MMIO_Read reg ?v]"]) auto
  next
    case 3
    with live assms(2) show ?thesis
      by (intro exI [of _ "[MMIO_Read reg ?v]"])
         (auto simp: ixgbe_read_reg.simps [of E reg] readl_def log_io_def)
  qed
qed

lemma R2C_bits: "bit IXGBE_VFMAILBOX_R2C_BITS b \<longleftrightarrow> b \<in> {4, 5, 7}"
proof -
  have e: "IXGBE_VFMAILBOX_R2C_BITS = set_bit 4 (set_bit 5 (set_bit 7 0))" by simp
  show ?thesis unfolding e bit_set_bit_iff by auto
qed

lemma collects_read_mailbox_vf [collects_rules]:
  assumes "K \<subseteq> {4, 5, 7}"
  shows "collects K (ixgbe_read_mailbox_vf E)"
  unfolding collects_def
proof
  fix hw
  obtain r hw1 where rd: "run_state (ixgbe_read_reg E IXGBE_VFMAILBOX) hw = (r, hw1)" by fastforce
  have "IXGBE_VFMAILBOX \<noteq> IXGBE_VFSTATUS" by simp
  from read_reg_value [OF this rd] obtain evs where evs: "io hw1 = evs @ io hw"
    "\<forall>w. MMIO_Read IXGBE_VFMAILBOX w \<in> set evs \<and> w \<noteq> IXGBE_DEAD_READ_REG \<longrightarrow> w = r" by blast
  have cache: "vf_cache hw1 = vf_cache hw"
    by (rule keepsD [OF _ rd]) (intro keeps_rules)
  have run: "run_state (ixgbe_read_mailbox_vf E) hw =
     (r OR vf_cache hw, hw1\<lparr>mbx := (mbx hw1)\<lparr>mbx_vf_mailbox := vf_cache hw OR
        ((r OR vf_cache hw) AND IXGBE_VFMAILBOX_R2C_BITS)\<rparr>\<rparr>)"
    using rd cache unfolding ixgbe_read_mailbox_vf_def vf_cache_def
    by (simp add: upd_mbx_def Let_def del: IXGBE_VFMAILBOX_R2C_BITS_def IXGBE_VFMAILBOX_def)
  show "\<exists>evs. io (snd (run_state (ixgbe_read_mailbox_vf E) hw)) = evs @ io hw \<and>
      (\<forall>b\<in>K. bit (vf_cache hw) b \<or> reported b evs \<longrightarrow>
         bit (vf_cache (snd (run_state (ixgbe_read_mailbox_vf E) hw))) b)"
  proof (intro exI [of _ evs] conjI ballI impI)
    show "io (snd (run_state (ixgbe_read_mailbox_vf E) hw)) = evs @ io hw"
      using evs(1) unfolding run by simp
  next
    fix b assume "b \<in> K" and "bit (vf_cache hw) b \<or> reported b evs"
    then have "bit (vf_cache hw) b \<or> bit r b" and "bit IXGBE_VFMAILBOX_R2C_BITS b"
      using evs(2) assms unfolding R2C_bits reported_def by blast+
    then show "bit (vf_cache (snd (run_state (ixgbe_read_mailbox_vf E) hw))) b"
      unfolding run by (auto simp: vf_cache_def bit_simps simp del: IXGBE_VFMAILBOX_R2C_BITS_def)
  qed
qed

lemma collects_status_vf [collects_rules]:
  "K \<subseteq> {5, 7} \<Longrightarrow> collects K (ixgbe_clear_msg_vf E)"
  "K \<subseteq> {4, 7} \<Longrightarrow> collects K (ixgbe_clear_ack_vf E)"
  "K \<subseteq> {4, 5} \<Longrightarrow> collects K (ixgbe_clear_rst_vf E)"
  "K \<subseteq> {4, 5, 7} \<Longrightarrow> collects K (ixgbe_check_for_bit_vf E bits)"
proof -
  have pfsts: "\<not> bit IXGBE_VFMAILBOX_PFSTS b" if "b \<in> {5, 7}" for b
    using that by auto
  have pfack: "\<not> bit IXGBE_VFMAILBOX_PFACK b" if "b \<in> {4, 7}" for b
    using that by auto
  have rst: "\<not> bit (IXGBE_VFMAILBOX_RSTI OR IXGBE_VFMAILBOX_RSTD) b" if "b \<in> {4, 5}" for b
    using that by auto
  show "K \<subseteq> {5, 7} \<Longrightarrow> collects K (ixgbe_clear_msg_vf E)"
    unfolding ixgbe_clear_msg_vf_def by (intro collects_rules pfsts) auto
  show "K \<subseteq> {4, 7} \<Longrightarrow> collects K (ixgbe_clear_ack_vf E)"
    unfolding ixgbe_clear_ack_vf_def by (intro collects_rules pfack) auto
  show "K \<subseteq> {4, 5} \<Longrightarrow> collects K (ixgbe_clear_rst_vf E)"
    unfolding ixgbe_clear_rst_vf_def by (intro collects_rules rst) auto
  show "K \<subseteq> {4, 5, 7} \<Longrightarrow> collects K (ixgbe_check_for_bit_vf E bits)"
    unfolding ixgbe_check_for_bit_vf_def by (intro collects_rules)
qed

lemma collects_check_vf [collects_rules]:
  "K \<subseteq> {4, 5, 7} \<Longrightarrow> collects K (ixgbe_check_for_msg_vf E i)"
  "K \<subseteq> {4, 7} \<Longrightarrow> collects K (ixgbe_check_for_ack_vf E i)"
  "K \<subseteq> {4, 5} \<Longrightarrow> collects K (ixgbe_check_for_rst_vf E i)"
  unfolding ixgbe_check_for_msg_vf_def ixgbe_check_for_ack_vf_def ixgbe_check_for_rst_vf_def
  by (intro collects_rules; blast)+

lemma collects_obtain_lock_vf [collects_rules]:
  "K \<subseteq> {4, 5, 7} \<Longrightarrow> collects K (ixgbe_obtain_mbx_lock_vf E)"
  "K \<subseteq> {4, 5, 7} \<Longrightarrow> collects K (ixgbe_release_mbx_lock_vf E i)"
proof -
  assume K: "K \<subseteq> {4, 5, 7}"
  have "collects K (obtain_lock_loop_vf E n)" for n
    using K by (induction n) (auto intro!: collects_rules)
  then show "collects K (ixgbe_obtain_mbx_lock_vf E)"
    unfolding ixgbe_obtain_mbx_lock_vf_def by (intro collects_rules)
  show "collects K (ixgbe_release_mbx_lock_vf E i)"
    unfolding ixgbe_release_mbx_lock_vf_def by (intro collects_rules K)
qed

lemma collects_poll_loop: "collects K chk \<Longrightarrow> collects K (poll_loop chk n)"
  by (induction n) (auto intro!: collects_rules)

lemma collects_read_pf:
  "collects K (ixgbe_read_reg E (IXGBE_PFMBICR (drop_bit 4 (ucast (i :: u16)))))"
proof -
  have "unat (drop_bit 4 (ucast i :: u32)) < 4096"
    unfolding unat_drop_bit_eq using unat_u16_less [of i] by (simp add: drop_bit_eq_div)
  then have "IXGBE_PFMBICR (drop_bit 4 (ucast i)) \<noteq> IXGBE_VFMAILBOX"
    by (simp add: word_unat_eq_iff unat_word_ariths)
  then show ?thesis by (rule collects_read_other)
qed

lemma collects_call_check_ack [collects_rules]:
  "K \<subseteq> {4, 7} \<Longrightarrow> collects K (call_check_for_ack E f i)"
proof (cases f)
  case Check_vf
  then show "K \<subseteq> {4, 7} \<Longrightarrow> ?thesis"
    by (simp add: call_check_for_ack_def) (intro collects_rules)
next
  case Check_pf
  show ?thesis
    unfolding Check_pf call_check_for_ack_def check_fn.case ixgbe_check_for_ack_pf_def
      ixgbe_check_for_bit_pf_def ixgbe_clear_ack_pf_def Let_def IXGBE_PFMBICR_INDEX_def
    by (intro collects_rules collects_read_pf)
qed

lemma collects_poll_for_ack [collects_rules]:
  "K \<subseteq> {4, 7} \<Longrightarrow> collects K (ixgbe_poll_for_ack E i)"
  unfolding ixgbe_poll_for_ack_def by (intro collects_rules collects_poll_loop)

lemma collects_copy_to [collects_rules]: "collects K (copy_to_mailbox mem msg sz)"
  unfolding copy_to_mailbox_def IXGBE_WRITE_REG_ARRAY_def by (intro collects_rules)

lemma collects_copy_from [collects_rules]:
  assumes "sz \<le> IXGBE_VFMAILBOX_SIZE"
  shows "collects K (copy_from_mailbox E IXGBE_VFMBMEM msg sz)"
proof -
  have "IXGBE_VFMBMEM + push_bit 2 (of_nat k) \<noteq> IXGBE_VFMAILBOX" if "k < unat sz" for k
  proof -
    from that assms have "k < 16" by (simp add: word_le_nat_alt)
    then show ?thesis
      by (simp add: word_unat_eq_iff unat_word_ariths push_bit_eq_mult unat_of_nat)
  qed
  then have "collects K (IXGBE_READ_REG_ARRAY E IXGBE_VFMBMEM k)" if "k \<in> set [0..<unat sz]" for k
    using that unfolding IXGBE_READ_REG_ARRAY_def by (intro collects_read_other) auto
  then show ?thesis unfolding copy_from_mailbox_def by (intro collects_rules)
qed

lemma collects_write_mbx_vf:
  "collects {7} (ixgbe_write_mbx_vf E msg sz i)" "collects {7} (ixgbe_write_mbx_vf_legacy E msg sz i)"
  unfolding ixgbe_write_mbx_vf_def ixgbe_write_mbx_vf_legacy_def by (intro collects_rules; blast)+

lemma collects_read_mbx_vf:
  assumes "sz \<le> IXGBE_VFMAILBOX_SIZE"
  shows "collects {5, 7} (ixgbe_read_mbx_vf E msg sz i)"
    and "collects {4, 5, 7} (ixgbe_read_mbx_vf_legacy E msg sz i)"
  unfolding ixgbe_read_mbx_vf_def ixgbe_read_mbx_vf_legacy_def
  by (intro collects_rules assms; blast)+

subsection \<open>The register writes of the VF lock and of a message\<close>

lemma silent_upd_mbx [performs_rules]:
  "silent (upd_mbx f)" "silent (upd_stats g)" "silent inc_reqs" "silent inc_acks" "silent inc_rsts"
  "silent inc_msgs_tx" "silent inc_msgs_rx" "silent (clear_cached b)"
  unfolding inc_reqs_def inc_acks_def inc_rsts_def inc_msgs_tx_def inc_msgs_rx_def clear_cached_def
    upd_stats_def upd_mbx_def
  by (rule silent_modify, simp)+

lemma silent_status_vf [performs_rules]:
  "silent (ixgbe_read_mailbox_vf E)" "silent (ixgbe_clear_msg_vf E)" "silent (ixgbe_clear_ack_vf E)"
  "silent (ixgbe_clear_rst_vf E)" "silent (ixgbe_check_for_bit_vf E b)"
proof -
  show "silent (ixgbe_read_mailbox_vf E)"
    unfolding ixgbe_read_mailbox_vf_def by (intro performs_rules)
  note [performs_rules] = this
  show "silent (ixgbe_clear_msg_vf E)" "silent (ixgbe_clear_ack_vf E)"
    "silent (ixgbe_clear_rst_vf E)" "silent (ixgbe_check_for_bit_vf E b)"
    unfolding ixgbe_clear_msg_vf_def ixgbe_clear_ack_vf_def ixgbe_clear_rst_vf_def
      ixgbe_check_for_bit_vf_def
    by (intro performs_rules)+
qed

lemma silent_check_vf [performs_rules]:
  "silent (ixgbe_check_for_msg_vf E i)" "silent (ixgbe_check_for_ack_vf E i)"
  "silent (ixgbe_check_for_rst_vf E i)"
  unfolding ixgbe_check_for_msg_vf_def ixgbe_check_for_ack_vf_def ixgbe_check_for_rst_vf_def
  by (intro performs_rules)+

lemma silent_log_timeout [performs_rules]:
  "silent (ixgbe_mbx_log_timeout E i)" "silent ixgbe_mbx_reset_timeout"
proof -
  have log: "silent (log_io (Timeout_log j x))" for j x
    by (intro silentI emits_rules preserves_rules) simp
  show "silent (ixgbe_mbx_log_timeout E i)" "silent ixgbe_mbx_reset_timeout"
    unfolding ixgbe_mbx_log_timeout_def ixgbe_mbx_reset_timeout_def
    by (intro performs_rules log)+
qed

lemma silent_poll_loop [performs_rules]: "silent chk \<Longrightarrow> silent (poll_loop chk n)"
  by (induction n) (auto intro!: performs_rules)

lemma poll_for_ack_vf_quiet:
  assumes "op_check_for_ack (mbx_ops (mbx hw) i) = Some Check_vf"
    and "run_state (ixgbe_poll_for_ack E i) hw = (r, hw')" and "hw_addr hw' \<noteq> 0"
  shows "hw_addr hw \<noteq> 0" and "mmio_writes (io hw') = mmio_writes (io hw)"
proof -
  let ?t = "mbx_timeout (mbx hw)"
  let ?poll = "if ?t = 0 then ret IXGBE_ERR_CONFIG else do {
      countdown \<leftarrow> poll_loop (ixgbe_check_for_ack_vf E i) (unat ?t);
      if countdown = 0 then do { ixgbe_mbx_log_timeout E i; ret IXGBE_ERR_TIMEOUT } else ret 0 }"
  have "silent ?poll" by (intro performs_rules)
  moreover have "run_state ?poll hw = (r, hw')"
    using assms(1,2) by (simp add: ixgbe_poll_for_ack_def call_check_for_ack_def cong: if_cong)
  ultimately show "hw_addr hw \<noteq> 0" and "mmio_writes (io hw') = mmio_writes (io hw)"
    using assms(3) performsD [OF performs_silent] by fastforce+
qed

text \<open>
  The writes of the lock: each is a claim of the mailbox register, with VFU set, made only
  where neither side was seen holding the lock.
\<close>

definition lock_claims :: "(u32 \<times> u32) list \<Rightarrow> bool" where
  "lock_claims ws \<longleftrightarrow> (\<forall>(r, v) \<in> set ws. r = IXGBE_VFMAILBOX \<and>
     v AND IXGBE_VFMAILBOX_VFU \<noteq> 0 \<and> v AND IXGBE_VFMAILBOX_PFU = 0)"

lemma lock_claims_append [simp]:
  "lock_claims []" "lock_claims (xs @ ys) \<longleftrightarrow> lock_claims xs \<and> lock_claims ys"
  by (auto simp: lock_claims_def)

lemma claim_bits:
  assumes "v AND (IXGBE_VFMAILBOX_VFU OR IXGBE_VFMAILBOX_PFU) = 0"
  shows "(v OR IXGBE_VFMAILBOX_VFU) AND IXGBE_VFMAILBOX_VFU \<noteq> 0"
    and "(v OR IXGBE_VFMAILBOX_VFU) AND IXGBE_VFMAILBOX_PFU = 0"
proof -
  have "v AND 8 = (v AND 12) AND 8" by (simp add: and.assoc)
  with assms have "v AND 8 = 0" by simp
  then show "(v OR IXGBE_VFMAILBOX_VFU) AND IXGBE_VFMAILBOX_PFU = 0"
    by (simp add: bit.conj_disj_distrib2)
  have "bit ((v OR 4) AND 4 :: u32) 2" by (simp add: bit_simps)
  then show "(v OR IXGBE_VFMAILBOX_VFU) AND IXGBE_VFMAILBOX_VFU \<noteq> 0"
    by (metis IXGBE_VFMAILBOX_VFU_def bit_0_eq bot_apply bot_bool_def)
qed

lemma obtain_lock_loop_vf_performs:
  "performs (obtain_lock_loop_vf E n)
     (\<lambda>r ws. lock_claims ws \<and> length ws \<le> n \<and> (r = 0 \<longrightarrow> ws \<noteq> []))"
proof (induction n)
  case 0
  show ?case by (simp add: performs_ret)
next
  case (Suc n)
  let ?grab = "\<lambda>v. if v AND (IXGBE_VFMAILBOX_VFU OR IXGBE_VFMAILBOX_PFU) \<noteq> 0 then ret False
      else do { IXGBE_WRITE_REG IXGBE_VFMAILBOX (v OR IXGBE_VFMAILBOX_VFU);
                w \<leftarrow> ixgbe_read_mailbox_vf E;
                ret (w AND IXGBE_VFMAILBOX_VFU \<noteq> 0) }"
  have attempt: "performs (?grab v) (\<lambda>got ws. lock_claims ws \<and> length ws \<le> 1 \<and> (got \<longrightarrow> ws \<noteq> []))" for v
  proof (intro performs_if)
    assume "\<not> v AND (IXGBE_VFMAILBOX_VFU OR IXGBE_VFMAILBOX_PFU) \<noteq> 0"
    then have "lock_claims [(IXGBE_VFMAILBOX, v OR IXGBE_VFMAILBOX_VFU)]"
      using claim_bits [of v] by (simp add: lock_claims_def)
    then show "performs (do { IXGBE_WRITE_REG IXGBE_VFMAILBOX (v OR IXGBE_VFMAILBOX_VFU);
        w \<leftarrow> ixgbe_read_mailbox_vf E; ret (w AND IXGBE_VFMAILBOX_VFU \<noteq> 0) })
      (\<lambda>got ws. lock_claims ws \<and> length ws \<le> 1 \<and> (got \<longrightarrow> ws \<noteq> []))"
      by (intro performs_seq [OF performs_write_reg]
            performs_seq [OF performs_silent [OF silent_status_vf(1)]] performs_ret) simp
  qed (simp add: performs_ret)
  have rest: "performs (if got then ret 0 else do {
       d \<leftarrow> gets (\<lambda>hw. mbx_udelay (mbx hw)); udelay d; obtain_lock_loop_vf E n })
     (\<lambda>r ws. lock_claims ws \<and> length ws \<le> n \<and> (r = 0 \<and> \<not> got \<longrightarrow> ws \<noteq> []))" for got
    by (intro performs_if performs_seq [OF performs_silent [OF silent_leaves(6)]]
          performs_seq [OF performs_silent [OF silent_leaves(4)]])
       (auto simp: performs_ret intro: performs_mono [OF Suc.IH])
  show ?case
    unfolding obtain_lock_loop_vf.simps
    by (intro performs_seq [OF performs_silent [OF silent_status_vf(1)]])
       (rule performs_bind [OF attempt rest], auto)
qed

lemma obtain_mbx_lock_vf_performs:
  "performs (ixgbe_obtain_mbx_lock_vf E) (\<lambda>r ws. lock_claims ws \<and> (r = 0 \<longrightarrow> ws \<noteq> []))"
  unfolding ixgbe_obtain_mbx_lock_vf_def
  by (intro performs_seq [OF performs_silent [OF silent_leaves(6)]] performs_if)
     (auto simp: performs_ret
       intro!: performs_bind [OF obtain_lock_loop_vf_performs, where
         Q = "\<lambda>a r ws. r = (if a \<noteq> 0 then IXGBE_ERR_TIMEOUT else a) \<and> ws = []"])

lemma copy_to_mailbox_performs:
  "performs (copy_to_mailbox mem msg sz) (\<lambda>_ ws.
     ws = map (\<lambda>k. (mem + push_bit 2 (of_nat k), msg ! k)) [0..<unat sz])"
proof -
  have "performs (copy_to_mailbox mem msg sz) (\<lambda>_ ws.
     ws = concat (map (\<lambda>k. [(mem + push_bit 2 (of_nat k), msg ! k)]) [0..<unat sz]))"
    unfolding copy_to_mailbox_def IXGBE_WRITE_REG_ARRAY_def
    by (intro performs_for_each performs_write_reg)
  then show ?thesis by (simp add: concat_map_singleton)
qed

subsection \<open>Bounded waiting\<close>

text \<open>
  \<open>waited\<close> is the time spent in \<open>udelay\<close>, in microseconds. \<open>takes t d n m\<close>: where the mailbox
  timeout is \<open>t\<close> and the delay \<open>d\<close>, \<open>m\<close> waits at most \<open>n\<close> and changes neither.
\<close>

fun waited :: "io_event list \<Rightarrow> nat" where
  "waited [] = 0"
| "waited (Udelay n # evs) = unat n + waited evs"
| "waited (_ # evs) = waited evs"

lemma waited_append: "waited (xs @ ys) = waited xs + waited ys"
  by (induction xs rule: waited.induct) auto

definition timing :: "ixgbe_hw \<Rightarrow> u32 \<times> u32" where
  "timing hw = (mbx_timeout (mbx hw), mbx_udelay (mbx hw))"

definition takes :: "u32 \<Rightarrow> u32 \<Rightarrow> nat \<Rightarrow> 'a hwop \<Rightarrow> bool" where
  "takes t d n m \<longleftrightarrow> (\<forall>hw. timing hw = (t, d) \<longrightarrow>
     waited (io (snd (run_state m hw))) \<le> waited (io hw) + n \<and>
     timing (snd (run_state m hw)) = (t, d))"

definition no_delay :: "io_event \<Rightarrow> bool" where
  "no_delay ev \<longleftrightarrow> (\<forall>n. ev \<noteq> Udelay n)"

lemma no_delay_simps [simp]:
  "no_delay (MMIO_Read r v)" "no_delay (MMIO_Write r v)" "\<not> no_delay (Udelay n)"
  "no_delay (Msleep k)" "no_delay (Cfg_Read o' e b)" "no_delay (Timeout_log i x)"
  "no_delay Schedule_service" "no_delay Null_call" "no_delay (Kernel_call s as)"
  by (simp_all add: no_delay_def)

lemma waited_none: "list_all no_delay evs \<Longrightarrow> waited evs = 0"
  by (induction evs rule: waited.induct) auto

named_theorems takes_rules

lemma takes_leaf: "emits no_delay m \<Longrightarrow> keeps frame m \<Longrightarrow> takes t d n m"
  unfolding takes_def
proof (intro allI impI)
  fix hw assume e: "emits no_delay m" and k: "keeps frame m" and tm: "timing hw = (t, d)"
  from e obtain evs where "io (snd (run_state m hw)) = evs @ io hw" "list_all no_delay evs"
    by (rule emitsE)
  moreover from keeps_snd [OF k, of hw] have "timing (snd (run_state m hw)) = timing hw"
    by (simp add: frame_def timing_def)
  ultimately show "waited (io (snd (run_state m hw))) \<le> waited (io hw) + n \<and>
      timing (snd (run_state m hw)) = (t, d)"
    using tm by (simp add: waited_append waited_none)
qed

lemma takes_bind:
  assumes "takes t d n1 m" and "\<And>a. takes t d n2 (g a)" and "n1 + n2 \<le> n"
  shows "takes t d n (State_Monad.bind m g)"
  unfolding takes_def
proof (intro allI impI)
  fix hw assume tm: "timing hw = (t, d)"
  obtain a hw1 where 1: "run_state m hw = (a, hw1)" by fastforce
  from assms(1) tm 1 have "waited (io hw1) \<le> waited (io hw) + n1" "timing hw1 = (t, d)"
    unfolding takes_def by (metis snd_conv)+
  moreover from assms(2) [of a] this(2)
  have "waited (io (snd (run_state (g a) hw1))) \<le> waited (io hw1) + n2"
    "timing (snd (run_state (g a) hw1)) = (t, d)"
    unfolding takes_def by metis+
  ultimately show "waited (io (snd (run_state (State_Monad.bind m g) hw))) \<le> waited (io hw) + n \<and>
      timing (snd (run_state (State_Monad.bind m g) hw)) = (t, d)"
    using 1 assms(3) by simp
qed

lemma takes_then:
  "takes t d 0 m \<Longrightarrow> (\<And>a. takes t d n (g a)) \<Longrightarrow> takes t d n (State_Monad.bind m g)"
  by (rule takes_bind) auto

lemma takes_mono: "takes t d n m \<Longrightarrow> n \<le> n' \<Longrightarrow> takes t d n' m"
  unfolding takes_def by (meson add_left_mono le_trans)

lemma takes_gets:
  "(\<And>hw. timing hw = (t, d) \<Longrightarrow> takes t d n (g (f hw))) \<Longrightarrow>
     takes t d n (State_Monad.bind (gets f) g)"
  unfolding takes_def by auto

lemma takes_ret: "takes t d n (ret x)"
  by (simp add: takes_def)

lemma takes_if:
  "(c \<Longrightarrow> takes t d n a) \<Longrightarrow> (\<not> c \<Longrightarrow> takes t d n b) \<Longrightarrow> takes t d n (if c then a else b)"
  by simp

lemma takes_whenM: "(c \<Longrightarrow> takes t d n m) \<Longrightarrow> takes t d n (whenM c m)"
  by (simp add: whenM_def takes_ret)

lemma takes_case_option:
  "takes t d n a \<Longrightarrow> (\<And>x. takes t d n (g x)) \<Longrightarrow>
     takes t d n (case v of None \<Rightarrow> a | Some x \<Rightarrow> g x)"
  by (simp split: option.splits)

lemma takes_udelay: "takes t d (unat x) (udelay x)"
  by (simp add: takes_def udelay_def log_io_def timing_def)

lemma emits_no_delay_leaves [emits_rules]:
  "emits no_delay (ixgbe_read_reg E reg)" "emits no_delay (IXGBE_WRITE_REG reg v)"
proof -
  have rl: "emits no_delay (readl E r)" for E r
    unfolding readl_def by (intro emits_rules) simp
  have rm: "emits no_delay ixgbevf_remove_adapter"
    unfolding ixgbevf_remove_adapter_def ixgbevf_service_event_schedule_def
    by (intro emits_rules) auto
  have dl: "emits no_delay (dead_read_loop E r n v)" for E r n v
    by (induction n arbitrary: v) (auto intro!: emits_rules rl)
  show "emits no_delay (IXGBE_WRITE_REG reg v)"
    unfolding IXGBE_WRITE_REG_def writel_def by (intro emits_rules) auto
  have "emits no_delay (ixgbe_read_reg E reg)" and "emits no_delay (ixgbevf_check_remove E reg)"
  proof (induction E reg and E reg rule: ixgbe_read_reg_ixgbevf_check_remove.induct)
    case (1 E reg)
    then show ?case
      by (subst ixgbe_read_reg.simps)
         (auto simp: ixgbevf_validate_register_read_def intro!: emits_rules rl dl)
  next
    case (2 E reg)
    then show ?case by (subst ixgbevf_check_remove.simps) (intro emits_rules rm, auto)
  qed
  then show "emits no_delay (ixgbe_read_reg E reg)" by simp
qed

lemma copy_no_delay [emits_rules]:
  "emits no_delay (copy_to_mailbox mem msg sz)" "emits no_delay (copy_from_mailbox E mem msg sz)"
  unfolding copy_to_mailbox_def copy_from_mailbox_def IXGBE_READ_REG_ARRAY_def
    IXGBE_WRITE_REG_ARRAY_def
  by (intro emits_rules)+

lemma status_vf_no_delay [emits_rules]:
  "emits no_delay (ixgbe_read_mailbox_vf E)" "emits no_delay (ixgbe_clear_msg_vf E)"
  "emits no_delay (ixgbe_clear_ack_vf E)" "emits no_delay (ixgbe_clear_rst_vf E)"
  "emits no_delay (ixgbe_check_for_bit_vf E b)"
  unfolding ixgbe_read_mailbox_vf_def ixgbe_clear_msg_vf_def ixgbe_clear_ack_vf_def
    ixgbe_clear_rst_vf_def ixgbe_check_for_bit_vf_def
  by (intro emits_rules)+

lemma check_vf_no_delay [emits_rules]:
  "emits no_delay (ixgbe_check_for_msg_vf E i)" "emits no_delay (ixgbe_check_for_ack_vf E i)"
  "emits no_delay (ixgbe_check_for_rst_vf E i)" "emits no_delay (ixgbe_release_mbx_lock_vf E i)"
  unfolding ixgbe_check_for_msg_vf_def ixgbe_check_for_ack_vf_def ixgbe_check_for_rst_vf_def
    ixgbe_release_mbx_lock_vf_def
  by (intro emits_rules)+

lemma check_pf_no_delay [emits_rules]:
  "emits no_delay (ixgbe_clear_msg_pf E i)" "emits no_delay (ixgbe_clear_ack_pf E i)"
  "emits no_delay (ixgbe_check_for_msg_pf E i)" "emits no_delay (ixgbe_check_for_ack_pf E i)"
  "emits no_delay (ixgbe_release_mbx_lock_pf E i)"
  unfolding ixgbe_clear_msg_pf_def ixgbe_clear_ack_pf_def ixgbe_check_for_msg_pf_def
    ixgbe_check_for_ack_pf_def ixgbe_check_for_bit_pf_def ixgbe_release_mbx_lock_pf_def
  by (intro emits_rules)+

lemma call_check_no_delay [emits_rules]:
  "emits no_delay (call_check_for_msg E f i)" "emits no_delay (call_check_for_ack E f i)"
  unfolding call_check_for_msg_def call_check_for_ack_def by (cases f; simp add: emits_rules)+

lemma log_timeout_no_delay [emits_rules]: "emits no_delay (ixgbe_mbx_log_timeout E i)"
  unfolding ixgbe_mbx_log_timeout_def by (intro emits_rules; simp)

lemma lock_loop_takes:
  "takes t d (n * unat d) (obtain_lock_loop_vf E n)"
  "takes t d (n * unat d) (obtain_lock_loop_pf E i n)"
proof -
  have wait: "takes t d (unat d + k) (do { d' \<leftarrow> gets (\<lambda>hw. mbx_udelay (mbx hw)); udelay d'; m })"
    if "takes t d k m" for k and m :: "s32 hwop"
    by (rule takes_gets, rule takes_bind [OF _ that])
       (auto simp: timing_def intro: takes_udelay)
  show "takes t d (n * unat d) (obtain_lock_loop_vf E n)"
  proof (induction n)
    case (Suc n)
    show ?case
      unfolding obtain_lock_loop_vf.simps mult_Suc
      by (intro takes_then takes_leaf emits_rules keeps_rules takes_if takes_ret wait Suc.IH)
  qed (simp add: takes_ret)
  show "takes t d (n * unat d) (obtain_lock_loop_pf E i n)"
  proof (induction n)
    case (Suc n)
    show ?case
      unfolding obtain_lock_loop_pf.simps mult_Suc
      by (intro takes_then takes_leaf emits_rules keeps_rules takes_if takes_ret wait Suc.IH)
  qed (simp add: takes_ret)
qed

lemma obtain_lock_takes [takes_rules]:
  "takes t d (unat t * unat d) (ixgbe_obtain_mbx_lock_vf E)"
  "takes t d (unat t * unat d) (ixgbe_obtain_mbx_lock_pf E i)"
  unfolding ixgbe_obtain_mbx_lock_vf_def ixgbe_obtain_mbx_lock_pf_def
  by (intro takes_gets takes_if takes_ret takes_bind [OF lock_loop_takes(1) takes_ret [of t d 0]]
        takes_bind [OF lock_loop_takes(2) takes_ret [of t d 0]], simp add: timing_def)+

lemma poll_loop_takes:
  assumes "emits no_delay chk" and "keeps frame chk"
  shows "takes t d ((n - 1) * unat d) (poll_loop chk n)"
proof (induction n)
  case 0
  show ?case by (simp add: takes_ret)
next
  case (Suc n)
  have wait: "takes t d (n * unat d) (do { d' \<leftarrow> gets (\<lambda>hw. mbx_udelay (mbx hw)); udelay d';
      poll_loop chk n })" if "n \<noteq> 0"
  proof (rule takes_gets)
    fix hw assume "timing hw = (t, d)"
    then have "mbx_udelay (mbx hw) = d" by (simp add: timing_def)
    moreover have "takes t d (n * unat d) (do { udelay d; poll_loop chk n })"
      using that by (intro takes_bind [OF takes_udelay Suc.IH]) (cases n; simp)
    ultimately show "takes t d (n * unat d) (do { udelay (mbx_udelay (mbx hw)); poll_loop chk n })"
      by simp
  qed
  have "takes t d (n * unat d) (poll_loop chk (Suc n))"
    unfolding poll_loop.simps
    by (rule takes_then [OF takes_leaf [OF assms]], intro takes_if takes_ret wait)
  then show ?case by simp
qed

lemma poll_takes [takes_rules]:
  "takes t d (unat t * unat d) (ixgbe_poll_for_msg E i)"
  "takes t d (unat t * unat d) (ixgbe_poll_for_ack E i)"
proof -
  have poll: "takes t d (unat t * unat d)
      (do { countdown \<leftarrow> poll_loop chk (unat t);
            if countdown = 0 then do { ixgbe_mbx_log_timeout E i; ret IXGBE_ERR_TIMEOUT }
            else ret 0 })" if "emits no_delay chk" "keeps frame chk" for chk
    using that
    by (intro takes_bind [OF poll_loop_takes, where ?n2.0 = 0] takes_if takes_ret
          takes_then [OF takes_leaf] emits_rules keeps_rules) auto
  show "takes t d (unat t * unat d) (ixgbe_poll_for_msg E i)"
    "takes t d (unat t * unat d) (ixgbe_poll_for_ack E i)"
    unfolding ixgbe_poll_for_msg_def ixgbe_poll_for_ack_def
    by (intro takes_gets takes_case_option takes_if takes_ret,
        simp add: timing_def, intro poll emits_rules keeps_rules)+
qed

lemma takes_seq: "takes t d n m \<Longrightarrow> (\<And>a. takes t d 0 (g a)) \<Longrightarrow> takes t d n (State_Monad.bind m g)"
  by (rule takes_bind) auto

lemma write_mbx_takes:
  "takes t d (2 * unat t * unat d) (ixgbe_write_mbx_vf_legacy E msg sz i)"
  "takes t d (2 * unat t * unat d) (ixgbe_write_mbx_vf E msg sz i)"
  "takes t d (2 * unat t * unat d) (ixgbe_write_mbx_pf_legacy E msg sz i)"
  "takes t d (2 * unat t * unat d) (ixgbe_write_mbx_pf E msg sz i)"
proof -
  let ?b = "unat t * unat d"
  have split: "takes t d (2 * ?b) (State_Monad.bind m g)"
    if "takes t d ?b m" "\<And>a. takes t d ?b (g a)" for m and g :: "s32 \<Rightarrow> s32 hwop"
    using that by (rule takes_bind) simp
  have leaf: "takes t d n m" if "emits no_delay m" "keeps frame m" for n and m :: "'x hwop"
    using that by (rule takes_leaf)
  show "takes t d (2 * unat t * unat d) (ixgbe_write_mbx_vf_legacy E msg sz i)"
    unfolding ixgbe_write_mbx_vf_legacy_def mult.assoc
    by (intro split takes_rules takes_if takes_ret leaf emits_rules keeps_rules)
  show "takes t d (2 * unat t * unat d) (ixgbe_write_mbx_pf_legacy E msg sz i)"
    unfolding ixgbe_write_mbx_pf_legacy_def mult.assoc
    by (intro split takes_rules takes_if takes_ret leaf emits_rules keeps_rules)
  show "takes t d (2 * unat t * unat d) (ixgbe_write_mbx_vf E msg sz i)"
    unfolding ixgbe_write_mbx_vf_def mult.assoc
    by (intro split takes_rules takes_if takes_ret)
       (intro takes_then [OF leaf] takes_rules emits_rules keeps_rules)
  have tail: "takes t d ?b (do {
      whenM c (do { ixgbe_poll_for_ack E i; ret () }); inc_msgs_tx; ret r })" for c and r :: s32
    by (intro takes_seq takes_whenM takes_rules takes_ret takes_then [OF leaf] emits_rules keeps_rules)
  have mid: "takes t d ?b (do {
      ixgbe_clear_msg_pf E i;
      ixgbe_clear_ack_pf E i;
      copy_to_mailbox (IXGBE_PFMBMEM (ucast i)) msg sz;
      v \<leftarrow> ixgbe_read_reg E (IXGBE_PFMAILBOX (ucast i));
      IXGBE_WRITE_REG (IXGBE_PFMAILBOX (ucast i)) (v OR IXGBE_PFMAILBOX_STS);
      ixgbe_release_mbx_lock_pf E i;
      m })" if "takes t d ?b m" for m :: "s32 hwop"
    by (intro takes_then [OF leaf] emits_rules keeps_rules that)
  show "takes t d (2 * unat t * unat d) (ixgbe_write_mbx_pf E msg sz i)"
    unfolding ixgbe_write_mbx_pf_def mult.assoc
    by (intro split takes_rules takes_if takes_ret mid tail)
qed

lemma read_mbx_takes:
  "takes t d (unat t * unat d) (ixgbe_read_mbx_vf_legacy E msg sz i)"
  "takes t d (unat t * unat d) (ixgbe_read_mbx_vf E msg sz i)"
  "takes t d (unat t * unat d) (ixgbe_read_mbx_pf_legacy E msg sz i)"
  "takes t d (unat t * unat d) (ixgbe_read_mbx_pf E msg sz i)"
proof -
  have leaf: "takes t d n m" if "emits no_delay m" "keeps frame m" for n and m :: "'x hwop"
    using that by (rule takes_leaf)
  show "takes t d (unat t * unat d) (ixgbe_read_mbx_vf_legacy E msg sz i)"
    "takes t d (unat t * unat d) (ixgbe_read_mbx_pf_legacy E msg sz i)"
    unfolding ixgbe_read_mbx_vf_legacy_def ixgbe_read_mbx_pf_legacy_def
    by (intro takes_seq takes_rules takes_if takes_ret leaf emits_rules keeps_rules)+
  show "takes t d (unat t * unat d) (ixgbe_read_mbx_vf E msg sz i)"
    "takes t d (unat t * unat d) (ixgbe_read_mbx_pf E msg sz i)"
    unfolding ixgbe_read_mbx_vf_def ixgbe_read_mbx_pf_def
    by (intro leaf emits_rules keeps_rules)+
qed

lemma mbx_entry_takes:
  "takes t d (2 * unat t * unat d) (ixgbe_write_mbx E msg sz i)"
  "takes t d (2 * unat t * unat d) (ixgbe_poll_mbx E msg sz i)"
proof -
  have call_w: "takes t d (2 * unat t * unat d) (call_write E f msg sz' i)" for f sz'
    unfolding call_write_def by (cases f) (simp_all add: write_mbx_takes)
  have call_r: "takes t d (unat t * unat d) (call_read E f msg sz' i)" for f sz'
    unfolding call_read_def by (cases f) (simp_all add: read_mbx_takes)
  show "takes t d (2 * unat t * unat d) (ixgbe_write_mbx E msg sz i)"
    unfolding ixgbe_write_mbx_def
    by (intro takes_gets takes_case_option takes_ret takes_if call_w)
  have rest: "takes t d (unat t * unat d) (do { (r, msg') \<leftarrow> call_read E f msg sz' i;
      whenM (r = 0) ixgbe_mbx_reset_timeout; ret (r, msg') })" for f sz'
    by (intro takes_seq [OF call_r])
       (auto split: prod.split intro!: takes_then [OF takes_leaf] takes_ret emits_rules keeps_rules)
  show "takes t d (2 * unat t * unat d) (ixgbe_poll_mbx E msg sz i)"
    unfolding ixgbe_poll_mbx_def Let_def
    by (intro takes_gets takes_case_option takes_ret takes_if takes_if
          takes_bind [OF poll_takes(1), where ?n2.0 = "unat t * unat d"])
       (rule rest takes_ret | simp)+
qed

subsection \<open>The batched timeout log\<close>

text \<open>How many timeouts the printed lines account for: one, or the count of a batched line.\<close>

fun logged_timeouts :: "io_event list \<Rightarrow> nat" where
  "logged_timeouts [] = 0"
| "logged_timeouts (Timeout_log i None # evs) = 1 + logged_timeouts evs"
| "logged_timeouts (Timeout_log i (Some (c, s)) # evs) = unat c + logged_timeouts evs"
| "logged_timeouts (_ # evs) = logged_timeouts evs"

definition suppressed :: "ixgbe_hw \<Rightarrow> nat" where
  "suppressed hw = unat (msg_timeout_count (mbx hw))"

lemma unat_Suc_word:
  assumes "Suc (unat (w :: u32)) < 2 ^ 32"
  shows "unat (w + 1) = Suc (unat w)"
proof -
  have "unat (w + 1) = (unat w + 1) mod 2 ^ LENGTH(32)" by (simp add: unat_word_ariths)
  with assms show ?thesis by simp
qed

lemma log_timeout_accounts:
  assumes "Suc (suppressed hw) < 2 ^ 32" and "run_state (ixgbe_mbx_log_timeout E i) hw = ((), hw')"
  shows "logged_timeouts (io hw') + suppressed hw' = Suc (logged_timeouts (io hw) + suppressed hw)"
    and "suppressed hw' \<le> Suc (suppressed hw)"
proof -
  let ?m = "mbx hw"
  have inc: "unat (msg_timeout_count ?m + 1) = Suc (unat (msg_timeout_count ?m))"
    using assms(1) by (intro unat_Suc_word) (simp add: suppressed_def)
  consider (quiet) "msg_window_end ?m \<noteq> 0 \<and> time_before (jiffies_at E (io hw)) (msg_window_end ?m)"
    | (first) "\<not> (msg_window_end ?m \<noteq> 0 \<and> time_before (jiffies_at E (io hw)) (msg_window_end ?m))"
        "msg_timeout_count ?m = 0"
    | (batch) "\<not> (msg_window_end ?m \<noteq> 0 \<and> time_before (jiffies_at E (io hw)) (msg_window_end ?m))"
        "msg_timeout_count ?m \<noteq> 0" by blast
  then have "logged_timeouts (io hw') + suppressed hw' = Suc (logged_timeouts (io hw) + suppressed hw)
      \<and> suppressed hw' \<le> Suc (suppressed hw)"
  proof cases
    case quiet
    then have "hw' = hw\<lparr>mbx := ?m\<lparr>msg_timeout_count := msg_timeout_count ?m + 1\<rparr>\<rparr>"
      using assms(2) by (simp add: ixgbe_mbx_log_timeout_def upd_mbx_def)
    with inc show ?thesis by (simp add: suppressed_def)
  next
    case first
    then have "io hw' = Timeout_log i None # io hw" "msg_timeout_count (mbx hw') = 0"
      using assms(2)
      by (auto simp: ixgbe_mbx_log_timeout_def upd_mbx_def log_io_def split: if_splits)
    with first(2) show ?thesis by (simp add: suppressed_def)
  next
    case batch
    then have "io hw' = Timeout_log i (Some (msg_timeout_count ?m + 1,
        push_bit (unat (msg_exp ?m)) 1)) # io hw" "msg_timeout_count (mbx hw') = 0"
      using assms(2)
      by (auto simp: ixgbe_mbx_log_timeout_def upd_mbx_def log_io_def split: if_splits)
    with inc show ?thesis by (simp add: suppressed_def)
  qed
  then show "logged_timeouts (io hw') + suppressed hw' = Suc (logged_timeouts (io hw) + suppressed hw)"
    and "suppressed hw' \<le> Suc (suppressed hw)" by blast+
qed

lemma log_timeouts_account:
  assumes "suppressed hw + length ids < 2 ^ 32"
    and "run_state (for_each ids (ixgbe_mbx_log_timeout E)) hw = ((), hw')"
  shows "logged_timeouts (io hw') + suppressed hw' =
     logged_timeouts (io hw) + suppressed hw + length ids"
  using assms
proof (induction ids arbitrary: hw)
  case Nil
  then show ?case by simp
next
  case (Cons i ids)
  obtain hw1 where 1: "run_state (ixgbe_mbx_log_timeout E i) hw = ((), hw1)"
    by (cases "run_state (ixgbe_mbx_log_timeout E i) hw") simp
  have "Suc (suppressed hw) < 2 ^ 32" using Cons.prems(1) by simp
  note acc = log_timeout_accounts [OF this 1]
  have "suppressed hw1 + length ids < 2 ^ 32" using acc(2) Cons.prems(1) by simp
  with Cons.IH Cons.prems(2) 1
  have "logged_timeouts (io hw') + suppressed hw' = logged_timeouts (io hw1) + suppressed hw1 + length ids"
    by simp
  with acc(1) show ?case by simp
qed

lemma log_timeout_exp:
  "msg_exp (mbx hw) \<le> 16 \<Longrightarrow> msg_exp (mbx (snd (run_state (ixgbe_mbx_log_timeout E i) hw))) \<le> 16"
  by (auto simp: ixgbe_mbx_log_timeout_def upd_mbx_def log_io_def)

subsection \<open>PF side: one slot per virtual function\<close>

text \<open>The bit of the PF's mailbox cause registers that stands for a message, or an ack, of a VF.\<close>

definition req_slot :: "u16 \<Rightarrow> u32 \<times> u32" where
  "req_slot i = (IXGBE_PFMBICR (IXGBE_PFMBICR_INDEX (ucast i)),
     push_bit (IXGBE_PFMBICR_SHIFT (ucast i)) IXGBE_PFMBICR_VFREQ_VF1)"

definition ack_slot :: "u16 \<Rightarrow> u32 \<times> u32" where
  "ack_slot i = (IXGBE_PFMBICR (IXGBE_PFMBICR_INDEX (ucast i)),
     push_bit (IXGBE_PFMBICR_SHIFT (ucast i)) IXGBE_PFMBICR_VFACK_VF1)"

lemma clear_pf_performs:
  "performs (ixgbe_clear_msg_pf E i) (\<lambda>_ ws. ws = [req_slot i])"
  "performs (ixgbe_clear_ack_pf E i) (\<lambda>_ ws. ws = [ack_slot i])"
  unfolding ixgbe_clear_msg_pf_def ixgbe_clear_ack_pf_def Let_def req_slot_def ack_slot_def
  by (intro performs_seq [OF performs_silent [OF silent_leaves(1)]]
       performs_seq [OF performs_silent [OF silent_whenM]] performs_rules
       performs_mono [OF performs_write_reg], simp)+

lemma slot_register: "fst (req_slot i) = fst (req_slot j) \<longleftrightarrow> unat i div 16 = unat j div 16"
proof -
  have r: "unat (fst (req_slot k)) = 0x710 + 4 * (unat k div 16)" for k
  proof -
    have "unat (drop_bit 4 (ucast k) :: u32) = unat k div 16"
      unfolding unat_drop_bit_eq by (simp add: drop_bit_eq_div)
    then show ?thesis
      using unat_u16_less [of k] by (simp add: req_slot_def unat_word_ariths)
  qed
  show ?thesis by (subst word_unat_eq_iff) (simp add: r)
qed

lemma slot_value:
  "snd (req_slot i) = push_bit (unat i mod 16) 1" "snd (ack_slot i) = push_bit (16 + unat i mod 16) 1"
proof -
  have "IXGBE_PFMBICR_VFACK_VF1 = push_bit 16 1" by simp
  then have "push_bit k IXGBE_PFMBICR_VFACK_VF1 = push_bit (16 + k) 1" for k
    by (metis push_bit_push_bit add.commute)
  then show "snd (ack_slot i) = push_bit (16 + unat i mod 16) 1"
    by (simp add: ack_slot_def del: IXGBE_PFMBICR_VFACK_VF1_def)
qed (simp add: req_slot_def)

lemma push_bit_1_inj:
  assumes "m < 32" and "push_bit m 1 = (push_bit n 1 :: u32)"
  shows "m = n"
proof -
  have "bit (push_bit m 1 :: u32) m" using assms(1) by (simp add: bit_simps)
  then have "bit (push_bit n 1 :: u32) m" using assms(2) by simp
  then show ?thesis by (auto simp: bit_simps bit_1_iff)
qed

lemma slots_distinct:
  "req_slot i = req_slot j \<longleftrightarrow> i = j" "ack_slot i = ack_slot j \<longleftrightarrow> i = j" "req_slot i \<noteq> ack_slot j"
proof -
  have fst_eq: "fst (ack_slot k) = fst (req_slot k)" for k
    by (simp add: ack_slot_def req_slot_def)
  have recover: "i = j" if "unat i div 16 = unat j div 16" "unat i mod 16 = unat j mod 16"
    using that by (metis div_mult_mod_eq word_unat_eq_iff)
  show "req_slot i = req_slot j \<longleftrightarrow> i = j"
  proof
    assume eq: "req_slot i = req_slot j"
    have "unat i mod 16 = unat j mod 16"
    proof (rule push_bit_1_inj)
      show "unat i mod 16 < 32" using mod_less_divisor [of 16 "unat i"] by linarith
    qed (use eq slot_value(1) in metis)
    with eq slot_register [of i j] recover show "i = j" by simp
  qed simp
  show "ack_slot i = ack_slot j \<longleftrightarrow> i = j"
  proof
    assume eq: "ack_slot i = ack_slot j"
    have "16 + unat i mod 16 = 16 + unat j mod 16"
    proof (rule push_bit_1_inj)
      show "16 + unat i mod 16 < 32" using mod_less_divisor [of 16 "unat i"] by linarith
    qed (use eq slot_value(2) in metis)
    with eq fst_eq slot_register [of i j] recover show "i = j" by (metis add_left_cancel)
  qed simp
  show "req_slot i \<noteq> ack_slot j"
  proof
    assume "req_slot i = ack_slot j"
    then have "push_bit (unat i mod 16) 1 = (push_bit (16 + unat j mod 16) 1 :: u32)"
      using slot_value by metis
    then have "unat i mod 16 = 16 + unat j mod 16"
      by (rule push_bit_1_inj [rotated]) (simp add: less_trans [of _ 16])
    then show False using mod_less_divisor [of 16 "unat i"] by linarith
  qed
qed

subsection \<open>The transport the MAC layer relies on\<close>

text \<open>
  A request of the MAC layer is a message written to the mailbox and a reply read from it.
  \<open>mbx_transport\<close> states what that layer needs of the two operations: they leave the MAC state
  alone, a reply has the length of its buffer, and a failed receive leaves the buffer as it
  was. \<open>timed_transport\<close> adds that neither waits forever.
\<close>

definition exchange ::
    "(u32 list \<Rightarrow> u16 \<Rightarrow> s32 hwop) \<Rightarrow> (u32 list \<Rightarrow> u16 \<Rightarrow> (s32 \<times> u32 list) hwop) \<Rightarrow>
     u32 list \<Rightarrow> u32 list \<Rightarrow> u16 \<Rightarrow> (s32 \<times> u32 list) hwop" where
  "exchange send recv msg retmsg sz = do {
     retval \<leftarrow> send msg sz;
     if retval \<noteq> 0 then ret (retval, retmsg) else recv retmsg sz }"

locale mbx_transport =
  fixes send :: "u32 list \<Rightarrow> u16 \<Rightarrow> s32 hwop"
    and recv :: "u32 list \<Rightarrow> u16 \<Rightarrow> (s32 \<times> u32 list) hwop"
  assumes send_frame: "keeps frame (send msg sz)"
    and recv_frame: "keeps frame (recv msg sz)"
    and recv_length: "unat sz \<le> length msg \<Longrightarrow> run_state (recv msg sz) hw = ((r, msg'), hw') \<Longrightarrow>
      length msg' = length msg"
    and recv_error: "run_state (recv msg sz) hw = ((r, msg'), hw') \<Longrightarrow> r \<noteq> 0 \<Longrightarrow> msg' = msg"
begin

lemma exchange_frame: "keeps frame (exchange send recv msg retmsg sz)"
  unfolding exchange_def by (intro keeps_rules send_frame recv_frame)

lemma exchange_length:
  assumes "unat sz \<le> length retmsg"
    and "run_state (exchange send recv msg retmsg sz) hw = ((r, msg'), hw')"
  shows "length msg' = length retmsg"
  using assms by (auto simp: exchange_def split: prod.splits if_splits dest: recv_length)

lemma exchange_error:
  assumes "run_state (exchange send recv msg retmsg sz) hw = ((r, msg'), hw')" and "r \<noteq> 0"
  shows "msg' = retmsg"
  using assms by (auto simp: exchange_def split: prod.splits if_splits dest: recv_error)

lemma exchange_ok:
  assumes "run_state (exchange send recv msg retmsg sz) hw = ((0, msg'), hw')"
  obtains hw1 where "run_state (send msg sz) hw = (0, hw1)"
    and "run_state (recv retmsg sz) hw1 = ((0, msg'), hw')"
  using assms by (auto simp: exchange_def split: prod.splits if_splits)

end

locale timed_transport = mbx_transport +
  fixes t d :: u32 and n :: nat
  assumes send_takes: "takes t d n (send msg sz)"
    and recv_takes: "takes t d n (recv msg sz)"
begin

lemma exchange_takes: "takes t d (2 * n) (exchange send recv msg retmsg sz)"
  unfolding exchange_def by (rule takes_bind [OF send_takes, where ?n2.0 = n])
    (auto intro: takes_ret recv_takes)

end

lemma copy_from_mailbox_length:
  "run_state (copy_from_mailbox E mem msg sz) hw = (msg', hw') \<Longrightarrow> unat sz \<le> length msg \<Longrightarrow>
     length msg' = length msg"
  by (auto simp: copy_from_mailbox_def split: prod.splits dest: length_mapM)

lemma call_read_length:
  "run_state (call_read E f msg sz i) hw = ((r, msg'), hw') \<Longrightarrow> unat sz \<le> length msg \<Longrightarrow>
     length msg' = length msg"
  by (cases f)
     (auto simp: call_read_def ixgbe_read_mbx_vf_legacy_def ixgbe_read_mbx_vf_def
       ixgbe_read_mbx_pf_legacy_def ixgbe_read_mbx_pf_def
       split: prod.splits if_splits dest: copy_from_mailbox_length)

lemma call_read_error:
  "run_state (call_read E f msg sz i) hw = ((r, msg'), hw') \<Longrightarrow> r \<noteq> 0 \<Longrightarrow> msg' = msg"
  by (cases f)
     (auto simp: call_read_def ixgbe_read_mbx_vf_legacy_def ixgbe_read_mbx_vf_def
       ixgbe_read_mbx_pf_legacy_def ixgbe_read_mbx_pf_def split: prod.splits if_splits)

lemma poll_mbx_cases:
  assumes "run_state (ixgbe_poll_mbx E msg sz i) hw = ((r, msg'), hw')"
  obtains "r \<noteq> 0" and "msg' = msg"
    | f sz' hw1 hw2 where "sz' \<le> sz" and "run_state (call_read E f msg sz' i) hw1 = ((r, msg'), hw2)"
  using assms
  by (auto simp: ixgbe_poll_mbx_def Let_def split: option.splits if_splits prod.splits) 
     (metis linorder_le_cases order.strict_implies_order order_refl)+

interpretation mbx_i: mbx_transport "\<lambda>msg sz. ixgbe_write_mbx E msg sz i"
    "\<lambda>msg sz. ixgbe_poll_mbx E msg sz i" for E i
proof unfold_locales
  fix msg sz hw r msg' hw'
  assume run: "run_state (ixgbe_poll_mbx E msg sz i) hw = ((r, msg'), hw')"
  show "length msg' = length msg" if "unat sz \<le> length msg"
    using run
  proof (cases rule: poll_mbx_cases)
    case (2 f sz' hw1 hw2)
    with that have "unat sz' \<le> length msg" by (meson le_trans word_le_nat_alt)
    with 2(2) show ?thesis by (rule call_read_length)
  qed simp
  show "msg' = msg" if "r \<noteq> 0"
    using run that by (cases rule: poll_mbx_cases) (auto dest: call_read_error)
qed (intro keeps_rules)+

interpretation mbx_timed: timed_transport "\<lambda>msg sz. ixgbe_write_mbx E msg sz i"
    "\<lambda>msg sz. ixgbe_poll_mbx E msg sz i" t d "2 * unat t * unat d" for E i t d
  by unfold_locales (rule mbx_entry_takes)+

end
