(* ===== verification/Mailbox_Props.thy ===== *)
theory Mailbox_Props
  imports Mailbox_Facts
begin

text \<open>
  The properties of register access and of the mailbox, each followed by a witness that
  applies it to the sample device below: a VF whose PF grants the lock and acknowledges at once.
\<close>

subsection \<open>A sample device\<close>

definition no_ops :: ixgbe_mbx_operations where
  "no_ops = \<lparr>op_init_params = None, op_release = None, op_read = None, op_write = None,
     op_check_for_msg = None, op_check_for_ack = None, op_check_for_rst = None, op_clear = None\<rparr>"

definition sample_mbx :: ixgbe_mbx_info where
  "sample_mbx = \<lparr>mbx_ops = (\<lambda>i. if i = 0 then no_ops\<lparr>op_release := Some Release_mbx_lock_vf,
        op_read := Some Read_mbx_vf, op_write := Some Write_mbx_vf,
        op_check_for_msg := Some Check_vf, op_check_for_ack := Some Check_vf,
        op_check_for_rst := Some Check_vf\<rparr> else no_ops),
     mbx_stats = zero_stats, mbx_timeout = 2, mbx_udelay = 500, mbx_vf_mailbox = 0,
     mbx_size = 16, msg_timeout_count = 0, msg_exp = 1, msg_window_end = 0\<rparr>"

definition no_mac_ops :: ixgbe_mac_operations where
  "no_mac_ops = \<lparr>op_init_hw = None, op_reset_hw = None, op_start_hw = None,
     op_get_mac_addr = None, op_stop_adapter = None, op_negotiate_api_version = None,
     op_negotiate_features = None, op_setup_link = None, op_check_link = None,
     op_set_rar = None, op_set_uc_addr = None, op_update_mc_addr_list = None,
     op_update_xcast_mode = None, op_get_link_state = None, op_set_vfta = None,
     op_set_rlpml = None\<rparr>"

definition sample_hw :: ixgbe_hw where
  "sample_hw = \<lparr>hw_addr = 0xF000, back_state = {IXGBEVF_SERVICE_INITED},
     mac = \<lparr>mac_ops = no_mac_ops, mac_addr = [0, 0, 0, 0, 0, 0], perm_addr = [0, 0, 0, 0, 0, 0],
       mac_type = Ixgbe_mac_82599_vf, mc_filter_type = 0, get_link_status = True,
       max_tx_queues = 8, max_rx_queues = 8\<rparr>,
     mbx = sample_mbx, adapter_stopped = False, api_version = 0, io = []\<rparr>"

text \<open>
  The device: the mailbox register reads 0 until the driver has written it, then VFU, PFSTS
  and PFACK; every other register, the message buffer included, reads as its offset.
\<close>

definition sample_env :: env where
  "sample_env = \<lparr>mmio = (\<lambda>h r. if r = IXGBE_VFMAILBOX then (if mmio_writes h = [] then 0 else 0x34) else r),
     jiffies_at = (\<lambda>h. of_nat (length h)), HZ = 250, pci_cfg = (\<lambda>h o'. (0, 0)),
     kernel = (\<lambda>h s as. 0)\<rparr>"

subsection \<open>Register access\<close>

text \<open>A live read returns a value that the device reported during the read.\<close>

lemma dead_read_loop_reported:
  assumes "run_state (dead_read_loop E reg (Suc n) v) hw = (r, hw')"
  shows "\<exists>evs. io hw' = evs @ io hw \<and> MMIO_Read reg r \<in> set evs \<and> length evs \<le> Suc n \<and>
    (r = IXGBE_DEAD_READ_REG \<longrightarrow> evs = replicate (Suc n) (MMIO_Read reg r))"
  using assms
proof (induction n arbitrary: v hw)
  case 0
  then show ?case
    by (intro exI [of _ "[MMIO_Read reg (mmio E (io hw) reg)]"])
       (auto simp: readl_def log_io_def split: if_splits)
next
  case (Suc n)
  let ?v = "mmio E (io hw) reg"
  let ?hw = "hw\<lparr>io := MMIO_Read reg ?v # io hw\<rparr>"
  show ?case
  proof (cases "?v = IXGBE_DEAD_READ_REG")
    case True
    with Suc.prems have "run_state (dead_read_loop E reg (Suc n) ?v) ?hw = (r, hw')"
      by (subst (asm) dead_read_loop.simps(2)) (simp add: readl_def log_io_def del: dead_read_loop.simps)
    from Suc.IH [OF this] obtain evs where e: "io hw' = evs @ io ?hw" "MMIO_Read reg r \<in> set evs"
      "length evs \<le> Suc n" "r = IXGBE_DEAD_READ_REG \<longrightarrow> evs = replicate (Suc n) (MMIO_Read reg r)" by blast
    with True show ?thesis
      by (intro exI [of _ "evs @ [MMIO_Read reg ?v]"])
         (auto simp flip: replicate_append_same)
  next
    case False
    with Suc.prems show ?thesis
      by (intro exI [of _ "[MMIO_Read reg ?v]"]) (auto simp: readl_def log_io_def)
  qed
qed



text \<open>Once the adapter is gone nothing of the shared code touches the device.\<close>

definition no_mmio :: "io_event \<Rightarrow> bool" where
  "no_mmio ev \<longleftrightarrow> (\<forall>r v. ev \<noteq> MMIO_Read r v \<and> ev \<noteq> MMIO_Write r v)"

text \<open>\<open>inert m\<close>: run on a removed adapter, \<open>m\<close> touches no register and leaves it removed.\<close>

definition inert :: "'a hwop \<Rightarrow> bool" where
  "inert m \<longleftrightarrow> (\<forall>hw. hw_addr hw = 0 \<longrightarrow> hw_addr (snd (run_state m hw)) = 0 \<and>
     (\<exists>evs. io (snd (run_state m hw)) = evs @ io hw \<and> list_all no_mmio evs))"

named_theorems inert_rules

lemma inert_same: "(\<And>hw. hw_addr hw = 0 \<Longrightarrow> hw_addr (snd (run_state m hw)) = 0 \<and>
    io (snd (run_state m hw)) = io hw) \<Longrightarrow> inert m"
  by (auto simp: inert_def)

lemma inert_leaves [inert_rules]:
  "inert (ret x)" "inert (gets f)" "inert (ixgbe_read_reg E reg)" "inert (IXGBE_WRITE_REG reg v)"
  "inert (upd_mbx g)" "inert (upd_stats h)" "inert ixgbe_mbx_reset_timeout"
  by (auto intro!: inert_same simp: read_reg_removed write_reg_removed upd_mbx_def upd_stats_def
      ixgbe_mbx_reset_timeout_def)

lemma inert_log [inert_rules]: "no_mmio ev \<Longrightarrow> inert (log_io ev)"
  by (auto simp: inert_def log_io_def)

lemma inert_bind [inert_rules]:
  assumes m: "inert m" and g: "\<And>a. inert (g a)"
  shows "inert (State_Monad.bind m g)"
  unfolding inert_def
proof (intro allI impI)
  fix hw :: ixgbe_hw assume gone: "hw_addr hw = 0"
  obtain a hw1 where 1: "run_state m hw = (a, hw1)" by fastforce
  from m gone 1 obtain e1 where e1: "hw_addr hw1 = 0" "io hw1 = e1 @ io hw" "list_all no_mmio e1"
    unfolding inert_def by (metis snd_conv)
  from g [of a] e1(1) obtain e2 where "hw_addr (snd (run_state (g a) hw1)) = 0"
    "io (snd (run_state (g a) hw1)) = e2 @ io hw1" "list_all no_mmio e2"
    unfolding inert_def by blast
  with 1 e1 show "hw_addr (snd (run_state (State_Monad.bind m g) hw)) = 0 \<and>
      (\<exists>evs. io (snd (run_state (State_Monad.bind m g) hw)) = evs @ io hw \<and> list_all no_mmio evs)"
    by (auto intro!: exI [of _ "e2 @ e1"])
qed

lemma inert_if [inert_rules]:
  "(c \<Longrightarrow> inert a) \<Longrightarrow> (\<not> c \<Longrightarrow> inert b) \<Longrightarrow> inert (if c then a else b)"
  by simp

lemma inert_whenM [inert_rules]: "(c \<Longrightarrow> inert m) \<Longrightarrow> inert (whenM c m)"
  by (simp add: whenM_def inert_leaves)

lemma inert_Let [inert_rules]: "(\<And>x. inert (g x)) \<Longrightarrow> inert (let x = v in g x)"
  by simp

lemma inert_case_option [inert_rules]:
  "inert a \<Longrightarrow> (\<And>x. inert (g x)) \<Longrightarrow> inert (case v of None \<Rightarrow> a | Some x \<Rightarrow> g x)"
  by (simp split: option.splits)

lemma inert_case_prod [inert_rules]:
  "(\<And>x y. inert (g x y)) \<Longrightarrow> inert (case p of (x, y) \<Rightarrow> g x y)"
  by (simp split: prod.splits)

lemma inert_for_each [inert_rules]: "(\<And>x. inert (g x)) \<Longrightarrow> inert (for_each xs g)"
  by (induction xs) (auto intro: inert_rules)

lemma inert_mapM [inert_rules]: "(\<And>x. inert (g x)) \<Longrightarrow> inert (mapM xs g)"
  by (induction xs) (auto intro!: inert_rules)

lemma inert_delay [inert_rules]: "inert (udelay n)" "inert (msleep k)"
  unfolding udelay_def msleep_def by (intro inert_rules, simp add: no_mmio_def)+

lemma inert_stats [inert_rules]:
  "inert inc_reqs" "inert inc_acks" "inert inc_rsts" "inert inc_msgs_tx" "inert inc_msgs_rx"
  "inert (clear_cached b)" "inert (ixgbe_mbx_log_timeout E i)"
  unfolding inc_reqs_def inc_acks_def inc_rsts_def inc_msgs_tx_def inc_msgs_rx_def clear_cached_def
    ixgbe_mbx_log_timeout_def
  by (intro inert_rules; simp add: no_mmio_def)+

lemma inert_vf [inert_rules]:
  "inert (ixgbe_read_mailbox_vf E)" "inert (ixgbe_clear_msg_vf E)" "inert (ixgbe_clear_ack_vf E)"
  "inert (ixgbe_clear_rst_vf E)" "inert (ixgbe_check_for_bit_vf E b)"
  "inert (ixgbe_check_for_msg_vf E i)" "inert (ixgbe_check_for_ack_vf E i)"
  "inert (ixgbe_check_for_rst_vf E i)" "inert (ixgbe_release_mbx_lock_vf E i)"
  unfolding ixgbe_read_mailbox_vf_def ixgbe_clear_msg_vf_def ixgbe_clear_ack_vf_def
    ixgbe_clear_rst_vf_def ixgbe_check_for_bit_vf_def ixgbe_check_for_msg_vf_def
    ixgbe_check_for_ack_vf_def ixgbe_check_for_rst_vf_def ixgbe_release_mbx_lock_vf_def
  by (intro inert_rules)+

lemma inert_pf [inert_rules]:
  "inert (ixgbe_clear_msg_pf E i)" "inert (ixgbe_clear_ack_pf E i)"
  "inert (ixgbe_check_for_bit_pf E b n)" "inert (ixgbe_check_for_msg_pf E i)"
  "inert (ixgbe_check_for_ack_pf E i)" "inert (ixgbe_release_mbx_lock_pf E i)"
  unfolding ixgbe_clear_msg_pf_def ixgbe_clear_ack_pf_def ixgbe_check_for_bit_pf_def
    ixgbe_check_for_msg_pf_def ixgbe_check_for_ack_pf_def ixgbe_release_mbx_lock_pf_def
  by (intro inert_rules)+

lemma inert_lock [inert_rules]:
  "inert (ixgbe_obtain_mbx_lock_vf E)" "inert (ixgbe_obtain_mbx_lock_pf E i)"
proof -
  have [inert_rules]: "inert (obtain_lock_loop_vf E n)" "inert (obtain_lock_loop_pf E i n)" for n
    by (induction n) (auto intro!: inert_rules)
  show "inert (ixgbe_obtain_mbx_lock_vf E)" "inert (ixgbe_obtain_mbx_lock_pf E i)"
    unfolding ixgbe_obtain_mbx_lock_vf_def ixgbe_obtain_mbx_lock_pf_def by (intro inert_rules)+
qed

lemma inert_poll [inert_rules]:
  "inert (ixgbe_poll_for_msg E i)" "inert (ixgbe_poll_for_ack E i)"
proof -
  have loop: "inert (poll_loop chk n)" if "inert chk" for chk n
    using that by (induction n) (auto intro!: inert_rules)
  have [inert_rules]: "inert (call_check_for_msg E f i)" "inert (call_check_for_ack E f i)" for f
    unfolding call_check_for_msg_def call_check_for_ack_def by (cases f; simp add: inert_rules)+
  show "inert (ixgbe_poll_for_msg E i)" "inert (ixgbe_poll_for_ack E i)"
    unfolding ixgbe_poll_for_msg_def ixgbe_poll_for_ack_def by (intro inert_rules loop)+
qed

lemma inert_calls [inert_rules]:
  "inert (copy_to_mailbox mem msg sz)" "inert (copy_from_mailbox E mem msg sz)"
  "inert (call_read E rf msg sz i)" "inert (call_write E w msg sz i)"
proof -
  show [inert_rules]: "inert (copy_to_mailbox mem msg sz)" "inert (copy_from_mailbox E mem msg sz)"
    for mem unfolding copy_to_mailbox_def copy_from_mailbox_def IXGBE_READ_REG_ARRAY_def
      IXGBE_WRITE_REG_ARRAY_def
    by (intro inert_rules)+
  show "inert (call_read E rf msg sz i)"
    unfolding call_read_def ixgbe_read_mbx_vf_legacy_def ixgbe_read_mbx_vf_def
      ixgbe_read_mbx_pf_legacy_def ixgbe_read_mbx_pf_def
    by (cases rf; simp only: read_fn.case; intro inert_rules)
  show "inert (call_write E w msg sz i)"
    unfolding call_write_def ixgbe_write_mbx_vf_legacy_def ixgbe_write_mbx_vf_def
      ixgbe_write_mbx_pf_legacy_def ixgbe_write_mbx_pf_def
    by (cases w; simp only: write_fn.case; intro inert_rules)
qed

lemma inert_mailbox [inert_rules]:
  "inert (ixgbe_read_mbx E msg sz i)" "inert (ixgbe_poll_mbx E msg sz i)"
  "inert (ixgbe_write_mbx E msg sz i)"
  unfolding ixgbe_read_mbx_def ixgbe_poll_mbx_def ixgbe_write_mbx_def by (intro inert_rules)+


subsection \<open>The VF write protocol\<close>

lemma write_mbx_vf_prefix:
  "performs (do {
      ixgbe_clear_msg_vf E; ixgbe_clear_ack_vf E; copy_to_mailbox IXGBE_VFMBMEM msg sz; inc_msgs_tx;
      v \<leftarrow> ixgbe_read_mailbox_vf E;
      IXGBE_WRITE_REG IXGBE_VFMAILBOX (v OR IXGBE_VFMAILBOX_REQ);
      ixgbe_release_mbx_lock_vf E 0 })
    (\<lambda>_ ws. \<exists>v w. ws = map (\<lambda>k. (IXGBE_VFMBMEM + push_bit 2 (of_nat k), msg ! k)) [0..<unat sz]
       @ [(IXGBE_VFMAILBOX, v OR IXGBE_VFMAILBOX_REQ), (IXGBE_VFMAILBOX, w AND NOT IXGBE_VFMAILBOX_VFU)])"
proof -
  have release: "performs (ixgbe_release_mbx_lock_vf E 0)
      (\<lambda>_ ws. \<exists>w. ws = [(IXGBE_VFMAILBOX, w AND NOT IXGBE_VFMAILBOX_VFU)])"
    unfolding ixgbe_release_mbx_lock_vf_def
    by (intro performs_seq [OF performs_silent [OF silent_status_vf(1)]])
       (auto intro: performs_mono [OF performs_write_reg])
  have finish: "performs (do { IXGBE_WRITE_REG IXGBE_VFMAILBOX (v OR IXGBE_VFMAILBOX_REQ);
      ixgbe_release_mbx_lock_vf E 0 })
      (\<lambda>_ ws. \<exists>w. ws = [(IXGBE_VFMAILBOX, v OR IXGBE_VFMAILBOX_REQ),
         (IXGBE_VFMAILBOX, w AND NOT IXGBE_VFMAILBOX_VFU)])" for v
    by (intro performs_seq [OF performs_write_reg] performs_mono [OF release]) auto
  show ?thesis
    by (intro performs_seq [OF performs_silent [OF silent_status_vf(2)]]
          performs_seq [OF performs_silent [OF silent_status_vf(3)]]
          performs_seq [OF copy_to_mailbox_performs]
          performs_seq [OF performs_silent [OF silent_upd_mbx(6)]]
          performs_seq [OF performs_silent [OF silent_status_vf(1)]]
          performs_mono [OF finish]) auto
qed

lemma release_vf_frame_ops:
  "keeps frame (do {
      ixgbe_clear_msg_vf E; ixgbe_clear_ack_vf E; copy_to_mailbox IXGBE_VFMBMEM msg sz; inc_msgs_tx;
      v \<leftarrow> ixgbe_read_mailbox_vf E;
      IXGBE_WRITE_REG IXGBE_VFMAILBOX (v OR IXGBE_VFMAILBOX_REQ);
      ixgbe_release_mbx_lock_vf E 0 })"
  by (intro keeps_rules)

text \<open>C27: The VF send protocol of the current mailbox: when \<open>ixgbe_write_mbx_vf\<close> returns 0 on an adapter
  that is still present and whose acknowledge check is the VF one, the register writes it made are,
  in this order: one or more claims of the lock, each made with VFU set and PFU clear; the message,
  word k to mailbox memory slot k; the request bit; and the release of the lock with VFU clear.
  No other register is written, and the message is complete before the PF is notified.\<close>

theorem write_mbx_vf_protocol:
  assumes "run_state (ixgbe_write_mbx_vf E msg sz i) hw = (0, hw')" and "hw_addr hw' \<noteq> 0"
    and "op_check_for_ack (mbx_ops (mbx hw) 0) = Some Check_vf"
  shows "\<exists>claims v w. claims \<noteq> [] \<and> lock_claims claims \<and>
    mmio_writes (io hw') = mmio_writes (io hw) @ claims
      @ map (\<lambda>k. (IXGBE_VFMBMEM + push_bit 2 (of_nat k), msg ! k)) [0..<unat sz]
      @ [(IXGBE_VFMAILBOX, v OR IXGBE_VFMAILBOX_REQ),
         (IXGBE_VFMAILBOX, w AND NOT IXGBE_VFMAILBOX_VFU)]"
proof -
  let ?body = "do {
      ixgbe_clear_msg_vf E; ixgbe_clear_ack_vf E; copy_to_mailbox IXGBE_VFMBMEM msg sz; inc_msgs_tx;
      v \<leftarrow> ixgbe_read_mailbox_vf E;
      IXGBE_WRITE_REG IXGBE_VFMAILBOX (v OR IXGBE_VFMAILBOX_REQ);
      ixgbe_release_mbx_lock_vf E 0 }"
  obtain r hw1 where lock: "run_state (ixgbe_obtain_mbx_lock_vf E) hw = (r, hw1)" by fastforce
  obtain u hw2 where body: "run_state ?body hw1 = (u, hw2)" by (meson surj_pair)
  have r: "r = 0" and poll: "run_state (ixgbe_poll_for_ack E 0) hw2 = (0, hw')"
    using assms(1) lock body unfolding ixgbe_write_mbx_vf_def
    by (auto split: if_splits prod.splits)
  have "frame hw2 = frame hw"
    using keepsD [OF obtain_lock_frame(2) lock] keepsD [OF release_vf_frame_ops body] by simp
  then have "op_check_for_ack (mbx_ops (mbx hw2) 0) = Some Check_vf"
    using assms(3) by (simp add: frame_def)
  note quiet = poll_for_ack_vf_quiet [OF this poll assms(2)]
  note sent = performsD [OF write_mbx_vf_prefix body quiet(1)]
  note got = performsD [OF obtain_mbx_lock_vf_performs lock sent(1)]
  from got(2) sent(2) quiet(2) r show ?thesis by auto
qed

theorem write_mbx_vf_protocol_witness:
  "\<exists>claims v w. claims \<noteq> [] \<and>
    mmio_writes (io (snd (run_state (ixgbe_write_mbx_vf sample_env [7, 9] 2 0) sample_hw))) =
      claims @ [(0x200, 7), (0x204, 9), (IXGBE_VFMAILBOX, v OR IXGBE_VFMAILBOX_REQ),
        (IXGBE_VFMAILBOX, w AND NOT IXGBE_VFMAILBOX_VFU)]"
proof -
  let ?r = "run_state (ixgbe_write_mbx_vf sample_env [7, 9] 2 0) sample_hw"
  have "?r = (0, snd ?r)" by (rule prod_eqI) (code_simp, simp)
  moreover have "hw_addr (snd ?r) \<noteq> 0" by code_simp
  moreover have "op_check_for_ack (mbx_ops (mbx sample_hw) 0) = Some Check_vf"
    by (simp add: sample_hw_def sample_mbx_def)
  ultimately obtain claims v w where w: "claims \<noteq> []"
    "mmio_writes (io (snd ?r)) = mmio_writes (io sample_hw) @ claims
      @ map (\<lambda>k. (IXGBE_VFMBMEM + push_bit 2 (of_nat k), [7, 9] ! k)) [0..<unat (2 :: u16)]
      @ [(IXGBE_VFMAILBOX, v OR IXGBE_VFMAILBOX_REQ),
         (IXGBE_VFMAILBOX, w AND NOT IXGBE_VFMAILBOX_VFU)]"
    by (blast dest: write_mbx_vf_protocol)
  have "mmio_writes (io sample_hw) = []" by (simp add: sample_hw_def)
  moreover have "map (\<lambda>k. (IXGBE_VFMBMEM + push_bit 2 (of_nat k), [7, 9 :: u32] ! k))
    [0..<unat (2 :: u16)] = [(0x200, 7), (0x204, 9)]" by (simp add: upt_rec)
  ultimately have "mmio_writes (io (snd ?r)) = claims @ [(0x200, 7), (0x204, 9),
      (IXGBE_VFMAILBOX, v OR IXGBE_VFMAILBOX_REQ), (IXGBE_VFMAILBOX, w AND NOT IXGBE_VFMAILBOX_VFU)]"
    unfolding w(2) by (simp only: append.simps)
  with w(1) show ?thesis by blast
qed

subsection \<open>The VF read protocol\<close>

lemma read_reg_reported:
  assumes "reg \<noteq> IXGBE_VFSTATUS" and "hw_addr hw \<noteq> 0"
    and "run_state (ixgbe_read_reg E reg) hw = (r, hw')"
  shows "\<exists>evs. io hw' = evs @ io hw \<and> MMIO_Read reg r \<in> set evs"
proof -
  let ?v = "mmio E (io hw) reg"
  let ?hw = "hw\<lparr>io := MMIO_Read reg ?v # io hw\<rparr>"
  consider "?v = IXGBE_FAILED_READ_REG" | "?v = IXGBE_DEAD_READ_REG"
    | "?v \<noteq> IXGBE_FAILED_READ_REG \<and> ?v \<noteq> IXGBE_DEAD_READ_REG" by blast
  then show ?thesis
  proof cases
    case 1
    obtain evs where "io (snd (run_state (ixgbevf_check_remove E reg) ?hw)) = evs @ io ?hw"
      by (rule emitsE [OF read_reg_reads(2)])
    with 1 assms(2,3) show ?thesis
      by (intro exI [of _ "evs @ [MMIO_Read reg ?v]"])
         (auto simp: ixgbe_read_reg.simps [of E reg] readl_def log_io_def split: prod.splits)
  next
    case 2
    with assms(2,3) have "run_state (dead_read_loop E reg (Suc 9) 0) ?hw = (r, hw')"
      by (simp add: ixgbe_read_reg.simps [of E reg] readl_def log_io_def
            ixgbevf_validate_register_read_def del: dead_read_loop.simps)
    from dead_read_loop_reported [OF this] obtain evs where "io hw' = evs @ io ?hw"
      "MMIO_Read reg r \<in> set evs" by blast
    then show ?thesis by (intro exI [of _ "evs @ [MMIO_Read reg ?v]"]) auto
  next
    case 3
    with assms(2,3) show ?thesis
      by (intro exI [of _ "[MMIO_Read reg ?v]"])
         (auto simp: ixgbe_read_reg.simps [of E reg] readl_def log_io_def)
  qed
qed

lemma emitsD:
  assumes "emits Q m" and "run_state m hw = (a, hw')" and "io hw' = evs @ io hw"
  shows "list_all Q evs"
proof -
  obtain evs' where "io (snd (run_state m hw)) = evs' @ io hw" "list_all Q evs'"
    using assms(1) by (rule emitsE)
  then show ?thesis using assms(2,3) by simp
qed

text \<open>The words copied out of the mailbox are values the device reported for their slots.\<close>

lemma mapM_read_reported:
  assumes "run_state (mapM ks (\<lambda>k. ixgbe_read_reg E (f k))) hw = (ws, hw')" and "hw_addr hw' \<noteq> 0"
    and "\<And>k. k \<in> set ks \<Longrightarrow> f k \<noteq> IXGBE_VFSTATUS"
  shows "hw_addr hw \<noteq> 0 \<and> (\<exists>evs. io hw' = evs @ io hw \<and>
    (\<forall>j < length ks. MMIO_Read (f (ks ! j)) (ws ! j) \<in> set evs))"
  using assms
proof (induction ks arbitrary: hw ws)
  case Nil
  then show ?case by simp
next
  case (Cons k ks)
  from Cons.prems(1) obtain w hw1 ws' where 1: "run_state (ixgbe_read_reg E (f k)) hw = (w, hw1)"
    and 2: "run_state (mapM ks (\<lambda>k. ixgbe_read_reg E (f k))) hw1 = (ws', hw')" and ws: "ws = w # ws'"
    by (auto split: prod.splits)
  from Cons.IH [OF 2 Cons.prems(2)] Cons.prems(3) obtain evs where e: "hw_addr hw1 \<noteq> 0"
    "io hw' = evs @ io hw1" "\<And>j. j < length ks \<Longrightarrow> MMIO_Read (f (ks ! j)) (ws' ! j) \<in> set evs"
    by auto
  from performsD(1) [OF performs_silent [OF silent_leaves(1)] 1 e(1)] have live: "hw_addr hw \<noteq> 0" .
  from read_reg_reported [OF _ live 1] Cons.prems(3) obtain e1 where
    e1: "io hw1 = e1 @ io hw" "MMIO_Read (f k) w \<in> set e1" by auto
  have "MMIO_Read (f ((k # ks) ! j)) ((w # ws') ! j) \<in> set (evs @ e1)" if "j < Suc (length ks)" for j
    using that e1(2) e(3) by (cases j) auto
  with live e(2) e1(1) ws show ?case by (auto intro!: exI [of _ "evs @ e1"])
qed

lemma mbmem_not_status: "k < 16 \<Longrightarrow> IXGBE_VFMBMEM + push_bit 2 (of_nat k) \<noteq> IXGBE_VFSTATUS"
  by (simp add: word_unat_eq_iff unat_word_ariths push_bit_eq_mult unat_of_nat)

lemma silent_copy_from [performs_rules]: "silent (copy_from_mailbox E mem msg sz)"
  unfolding copy_from_mailbox_def by (intro performs_rules)

text \<open>C28: The VF receive protocol: when \<open>ixgbe_read_mbx_vf\<close> succeeds on an adapter that is still
  present, for a size within the 16 mailbox words, every word of the returned message up to the
  size is a value the device reported for that mailbox slot during the call, the rest of the buffer is
  unchanged, and the only register write is one acknowledge, made after the message was read.\<close>

theorem read_mbx_vf_protocol:
  assumes "run_state (ixgbe_read_mbx_vf E msg sz i) hw = ((0, msg'), hw')" and "hw_addr hw' \<noteq> 0"
    and "sz \<le> IXGBE_VFMAILBOX_SIZE"
  shows "\<exists>evs v. io hw' = evs @ io hw \<and>
    (\<forall>k < unat sz. MMIO_Read (IXGBE_VFMBMEM + push_bit 2 (of_nat k)) (msg' ! k) \<in> set evs) \<and>
    drop (unat sz) msg' = drop (unat sz) msg \<and>
    hd evs = MMIO_Write IXGBE_VFMAILBOX (v OR IXGBE_VFMAILBOX_ACK) \<and>
    list_all no_mmio_write (tl evs)"
proof -
  let ?rd = "\<lambda>k. ixgbe_read_reg E (IXGBE_VFMBMEM + push_bit 2 (of_nat k))"
  let ?pre = "do { r \<leftarrow> ixgbe_check_for_msg_vf E 0; ixgbe_clear_msg_vf E; ret r }"
  obtain r hw1 where pre: "run_state ?pre hw = (r, hw1)" by fastforce
  obtain ws hw2 where copy: "run_state (mapM [0..<unat sz] ?rd) hw1 = (ws, hw2)" by fastforce
  obtain v hw3 where st: "run_state (ixgbe_read_mailbox_vf E) hw2 = (v, hw3)" by fastforce
  obtain u hw4 where ack: "run_state (IXGBE_WRITE_REG IXGBE_VFMAILBOX (v OR IXGBE_VFMAILBOX_ACK)) hw3 = (u, hw4)"
    by (meson surj_pair)
  have end': "hw' = snd (run_state inc_msgs_rx hw4)" and msg': "msg' = ws @ drop (unat sz) msg"
    using assms(1) pre copy st ack
    by (auto simp: ixgbe_read_mbx_vf_def copy_from_mailbox_def IXGBE_READ_REG_ARRAY_def
          simp del: IXGBE_VFMBMEM_def IXGBE_VFMAILBOX_def split: if_splits prod.splits)
  have l4: "hw_addr hw4 \<noteq> 0" and io': "io hw' = io hw4"
    using assms(2) end' by (auto simp: inc_msgs_rx_def upd_stats_def upd_mbx_def)
  note l3 = performsD(1) [OF performs_write_reg ack l4]
  note l2 = performsD(1) [OF performs_silent [OF silent_status_vf(1)] st l3]
  have io4: "io hw4 = MMIO_Write IXGBE_VFMAILBOX (v OR IXGBE_VFMAILBOX_ACK) # io hw3"
    using write_reg_live [OF l3] ack by (auto simp del: IXGBE_VFMAILBOX_def)
  have len: "length ws = unat sz" using length_mapM [OF copy] by simp
  have "k < 16" if "k < unat sz" for k using that assms(3) by (simp add: word_le_nat_alt)
  then have "\<And>k. k \<in> set [0..<unat sz] \<Longrightarrow> IXGBE_VFMBMEM + push_bit 2 (of_nat k) \<noteq> IXGBE_VFSTATUS"
    using mbmem_not_status by simp
  from mapM_read_reported [OF copy l2 this] obtain e2 where e2: "io hw2 = e2 @ io hw1"
    "\<And>k. k < unat sz \<Longrightarrow> MMIO_Read (IXGBE_VFMBMEM + push_bit 2 (of_nat k)) (ws ! k) \<in> set e2"
    by auto
  have "emits no_mmio_write ?pre" by (intro emits_rules)
  then obtain e1 where e1: "io hw1 = e1 @ io hw" "list_all no_mmio_write e1"
    using pre by (metis emitsE snd_conv)
  have "emits no_mmio_write (mapM [0..<unat sz] ?rd)" by (intro emits_rules)
  then have "list_all no_mmio_write e2" using copy e2(1) by (rule emitsD)
  moreover obtain e3 where e3: "io hw3 = e3 @ io hw2" "list_all no_mmio_write e3"
    using st read_mailbox_vf_reads by (metis emitsE snd_conv)
  moreover have "ws ! k = msg' ! k" if "k < unat sz" for k
    using that len msg' by (simp add: nth_append)
  ultimately show ?thesis
    using io' io4 e1 e2 len msg'
    by (intro exI [of _ "MMIO_Write IXGBE_VFMAILBOX (v OR IXGBE_VFMAILBOX_ACK) # e3 @ e2 @ e1"]
          exI [of _ v]) auto
qed

definition sample_rx_env :: env where
  "sample_rx_env = sample_env\<lparr>mmio := (\<lambda>h r. if r = IXGBE_VFMAILBOX then 0x10 else r)\<rparr>"

theorem read_mbx_vf_protocol_witness:
  "\<exists>evs v. io (snd (run_state (ixgbe_read_mbx_vf sample_rx_env [0, 0, 5] 2 0) sample_hw)) = evs \<and>
    MMIO_Read 0x204 0x204 \<in> set evs \<and>
    hd evs = MMIO_Write IXGBE_VFMAILBOX (v OR IXGBE_VFMAILBOX_ACK)"
proof -
  let ?r = "run_state (ixgbe_read_mbx_vf sample_rx_env [0, 0, 5] 2 0) sample_hw"
  have "?r = ((0, [0x200, 0x204, 5]), snd ?r)" by (rule prod_eqI) (code_simp, simp)
  moreover have "hw_addr (snd ?r) \<noteq> 0" by code_simp
  moreover have "(2 :: u16) \<le> IXGBE_VFMAILBOX_SIZE" by simp
  ultimately obtain evs v where "io (snd ?r) = evs @ io sample_hw"
    and "\<forall>k < unat (2 :: u16). MMIO_Read (IXGBE_VFMBMEM + push_bit 2 (of_nat k)) ([0x200, 0x204, 5] ! k) \<in> set evs"
    and "hd evs = MMIO_Write IXGBE_VFMAILBOX (v OR IXGBE_VFMAILBOX_ACK)"
    by (blast dest: read_mbx_vf_protocol)
  then show ?thesis
    by (intro exI [of _ evs] exI [of _ v]) (auto simp: sample_hw_def dest: spec [of _ 1])
qed

subsection \<open>Notifications, waiting, logging\<close>

text \<open>C29: No notification is lost in the read-to-clear mailbox register: sending a message may consume
  message and acknowledge bits but never loses the PF's reset-done bit (bit 7); receiving a message
  loses neither the reset nor the acknowledge bit (bit 5); looking for a message loses nothing; and the
  checks for an acknowledge and for a reset each keep the bits of the other events. A bit that was
  cached, or that any read of the register reported during the call, is still cached after it.\<close>

theorem notifications_survive:
  "collects {7} (ixgbe_write_mbx_vf E msg sz i) \<and> collects {7} (ixgbe_write_mbx_vf_legacy E msg sz i) \<and>
   collects {5, 7} (ixgbe_read_mbx_vf E msg (min sz IXGBE_VFMAILBOX_SIZE) i) \<and>
   collects {4, 5, 7} (ixgbe_read_mbx_vf_legacy E msg (min sz IXGBE_VFMAILBOX_SIZE) i) \<and>
   collects {4, 5, 7} (ixgbe_check_for_msg_vf E i) \<and> collects {4, 7} (ixgbe_check_for_ack_vf E i) \<and>
   collects {4, 5} (ixgbe_check_for_rst_vf E i)"
  by (intro conjI collects_write_mbx_vf collects_read_mbx_vf collects_rules) auto

text \<open>Mailbox calls do not wait forever: with timeout t and delay d, a send through
  \<open>ixgbe_write_mbx\<close> or a polled receive through \<open>ixgbe_poll_mbx\<close> delays at most \<open>2*t*d\<close>
  microseconds in total, a request followed by its reply at most \<open>4*t*d\<close>, whatever the PF does, and
  none of them changes the timeout or the delay.\<close>

theorem mailbox_waiting_bounded:
  "takes t d (2 * unat t * unat d) (ixgbe_write_mbx E msg sz i) \<and>
   takes t d (2 * unat t * unat d) (ixgbe_poll_mbx E msg sz i) \<and>
   takes t d (2 * (2 * unat t * unat d))
     (exchange (\<lambda>msg sz. ixgbe_write_mbx E msg sz i) (\<lambda>msg sz. ixgbe_poll_mbx E msg sz i)
        msg retmsg sz)"
  by (intro conjI mbx_timed.send_takes mbx_timed.recv_takes mbx_timed.exchange_takes)

text \<open>The batched timeout log is exact: over any sequence of timeouts shorter than the
  32-bit counter's range, each one is accounted for exactly once, by a line of its own, by the count of
  a batched line, or in the counter of the timeouts that are still suppressed.\<close>

theorem timeout_log_exact:
  assumes "suppressed hw + length ids < 2 ^ 32"
  shows "let hw' = snd (run_state (for_each ids (ixgbe_mbx_log_timeout E)) hw) in
    logged_timeouts (io hw') + suppressed hw' =
     logged_timeouts (io hw) + suppressed hw + length ids"
  using log_timeouts_account [OF assms, of E] by (simp add: Let_def prod_eq_iff)

theorem timeout_log_exact_witness:
  "let hw' = snd (run_state (for_each [0, 0, 0] (ixgbe_mbx_log_timeout sample_env)) sample_hw) in
    logged_timeouts (io hw') + suppressed hw' = 3"
proof -
  have "suppressed sample_hw = 0" "logged_timeouts (io sample_hw) = 0"
    by (simp_all add: suppressed_def sample_hw_def sample_mbx_def)
  moreover from this(1) have "suppressed sample_hw + length [0, 0, 0 :: u16] < 2 ^ 32" by simp
  note timeout_log_exact [OF this, of sample_env]
  ultimately show ?thesis by (simp add: Let_def numeral_3_eq_3 del: for_each.simps)
qed

text \<open>The PF side keeps VFs apart: clearing the message or the acknowledge of VF i writes exactly
  one register, once, with the one write-1-to-clear bit of that VF, and the bits of different VFs, or
  of a message and an acknowledge, are never the same, so no event of another VF is cleared.\<close>

theorem pf_slots_isolated:
  "performs (ixgbe_clear_msg_pf E i) (\<lambda>_ ws. ws = [req_slot i]) \<and>
   performs (ixgbe_clear_ack_pf E i) (\<lambda>_ ws. ws = [ack_slot i]) \<and>
   (req_slot i = req_slot j \<longleftrightarrow> i = j) \<and> (ack_slot i = ack_slot j \<longleftrightarrow> i = j) \<and>
   req_slot i \<noteq> ack_slot j"
  using clear_pf_performs [of E i] slots_distinct [of i j] by blast

text \<open>The entry points reject bad requests without any effect: a message longer than the mailbox is
  refused with \<open>IXGBE_ERR_PARAM\<close>, and a missing operation or a zero timeout with \<open>IXGBE_ERR_CONFIG\<close>; in each of these cases
  the state, and with it the I/O history and the buffer, is unchanged.\<close>

theorem mailbox_entry_validation:
  "let ops = mbx_ops (mbx hw) i; unusable = (op_write ops = None \<or> op_check_for_ack ops = None \<or>
       op_release ops = None \<or> mbx_timeout (mbx hw) = 0) in
   (unusable \<longrightarrow> run_state (ixgbe_write_mbx E msg sz i) hw = (IXGBE_ERR_CONFIG, hw)) \<and>
   (\<not> unusable \<and> mbx_size (mbx hw) < sz \<longrightarrow>
      run_state (ixgbe_write_mbx E msg sz i) hw = (IXGBE_ERR_PARAM, hw)) \<and>
   (op_read ops = None \<or> op_check_for_msg ops = None \<or> mbx_timeout (mbx hw) = 0 \<longrightarrow>
      run_state (ixgbe_poll_mbx E msg sz i) hw = ((IXGBE_ERR_CONFIG, msg), hw))"
  by (auto simp: ixgbe_write_mbx_def ixgbe_poll_mbx_def Let_def split: option.split)

theorem mailbox_entry_validation_witness:
  "run_state (ixgbe_write_mbx sample_env [1] 17 0) sample_hw = (IXGBE_ERR_PARAM, sample_hw)"
proof -
  have "mbx_size (mbx sample_hw) < 17" "mbx_timeout (mbx sample_hw) \<noteq> 0"
    "op_write (mbx_ops (mbx sample_hw) 0) \<noteq> None" "op_release (mbx_ops (mbx sample_hw) 0) \<noteq> None"
    "op_check_for_ack (mbx_ops (mbx sample_hw) 0) \<noteq> None"
    by (simp_all add: sample_hw_def sample_mbx_def)
  then show ?thesis
    using mailbox_entry_validation [of sample_hw 0 sample_env "[1]" 17] by (simp add: Let_def)
qed

end
