(* ===== verification/Q_Vector.thy ===== *)
theory Q_Vector
  imports Mailbox_Props
begin

text \<open>
  The interrupt vector of \<open>ixgbevf.h\<close> and \<open>ixgbevf_main.c\<close>: the lock by which NAPI and busy-polling sockets share
  its rings (\<open>ixgbevf_qv_lock_napi\<close> and the other functions under \<open>HAVE_NDO_BUSY_POLL\<close>) as a state machine over
  all interleavings, and the dynamic interrupt throttling (\<open>ixgbevf_update_itr\<close>, \<open>ixgbevf_set_itr\<close>,
  \<open>ixgbevf_write_eitr\<close>). Every function on the lock word runs under a spin lock and is one atomic step.
\<close>

subsection \<open>Constants\<close>

definition IXGBEVF_QV_STATE_IDLE :: u32 where [simp]: "IXGBEVF_QV_STATE_IDLE = 0"
definition IXGBEVF_QV_STATE_NAPI :: u32 where [simp]: "IXGBEVF_QV_STATE_NAPI = 1"
definition IXGBEVF_QV_STATE_POLL :: u32 where [simp]: "IXGBEVF_QV_STATE_POLL = 2"
definition IXGBEVF_QV_STATE_DISABLED :: u32 where [simp]: "IXGBEVF_QV_STATE_DISABLED = 4"
definition IXGBEVF_QV_OWNED :: u32 where [simp]: "IXGBEVF_QV_OWNED = IXGBEVF_QV_STATE_NAPI OR IXGBEVF_QV_STATE_POLL"
definition IXGBEVF_QV_LOCKED :: u32 where [simp]: "IXGBEVF_QV_LOCKED = IXGBEVF_QV_OWNED OR IXGBEVF_QV_STATE_DISABLED"
definition IXGBEVF_QV_STATE_NAPI_YIELD :: u32 where [simp]: "IXGBEVF_QV_STATE_NAPI_YIELD = 8"
definition IXGBEVF_QV_STATE_POLL_YIELD :: u32 where [simp]: "IXGBEVF_QV_STATE_POLL_YIELD = 16"
definition IXGBEVF_QV_USER_PEND :: u32 where [simp]: "IXGBEVF_QV_USER_PEND = IXGBEVF_QV_STATE_POLL OR IXGBEVF_QV_STATE_POLL_YIELD"
definition IXGBE_MAX_EITR :: u32 where [simp]: "IXGBE_MAX_EITR = 0x00000FF8"
definition IXGBE_EITR_CNT_WDIS :: u32 where [simp]: "IXGBE_EITR_CNT_WDIS = 0x80000000"
definition IXGBE_100K_ITR :: u32 where [simp]: "IXGBE_100K_ITR = 40"
definition IXGBE_20K_ITR :: u32 where [simp]: "IXGBE_20K_ITR = 200"
definition IXGBE_12K_ITR :: u32 where [simp]: "IXGBE_12K_ITR = 336"
definition lowest_latency :: u8 where [simp]: "lowest_latency = 0"
definition low_latency :: u8 where [simp]: "low_latency = 1"
definition bulk_latency :: u8 where [simp]: "bulk_latency = 2"

subsection \<open>The lock\<close>

text \<open>Each function takes the lock word and returns the result, whether a \<open>WARN_ON\<close> fired, and the new word.\<close>

definition ixgbevf_qv_init_lock :: "u32 \<Rightarrow> u32" where
  "ixgbevf_qv_init_lock st = IXGBEVF_QV_STATE_IDLE"

definition ixgbevf_qv_lock_napi :: "u32 \<Rightarrow> bool \<times> bool \<times> u32" where
  "ixgbevf_qv_lock_napi st = (
     if st AND IXGBEVF_QV_LOCKED \<noteq> 0
     then (False, st AND IXGBEVF_QV_STATE_NAPI \<noteq> 0, st OR IXGBEVF_QV_STATE_NAPI_YIELD)
     else (True, False, IXGBEVF_QV_STATE_NAPI))"

definition ixgbevf_qv_unlock_napi :: "u32 \<Rightarrow> bool \<times> bool \<times> u32" where
  "ixgbevf_qv_unlock_napi st =
     (st AND IXGBEVF_QV_STATE_POLL_YIELD \<noteq> 0,
      st AND (IXGBEVF_QV_STATE_POLL OR IXGBEVF_QV_STATE_NAPI_YIELD) \<noteq> 0,
      st AND IXGBEVF_QV_STATE_DISABLED)"

definition ixgbevf_qv_lock_poll :: "u32 \<Rightarrow> bool \<times> bool \<times> u32" where
  "ixgbevf_qv_lock_poll st = (
     if st AND IXGBEVF_QV_LOCKED \<noteq> 0 then (False, False, st OR IXGBEVF_QV_STATE_POLL_YIELD)
     else (True, False, st OR IXGBEVF_QV_STATE_POLL))"

definition ixgbevf_qv_unlock_poll :: "u32 \<Rightarrow> bool \<times> bool \<times> u32" where
  "ixgbevf_qv_unlock_poll st =
     (st AND IXGBEVF_QV_STATE_POLL_YIELD \<noteq> 0, st AND IXGBEVF_QV_STATE_NAPI \<noteq> 0, st AND IXGBEVF_QV_STATE_DISABLED)"

definition ixgbevf_qv_busy_polling :: "u32 \<Rightarrow> bool \<times> bool" where
  "ixgbevf_qv_busy_polling st = (st AND IXGBEVF_QV_USER_PEND \<noteq> 0, st AND IXGBEVF_QV_OWNED = 0)"

definition ixgbevf_qv_disable :: "u32 \<Rightarrow> bool \<times> u32" where
  "ixgbevf_qv_disable st = (st AND IXGBEVF_QV_OWNED = 0, st OR IXGBEVF_QV_STATE_DISABLED)"

text \<open>
  The vector in its environment: the lock word, who runs inside (the NAPI context, at most one by the kernel's
  serialisation of a NAPI instance, and any number of polling sockets that got the lock), whether a warning has
  been printed, and whether \<open>ixgbevf_qv_disable\<close> has returned true since the lock was last initialised, which is what
  \<open>ixgbevf_napi_disable_all\<close> waits for before the vector is brought up again.
\<close>

record qv_sys =
  qv_word :: u32
  napi_in :: bool
  polls_in :: nat
  warned :: bool
  quiesced :: bool

inductive qv_step :: "qv_sys \<Rightarrow> qv_sys \<Rightarrow> bool" where
  lock_napi: "\<not> napi_in s \<Longrightarrow> ixgbevf_qv_lock_napi (qv_word s) = (rc, w, st) \<Longrightarrow>
    qv_step s (s\<lparr>qv_word := st, napi_in := rc, warned := warned s \<or> w\<rparr>)"
| unlock_napi: "napi_in s \<Longrightarrow> ixgbevf_qv_unlock_napi (qv_word s) = (rc, w, st) \<Longrightarrow>
    qv_step s (s\<lparr>qv_word := st, napi_in := False, warned := warned s \<or> w\<rparr>)"
| lock_poll: "ixgbevf_qv_lock_poll (qv_word s) = (rc, w, st) \<Longrightarrow>
    qv_step s (s\<lparr>qv_word := st, polls_in := polls_in s + (if rc then 1 else 0), warned := warned s \<or> w\<rparr>)"
| unlock_poll: "0 < polls_in s \<Longrightarrow> ixgbevf_qv_unlock_poll (qv_word s) = (rc, w, st) \<Longrightarrow>
    qv_step s (s\<lparr>qv_word := st, polls_in := polls_in s - 1, warned := warned s \<or> w\<rparr>)"
| disable: "ixgbevf_qv_disable (qv_word s) = (rc, st) \<Longrightarrow>
    qv_step s (s\<lparr>qv_word := st, quiesced := quiesced s \<or> rc\<rparr>)"
| enable: "quiesced s \<Longrightarrow> qv_step s (s\<lparr>qv_word := ixgbevf_qv_init_lock (qv_word s), quiesced := False\<rparr>)"

inductive_cases qv_stepE: "qv_step s s'"

definition qv_start :: qv_sys where
  "qv_start = \<lparr>qv_word = IXGBEVF_QV_STATE_IDLE, napi_in = False, polls_in = 0, warned = False, quiesced = False\<rparr>"

definition qv_inv :: "qv_sys \<Rightarrow> bool" where
  "qv_inv s \<longleftrightarrow> \<not> warned s \<and>
     (if napi_in s then polls_in s = 0 \<and> qv_word s \<in> {1, 5, 17, 21} \<and> \<not> quiesced s
      else if polls_in s = 0 then qv_word s \<in> {0, 4, 12, 20, 28} \<and> (quiesced s \<longrightarrow> qv_word s \<noteq> 0)
      else polls_in s = 1 \<and> qv_word s \<in> {2, 6, 10, 14, 18, 22, 26, 30} \<and> \<not> quiesced s)"

lemmas qv_lock_defs = ixgbevf_qv_lock_napi_def ixgbevf_qv_unlock_napi_def ixgbevf_qv_lock_poll_def ixgbevf_qv_unlock_poll_def
  ixgbevf_qv_disable_def ixgbevf_qv_init_lock_def

lemma qv_step_inv: "qv_inv s \<Longrightarrow> qv_step s s' \<Longrightarrow> qv_inv s'"
  by (erule qv_stepE) (auto simp: qv_inv_def qv_lock_defs split: if_splits)

lemma qv_reach_inv: "qv_step\<^sup>*\<^sup>* qv_start s \<Longrightarrow> qv_inv s"
  by (induction rule: rtranclp_induct) (auto simp: qv_start_def intro: qv_step_inv, simp add: qv_inv_def)

subsection \<open>Interrupt throttling\<close>

text \<open>The rings of a container are not part of this record; \<open>rc_ring\<close> says whether there are any.\<close>

record ixgbevf_ring_container =
  rc_ring :: bool
  rc_total_bytes :: u32
  rc_total_packets :: u32
  rc_count :: u8
  rc_itr :: u8

record ixgbevf_q_vector =
  v_idx :: u16
  qv_itr :: u16
  qv_rx :: ixgbevf_ring_container
  qv_tx :: ixgbevf_ring_container

text \<open>\<open>None\<close> is the trap of a division by zero.\<close>

definition ixgbevf_update_itr :: "u16 \<Rightarrow> ixgbevf_ring_container \<Rightarrow> ixgbevf_ring_container option" where
  "ixgbevf_update_itr itr rc = (
     if rc_total_packets rc = 0 then Some rc
     else
       let timepassed_us = drop_bit 2 (ucast itr :: u32) in
       if timepassed_us = 0 then None
       else
         let bytes_perint = (ucast (rc_total_bytes rc div timepassed_us) :: u64);
             itr_setting =
               (if rc_itr rc = lowest_latency then (if bytes_perint > 10 then low_latency else rc_itr rc)
                else if rc_itr rc = low_latency then
                  (if bytes_perint > 20 then bulk_latency else if bytes_perint \<le> 10 then lowest_latency else rc_itr rc)
                else if rc_itr rc = bulk_latency then (if bytes_perint \<le> 20 then low_latency else rc_itr rc)
                else rc_itr rc)
         in Some (rc\<lparr>rc_total_bytes := 0, rc_total_packets := 0, rc_itr := itr_setting\<rparr>))"

definition ixgbevf_write_eitr :: "ixgbevf_q_vector \<Rightarrow> unit hwop" where
  "ixgbevf_write_eitr q = do {
     let itr_reg = (ucast (qv_itr q) :: u32) AND IXGBE_MAX_EITR;
     let itr_reg = itr_reg OR IXGBE_EITR_CNT_WDIS;
     IXGBE_WRITE_REG (IXGBE_VTEITR (ucast (v_idx q))) itr_reg }"

definition ixgbevf_set_itr :: "ixgbevf_q_vector \<Rightarrow> ixgbevf_q_vector option hwop" where
  "ixgbevf_set_itr q = (
     case ixgbevf_update_itr (qv_itr q) (qv_tx q) of None \<Rightarrow> ret None
     | Some tx \<Rightarrow> (case ixgbevf_update_itr (qv_itr q) (qv_rx q) of None \<Rightarrow> ret None
     | Some rx \<Rightarrow> do {
         let q = q\<lparr>qv_tx := tx, qv_rx := rx\<rparr>;
         let current_itr = max (rc_itr rx) (rc_itr tx);
         let new_itr = (if current_itr = lowest_latency then IXGBE_100K_ITR
           else if current_itr = low_latency then IXGBE_20K_ITR
           else if current_itr = bulk_latency then IXGBE_12K_ITR
           else ucast (qv_itr q));
         if new_itr \<noteq> ucast (qv_itr q) then do {
           let new_itr = (10 * new_itr * ucast (qv_itr q)) div ((9 * new_itr) + ucast (qv_itr q));
           let q = q\<lparr>qv_itr := ucast new_itr\<rparr>;
           ixgbevf_write_eitr q;
           ret (Some q)
         } else ret (Some q) }))"

text \<open>Exponential smoothing stays between the old value and the target.\<close>

lemma smooth_between:
  assumes "0 < (a :: nat)" and "0 < b"
  shows "min a b \<le> 10 * a * b div (9 * a + b) \<and> 10 * a * b div (9 * a + b) \<le> max a b"
proof -
  have p: "0 < 9 * a + b" using assms by simp
  have "min a b * (9 * a + b) \<le> 10 * a * b"
  proof (cases "a \<le> b")
    case True
    then have "a * (9 * a + b) \<le> a * (10 * b)" by (intro mult_le_mono2) simp
    then show ?thesis using True by (simp add: algebra_simps)
  next
    case False
    then have "b * (9 * a + b) \<le> b * (10 * a)" by (intro mult_le_mono2) simp
    then show ?thesis using False by (simp add: algebra_simps)
  qed
  then have 1: "min a b \<le> 10 * a * b div (9 * a + b)" using p by (simp add: less_eq_div_iff_mult_less_eq)
  have "10 * a * b \<le> max a b * (9 * a + b)"
  proof (cases "a \<le> b")
    case True
    then have "b * (10 * a) \<le> b * (9 * a + b)" by (intro mult_le_mono2) simp
    then show ?thesis using True by (simp add: algebra_simps)
  next
    case False
    then have "a * (10 * b) \<le> a * (9 * a + b)" by (intro mult_le_mono2) simp
    then show ?thesis using False by (simp add: algebra_simps)
  qed
  then have "10 * a * b div (9 * a + b) \<le> max a b"
    using div_le_mono [of "10 * a * b" "max a b * (9 * a + b)" "9 * a + b"] p by (simp split: if_splits)
  with 1 show ?thesis by simp
qed

lemma smooth_word:
  assumes a: "40 \<le> unat (a :: u32)" "unat a \<le> 336" and b: "40 \<le> unat (b :: u16)" "unat b \<le> 336"
  shows "unat (ucast ((10 * a * ucast b) div (9 * a + ucast b)) :: u16) = 10 * unat a * unat b div (9 * unat a + unat b)"
proof -
  have ub: "unat (ucast b :: u32) = unat b" by simp
  have m: "unat a * unat b \<le> 336 * 336" using a b by (intro mult_le_mono) simp_all
  have "unat (10 * a * ucast b) = 10 * unat a * unat b"
    using m a ub by (simp add: unat_word_ariths)
  moreover have "unat (9 * a + ucast b) = 9 * unat a + unat b" using a b by (simp add: unat_word_ariths)
  ultimately have e: "unat ((10 * a * ucast b) div (9 * a + ucast b)) = 10 * unat a * unat b div (9 * unat a + unat b)"
    by (simp add: unat_div)
  have "10 * unat a * unat b div (9 * unat a + unat b) \<le> 336"
    using smooth_between [of "unat a" "unat b"] a b by auto
  then show ?thesis using e by (simp add: unsigned_ucast_eq take_bit_nat_eq_self)
qed

lemma update_itr_level:
  assumes "4 \<le> unat itr" and "rc_itr rc \<le> 2"
  shows "\<exists>rc'. ixgbevf_update_itr itr rc = Some rc' \<and> rc_itr rc' \<le> 2"
proof -
  have "unat (drop_bit 2 (ucast itr :: u32)) = unat itr div 4" by (simp add: drop_bit_eq_div unat_div)
  then have "drop_bit 2 (ucast itr :: u32) \<noteq> 0" using assms(1) by auto
  moreover have "rc_itr rc = 0 \<or> rc_itr rc = 1 \<or> rc_itr rc = 2"
  proof -
    have "unat (rc_itr rc) \<le> 2" using assms(2) by (simp add: word_le_nat_alt)
    then have "unat (rc_itr rc) = 0 \<or> unat (rc_itr rc) = 1 \<or> unat (rc_itr rc) = 2" by linarith
    then show ?thesis by (auto simp: word_unat_eq_iff)
  qed
  ultimately show ?thesis by (auto simp: ixgbevf_update_itr_def Let_def)
qed

definition itr_target :: "u8 \<Rightarrow> nat" where
  "itr_target level = (if level = 0 then 40 else if level = 1 then 200 else 336)"

definition throttled :: "ixgbevf_q_vector \<Rightarrow> bool" where
  "throttled q \<longleftrightarrow> 40 \<le> unat (qv_itr q) \<and> unat (qv_itr q) \<le> 336 \<and> rc_itr (qv_tx q) \<le> 2 \<and> rc_itr (qv_rx q) \<le> 2"

text \<open>C37: Dynamic interrupt throttling stays in range. From a throttle value between 40 and 336 (the 10 and 84
  microseconds of the fastest and slowest setting) \<open>ixgbevf_set_itr\<close> never divides by zero, the new value
  lies between the old one and the target of the new level, hence again between 40 and 336, the levels
  stay among the three defined ones, and the register is written exactly when the value was recomputed.\<close>

theorem set_itr_in_range:
  assumes q: "throttled q" and run: "run_state (ixgbevf_set_itr q) hw = (res, hw')"
  shows "\<exists>q' t. res = Some q' \<and> throttled q' \<and> t = itr_target (max (rc_itr (qv_rx q')) (rc_itr (qv_tx q'))) \<and>
    min (unat (qv_itr q)) t \<le> unat (qv_itr q') \<and> unat (qv_itr q') \<le> max (unat (qv_itr q)) t \<and>
    run_state (if unat (qv_itr q) = t then ret () else ixgbevf_write_eitr q') hw = ((), hw')"
proof -
  obtain tx rx where tx: "ixgbevf_update_itr (qv_itr q) (qv_tx q) = Some tx" "rc_itr tx \<le> 2"
    and rx: "ixgbevf_update_itr (qv_itr q) (qv_rx q) = Some rx" "rc_itr rx \<le> 2"
  proof -
    have "4 \<le> unat (qv_itr q)" "rc_itr (qv_tx q) \<le> 2" "rc_itr (qv_rx q) \<le> 2" using q by (simp_all add: throttled_def)
    then show ?thesis using that update_itr_level by metis
  qed
  define l where "l = max (rc_itr rx) (rc_itr tx)"
  have l: "l = 0 \<or> l = 1 \<or> l = 2"
  proof -
    have "unat l \<le> 2" using tx(2) rx(2) by (auto simp: l_def word_le_nat_alt max_def)
    then have "unat l = 0 \<or> unat l = 1 \<or> unat l = 2" by linarith
    then show ?thesis by (auto simp: word_unat_eq_iff)
  qed
  define t :: u32 where "t = (if l = 0 then 40 else if l = 1 then 200 else 336)"
  have t: "unat t = itr_target l" "40 \<le> unat t" "unat t \<le> 336" by (simp_all add: t_def itr_target_def)
  have b: "40 \<le> unat (qv_itr q)" "unat (qv_itr q) \<le> 336" using q by (simp_all add: throttled_def)
  define v :: u16 where "v = ucast ((10 * t * ucast (qv_itr q)) div (9 * t + ucast (qv_itr q)))"
  have v: "min (unat (qv_itr q)) (unat t) \<le> unat v" "unat v \<le> max (unat (qv_itr q)) (unat t)"
    using smooth_word [OF t(2,3) b] smooth_between [of "unat t" "unat (qv_itr q)"] t b by (auto simp: v_def)
  let ?q = "q\<lparr>qv_tx := tx, qv_rx := rx\<rparr>"
  have eq: "run_state (ixgbevf_set_itr q) hw =
      (if t = ucast (qv_itr q) then (Some ?q, hw) else (Some (?q\<lparr>qv_itr := v\<rparr>), snd (run_state (ixgbevf_write_eitr (?q\<lparr>qv_itr := v\<rparr>)) hw)))"
    using l by (auto simp: ixgbevf_set_itr_def tx rx Let_def l_def [symmetric] t_def v_def split: prod.splits)
  have tq: "t = ucast (qv_itr q) \<longleftrightarrow> unat (qv_itr q) = unat t"
    by (auto simp: word_unat_eq_iff)
  show ?thesis
  proof (cases "t = ucast (qv_itr q)")
    case True
    then show ?thesis using eq run tq t b tx rx
      by (intro exI [of _ ?q] exI [of _ "unat t"]) (simp add: throttled_def l_def)
  next
    case False
    then have "res = Some (?q\<lparr>qv_itr := v\<rparr>)" "hw' = snd (run_state (ixgbevf_write_eitr (?q\<lparr>qv_itr := v\<rparr>)) hw)"
      using eq run by simp_all
    then show ?thesis using False tq t b tx rx v
      by (intro exI [of _ "?q\<lparr>qv_itr := v\<rparr>"] exI [of _ "unat t"]) (auto simp: throttled_def l_def prod_eq_iff)
  qed
qed

definition sample_rc :: ixgbevf_ring_container where
  "sample_rc = \<lparr>rc_ring = True, rc_total_bytes = 90000, rc_total_packets = 60, rc_count = 1, rc_itr = 1\<rparr>"

definition sample_qv :: ixgbevf_q_vector where
  "sample_qv = \<lparr>v_idx = 0, qv_itr = 200, qv_rx = sample_rc, qv_tx = sample_rc\<rparr>"

theorem set_itr_in_range_witness:
  "\<exists>q'. fst (run_state (ixgbevf_set_itr sample_qv) sample_hw) = Some q' \<and> 200 \<le> unat (qv_itr q') \<and> unat (qv_itr q') \<le> 336"
proof -
  have "throttled sample_qv" by (simp add: throttled_def sample_qv_def sample_rc_def)
  from set_itr_in_range [OF this surjective_pairing, of sample_hw] obtain q' t where
    q': "fst (run_state (ixgbevf_set_itr sample_qv) sample_hw) = Some q'" "throttled q'"
    "t = itr_target (max (rc_itr (qv_rx q')) (rc_itr (qv_tx q')))" "min (unat (qv_itr sample_qv)) t \<le> unat (qv_itr q')" by blast
  have "rc_itr (qv_rx q') = 2"
  proof -
    have "ixgbevf_update_itr 200 sample_rc = Some (sample_rc\<lparr>rc_total_bytes := 0, rc_total_packets := 0, rc_itr := 2\<rparr>)" by code_simp
    then show ?thesis using q'(1) by (auto simp: ixgbevf_set_itr_def sample_qv_def Let_def split: if_splits prod.splits)
  qed
  then have "200 \<le> t" using q'(3) by (auto simp: itr_target_def max_def)
  then show ?thesis using q' by (auto simp: throttled_def sample_qv_def)
qed

text \<open>C26: Mutual exclusion on a vector. Over every interleaving of NAPI, any number of busy-polling sockets, disabling
  and re-enabling, at most one of them is inside the vector's rings, the lock word says who, none of the
  warnings of the lock functions ever fires, and once \<open>ixgbevf_qv_disable\<close> has returned true nobody is inside
  until the lock is initialised again.\<close>

theorem qv_mutual_exclusion:
  assumes "qv_step\<^sup>*\<^sup>* qv_start s"
  shows "polls_in s + (if napi_in s then 1 else 0) \<le> 1 \<and> \<not> warned s \<and>
    (napi_in s \<longleftrightarrow> qv_word s AND IXGBEVF_QV_STATE_NAPI \<noteq> 0) \<and> (0 < polls_in s \<longleftrightarrow> qv_word s AND IXGBEVF_QV_STATE_POLL \<noteq> 0) \<and>
    (quiesced s \<longrightarrow> \<not> napi_in s \<and> polls_in s = 0 \<and> \<not> fst (ixgbevf_qv_lock_napi (qv_word s)) \<and> \<not> fst (ixgbevf_qv_lock_poll (qv_word s)))"
  using qv_reach_inv [OF assms] by (auto simp: qv_inv_def qv_lock_defs split: if_splits)

theorem qv_mutual_exclusion_witness:
  "\<exists>s. qv_step\<^sup>*\<^sup>* qv_start s \<and> napi_in s \<and> \<not> fst (ixgbevf_qv_lock_poll (qv_word s)) \<and> polls_in s = 0"
proof -
  let ?s = "qv_start\<lparr>qv_word := 1, napi_in := True, warned := False\<rparr>"
  have "qv_step qv_start (qv_start\<lparr>qv_word := 1, napi_in := True, warned := warned qv_start \<or> False\<rparr>)"
    by (rule qv_step.lock_napi) (simp_all add: qv_start_def ixgbevf_qv_lock_napi_def)
  then have st: "qv_step\<^sup>*\<^sup>* qv_start ?s" by (simp add: qv_start_def)
  then show ?thesis using qv_mutual_exclusion [OF st] by (intro exI [of _ ?s]) (simp add: qv_lock_defs)
qed

end
