(* ===== verification/Ledger.thy ===== *)
theory Ledger
  imports Main "HOL-Library.Multiset"
begin

text \<open>
  Accounting for a resource that a component acquires and gives back: DMA mappings of a ring. The
  interface: a component has states with an invariant \<open>ok\<close>, steps, and for each state the list of
  resources \<open>made\<close> and \<open>undone\<close> so far and the list \<open>live\<close> that the state still records. What the provider
  promises is that every step keeps the invariant and that in a good state the three balance.
\<close>

locale ledger =
  fixes ok :: "'s \<Rightarrow> bool" and step :: "'s \<Rightarrow> 's \<Rightarrow> bool"
    and made :: "'s \<Rightarrow> 'm list" and undone :: "'s \<Rightarrow> 'm list" and live :: "'s \<Rightarrow> 'm list"
  assumes step_ok: "ok s \<Longrightarrow> step s s' \<Longrightarrow> ok s'"
    and balance: "ok s \<Longrightarrow> mset (made s) = mset (undone s) + mset (live s)"
begin

lemma reach_ok: "step\<^sup>*\<^sup>* s s' \<Longrightarrow> ok s \<Longrightarrow> ok s'"
  by (induction rule: rtranclp_induct) (auto intro: step_ok)

lemma reach_balance: "step\<^sup>*\<^sup>* s s' \<Longrightarrow> ok s \<Longrightarrow> mset (made s') = mset (undone s') + mset (live s')"
  by (rule balance [OF reach_ok])

lemma undone_was_made: "step\<^sup>*\<^sup>* s s' \<Longrightarrow> ok s \<Longrightarrow> mset (undone s') \<subseteq># mset (made s')"
  by (simp add: reach_balance)

lemma no_leak: "step\<^sup>*\<^sup>* s s' \<Longrightarrow> ok s \<Longrightarrow> live s' = [] \<Longrightarrow> mset (made s') = mset (undone s')"
  by (simp add: reach_balance)

end

lemma mset_rotate_list: "mset (rotate k xs) = mset xs"
  by (simp add: rotate_drop_take) (metis append_take_drop_id mset_append union_commute)

lemma mset_concat_map_cong: "mset xs = mset ys \<Longrightarrow> mset (concat (map f xs)) = mset (concat (map f ys))"
proof -
  have *: "mset (concat (map f zs)) = \<Sum>\<^sub># (image_mset (\<lambda>x. mset (f x)) (mset zs))" for zs
    by (induction zs) simp_all
  assume "mset xs = mset ys"
  then show ?thesis by (simp only: *)
qed

end
