(* ===== verification/Mac_VF.thy ===== *)
theory Mac_VF
  imports Mailbox_Facts
begin

text \<open>
  \<open>ixgbe_vf.c\<close>: the MAC operations of a virtual function. Most of them are requests to the
  physical function over the mailbox: build a message, exchange it, interpret the reply.

  Conventions. Output pointers are extra components of the result, with the value before the
  call as an argument where the code may leave them unwritten; \<open>link_up\<close> may be \<open>NULL\<close>, which
  is \<open>None\<close>. A stack buffer that the code does not initialise is a function \<open>stk\<close> from its
  indices to arbitrary words. Byte views of message words are little-endian.
\<close>

subsection \<open>Constants\<close>

definition IXGBE_VF_RESET :: u32 where [simp]: "IXGBE_VF_RESET = 0x01"
definition IXGBE_VF_SET_MAC_ADDR :: u32 where [simp]: "IXGBE_VF_SET_MAC_ADDR = 0x02"
definition IXGBE_VF_SET_MULTICAST :: u32 where [simp]: "IXGBE_VF_SET_MULTICAST = 0x03"
definition IXGBE_VF_SET_VLAN :: u32 where [simp]: "IXGBE_VF_SET_VLAN = 0x04"
definition IXGBE_VF_SET_LPE :: u32 where [simp]: "IXGBE_VF_SET_LPE = 0x05"
definition IXGBE_VF_SET_MACVLAN :: u32 where [simp]: "IXGBE_VF_SET_MACVLAN = 0x06"
definition IXGBE_VF_API_NEGOTIATE :: u32 where [simp]: "IXGBE_VF_API_NEGOTIATE = 0x08"
definition IXGBE_VF_GET_QUEUES :: u32 where [simp]: "IXGBE_VF_GET_QUEUES = 0x09"
definition IXGBE_VF_UPDATE_XCAST_MODE :: u32 where [simp]: "IXGBE_VF_UPDATE_XCAST_MODE = 0x0c"
definition IXGBE_VF_GET_LINK_STATE :: u32 where [simp]: "IXGBE_VF_GET_LINK_STATE = 0x10"
definition IXGBE_VF_GET_PF_LINK_STATE :: u32 where [simp]: "IXGBE_VF_GET_PF_LINK_STATE = 0x11"
definition IXGBE_VF_FEATURES_NEGOTIATE :: u32 where [simp]: "IXGBE_VF_FEATURES_NEGOTIATE = 0x12"
definition IXGBEVF_SUPPORTED_FEATURES :: u32 where [simp]: "IXGBEVF_SUPPORTED_FEATURES = 2"

definition IXGBE_VF_TX_QUEUES :: nat where [simp]: "IXGBE_VF_TX_QUEUES = 1"
definition IXGBE_VF_RX_QUEUES :: nat where [simp]: "IXGBE_VF_RX_QUEUES = 2"
definition IXGBE_VF_TRANS_VLAN :: nat where [simp]: "IXGBE_VF_TRANS_VLAN = 3"
definition IXGBE_VF_DEF_QUEUE :: nat where [simp]: "IXGBE_VF_DEF_QUEUE = 4"
definition IXGBE_VF_PERMADDR_MSG_LEN :: u16 where [simp]: "IXGBE_VF_PERMADDR_MSG_LEN = 4"
definition IXGBE_VF_MC_TYPE_WORD :: nat where [simp]: "IXGBE_VF_MC_TYPE_WORD = 3"
definition IXGBE_VF_MAX_TX_QUEUES :: u32 where [simp]: "IXGBE_VF_MAX_TX_QUEUES = 8"
definition IXGBE_VF_MAX_RX_QUEUES :: u32 where [simp]: "IXGBE_VF_MAX_RX_QUEUES = 8"
definition IXGBE_VF_IRQ_CLEAR_MASK :: u32 where [simp]: "IXGBE_VF_IRQ_CLEAR_MASK = 7"
definition IXGBE_VF_INIT_TIMEOUT :: nat where [simp]: "IXGBE_VF_INIT_TIMEOUT = 200"

definition IXGBE_CTRL_RST :: u32 where [simp]: "IXGBE_CTRL_RST = 0x04000000"
definition IXGBE_TXDCTL_ENABLE :: u32 where [simp]: "IXGBE_TXDCTL_ENABLE = 0x02000000"
definition IXGBE_TXDCTL_SWFLSH :: u32 where [simp]: "IXGBE_TXDCTL_SWFLSH = 0x04000000"
definition IXGBE_RXDCTL_ENABLE :: u32 where [simp]: "IXGBE_RXDCTL_ENABLE = 0x02000000"
definition IXGBE_RXDCTL_RLPMLMASK :: u32 where [simp]: "IXGBE_RXDCTL_RLPMLMASK = 0x3FFF"
definition IXGBE_RXDCTL_RLPML_EN :: u32 where [simp]: "IXGBE_RXDCTL_RLPML_EN = 0x8000"
definition IXGBE_RXDCTL_VME :: u32 where [simp]: "IXGBE_RXDCTL_VME = 0x40000000"
definition IXGBE_SRRCTL_BSIZEPKT_SHIFT :: nat where [simp]: "IXGBE_SRRCTL_BSIZEPKT_SHIFT = 10"
definition IXGBE_SRRCTL_BSIZEHDRSIZE_SHIFT :: nat where
  [simp]: "IXGBE_SRRCTL_BSIZEHDRSIZE_SHIFT = 2"
definition IXGBE_DCA_RXCTRL_DESC_RRO_EN :: u32 where [simp]: "IXGBE_DCA_RXCTRL_DESC_RRO_EN = 0x200"
definition IXGBE_DCA_RXCTRL_DATA_WRO_EN :: u32 where [simp]: "IXGBE_DCA_RXCTRL_DATA_WRO_EN = 0x2000"
definition IXGBE_DCA_RXCTRL_HEAD_WRO_EN :: u32 where [simp]: "IXGBE_DCA_RXCTRL_HEAD_WRO_EN = 0x8000"
definition IXGBE_DCA_TXCTRL_DESC_RRO_EN :: u32 where [simp]: "IXGBE_DCA_TXCTRL_DESC_RRO_EN = 0x200"
definition IXGBE_DCA_TXCTRL_DESC_WRO_EN :: u32 where [simp]: "IXGBE_DCA_TXCTRL_DESC_WRO_EN = 0x800"
definition IXGBE_DCA_TXCTRL_DATA_RRO_EN :: u32 where [simp]: "IXGBE_DCA_TXCTRL_DATA_RRO_EN = 0x2000"

definition IXGBE_LINKS_UP :: u32 where [simp]: "IXGBE_LINKS_UP = 0x40000000"
definition IXGBE_LINKS_SPEED_NON_STD :: u32 where [simp]: "IXGBE_LINKS_SPEED_NON_STD = 0x08000000"
definition IXGBE_LINKS_SPEED_82599 :: u32 where [simp]: "IXGBE_LINKS_SPEED_82599 = 0x30000000"
definition IXGBE_LINKS_SPEED_10G_82599 :: u32 where [simp]: "IXGBE_LINKS_SPEED_10G_82599 = 0x30000000"
definition IXGBE_LINKS_SPEED_1G_82599 :: u32 where [simp]: "IXGBE_LINKS_SPEED_1G_82599 = 0x20000000"
definition IXGBE_LINKS_SPEED_100_82599 :: u32 where [simp]: "IXGBE_LINKS_SPEED_100_82599 = 0x10000000"
definition IXGBE_LINKS_SPEED_10_X550EM_A :: u32 where [simp]: "IXGBE_LINKS_SPEED_10_X550EM_A = 0"
definition IXGBE_LINK_SPEED_UNKNOWN :: u32 where [simp]: "IXGBE_LINK_SPEED_UNKNOWN = 0"
definition IXGBE_LINK_SPEED_10_FULL :: u32 where [simp]: "IXGBE_LINK_SPEED_10_FULL = 0x0002"
definition IXGBE_LINK_SPEED_100_FULL :: u32 where [simp]: "IXGBE_LINK_SPEED_100_FULL = 0x0008"
definition IXGBE_LINK_SPEED_1GB_FULL :: u32 where [simp]: "IXGBE_LINK_SPEED_1GB_FULL = 0x0020"
definition IXGBE_LINK_SPEED_2_5GB_FULL :: u32 where [simp]: "IXGBE_LINK_SPEED_2_5GB_FULL = 0x0400"
definition IXGBE_LINK_SPEED_5GB_FULL :: u32 where [simp]: "IXGBE_LINK_SPEED_5GB_FULL = 0x0800"
definition IXGBE_LINK_SPEED_10GB_FULL :: u32 where [simp]: "IXGBE_LINK_SPEED_10GB_FULL = 0x0080"

text \<open>\<open>enum ixgbe_pfvf_api_rev\<close> and \<open>enum ixgbevf_xcast_modes\<close>, as the integers the code compares.\<close>

definition ixgbe_mbox_api_10 :: int where [simp]: "ixgbe_mbox_api_10 = 0"
definition ixgbe_mbox_api_20 :: int where [simp]: "ixgbe_mbox_api_20 = 1"
definition ixgbe_mbox_api_11 :: int where [simp]: "ixgbe_mbox_api_11 = 2"
definition ixgbe_mbox_api_12 :: int where [simp]: "ixgbe_mbox_api_12 = 3"
definition ixgbe_mbox_api_13 :: int where [simp]: "ixgbe_mbox_api_13 = 4"
definition ixgbe_mbox_api_14 :: int where [simp]: "ixgbe_mbox_api_14 = 5"
definition ixgbe_mbox_api_15 :: int where [simp]: "ixgbe_mbox_api_15 = 6"
definition ixgbe_mbox_api_16 :: int where [simp]: "ixgbe_mbox_api_16 = 7"
definition ixgbe_mbox_api_17 :: int where [simp]: "ixgbe_mbox_api_17 = 8"
definition ixgbe_mbox_api_unknown :: int where [simp]: "ixgbe_mbox_api_unknown = 9"

definition IXGBEVF_XCAST_MODE_NONE :: int where [simp]: "IXGBEVF_XCAST_MODE_NONE = 0"
definition IXGBEVF_XCAST_MODE_MULTI :: int where [simp]: "IXGBEVF_XCAST_MODE_MULTI = 1"
definition IXGBEVF_XCAST_MODE_ALLMULTI :: int where [simp]: "IXGBEVF_XCAST_MODE_ALLMULTI = 2"
definition IXGBEVF_XCAST_MODE_PROMISC :: int where [simp]: "IXGBEVF_XCAST_MODE_PROMISC = 3"

subsection \<open>Byte views of message words\<close>

definition le32 :: "u8 \<Rightarrow> u8 \<Rightarrow> u8 \<Rightarrow> u8 \<Rightarrow> u32" where
  "le32 a b c d = ucast a OR push_bit 8 (ucast b) OR push_bit 16 (ucast c) OR push_bit 24 (ucast d)"

definition byte_of :: "nat \<Rightarrow> u32 \<Rightarrow> u8" where
  "byte_of i w = ucast (drop_bit (8 * i) w)"

text \<open>\<open>memcpy\<close> of six address bytes into two zeroed words, and back.\<close>

definition addr_words :: "u8 list \<Rightarrow> u32 list" where
  "addr_words a = [le32 (a ! 0) (a ! 1) (a ! 2) (a ! 3), le32 (a ! 4) (a ! 5) 0 0]"

definition words_addr :: "u32 \<Rightarrow> u32 \<Rightarrow> u8 list" where
  "words_addr w1 w2 = [byte_of 0 w1, byte_of 1 w1, byte_of 2 w1, byte_of 3 w1,
     byte_of 0 w2, byte_of 1 w2]"

text \<open>Store of a \<open>u16\<close> into half \<open>i\<close> of a word array.\<close>

definition set_half :: "u32 list \<Rightarrow> nat \<Rightarrow> u16 \<Rightarrow> u32 list" where
  "set_half ws i v = ws[i div 2 := (if i mod 2 = 0
     then (ws ! (i div 2) AND 0xFFFF0000) OR ucast v
     else (ws ! (i div 2) AND 0x0000FFFF) OR push_bit 16 (ucast v))]"

subsection \<open>Updates of the MAC structure\<close>

definition upd_mac :: "(ixgbe_mac_info \<Rightarrow> ixgbe_mac_info) \<Rightarrow> unit hwop" where
  "upd_mac f = modify (\<lambda>hw. hw\<lparr>mac := f (mac hw)\<rparr>)"

subsection \<open>Operation table\<close>

definition ixgbe_init_ops_vf :: "s32 hwop" where
  "ixgbe_init_ops_vf = do {
     upd_mac (\<lambda>m. m\<lparr>mac_ops := \<lparr>
       op_init_hw = Some Native_fn,
       op_reset_hw = Some Reset_hw_vf,
       op_start_hw = Some Native_fn,
       op_get_mac_addr = Some Native_fn,
       op_stop_adapter = Some Native_fn,
       op_negotiate_api_version = Some Native_fn,
       op_negotiate_features = Some Native_fn,
       op_setup_link = Some Native_fn,
       op_check_link = Some Check_mac_link_vf,
       op_set_rar = Some Native_fn,
       op_set_uc_addr = Some Native_fn,
       op_update_mc_addr_list = Some Native_fn,
       op_update_xcast_mode = Some Native_fn,
       op_get_link_state = Some Native_fn,
       op_set_vfta = Some Native_fn,
       op_set_rlpml = Some Native_fn\<rparr>\<rparr>);
     upd_mac (\<lambda>m. m\<lparr>max_tx_queues := 1, max_rx_queues := 1\<rparr>);
     for_each [0..<64] (\<lambda>i. set_ops (of_nat i)
       (\<lambda>ops. ops\<lparr>op_init_params := Some Init_mbx_params_vf\<rparr>));
     ret 0 }"

subsection \<open>Reset, start, stop\<close>

definition virt_clr_queue :: "u32 \<Rightarrow> unit hwop" where
  "virt_clr_queue i = do {
     let vfsrrctl = push_bit IXGBE_SRRCTL_BSIZEHDRSIZE_SHIFT 0x100
       OR drop_bit IXGBE_SRRCTL_BSIZEPKT_SHIFT 0x800;
     let vfdca_rxctrl = IXGBE_DCA_RXCTRL_DESC_RRO_EN OR IXGBE_DCA_RXCTRL_DATA_WRO_EN
       OR IXGBE_DCA_RXCTRL_HEAD_WRO_EN;
     let vfdca_txctrl = IXGBE_DCA_TXCTRL_DESC_RRO_EN OR IXGBE_DCA_TXCTRL_DESC_WRO_EN
       OR IXGBE_DCA_TXCTRL_DATA_RRO_EN;
     IXGBE_WRITE_REG (IXGBE_VFRDH i) 0;
     IXGBE_WRITE_REG (IXGBE_VFRDT i) 0;
     IXGBE_WRITE_REG (IXGBE_VFRXDCTL i) 0;
     IXGBE_WRITE_REG (IXGBE_VFSRRCTL i) vfsrrctl;
     IXGBE_WRITE_REG (IXGBE_VFTDH i) 0;
     IXGBE_WRITE_REG (IXGBE_VFTDT i) 0;
     IXGBE_WRITE_REG (IXGBE_VFTXDCTL i) 0;
     IXGBE_WRITE_REG (IXGBE_VFTDWBAH i) 0;
     IXGBE_WRITE_REG (IXGBE_VFTDWBAL i) 0;
     IXGBE_WRITE_REG (IXGBE_VFDCA_RXCTRL i) vfdca_rxctrl;
     IXGBE_WRITE_REG (IXGBE_VFDCA_TXCTRL i) vfdca_txctrl }"

definition ixgbe_virt_clr_reg :: "env \<Rightarrow> unit hwop" where
  "ixgbe_virt_clr_reg E = do {
     IXGBE_WRITE_REG IXGBE_VFPSRTYPE 0;
     for_each [0..<7] (\<lambda>i. virt_clr_queue (of_nat i));
     IXGBE_WRITE_FLUSH E }"

definition ixgbe_start_hw_vf :: "s32 hwop" where
  "ixgbe_start_hw_vf = do { modify (\<lambda>hw. hw\<lparr>adapter_stopped := False\<rparr>); ret 0 }"

definition ixgbe_get_mac_addr_vf :: "(s32 \<times> u8 list) hwop" where
  "ixgbe_get_mac_addr_vf = gets (\<lambda>hw. (0, map (\<lambda>i. perm_addr (mac hw) ! i) [0..<6]))"

definition ixgbe_init_hw_vf :: "s32 hwop" where
  "ixgbe_init_hw_vf = do {
     ops \<leftarrow> gets (\<lambda>hw. mac_ops (mac hw));
     status \<leftarrow> (case op_start_hw ops of None \<Rightarrow> null_call 0 | Some _ \<Rightarrow> ixgbe_start_hw_vf);
     old \<leftarrow> gets (\<lambda>hw. mac_addr (mac hw));
     (_, a) \<leftarrow> (case op_get_mac_addr ops of None \<Rightarrow> null_call (0, old) | Some _ \<Rightarrow> ixgbe_get_mac_addr_vf);
     upd_mac (\<lambda>m. m\<lparr>mac_addr := a\<rparr>);
     ret status }"

definition ixgbe_stop_adapter_vf :: "env \<Rightarrow> s32 hwop" where
  "ixgbe_stop_adapter_vf E = do {
     modify (\<lambda>hw. hw\<lparr>adapter_stopped := True\<rparr>);
     IXGBE_WRITE_REG IXGBE_VTEIMC IXGBE_VF_IRQ_CLEAR_MASK;
     ixgbe_read_reg E IXGBE_VTEICR;
     ntx \<leftarrow> gets (\<lambda>hw. max_tx_queues (mac hw));
     for_each [0..<unat ntx] (\<lambda>i. IXGBE_WRITE_REG (IXGBE_VFTXDCTL (of_nat i)) IXGBE_TXDCTL_SWFLSH);
     nrx \<leftarrow> gets (\<lambda>hw. max_rx_queues (mac hw));
     for_each [0..<unat nrx] (\<lambda>i. do {
       reg_val \<leftarrow> ixgbe_read_reg E (IXGBE_VFRXDCTL (of_nat i));
       IXGBE_WRITE_REG (IXGBE_VFRXDCTL (of_nat i)) (reg_val AND NOT IXGBE_RXDCTL_ENABLE) });
     IXGBE_WRITE_REG IXGBE_VFPSRTYPE 0;
     IXGBE_WRITE_FLUSH E;
     msleep 2;
     ret 0 }"

definition call_ops0_check_for_rst :: "env \<Rightarrow> s32 hwop" where
  "call_ops0_check_for_rst E = do {
     op \<leftarrow> gets (\<lambda>hw. op_check_for_rst (mbx_ops (mbx hw) 0));
     case op of None \<Rightarrow> null_call 0 | Some f \<Rightarrow> call_check_for_rst E f 0 }"

primrec wait_rst_loop :: "env \<Rightarrow> nat \<Rightarrow> nat hwop" where
  "wait_rst_loop E 0 = do { call_ops0_check_for_rst E; ret 0 }"
| "wait_rst_loop E (Suc timeout) = do {
     r \<leftarrow> call_ops0_check_for_rst E;
     if r = 0 then do { udelay 5; wait_rst_loop E timeout } else ret (Suc timeout) }"

definition ixgbe_reset_hw_vf :: "env \<Rightarrow> (nat \<Rightarrow> u32) \<Rightarrow> s32 hwop" where
  "ixgbe_reset_hw_vf E stk = do {
     ops \<leftarrow> gets (\<lambda>hw. mac_ops (mac hw));
     (case op_stop_adapter ops of None \<Rightarrow> null_call 0 | Some _ \<Rightarrow> ixgbe_stop_adapter_vf E);
     modify (\<lambda>hw. hw\<lparr>api_version := ixgbe_mbox_api_10\<rparr>);
     ixgbe_init_mbx_params_vf;
     IXGBE_WRITE_REG IXGBE_VFCTRL IXGBE_CTRL_RST;
     IXGBE_WRITE_FLUSH E;
     msleep 50;
     timeout \<leftarrow> wait_rst_loop E IXGBE_VF_INIT_TIMEOUT;
     if timeout = 0 then ret IXGBE_ERR_RESET_FAILED else do {
       ixgbe_virt_clr_reg E;
       upd_mbx (\<lambda>m. m\<lparr>mbx_timeout := IXGBE_VF_MBX_INIT_TIMEOUT\<rparr>);
       let msgbuf = [IXGBE_VF_RESET, stk 1, stk 2, stk 3];
       ixgbe_write_mbx E msgbuf 1 0;
       msleep 10;
       (ret_val, msgbuf) \<leftarrow> ixgbe_poll_mbx E msgbuf IXGBE_VF_PERMADDR_MSG_LEN 0;
       if ret_val \<noteq> 0 then ret ret_val
       else if msgbuf ! 0 \<noteq> IXGBE_VF_RESET OR IXGBE_VT_MSGTYPE_SUCCESS \<and>
               msgbuf ! 0 \<noteq> IXGBE_VF_RESET OR IXGBE_VT_MSGTYPE_FAILURE
       then ret IXGBE_ERR_INVALID_MAC_ADDR
       else do {
         whenM (msgbuf ! 0 = IXGBE_VF_RESET OR IXGBE_VT_MSGTYPE_SUCCESS)
           (upd_mac (\<lambda>m. m\<lparr>perm_addr := words_addr (msgbuf ! 1) (msgbuf ! 2)\<rparr>));
         upd_mac (\<lambda>m. m\<lparr>mc_filter_type := s32_of_u32 (msgbuf ! IXGBE_VF_MC_TYPE_WORD)\<rparr>);
         ret ret_val } } }"

subsection \<open>Requests to the physical function\<close>

definition ixgbe_mta_vector :: "s32 \<Rightarrow> u8 list \<Rightarrow> s32" where
  "ixgbe_mta_vector filter_type mc_addr = (
     let a4 = ucast (mc_addr ! 4) :: u32; a5 = ucast (mc_addr ! 5) :: u32;
         vector = (if filter_type = 0 then drop_bit 4 a4 OR push_bit 4 a5
           else if filter_type = 1 then drop_bit 3 a4 OR push_bit 5 a5
           else if filter_type = 2 then drop_bit 2 a4 OR push_bit 6 a5
           else if filter_type = 3 then a4 OR push_bit 8 a5
           else 0)
     in s32_of_u32 (vector AND 0xFFF))"

definition ixgbevf_write_msg_read_ack ::
    "env \<Rightarrow> u32 list \<Rightarrow> u32 list \<Rightarrow> u16 \<Rightarrow> (s32 \<times> u32 list) hwop" where
  "ixgbevf_write_msg_read_ack E msg retmsg sz = do {
     retval \<leftarrow> ixgbe_write_mbx E msg sz 0;
     if retval \<noteq> 0 then ret (retval, retmsg) else ixgbe_poll_mbx E retmsg sz 0 }"

definition ixgbe_set_rar_vf :: "env \<Rightarrow> u32 \<Rightarrow> u8 list \<Rightarrow> u32 \<Rightarrow> u32 \<Rightarrow> s32 hwop" where
  "ixgbe_set_rar_vf E index addr vmdq enable_addr = do {
     let msgbuf = IXGBE_VF_SET_MAC_ADDR # addr_words addr;
     (ret_val, msgbuf) \<leftarrow> ixgbevf_write_msg_read_ack E msgbuf msgbuf 3;
     let m0 = msgbuf ! 0 AND NOT IXGBE_VT_MSGTYPE_CTS;
     if ret_val = 0 \<and> m0 = IXGBE_VF_SET_MAC_ADDR OR IXGBE_VT_MSGTYPE_FAILURE then do {
       (_, a) \<leftarrow> ixgbe_get_mac_addr_vf;
       upd_mac (\<lambda>m. m\<lparr>mac_addr := a\<rparr>);
       ret IXGBE_ERR_MBX
     } else ret ret_val }"

text \<open>The multicast list is walked by the caller's iterator \<open>next\<close> over a position \<open>p\<close>.\<close>

primrec mc_vectors :: "s32 \<Rightarrow> ('p \<Rightarrow> u8 list \<times> 'p) \<Rightarrow> nat \<Rightarrow> 'p \<Rightarrow> u16 list" where
  "mc_vectors filter_type next 0 p = []"
| "mc_vectors filter_type next (Suc n) p = (case next p of (a, p') \<Rightarrow>
     word_of_int (ixgbe_mta_vector filter_type a) # mc_vectors filter_type next n p')"

definition ixgbe_update_mc_addr_list_vf ::
    "env \<Rightarrow> (nat \<Rightarrow> u32) \<Rightarrow> 'p \<Rightarrow> u32 \<Rightarrow> ('p \<Rightarrow> u8 list \<times> 'p) \<Rightarrow> bool \<Rightarrow> s32 hwop" where
  "ixgbe_update_mc_addr_list_vf E stk mc_addr_list mc_addr_count next clear = do {
     t \<leftarrow> gets (\<lambda>hw. mc_filter_type (mac hw));
     let cnt = (if mc_addr_count > 30 then 30 else mc_addr_count);
     let m0 = IXGBE_VF_SET_MULTICAST OR push_bit IXGBE_VT_MSGINFO_SHIFT cnt;
     let vectors = mc_vectors t next (unat cnt) mc_addr_list;
     let rest = fold (\<lambda>(i, v) ws. set_half ws i v) (enumerate 0 vectors) (map stk [1..<16]);
     (ret_val, _) \<leftarrow> ixgbevf_write_msg_read_ack E (m0 # rest) (m0 # rest) IXGBE_VFMAILBOX_SIZE;
     ret ret_val }"

definition ixgbevf_update_xcast_mode :: "env \<Rightarrow> int \<Rightarrow> s32 hwop" where
  "ixgbevf_update_xcast_mode E xcast_mode = do {
     api \<leftarrow> gets api_version;
     if api = ixgbe_mbox_api_12 \<and> xcast_mode > IXGBEVF_XCAST_MODE_ALLMULTI
     then ret IXGBE_ERR_FEATURE_NOT_SUPPORTED
     else if api \<notin> {ixgbe_mbox_api_12, ixgbe_mbox_api_13, ixgbe_mbox_api_15, ixgbe_mbox_api_16,
                   ixgbe_mbox_api_17}
     then ret IXGBE_ERR_FEATURE_NOT_SUPPORTED
     else do {
       let msgbuf = [IXGBE_VF_UPDATE_XCAST_MODE, u32_of_s32 xcast_mode];
       (err, msgbuf) \<leftarrow> ixgbevf_write_msg_read_ack E msgbuf msgbuf 2;
       if err \<noteq> 0 then ret err
       else if msgbuf ! 0 AND NOT IXGBE_VT_MSGTYPE_CTS =
               IXGBE_VF_UPDATE_XCAST_MODE OR IXGBE_VT_MSGTYPE_FAILURE
       then ret IXGBE_ERR_FEATURE_NOT_SUPPORTED
       else ret 0 } }"

definition ixgbe_get_link_state_vf :: "env \<Rightarrow> bool \<Rightarrow> (s32 \<times> bool) hwop" where
  "ixgbe_get_link_state_vf E link_state = do {
     let msgbuf = [IXGBE_VF_GET_LINK_STATE, 0];
     (err, msgbuf) \<leftarrow> ixgbevf_write_msg_read_ack E msgbuf msgbuf 2;
     if err \<noteq> 0 \<or> msgbuf ! 0 AND IXGBE_VT_MSGTYPE_FAILURE \<noteq> 0
     then ret (IXGBE_ERR_MBX, link_state)
     else ret (0, msgbuf ! 1 \<noteq> 0) }"

definition ixgbevf_get_pf_link_state :: "env \<Rightarrow> u32 \<Rightarrow> bool \<Rightarrow> (s32 \<times> u32 \<times> bool) hwop" where
  "ixgbevf_get_pf_link_state E speed link_up = do {
     api \<leftarrow> gets api_version;
     if api \<notin> {ixgbe_mbox_api_16, ixgbe_mbox_api_17}
     then ret (IXGBE_ERR_FEATURE_NOT_SUPPORTED, speed, link_up)
     else do {
       let msgbuf = [IXGBE_VF_GET_PF_LINK_STATE, 0, 0];
       (err, msgbuf) \<leftarrow> ixgbevf_write_msg_read_ack E msgbuf msgbuf 3;
       if err \<noteq> 0 then ret (err, IXGBE_LINK_SPEED_UNKNOWN, link_up)
       else if msgbuf ! 0 AND IXGBE_VT_MSGTYPE_FAILURE \<noteq> 0
       then ret (IXGBE_ERR_MBX, IXGBE_LINK_SPEED_UNKNOWN, link_up)
       else ret (err, msgbuf ! 1, msgbuf ! 2 \<noteq> 0) } }"

definition ixgbevf_negotiate_features_vf :: "env \<Rightarrow> u32 \<Rightarrow> (s32 \<times> u32) hwop" where
  "ixgbevf_negotiate_features_vf E pf_features = do {
     api \<leftarrow> gets api_version;
     if api \<noteq> ixgbe_mbox_api_17 then ret (IXGBE_ERR_FEATURE_NOT_SUPPORTED, pf_features)
     else do {
       let msgbuf = [IXGBE_VF_FEATURES_NEGOTIATE, IXGBEVF_SUPPORTED_FEATURES];
       (err, msgbuf) \<leftarrow> ixgbevf_write_msg_read_ack E msgbuf msgbuf 2;
       if err \<noteq> 0 \<or> msgbuf ! 0 AND IXGBE_VT_MSGTYPE_FAILURE \<noteq> 0
       then ret (IXGBE_ERR_MBX, 0)
       else ret (err, msgbuf ! 1) } }"

definition ixgbe_set_vfta_vf :: "env \<Rightarrow> u32 \<Rightarrow> u32 \<Rightarrow> bool \<Rightarrow> bool \<Rightarrow> s32 hwop" where
  "ixgbe_set_vfta_vf E vlan vind vlan_on vlvf_bypass = do {
     let msgbuf = [IXGBE_VF_SET_VLAN OR push_bit IXGBE_VT_MSGINFO_SHIFT (of_bool vlan_on), vlan];
     (ret_val, msgbuf) \<leftarrow> ixgbevf_write_msg_read_ack E msgbuf msgbuf 2;
     if ret_val = 0 \<and> msgbuf ! 0 AND IXGBE_VT_MSGTYPE_SUCCESS \<noteq> 0 then ret 0
     else ret (s32_of_u32 (u32_of_s32 ret_val OR (msgbuf ! 0 AND IXGBE_VT_MSGTYPE_FAILURE))) }"

definition ixgbe_get_num_of_tx_queues_vf :: u32 where
  "ixgbe_get_num_of_tx_queues_vf = IXGBE_VF_MAX_TX_QUEUES"

definition ixgbe_get_num_of_rx_queues_vf :: u32 where
  "ixgbe_get_num_of_rx_queues_vf = IXGBE_VF_MAX_RX_QUEUES"

definition ixgbevf_set_uc_addr_vf :: "env \<Rightarrow> u32 \<Rightarrow> u8 list option \<Rightarrow> s32 hwop" where
  "ixgbevf_set_uc_addr_vf E index addr = do {
     let m0 = push_bit IXGBE_VT_MSGINFO_SHIFT index OR IXGBE_VF_SET_MACVLAN;
     let msgbuf = m0 # (case addr of None \<Rightarrow> [0, 0] | Some a \<Rightarrow> addr_words a);
     (ret_val, msgbuf) \<leftarrow> ixgbevf_write_msg_read_ack E msgbuf msgbuf 3;
     if ret_val = 0 \<and> msgbuf ! 0 AND NOT IXGBE_VT_MSGTYPE_CTS = m0 OR IXGBE_VT_MSGTYPE_FAILURE
     then ret IXGBE_ERR_OUT_OF_MEM
     else ret ret_val }"

definition ixgbe_setup_mac_link_vf :: "u32 \<Rightarrow> bool \<Rightarrow> s32 hwop" where
  "ixgbe_setup_mac_link_vf speed autoneg_wait_to_complete = ret 0"

definition ixgbevf_rlpml_set_vf :: "env \<Rightarrow> u16 \<Rightarrow> s32 hwop" where
  "ixgbevf_rlpml_set_vf E max_size = do {
     let msgbuf = [IXGBE_VF_SET_LPE, ucast max_size];
     (retval, msgbuf) \<leftarrow> ixgbevf_write_msg_read_ack E msgbuf msgbuf 2;
     if retval \<noteq> 0 then ret retval
     else if msgbuf ! 0 AND IXGBE_VF_SET_LPE \<noteq> 0 \<and> msgbuf ! 0 AND IXGBE_VT_MSGTYPE_FAILURE \<noteq> 0
     then ret IXGBE_ERR_MBX
     else ret 0 }"

definition ixgbevf_negotiate_api_version :: "env \<Rightarrow> int \<Rightarrow> s32 hwop" where
  "ixgbevf_negotiate_api_version E api = do {
     let msg = [IXGBE_VF_API_NEGOTIATE, u32_of_s32 api, 0];
     (err, msg) \<leftarrow> ixgbevf_write_msg_read_ack E msg msg 3;
     if err = 0 then
       (if msg ! 0 AND NOT IXGBE_VT_MSGTYPE_CTS = IXGBE_VF_API_NEGOTIATE OR IXGBE_VT_MSGTYPE_SUCCESS
        then do { modify (\<lambda>hw. hw\<lparr>api_version := api\<rparr>); ret 0 }
        else ret IXGBE_ERR_INVALID_ARGUMENT)
     else ret err }"

definition clamp_queues :: "u32 \<Rightarrow> u32 \<Rightarrow> u32" where
  "clamp_queues bound n = (if n = 0 \<or> n > bound then bound else n)"

definition ixgbevf_get_queues :: "env \<Rightarrow> u32 \<Rightarrow> u32 \<Rightarrow> (s32 \<times> u32 \<times> u32) hwop" where
  "ixgbevf_get_queues E num_tcs default_tc = do {
     api \<leftarrow> gets api_version;
     if api \<notin> {ixgbe_mbox_api_11, ixgbe_mbox_api_12, ixgbe_mbox_api_13, ixgbe_mbox_api_15,
               ixgbe_mbox_api_16, ixgbe_mbox_api_17}
     then ret (0, num_tcs, default_tc)
     else do {
       let msg = [IXGBE_VF_GET_QUEUES, 0, 0, 0, 0];
       (err, msg) \<leftarrow> ixgbevf_write_msg_read_ack E msg msg 5;
       if err = 0 then
         (if msg ! 0 AND NOT IXGBE_VT_MSGTYPE_CTS \<noteq> IXGBE_VF_GET_QUEUES OR IXGBE_VT_MSGTYPE_SUCCESS
          then ret (IXGBE_ERR_MBX, num_tcs, default_tc)
          else do {
            upd_mac (\<lambda>m. m\<lparr>max_tx_queues :=
              clamp_queues IXGBE_VF_MAX_TX_QUEUES (msg ! IXGBE_VF_TX_QUEUES)\<rparr>);
            upd_mac (\<lambda>m. m\<lparr>max_rx_queues :=
              clamp_queues IXGBE_VF_MAX_RX_QUEUES (msg ! IXGBE_VF_RX_QUEUES)\<rparr>);
            nrx \<leftarrow> gets (\<lambda>hw. max_rx_queues (mac hw));
            let tcs = (if msg ! IXGBE_VF_TRANS_VLAN > nrx then 1 else msg ! IXGBE_VF_TRANS_VLAN);
            ntx \<leftarrow> gets (\<lambda>hw. max_tx_queues (mac hw));
            let def = (if msg ! IXGBE_VF_DEF_QUEUE \<ge> ntx then 0 else msg ! IXGBE_VF_DEF_QUEUE);
            ret (err, tcs, def) })
       else ret (err, num_tcs, default_tc) } }"

subsection \<open>Link state\<close>

primrec vflinks_settle :: "env \<Rightarrow> nat \<Rightarrow> u32 \<Rightarrow> u32 option hwop" where
  "vflinks_settle E 0 links_reg = ret (Some links_reg)"
| "vflinks_settle E (Suc n) links_reg = do {
     udelay 100;
     links_reg \<leftarrow> ixgbe_read_reg E IXGBE_VFLINKS;
     if links_reg AND IXGBE_LINKS_UP = 0 then ret None else vflinks_settle E n links_reg }"

definition vflinks_speed :: "ixgbe_mac_type \<Rightarrow> u32 \<Rightarrow> u32" where
  "vflinks_speed t links_reg = (let s = links_reg AND IXGBE_LINKS_SPEED_82599 in
     if s = IXGBE_LINKS_SPEED_10G_82599 then
       (if t \<ge> Ixgbe_mac_X550_vf \<and> links_reg AND IXGBE_LINKS_SPEED_NON_STD \<noteq> 0
        then IXGBE_LINK_SPEED_2_5GB_FULL else IXGBE_LINK_SPEED_10GB_FULL)
     else if s = IXGBE_LINKS_SPEED_1G_82599 then IXGBE_LINK_SPEED_1GB_FULL
     else if s = IXGBE_LINKS_SPEED_100_82599 then
       (if t = Ixgbe_mac_X550_vf \<and> links_reg AND IXGBE_LINKS_SPEED_NON_STD \<noteq> 0
        then IXGBE_LINK_SPEED_5GB_FULL else IXGBE_LINK_SPEED_100_FULL)
     else if s = IXGBE_LINKS_SPEED_10_X550EM_A then
       (if t \<ge> Ixgbe_mac_X550_vf then IXGBE_LINK_SPEED_10_FULL else IXGBE_LINK_SPEED_UNKNOWN)
     else IXGBE_LINK_SPEED_UNKNOWN)"

definition ixgbe_read_vflinks :: "env \<Rightarrow> u32 \<Rightarrow> bool \<Rightarrow> (u32 \<times> bool) hwop" where
  "ixgbe_read_vflinks E speed link_up = do {
     t \<leftarrow> gets (\<lambda>hw. mac_type (mac hw));
     links_reg \<leftarrow> ixgbe_read_reg E IXGBE_VFLINKS;
     if links_reg AND IXGBE_LINKS_UP = 0 then ret (speed, False)
     else do {
       settled \<leftarrow> (if t = Ixgbe_mac_82599_vf then vflinks_settle E 5 links_reg
                  else ret (Some links_reg));
       case settled of None \<Rightarrow> ret (speed, False)
       | Some links_reg \<Rightarrow> ret (vflinks_speed t links_reg, True) } }"

definition set_get_link_status :: "bool \<Rightarrow> unit hwop" where
  "set_get_link_status b = upd_mac (\<lambda>m. m\<lparr>get_link_status := b\<rparr>)"

text \<open>The tail of \<open>ixgbe_check_mac_link_vf\<close> after the link was found up: is the PF talking to us?\<close>

definition check_link_mailbox :: "env \<Rightarrow> s32 \<Rightarrow> s32 hwop" where
  "check_link_mailbox E ret_val = do {
     (r, in_msg) \<leftarrow> ixgbe_read_mbx E [0] 1 0;
     if r \<noteq> 0 then do {
       api \<leftarrow> gets api_version;
       whenM (api \<ge> ixgbe_mbox_api_15) (set_get_link_status False);
       ret ret_val
     } else if in_msg ! 0 AND IXGBE_VT_MSGTYPE_CTS = 0 then
       ret (if in_msg ! 0 AND IXGBE_VT_MSGTYPE_FAILURE \<noteq> 0 then IXGBE_ERR_MBX else ret_val)
     else do {
       t \<leftarrow> gets (\<lambda>hw. mbx_timeout (mbx hw));
       if t = 0 then ret IXGBE_ERR_TIMEOUT
       else do { set_get_link_status False; ret ret_val } } }"

definition link_up_out :: "s32 \<Rightarrow> u32 \<Rightarrow> (s32 \<times> u32 \<times> bool option) hwop" where
  "link_up_out ret_val speed = do {
     g \<leftarrow> gets (\<lambda>hw. get_link_status (mac hw));
     ret (ret_val, speed, Some (\<not> g)) }"

definition ixgbe_check_mac_link_vf ::
    "env \<Rightarrow> u32 \<Rightarrow> bool option \<Rightarrow> bool \<Rightarrow> (s32 \<times> u32 \<times> bool option) hwop" where
  "ixgbe_check_mac_link_vf E speed link_up autoneg_wait_to_complete = (case link_up of
     None \<Rightarrow> ret (IXGBE_ERR_PARAM, speed, None)
   | Some up \<Rightarrow> do {
       r \<leftarrow> call_ops0_check_for_rst E;
       t \<leftarrow> gets (\<lambda>hw. mbx_timeout (mbx hw));
       whenM (r = 0 \<or> t = 0) (set_get_link_status True);
       g \<leftarrow> gets (\<lambda>hw. get_link_status (mac hw));
       ty \<leftarrow> gets (\<lambda>hw. mac_type (mac hw));
       if \<not> g then link_up_out 0 speed
       else if ty \<noteq> Ixgbe_mac_E610_vf then do {
         (speed, up) \<leftarrow> ixgbe_read_vflinks E speed up;
         if \<not> up then link_up_out 0 speed
         else do { r \<leftarrow> check_link_mailbox E 0; link_up_out r speed }
       } else do {
         (ret_val, speed, up) \<leftarrow> ixgbevf_get_pf_link_state E speed up;
         if ret_val = IXGBE_ERR_FEATURE_NOT_SUPPORTED then do {
           (speed, up) \<leftarrow> ixgbe_read_vflinks E speed up;
           r \<leftarrow> check_link_mailbox E ret_val;
           link_up_out r speed
         } else if ret_val = IXGBE_ERR_MBX then ret (ret_val, speed, Some False)
         else if ret_val \<noteq> 0 then ret (0, speed, Some False)
         else if \<not> up then link_up_out ret_val speed
         else do { r \<leftarrow> check_link_mailbox E ret_val; link_up_out r speed } } })"

end
