(* ===== verification/Mac_Facts.thy ===== *)
theory Mac_Facts
  imports Mac_VF Mailbox_Props
begin

text \<open>
  Lemmas and properties of the MAC operations of theory Mac\_VF. A request is an \<open>exchange\<close> of
  the mailbox transport, so its frame, its behaviour on errors and the bound on its waiting come
  from the interpretations \<open>mbx_i\<close> and \<open>mbx_timed\<close>.
\<close>

subsection \<open>Requests as exchanges\<close>

lemma write_msg_read_ack_exchange:
  "ixgbevf_write_msg_read_ack E msg retmsg sz =
     exchange (\<lambda>msg sz. ixgbe_write_mbx E msg sz 0) (\<lambda>msg sz. ixgbe_poll_mbx E msg sz 0) msg retmsg sz"
  by (simp add: ixgbevf_write_msg_read_ack_def exchange_def)

lemma request_frame [keeps_rules]: "keeps frame (ixgbevf_write_msg_read_ack E msg retmsg sz)"
  unfolding write_msg_read_ack_exchange by (rule mbx_i.exchange_frame)

lemma request_takes [takes_rules]:
  "takes t d (4 * unat t * unat d) (ixgbevf_write_msg_read_ack E msg retmsg sz)"
  unfolding write_msg_read_ack_exchange using mbx_timed.exchange_takes by (simp add: mult.assoc)

lemmas request_length = mbx_i.exchange_length [where i = 0, folded write_msg_read_ack_exchange]
lemmas request_error = mbx_i.exchange_error [where i = 0, folded write_msg_read_ack_exchange]

lemma request_inert [inert_rules]: "inert (ixgbevf_write_msg_read_ack E msg retmsg sz)"
  unfolding ixgbevf_write_msg_read_ack_def by (intro inert_rules)

lemma requestE:
  obtains err reply hw1 where "run_state (ixgbevf_write_msg_read_ack E msg msg sz) hw = ((err, reply), hw1)"
    and "frame hw1 = frame hw" and "unat sz \<le> length msg \<Longrightarrow> length reply = length msg"
    and "err \<noteq> 0 \<Longrightarrow> reply = msg"
proof -
  obtain err reply hw1 where
    r: "run_state (ixgbevf_write_msg_read_ack E msg msg sz) hw = ((err, reply), hw1)"
    by (metis surj_pair)
  show thesis
    using that [OF r keepsD [OF request_frame r]] request_length [OF _ r] request_error [OF r] by blast
qed

lemma frame_parts:
  assumes "frame hw' = frame hw"
  shows "mac hw' = mac hw" "api_version hw' = api_version hw" "mbx_ops (mbx hw') = mbx_ops (mbx hw)"
    "mbx_timeout (mbx hw') = mbx_timeout (mbx hw)" "adapter_stopped hw' = adapter_stopped hw"
  using assms by (simp_all add: frame_def)

subsection \<open>Multicast hash\<close>

text \<open>The last two address bytes as the 16-bit number the hardware takes the hash from.\<close>

definition mc_high :: "u8 list \<Rightarrow> nat" where
  "mc_high a = unat (a ! 4) + 256 * unat (a ! 5)"

definition mta_shift :: "s32 \<Rightarrow> nat" where
  "mta_shift t = (if t = 0 then 4 else if t = 1 then 3 else if t = 2 then 2 else 0)"

lemma unat_ucast_u8_u32 [simp]: "unat (ucast (b :: u8) :: u32) = unat b"
  by (simp add: unsigned_ucast_eq take_bit_nat_eq_self_iff less_trans [OF unsigned_less])

lemma sint_small: "unat (w :: u32) < 2 ^ 31 \<Longrightarrow> sint w = int (unat w)"
proof -
  assume "unat w < 2 ^ 31"
  then have less: "unat w < 2147483648" by simp
  have u: "uint w = int (unat w)" by simp
  have "sint w = signed_take_bit 31 (uint w)" using sint_uint [of w] by simp
  moreover have "- (2 ^ 31) \<le> uint w" by (rule order_trans [of _ 0]) simp_all
  moreover have "uint w < 2147483648" using less u by linarith
  ultimately have "sint w = uint w" by (simp add: signed_take_bit_int_eq_self)
  also note u
  finally show ?thesis .
qed

lemma high_word: "unat (ucast a4 OR push_bit 8 (ucast a5) :: u32) = unat (a4 :: u8) + 256 * unat (a5 :: u8)"
proof -
  have d: "(ucast a4 :: u32) AND push_bit 8 (ucast a5) = 0"
    by (rule bit_eqI) (auto simp: bit_simps dest: bit_imp_le_length)
  have b: "unat a4 < 256" "unat a5 < 256"
    using unsigned_less [of a4] unsigned_less [of a5] by simp_all
  have "(ucast a4 OR push_bit 8 (ucast a5) :: u32) = ucast a4 + push_bit 8 (ucast a5)"
    by (rule disjunctive_add_eq_or [symmetric, OF d])
  then show ?thesis
    using b by (simp add: unat_word_ariths push_bit_eq_mult)
qed

lemma shifted_bytes:
  assumes "k \<le> 8"
  shows "drop_bit k (ucast a4) OR push_bit (8 - k) (ucast a5) =
    (drop_bit k (ucast (a4 :: u8) OR push_bit 8 (ucast (a5 :: u8))) :: u32)"
  by (rule bit_eqI) (use assms in \<open>auto simp: bit_simps ac_simps dest: bit_imp_le_length\<close>)

lemma mta_vector_word:
  assumes "t \<in> {0, 1, 2, 3}"
  shows "ixgbe_mta_vector t a = s32_of_u32 (take_bit 12
    (drop_bit (mta_shift t) (ucast (a ! 4) OR push_bit 8 (ucast (a ! 5)) :: u32)))"
proof -
  have m: "w AND 0xFFF = take_bit 12 w" for w :: u32 by (simp add: take_bit_eq_mask mask_eq_exp_minus_1)
  show ?thesis
    using assms shifted_bytes [of 4 "a ! 4" "a ! 5"] shifted_bytes [of 3 "a ! 4" "a ! 5"]
      shifted_bytes [of 2 "a ! 4" "a ! 5"]
    unfolding ixgbe_mta_vector_def Let_def m mta_shift_def by auto
qed

text \<open>The multicast hash is the 12-bit slice of the address the filter type selects: for the four valid types
  \<open>ixgbe_mta_vector\<close> returns bits [47:36], [46:35], [45:34] or [43:32] of the address, any other type gives 0, and
  in every case the result is a valid index of the 4096-entry table.\<close>

theorem mta_vector_slice:
  "ixgbe_mta_vector t a = (if t \<in> {0, 1, 2, 3}
      then int (mc_high a div 2 ^ mta_shift t mod 4096) else 0) \<and>
   0 \<le> ixgbe_mta_vector t a \<and> ixgbe_mta_vector t a < 4096"
proof -
  have "ixgbe_mta_vector t a = int (mc_high a div 2 ^ mta_shift t mod 4096)" if "t \<in> {0, 1, 2, 3}"
  proof -
    let ?w = "take_bit 12 (drop_bit (mta_shift t) (ucast (a ! 4) OR push_bit 8 (ucast (a ! 5)) :: u32))"
    have "unat ?w = mc_high a div 2 ^ mta_shift t mod 4096"
      unfolding unsigned_take_bit_eq unat_drop_bit_eq high_word mc_high_def
      by (simp add: take_bit_eq_mod drop_bit_eq_div)
    moreover from this have "unat ?w < 4096" by simp
    then have "sint ?w = int (unat ?w)" by (intro sint_small) simp
    ultimately show ?thesis
      using mta_vector_word [OF that, of a] by (simp add: s32_of_u32_def)
  qed
  moreover have "ixgbe_mta_vector t a = 0" if "t \<notin> {0, 1, 2, 3}"
    using that by (simp add: ixgbe_mta_vector_def s32_of_u32_def)
  ultimately show ?thesis by auto
qed

subsection \<open>Addresses in messages\<close>

lemma byte_le32:
  "byte_of 0 (le32 a b c d) = a" "byte_of 1 (le32 a b c d) = b"
  "byte_of 2 (le32 a b c d) = c" "byte_of 3 (le32 a b c d) = d"
  unfolding byte_of_def le32_def
  by (rule bit_eqI, auto simp: bit_simps dest: bit_imp_le_length)+

lemma addr_words_roundtrip:
  assumes "length a = 6"
  shows "words_addr (addr_words a ! 0) (addr_words a ! 1) = a"
proof -
  obtain a0 a1 a2 a3 a4 a5 where "a = [a0, a1, a2, a3, a4, a5]"
    using assms by (auto simp: length_Suc_conv eval_nat_numeral)
  then show ?thesis by (simp add: words_addr_def addr_words_def byte_le32 byte_le32(2) [unfolded One_nat_def])
qed

subsection \<open>A sample physical function\<close>

text \<open>
  \<open>pf_env reply links\<close> grants the mailbox lock, acknowledges and answers at once; the message
  buffer holds \<open>reply\<close> and VFLINKS reads \<open>links\<close>.
\<close>

definition pf_env :: "u32 list \<Rightarrow> u32 \<Rightarrow> env" where
  "pf_env reply links = sample_env\<lparr>mmio := (\<lambda>h r.
     if r = IXGBE_VFMAILBOX then (if mmio_writes h = [] then 0 else 0x34)
     else if r = IXGBE_VFLINKS then links
     else if IXGBE_VFMBMEM \<le> r \<and> unat (r - IXGBE_VFMBMEM) div 4 < length reply
     then reply ! (unat (r - IXGBE_VFMBMEM) div 4) else 0)\<rparr>"

subsection \<open>Queue configuration\<close>

definition queues_ok :: "ixgbe_hw \<Rightarrow> bool" where
  "queues_ok hw \<longleftrightarrow> 1 \<le> max_tx_queues (mac hw) \<and> max_tx_queues (mac hw) \<le> IXGBE_VF_MAX_TX_QUEUES \<and>
     1 \<le> max_rx_queues (mac hw) \<and> max_rx_queues (mac hw) \<le> IXGBE_VF_MAX_RX_QUEUES"

lemma clamp_queues_bounds:
  assumes "1 \<le> bound" shows "1 \<le> clamp_queues bound n" and "clamp_queues bound n \<le> bound"
proof -
  have "1 \<le> n" if "n \<noteq> 0" using that by (simp add: word_le_nat_alt Suc_le_eq unat_gt_0)
  with assms show "1 \<le> clamp_queues bound n" "clamp_queues bound n \<le> bound"
    by (auto simp: clamp_queues_def)
qed

definition supports_get_queues :: "ixgbe_hw \<Rightarrow> bool" where
  "supports_get_queues hw \<longleftrightarrow> api_version hw \<in> {ixgbe_mbox_api_11, ixgbe_mbox_api_12,
     ixgbe_mbox_api_13, ixgbe_mbox_api_15, ixgbe_mbox_api_16, ixgbe_mbox_api_17}"

lemma get_queues_cases:
  assumes "run_state (ixgbevf_get_queues E tcs0 def0) hw = ((err, tcs, def), hw')"
  obtains (same) "mac hw' = mac hw" and "tcs = tcs0" and "def = def0" and "err \<noteq> 0 \<or> \<not> supports_get_queues hw"
  | (reply) m where "err = 0" and "supports_get_queues hw"
      and "mac hw' = (mac hw)\<lparr>max_tx_queues := clamp_queues IXGBE_VF_MAX_TX_QUEUES (m ! 1),
             max_rx_queues := clamp_queues IXGBE_VF_MAX_RX_QUEUES (m ! 2)\<rparr>"
      and "tcs = (if m ! 3 > max_rx_queues (mac hw') then 1 else m ! 3)"
      and "def = (if m ! 4 \<ge> max_tx_queues (mac hw') then 0 else m ! 4)"
proof (cases "supports_get_queues hw")
  case False
  then have "hw' = hw \<and> err = 0 \<and> tcs = tcs0 \<and> def = def0"
    using assms by (auto simp: ixgbevf_get_queues_def supports_get_queues_def)
  with False same show thesis by blast
next
  case True
  let ?msg = "[IXGBE_VF_GET_QUEUES, 0, 0, 0, 0]"
  obtain e m hw1 where r: "run_state (ixgbevf_write_msg_read_ack E ?msg ?msg 5) hw = ((e, m), hw1)"
    and fr: "frame hw1 = frame hw" by (rule requestE)
  note mac1 = frame_parts(1) [OF fr]
  let ?ok = "e = 0 \<and> m ! 0 AND NOT IXGBE_VT_MSGTYPE_CTS = IXGBE_VF_GET_QUEUES OR IXGBE_VT_MSGTYPE_SUCCESS"
  have run: "run_state (ixgbevf_get_queues E tcs0 def0) hw = (if e \<noteq> 0 then ((e, tcs0, def0), hw1)
     else if \<not> ?ok then ((IXGBE_ERR_MBX, tcs0, def0), hw1)
     else let hw2 = hw1\<lparr>mac := (mac hw1)\<lparr>max_tx_queues := clamp_queues IXGBE_VF_MAX_TX_QUEUES (m ! 1),
             max_rx_queues := clamp_queues IXGBE_VF_MAX_RX_QUEUES (m ! 2)\<rparr>\<rparr> in
       ((e, (if m ! 3 > max_rx_queues (mac hw2) then 1 else m ! 3),
            (if m ! 4 \<ge> max_tx_queues (mac hw2) then 0 else m ! 4)), hw2))"
    using True r unfolding ixgbevf_get_queues_def supports_get_queues_def
    by (auto simp: upd_mac_def Let_def simp del: IXGBE_VF_MAX_TX_QUEUES_def IXGBE_VF_MAX_RX_QUEUES_def)
  show thesis
  proof (cases ?ok)
    case True
    with run assms mac1 reply [of m] \<open>supports_get_queues hw\<close> show thesis by (auto simp: Let_def)
  next
    case False
    with run assms mac1 same show thesis by (auto split: if_splits)
  qed
qed

text \<open>C30: Whatever the PF answers, the queue configuration stays usable: \<open>ixgbevf_get_queues\<close> keeps both
  queue counts within 1..8, and when it succeeds under an API version that has the request, the number of traffic
  classes does not exceed the receive queues and the default queue is an existing transmit queue. When it fails, the
  MAC state and both outputs are as before.\<close>

theorem get_queues_bounds:
  assumes "run_state (ixgbevf_get_queues E tcs0 def0) hw = ((err, tcs, def), hw')" and "queues_ok hw"
  shows "queues_ok hw' \<and>
    (err = 0 \<and> supports_get_queues hw \<longrightarrow>
       tcs \<le> max_rx_queues (mac hw') \<and> def < max_tx_queues (mac hw')) \<and>
    (err \<noteq> 0 \<longrightarrow> mac hw' = mac hw \<and> tcs = tcs0 \<and> def = def0)"
  using assms(1)
proof (cases rule: get_queues_cases)
  case same
  with assms(2) show ?thesis by (auto simp: queues_ok_def)
next
  case (reply m)
  have "queues_ok hw'"
    using clamp_queues_bounds [of IXGBE_VF_MAX_TX_QUEUES "m ! 1"]
      clamp_queues_bounds [of IXGBE_VF_MAX_RX_QUEUES "m ! 2"]
    unfolding queues_ok_def reply(3) by simp
  moreover from this have "1 \<le> max_rx_queues (mac hw')" "0 < max_tx_queues (mac hw')"
    by (auto simp: queues_ok_def word_le_nat_alt word_less_nat_alt)
  ultimately show ?thesis using reply(1,4,5) by (auto simp: not_less not_le)
qed

theorem get_queues_bounds_witness:
  "let r = run_state (ixgbevf_get_queues (pf_env [0x80000009, 99, 4, 7, 3] 0) 0 0)
      (sample_hw\<lparr>api_version := ixgbe_mbox_api_12\<rparr>) in
    fst r = (0, 1, 3) \<and> queues_ok (snd r) \<and> 1 \<le> max_rx_queues (mac (snd r))"
proof -
  let ?hw = "sample_hw\<lparr>api_version := ixgbe_mbox_api_12\<rparr>"
  let ?r = "run_state (ixgbevf_get_queues (pf_env [0x80000009, 99, 4, 7, 3] 0) 0 0) ?hw"
  have f: "fst ?r = (0, 1, 3)" by code_simp
  then have "?r = ((0, 1, 3), snd ?r)" by (metis prod.collapse)
  moreover have "queues_ok ?hw" by (simp add: queues_ok_def sample_hw_def)
  moreover have "supports_get_queues ?hw" by (simp add: supports_get_queues_def)
  ultimately show ?thesis using get_queues_bounds f by (metis (no_types, lifting))
qed

subsection \<open>API negotiation\<close>

text \<open>C31: API negotiation is atomic: \<open>ixgbevf_negotiate_api_version\<close> returns 0 only on a positive reply to this
  request, and then the version in force is the requested one; on every error the version, and in both cases all MAC
  state and the mailbox parameters, are unchanged.\<close>

theorem negotiate_api_version_atomic:
  "let msg = [IXGBE_VF_API_NEGOTIATE, u32_of_s32 api, 0];
       ((e, reply), hw1) = run_state (ixgbevf_write_msg_read_ack E msg msg 3) hw;
       (err, hw') = run_state (ixgbevf_negotiate_api_version E api) hw in
    (err = 0 \<longleftrightarrow> e = 0 \<and>
       reply ! 0 AND NOT IXGBE_VT_MSGTYPE_CTS = IXGBE_VF_API_NEGOTIATE OR IXGBE_VT_MSGTYPE_SUCCESS) \<and>
    api_version hw' = (if err = 0 then api else api_version hw) \<and>
    frame (hw'\<lparr>api_version := api_version hw\<rparr>) = frame hw"
proof -
  let ?msg = "[IXGBE_VF_API_NEGOTIATE, u32_of_s32 api, 0]"
  obtain e m hw1 where "run_state (ixgbevf_write_msg_read_ack E ?msg ?msg 3) hw = ((e, m), hw1)"
    and "frame hw1 = frame hw" by (rule requestE)
  then show ?thesis
    by (auto simp: ixgbevf_negotiate_api_version_def frame_def Let_def split: if_splits)
qed

subsection \<open>Requests that need a newer API\<close>

text \<open>Requests the negotiated API does not have are refused locally: below API 1.2 (and for
  promiscuous mode below 1.3) the multicast mode, below 1.6 the PF link state and below 1.7 the feature
  negotiation return \<open>IXGBE_ERR_FEATURE_NOT_SUPPORTED\<close>, and below 1.1 the queue query returns 0, without any I/O
  and without changing anything.\<close>

theorem unsupported_requests_do_nothing:
  assumes "0 \<le> api_version hw"
  shows "(api_version hw < ixgbe_mbox_api_12 \<or>
      api_version hw = ixgbe_mbox_api_12 \<and> mode = IXGBEVF_XCAST_MODE_PROMISC \<longrightarrow>
      run_state (ixgbevf_update_xcast_mode E mode) hw = (IXGBE_ERR_FEATURE_NOT_SUPPORTED, hw)) \<and>
    (api_version hw < ixgbe_mbox_api_16 \<longrightarrow> run_state (ixgbevf_get_pf_link_state E sp up) hw =
      ((IXGBE_ERR_FEATURE_NOT_SUPPORTED, sp, up), hw)) \<and>
    (api_version hw < ixgbe_mbox_api_17 \<longrightarrow> run_state (ixgbevf_negotiate_features_vf E f) hw =
      ((IXGBE_ERR_FEATURE_NOT_SUPPORTED, f), hw)) \<and>
    (api_version hw < ixgbe_mbox_api_11 \<longrightarrow> run_state (ixgbevf_get_queues E a b) hw = ((0, a, b), hw))"
  by (auto simp: ixgbevf_update_xcast_mode_def ixgbevf_get_pf_link_state_def
      ixgbevf_negotiate_features_vf_def ixgbevf_get_queues_def)

theorem unsupported_requests_do_nothing_witness:
  "run_state (ixgbevf_update_xcast_mode sample_env IXGBEVF_XCAST_MODE_MULTI) sample_hw =
     (IXGBE_ERR_FEATURE_NOT_SUPPORTED, sample_hw)"
proof -
  have "0 \<le> api_version sample_hw" "api_version sample_hw < ixgbe_mbox_api_12"
    by (simp_all add: sample_hw_def)
  then show ?thesis
    using unsupported_requests_do_nothing [of sample_hw IXGBEVF_XCAST_MODE_MULTI sample_env] by blast
qed

subsection \<open>Multicast list message\<close>

definition half_of :: "u32 list \<Rightarrow> nat \<Rightarrow> u16" where
  "half_of ws i = ucast (drop_bit (if i mod 2 = 0 then 0 else 16) (ws ! (i div 2)))"

lemma length_set_half [simp]: "length (set_half ws i v) = length ws"
  by (simp add: set_half_def)

lemma half_halves:
  "ucast (((w :: u32) AND 0xFFFF0000) OR ucast v) = (v :: u16)"
  "ucast (drop_bit 16 ((w AND 0xFFFF0000) OR ucast v)) = (ucast (drop_bit 16 w) :: u16)"
  "ucast (drop_bit 16 ((w AND 0x0000FFFF) OR push_bit 16 (ucast v))) = v"
  "ucast ((w AND 0x0000FFFF) OR push_bit 16 (ucast v)) = (ucast w :: u16)"
proof -
  have lo: "(0x0000FFFF :: u32) = mask 16" and hi: "(0xFFFF0000 :: u32) = NOT (mask 16)"
    by (simp_all add: mask_eq_exp_minus_1)
  show "ucast (((w :: u32) AND 0xFFFF0000) OR ucast v) = (v :: u16)"
    "ucast (drop_bit 16 ((w AND 0xFFFF0000) OR ucast v)) = (ucast (drop_bit 16 w) :: u16)"
    "ucast (drop_bit 16 ((w AND 0x0000FFFF) OR push_bit 16 (ucast v))) = v"
    "ucast ((w AND 0x0000FFFF) OR push_bit 16 (ucast v)) = (ucast w :: u16)"
    unfolding lo hi by (rule bit_eqI, auto simp: bit_simps dest: bit_imp_le_length)+
qed

lemma half_of_set_half:
  assumes "i div 2 < length ws"
  shows "half_of (set_half ws i v) j = (if j = i then v else half_of ws j)"
proof (cases "j div 2 = i div 2")
  case True
  then have "j = i \<longleftrightarrow> j mod 2 = i mod 2" by (metis div_mult_mod_eq)
  with True assms show ?thesis
    by (auto simp: half_of_def set_half_def half_halves half_halves [simplified])
next
  case False
  then show ?thesis by (auto simp: half_of_def set_half_def)
qed

lemma pack_mc_vectors:
  assumes "k + length vs \<le> 2 * length ws"
  shows "length (fold (\<lambda>(i, v) ws. set_half ws i v) (enumerate k vs) ws) = length ws"
    and "half_of (fold (\<lambda>(i, v) ws. set_half ws i v) (enumerate k vs) ws) j =
      (if k \<le> j \<and> j < k + length vs then vs ! (j - k) else half_of ws j)"
  using assms
proof (induction vs arbitrary: k ws)
  case (Cons v vs)
  { case 1 then show ?case using Cons.IH(1) [of "Suc k" "set_half ws k v"] by simp }
  { case 2
    then have "k div 2 < length ws" by simp
    moreover have "half_of (fold (\<lambda>(i, v) ws. set_half ws i v) (enumerate (Suc k) vs) (set_half ws k v)) j =
      (if Suc k \<le> j \<and> j < Suc k + length vs then vs ! (j - Suc k) else half_of (set_half ws k v) j)"
      using 2 by (intro Cons.IH(2)) simp
    ultimately show ?case
      by (auto simp: half_of_set_half nth_Cons' Suc_le_eq) }
qed auto

text \<open>The i-th address the iterator yields.\<close>

primrec nth_addr :: "('p \<Rightarrow> u8 list \<times> 'p) \<Rightarrow> 'p \<Rightarrow> nat \<Rightarrow> u8 list" where
  "nth_addr next p 0 = fst (next p)"
| "nth_addr next p (Suc i) = nth_addr next (snd (next p)) i"

lemma mc_vectors_nth:
  "length (mc_vectors t next n p) = n"
  "i < n \<Longrightarrow> mc_vectors t next n p ! i = word_of_int (ixgbe_mta_vector t (nth_addr next p i))"
proof -
  show "length (mc_vectors t next n p) = n" by (induction n arbitrary: p) (auto split: prod.split)
  show "i < n \<Longrightarrow> mc_vectors t next n p ! i = word_of_int (ixgbe_mta_vector t (nth_addr next p i))"
    by (induction n arbitrary: p i) (auto simp: nth_Cons split: prod.split nat.split)
qed

text \<open>The multicast update sends one full mailbox message: word 0 carries the request code and, from bit 16, the
  number of addresses, capped at 30; half-word i of the rest is the table index of the i-th address of the list,
  for every address below the cap; addresses above the cap are not sent.\<close>

theorem mc_list_message:
  "let cnt = min (unat n) 30; t = mc_filter_type (mac hw) in
   \<exists>rest. length rest = 15 \<and>
     (\<forall>i. i < cnt \<longrightarrow> half_of rest i = word_of_int (ixgbe_mta_vector t (nth_addr next p i))) \<and>
     (let msg = (IXGBE_VF_SET_MULTICAST OR push_bit IXGBE_VT_MSGINFO_SHIFT (of_nat cnt)) # rest;
          ((err, _), hw') = run_state (ixgbevf_write_msg_read_ack E msg msg IXGBE_VFMAILBOX_SIZE) hw in
      run_state (ixgbe_update_mc_addr_list_vf E stk p n next clear) hw = (err, hw'))"
proof -
  define cnt where "cnt = min (unat n) 30"
  define t where "t = mc_filter_type (mac hw)"
  define vs where "vs = mc_vectors t next cnt p"
  define rest where "rest = fold (\<lambda>(i, v) ws. set_half ws i v) (enumerate 0 vs) (map stk [1..<16])"
  have c: "(if n > 30 then 30 else n) = of_nat cnt"
    by (auto simp: cnt_def word_less_nat_alt min_def)
  have uc: "unat (of_nat cnt :: u32) = cnt" by (simp add: cnt_def unat_of_nat)
  have fits: "0 + length vs \<le> 2 * length (map stk [1..<16])"
    by (simp add: vs_def mc_vectors_nth cnt_def)
  note pk = pack_mc_vectors [OF fits, folded rest_def]
  have run: "run_state (ixgbe_update_mc_addr_list_vf E stk p n next clear) hw =
     (let msg = (IXGBE_VF_SET_MULTICAST OR push_bit IXGBE_VT_MSGINFO_SHIFT (of_nat cnt)) # rest;
          ((err, _), hw') = run_state (ixgbevf_write_msg_read_ack E msg msg IXGBE_VFMAILBOX_SIZE) hw in
      (err, hw'))"
    unfolding ixgbe_update_mc_addr_list_vf_def rest_def vs_def t_def
    by (simp add: c uc Let_def split_beta del: IXGBE_VFMAILBOX_SIZE_def)
  have "length rest = 15" using pk(1) by simp
  moreover have "\<forall>i. i < cnt \<longrightarrow> half_of rest i = word_of_int (ixgbe_mta_vector t (nth_addr next p i))"
    using pk(2) by (simp add: vs_def mc_vectors_nth)
  ultimately show ?thesis
    unfolding Let_def cnt_def [symmetric] t_def [symmetric]
    using run by (intro exI [of _ rest]) (auto simp: Let_def split: prod.splits)
qed

theorem mc_list_message_witness:
  "\<exists>rest. length rest = 15 \<and>
    half_of rest 0 = word_of_int (ixgbe_mta_vector 0 [1, 0, 0x5e, 0, 0, 0xfb])"
proof -
  let ?next = "\<lambda>p :: nat. ([1, 0, 0x5e, 0, 0, 0xfb], Suc p)"
  have "mc_filter_type (mac sample_hw) = 0" by (simp add: sample_hw_def)
  then show ?thesis
    using mc_list_message [of 1 sample_hw ?next 0 sample_env "\<lambda>_. 0" False]
    by (auto simp: Let_def)
qed

subsection \<open>Link state\<close>

lemma inert_live: "inert m \<Longrightarrow> run_state m hw = (a, hw') \<Longrightarrow> hw_addr hw' \<noteq> 0 \<Longrightarrow> hw_addr hw \<noteq> 0"
  unfolding inert_def by (metis snd_conv)

lemma upd_mac_inert [inert_rules]: "inert (upd_mac f)" "inert (set_get_link_status b)" "inert (null_call x)"
  unfolding set_get_link_status_def upd_mac_def null_call_def
  by (auto simp: inert_def log_io_def no_mmio_def)

lemma check_rst_inert [inert_rules]: "inert (call_ops0_check_for_rst E)"
proof -
  have [inert_rules]: "inert (ixgbe_check_for_rst_pf E i)" for i
    unfolding ixgbe_check_for_rst_pf_def by (intro inert_rules)
  have "inert (call_check_for_rst E f 0)" for f
    unfolding call_check_for_rst_def by (cases f) (simp_all add: inert_rules)
  then show ?thesis unfolding call_ops0_check_for_rst_def by (intro inert_rules)
qed

lemma check_link_mailbox_inert [inert_rules]: "inert (check_link_mailbox E r)"
  unfolding check_link_mailbox_def by (intro inert_rules)

text \<open>The history only grows.\<close>

lemma emits_any: "emits Q m \<Longrightarrow> emits (\<lambda>_. True) m"
  by (rule emits_mono) simp_all

lemma lock_grows [emits_rules]:
  "emits (\<lambda>_. True) (ixgbe_obtain_mbx_lock_vf E)" "emits (\<lambda>_. True) (ixgbe_obtain_mbx_lock_pf E i)"
proof -
  note [emits_rules] = emits_any [OF emits_no_delay_leaves(1)] emits_any [OF emits_no_delay_leaves(2)]
    emits_any [OF status_vf_no_delay(1)] emits_any [OF delay_reads(1)]
  have [emits_rules]: "emits (\<lambda>_. True) (obtain_lock_loop_vf E n)"
    "emits (\<lambda>_. True) (obtain_lock_loop_pf E i n)" for n
    by (induction n) (auto intro!: emits_rules)
  show "emits (\<lambda>_. True) (ixgbe_obtain_mbx_lock_vf E)" "emits (\<lambda>_. True) (ixgbe_obtain_mbx_lock_pf E i)"
    unfolding ixgbe_obtain_mbx_lock_vf_def ixgbe_obtain_mbx_lock_pf_def by (intro emits_rules)+
qed

lemma read_mbx_grows [emits_rules]: "emits (\<lambda>_. True) (ixgbe_read_mbx E msg sz i)"
proof -
  have vf: "emits no_delay (ixgbe_read_mbx_vf E msg sz i)" "emits no_delay (ixgbe_read_mbx_pf E msg sz i)" for sz
    unfolding ixgbe_read_mbx_vf_def ixgbe_read_mbx_pf_def by (intro emits_rules)+
  note [emits_rules] = emits_any [OF copy_no_delay(2)] emits_any [OF emits_no_delay_leaves(2)]
  have legacy: "emits (\<lambda>_. True) (ixgbe_read_mbx_vf_legacy E msg sz i)"
    "emits (\<lambda>_. True) (ixgbe_read_mbx_pf_legacy E msg sz i)" for sz
    unfolding ixgbe_read_mbx_vf_legacy_def ixgbe_read_mbx_pf_legacy_def by (intro emits_rules)+
  have "emits (\<lambda>_. True) (call_read E f msg sz i)" for f sz
    unfolding call_read_def by (cases f) (auto intro: legacy emits_any [OF vf(1)] emits_any [OF vf(2)])
  then show ?thesis unfolding ixgbe_read_mbx_def by (intro emits_rules)
qed

lemma check_link_mailbox_grows [emits_rules]: "emits (\<lambda>_. True) (check_link_mailbox E r)"
  unfolding check_link_mailbox_def set_get_link_status_def upd_mac_def by (intro emits_rules) auto

lemma check_rst_grows [emits_rules]: "emits (\<lambda>_. True) (call_ops0_check_for_rst E)"
proof -
  have "emits no_delay (ixgbe_check_for_rst_pf E i)" for i
    unfolding ixgbe_check_for_rst_pf_def by (intro emits_rules)
  then have "emits no_delay (call_check_for_rst E f 0)" for f
    unfolding call_check_for_rst_def by (cases f) (simp_all add: emits_rules)
  then have "emits (\<lambda>_. True) (call_check_for_rst E f 0)" for f by (rule emits_any)
  then show ?thesis unfolding call_ops0_check_for_rst_def by (intro emits_rules) auto
qed

definition saw_link_up :: "io_event list \<Rightarrow> bool" where
  "saw_link_up evs \<longleftrightarrow> (\<exists>v. MMIO_Read IXGBE_VFLINKS v \<in> set evs \<and> v AND IXGBE_LINKS_UP \<noteq> 0)"

lemma saw_link_up_append [simp]: "saw_link_up (xs @ ys) \<longleftrightarrow> saw_link_up xs \<or> saw_link_up ys"
  by (auto simp: saw_link_up_def)

lemma vflinks_settle_inert [inert_rules]: "inert (vflinks_settle E n l)"
  by (induction n arbitrary: l) (auto intro!: inert_rules)

lemma vflinks_settle_grows [emits_rules]: "emits (\<lambda>_. True) (vflinks_settle E n l)"
  by (induction n arbitrary: l)
     (auto intro!: emits_rules emits_any [OF delay_reads(1)] emits_any [OF emits_no_delay_leaves(1)])

lemma read_vflinks_saw:
  assumes "run_state (ixgbe_read_vflinks E sp up) hw = ((sp', True), hw')" and "hw_addr hw' \<noteq> 0"
  shows "hw_addr hw \<noteq> 0 \<and> (\<exists>evs. io hw' = evs @ io hw \<and> saw_link_up evs)"
proof -
  obtain l hw1 where rd: "run_state (ixgbe_read_reg E IXGBE_VFLINKS) hw = (l, hw1)" by fastforce
  let ?rest = "if mac_type (mac hw) = Ixgbe_mac_82599_vf then vflinks_settle E 5 l else ret (Some l)"
  obtain s hw2 where st: "run_state ?rest hw1 = (s, hw2)" by (metis surj_pair)
  have up: "l AND IXGBE_LINKS_UP \<noteq> 0" and hw': "hw' = hw2"
    using assms(1) rd st
    by (auto simp: ixgbe_read_vflinks_def simp del: IXGBE_VFLINKS_def split: if_splits option.splits)
  have "inert ?rest" by (intro inert_rules)
  with st assms(2) hw' have "hw_addr hw1 \<noteq> 0" by (blast dest: inert_live)
  with rd have live: "hw_addr hw \<noteq> 0" by (blast dest: inert_live [OF inert_leaves(3)])
  have "IXGBE_VFLINKS \<noteq> IXGBE_VFSTATUS" by simp
  from read_reg_reported [OF this live rd] obtain e1 where
    e1: "io hw1 = e1 @ io hw" "MMIO_Read IXGBE_VFLINKS l \<in> set e1" by blast
  have "emits (\<lambda>_. True) ?rest" by (intro emits_rules)
  then obtain e2 where "io hw2 = e2 @ io hw1" using st by (metis emitsE snd_conv)
  with e1 up hw' live show ?thesis
    by (auto intro!: exI [of _ "e2 @ e1"] simp: saw_link_up_def simp del: IXGBE_VFLINKS_def)
qed

lemma link_up_out_flag:
  "run_state (link_up_out r sp) hw = ((r', sp', up), hw') \<Longrightarrow> hw' = hw \<and> up = Some (\<not> get_link_status (mac hw))"
  by (auto simp: link_up_out_def)



text \<open>
  On the E610 the fallback to VFLINKS (API below 1.6) does not look at its result: with API 1.5
  and VFLINKS reporting the link down, the link is reported up, and the call still returns the
  error of the request that was not sent.
\<close>

lemma e610_fallback_ignores_vflinks:
  "fst (run_state (ixgbe_check_mac_link_vf (pf_env [] 0) 7 (Some False) False)
     (sample_hw\<lparr>mac := (mac sample_hw)\<lparr>mac_type := Ixgbe_mac_E610_vf\<rparr>,
        api_version := ixgbe_mbox_api_15\<rparr>)) =
   (IXGBE_ERR_FEATURE_NOT_SUPPORTED, 7, Some True)"
  by code_simp

subsection \<open>Stopping the adapter\<close>

text \<open>\<open>performs_at I\<close>: like \<open>performs\<close>, from states with \<open>I\<close>.\<close>

definition performs_at :: "(ixgbe_hw \<Rightarrow> bool) \<Rightarrow> 'a hwop \<Rightarrow> ('a \<Rightarrow> (u32 \<times> u32) list \<Rightarrow> bool) \<Rightarrow> bool" where
  "performs_at I m P \<longleftrightarrow> (\<forall>hw r hw'. I hw \<longrightarrow> run_state m hw = (r, hw') \<longrightarrow> hw_addr hw' \<noteq> 0 \<longrightarrow>
     hw_addr hw \<noteq> 0 \<and> (\<exists>ws. mmio_writes (io hw') = mmio_writes (io hw) @ ws \<and> P r ws))"

lemma performs_atI: "performs m P \<Longrightarrow> performs_at I m P"
  unfolding performs_at_def performs_def by fast

lemma performs_at_bind:
  assumes m: "performs m P" and pres: "preserves I m" and g: "\<And>a. performs_at I (g a) (Q a)"
    and R: "\<And>a r ws1 ws2. P a ws1 \<Longrightarrow> Q a r ws2 \<Longrightarrow> R r (ws1 @ ws2)"
  shows "performs_at I (State_Monad.bind m g) R"
  unfolding performs_at_def
proof (intro allI impI)
  fix hw r hw'
  assume I: "I hw" and "run_state (State_Monad.bind m g) hw = (r, hw')" and live: "hw_addr hw' \<noteq> 0"
  then obtain a hw1 where 1: "run_state m hw = (a, hw1)" and 2: "run_state (g a) hw1 = (r, hw')"
    by (auto split: prod.splits)
  from pres I 1 have "I hw1" by (rule preservesD)
  with g [of a] 2 live obtain ws2 where "hw_addr hw1 \<noteq> 0"
    "mmio_writes (io hw') = mmio_writes (io hw1) @ ws2" "Q a r ws2"
    unfolding performs_at_def by blast
  moreover from performsD [OF m 1 this(1)] obtain ws1 where "hw_addr hw \<noteq> 0"
    "mmio_writes (io hw1) = mmio_writes (io hw) @ ws1" "P a ws1" by blast
  ultimately show "hw_addr hw \<noteq> 0 \<and> (\<exists>ws. mmio_writes (io hw') = mmio_writes (io hw) @ ws \<and> R r ws)"
    using R by (metis append.assoc)
qed

lemma performs_at_seq:
  "performs m (\<lambda>_ ws. ws = us) \<Longrightarrow> preserves I m \<Longrightarrow>
   (\<And>a. performs_at I (g a) (\<lambda>r ws. Q r (us @ ws))) \<Longrightarrow> performs_at I (State_Monad.bind m g) Q"
  by (rule performs_at_bind [where P = "\<lambda>_ ws. ws = us" and Q = "\<lambda>_ r ws. Q r (us @ ws)"]) auto

lemma performs_at_gets:
  "(\<And>hw. I hw \<Longrightarrow> performs_at I (g (f hw)) P) \<Longrightarrow> performs_at I (State_Monad.bind (gets f) g) P"
  unfolding performs_at_def by auto

lemma performs_at_mono:
  "performs_at I m P \<Longrightarrow> (\<And>r ws. P r ws \<Longrightarrow> Q r ws) \<Longrightarrow> performs_at I m Q"
  unfolding performs_at_def by blast

lemma modify_then_keeps:
  assumes "keeps f m" and "run_state (do { modify g; m }) hw = (r, hw')"
  shows "f hw' = f (g hw)"
  using assms(2) keepsD [OF assms(1)] by simp

definition rx_disables :: "nat \<Rightarrow> (u32 \<times> u32) list \<Rightarrow> bool" where
  "rx_disables n ws \<longleftrightarrow> map fst ws = map (\<lambda>i. IXGBE_VFRXDCTL (of_nat i)) [0..<n] \<and>
     (\<forall>(r, v) \<in> set ws. v AND IXGBE_RXDCTL_ENABLE = 0)"

lemma rx_disable_loop:
  "performs (for_each is (\<lambda>i. do {
       reg_val \<leftarrow> ixgbe_read_reg E (IXGBE_VFRXDCTL (of_nat i));
       IXGBE_WRITE_REG (IXGBE_VFRXDCTL (of_nat i)) (reg_val AND NOT IXGBE_RXDCTL_ENABLE) }))
   (\<lambda>_ ws. map fst ws = map (\<lambda>i. IXGBE_VFRXDCTL (of_nat i)) is \<and>
     (\<forall>(r, v) \<in> set ws. v AND IXGBE_RXDCTL_ENABLE = 0))"
proof (induction "is")
  case Nil
  show ?case by (simp add: performs_ret)
next
  case (Cons i "is")
  have clear: "(v AND NOT IXGBE_RXDCTL_ENABLE) AND IXGBE_RXDCTL_ENABLE = 0" for v
    by (rule bit_eqI) (auto simp: bit_simps simp del: IXGBE_RXDCTL_ENABLE_def)
  have one: "performs (do {
       reg_val \<leftarrow> ixgbe_read_reg E (IXGBE_VFRXDCTL (of_nat i));
       IXGBE_WRITE_REG (IXGBE_VFRXDCTL (of_nat i)) (reg_val AND NOT IXGBE_RXDCTL_ENABLE) })
     (\<lambda>_ ws. \<exists>v. ws = [(IXGBE_VFRXDCTL (of_nat i), v AND NOT IXGBE_RXDCTL_ENABLE)])"
    by (intro performs_seq [OF performs_silent [OF silent_leaves(1)]])
       (auto intro: performs_mono [OF performs_write_reg])
  show ?case
    unfolding for_each.simps
    by (rule performs_bind [OF one Cons.IH]) (use clear in \<open>auto simp del: IXGBE_RXDCTL_ENABLE_def\<close>)
qed

text \<open>Stopping the adapter is complete and ordered: on an adapter that stays present,
  \<open>ixgbe_stop_adapter_vf\<close> first masks all interrupts, then flushes every transmit queue, then writes the control register of
  every receive queue, in order, with the enable bit clear, and last clears the packet-split configuration; it writes
  nothing else, returns 0 and marks the adapter stopped.\<close>

theorem stop_adapter_sequence:
  assumes "run_state (ixgbe_stop_adapter_vf E) hw = (r, hw')" and "hw_addr hw' \<noteq> 0"
  shows "r = 0 \<and> adapter_stopped hw' \<and> (\<exists>rx. rx_disables (unat (max_rx_queues (mac hw))) rx \<and>
    mmio_writes (io hw') = mmio_writes (io hw) @ [(IXGBE_VTEIMC, IXGBE_VF_IRQ_CLEAR_MASK)]
      @ map (\<lambda>i. (IXGBE_VFTXDCTL (of_nat i), IXGBE_TXDCTL_SWFLSH)) [0..<unat (max_tx_queues (mac hw))]
      @ rx @ [(IXGBE_VFPSRTYPE, 0)])"
proof -
  let ?I = "\<lambda>h. mac h = mac hw"
  let ?tx = "\<lambda>n. map (\<lambda>i. (IXGBE_VFTXDCTL (of_nat i), IXGBE_TXDCTL_SWFLSH)) [0..<n]"
  let ?rxbody = "\<lambda>i :: nat. do { reg_val \<leftarrow> ixgbe_read_reg E (IXGBE_VFRXDCTL (of_nat i));
       IXGBE_WRITE_REG (IXGBE_VFRXDCTL (of_nat i)) (reg_val AND NOT IXGBE_RXDCTL_ENABLE) }"
  have pres: "preserves ?I m" if "keeps hw_core m" for m :: "'x hwop"
    using preserves_keeps [OF keeps_core_mac [OF that], of "\<lambda>m. m = mac hw"] .
  have tx: "performs (for_each [0..<n] (\<lambda>i. IXGBE_WRITE_REG (IXGBE_VFTXDCTL (of_nat i)) IXGBE_TXDCTL_SWFLSH))
      (\<lambda>_ ws. ws = ?tx n)" for n
  proof -
    have "performs (for_each [0..<n] (\<lambda>i. IXGBE_WRITE_REG (IXGBE_VFTXDCTL (of_nat i)) IXGBE_TXDCTL_SWFLSH))
      (\<lambda>_ ws. ws = concat (map (\<lambda>i. [(IXGBE_VFTXDCTL (of_nat i), IXGBE_TXDCTL_SWFLSH)]) [0..<n]))"
      by (intro performs_for_each performs_write_reg)
    then show ?thesis by (simp add: concat_map_singleton)
  qed
  have finish: "performs (do { IXGBE_WRITE_REG IXGBE_VFPSRTYPE 0; IXGBE_WRITE_FLUSH E; msleep 2; ret (0 :: s32) })
      (\<lambda>r ws. r = 0 \<and> ws = [(IXGBE_VFPSRTYPE, 0)])"
    by (intro performs_seq [OF performs_write_reg] performs_seq [OF performs_silent [OF silent_leaves(3)]]
        performs_seq [OF performs_silent [OF silent_leaves(5)]] performs_ret) simp
  have rx: "performs_at ?I (do { for_each [0..<n] ?rxbody;
        IXGBE_WRITE_REG IXGBE_VFPSRTYPE 0; IXGBE_WRITE_FLUSH E; msleep 2; ret (0 :: s32) })
      (\<lambda>r ws. r = 0 \<and> (\<exists>rx. rx_disables n rx \<and> ws = rx @ [(IXGBE_VFPSRTYPE, 0)]))" for n
    by (rule performs_at_bind [OF rx_disable_loop _ performs_atI [OF finish]], rule pres,
        intro keeps_rules) (auto simp: rx_disables_def)
  have prefix: "performs (do { modify (\<lambda>hw. hw\<lparr>adapter_stopped := True\<rparr>);
       IXGBE_WRITE_REG IXGBE_VTEIMC IXGBE_VF_IRQ_CLEAR_MASK; ixgbe_read_reg E IXGBE_VTEICR })
      (\<lambda>_ ws. ws = [(IXGBE_VTEIMC, IXGBE_VF_IRQ_CLEAR_MASK)])"
    by (intro performs_seq [OF performs_silent [OF silent_modify]] performs_seq [OF performs_write_reg]
        performs_mono [OF performs_silent [OF silent_leaves(1)]]) auto
  have assoc: "ixgbe_stop_adapter_vf E = State_Monad.bind (do { modify (\<lambda>hw. hw\<lparr>adapter_stopped := True\<rparr>);
       IXGBE_WRITE_REG IXGBE_VTEIMC IXGBE_VF_IRQ_CLEAR_MASK; ixgbe_read_reg E IXGBE_VTEICR }) (\<lambda>_. do {
       ntx \<leftarrow> gets (\<lambda>hw. max_tx_queues (mac hw));
       for_each [0..<unat ntx] (\<lambda>i. IXGBE_WRITE_REG (IXGBE_VFTXDCTL (of_nat i)) IXGBE_TXDCTL_SWFLSH);
       nrx \<leftarrow> gets (\<lambda>hw. max_rx_queues (mac hw));
       for_each [0..<unat nrx] ?rxbody;
       IXGBE_WRITE_REG IXGBE_VFPSRTYPE 0; IXGBE_WRITE_FLUSH E; msleep 2; ret 0 })"
    by (simp only: ixgbe_stop_adapter_vf_def State_Monad.bind_assoc)
  have pmac: "preserves ?I (do { modify (\<lambda>hw. hw\<lparr>adapter_stopped := True\<rparr>);
       IXGBE_WRITE_REG IXGBE_VTEIMC IXGBE_VF_IRQ_CLEAR_MASK; ixgbe_read_reg E IXGBE_VTEICR })"
    by (intro preserves_rules pres keeps_rules) simp
  have "performs_at ?I (ixgbe_stop_adapter_vf E)
      (\<lambda>r ws. r = 0 \<and> (\<exists>rx. rx_disables (unat (max_rx_queues (mac hw))) rx \<and>
        ws = [(IXGBE_VTEIMC, IXGBE_VF_IRQ_CLEAR_MASK)] @ ?tx (unat (max_tx_queues (mac hw))) @ rx
          @ [(IXGBE_VFPSRTYPE, 0)]))"
    unfolding assoc
  proof (rule performs_at_seq [OF prefix pmac], rule performs_at_gets, rule performs_at_seq [OF tx pres],
      intro keeps_rules, rule performs_at_gets)
    fix h1 h2 assume eqs: "mac h1 = mac hw" "mac h2 = mac hw"
    show "performs_at ?I (do { for_each [0..<unat (max_rx_queues (mac h2))] ?rxbody;
        IXGBE_WRITE_REG IXGBE_VFPSRTYPE 0; IXGBE_WRITE_FLUSH E; msleep 2; ret (0 :: s32) })
      (\<lambda>r ws. r = 0 \<and> (\<exists>rx. rx_disables (unat (max_rx_queues (mac hw))) rx \<and>
        [(IXGBE_VTEIMC, IXGBE_VF_IRQ_CLEAR_MASK)] @ ?tx (unat (max_tx_queues (mac h1))) @ ws =
        [(IXGBE_VTEIMC, IXGBE_VF_IRQ_CLEAR_MASK)] @ ?tx (unat (max_tx_queues (mac hw))) @ rx
          @ [(IXGBE_VFPSRTYPE, 0)]))"
      unfolding eqs by (rule performs_at_mono [OF rx]) simp
  qed
  moreover have "keeps adapter_stopped (do {
      IXGBE_WRITE_REG IXGBE_VTEIMC IXGBE_VF_IRQ_CLEAR_MASK; ixgbe_read_reg E IXGBE_VTEICR;
      ntx \<leftarrow> gets (\<lambda>hw. max_tx_queues (mac hw));
      for_each [0..<unat ntx] (\<lambda>i. IXGBE_WRITE_REG (IXGBE_VFTXDCTL (of_nat i)) IXGBE_TXDCTL_SWFLSH);
      nrx \<leftarrow> gets (\<lambda>hw. max_rx_queues (mac hw));
      for_each [0..<unat nrx] ?rxbody;
      IXGBE_WRITE_REG IXGBE_VFPSRTYPE 0; IXGBE_WRITE_FLUSH E; msleep 2; ret (0 :: s32) })"
    by (intro keeps_core_stopped keeps_rules)
  note modify_then_keeps [OF this assms(1) [unfolded ixgbe_stop_adapter_vf_def]]
  then have "adapter_stopped hw'" by simp
  ultimately show ?thesis using assms unfolding performs_at_def by blast
qed

theorem stop_adapter_sequence_witness:
  "\<exists>rx. rx_disables 2 rx \<and>
    mmio_writes (io (snd (run_state (ixgbe_stop_adapter_vf sample_env)
      (sample_hw\<lparr>mac := (mac sample_hw)\<lparr>max_tx_queues := 1, max_rx_queues := 2\<rparr>\<rparr>)))) =
      [(IXGBE_VTEIMC, 7), (0x2028, IXGBE_TXDCTL_SWFLSH)] @ rx @ [(IXGBE_VFPSRTYPE, 0)]"
proof -
  let ?hw = "sample_hw\<lparr>mac := (mac sample_hw)\<lparr>max_tx_queues := 1, max_rx_queues := 2\<rparr>\<rparr>"
  let ?r = "run_state (ixgbe_stop_adapter_vf sample_env) ?hw"
  have "hw_addr (snd ?r) \<noteq> 0" by code_simp
  with stop_adapter_sequence [of sample_env ?hw "fst ?r" "snd ?r"] show ?thesis
    by (simp add: upt_rec) (simp add: sample_hw_def)
qed

subsection \<open>Reset\<close>

lemma wait_rst_loop_frame [keeps_rules]: "keeps frame (wait_rst_loop E n)"
proof -
  have [keeps_rules]: "keeps frame (call_ops0_check_for_rst E)"
    unfolding call_ops0_check_for_rst_def by (intro keeps_rules)
  show ?thesis by (induction n) (auto intro!: keeps_rules)
qed

lemma virt_clr_reg_frame [keeps_rules]: "keeps frame (ixgbe_virt_clr_reg E)"
  unfolding ixgbe_virt_clr_reg_def virt_clr_queue_def by (intro keeps_rules)

text \<open>The mailbox state that \<open>ixgbe_init_mbx_params_vf\<close> establishes.\<close>

definition legacy_mailbox :: "ixgbe_hw \<Rightarrow> bool" where
  "legacy_mailbox hw \<longleftrightarrow> mbx_timeout (mbx hw) = IXGBE_VF_MBX_INIT_TIMEOUT \<and>
     mbx_udelay (mbx hw) = IXGBE_VF_MBX_INIT_DELAY \<and> mbx_size (mbx hw) = IXGBE_VFMAILBOX_SIZE \<and>
     op_release (mbx_ops (mbx hw) 0) = Some Release_mbx_lock_dummy \<and>
     op_read (mbx_ops (mbx hw) 0) = Some Read_mbx_vf_legacy \<and>
     op_write (mbx_ops (mbx hw) 0) = Some Write_mbx_vf_legacy \<and>
     op_check_for_msg (mbx_ops (mbx hw) 0) = Some Check_vf \<and>
     op_check_for_ack (mbx_ops (mbx hw) 0) = Some Check_vf \<and>
     op_check_for_rst (mbx_ops (mbx hw) 0) = Some Check_vf"

lemma legacy_mailbox_frame: "frame hw' = frame hw \<Longrightarrow> legacy_mailbox hw \<Longrightarrow> legacy_mailbox hw'"
  by (simp add: legacy_mailbox_def frame_def)

lemma init_mbx_params_legacy:
  "run_state ixgbe_init_mbx_params_vf hw = (u, hw') \<Longrightarrow> legacy_mailbox hw' \<and> mac hw' = mac hw \<and>
     api_version hw' = api_version hw \<and> adapter_stopped hw' = adapter_stopped hw \<and> io hw' = io hw"
  by (auto simp: ixgbe_init_mbx_params_vf_def upd_mbx_def upd_stats_def set_ops_def legacy_mailbox_def)

text \<open>The part of the reset before and after the mailbox is set up again.\<close>

definition reset_rest :: "env \<Rightarrow> (nat \<Rightarrow> u32) \<Rightarrow> s32 hwop" where
  "reset_rest E stk = do {
     IXGBE_WRITE_REG IXGBE_VFCTRL IXGBE_CTRL_RST;
     IXGBE_WRITE_FLUSH E;
     msleep 50;
     timeout \<leftarrow> wait_rst_loop E IXGBE_VF_INIT_TIMEOUT;
     if timeout = 0 then ret IXGBE_ERR_RESET_FAILED else do {
       ixgbe_virt_clr_reg E;
       upd_mbx (\<lambda>m. m\<lparr>mbx_timeout := IXGBE_VF_MBX_INIT_TIMEOUT\<rparr>);
       let msgbuf = [IXGBE_VF_RESET, stk 1, stk 2, stk 3];
       ixgbe_write_mbx E msgbuf 1 0;
       msleep 10;
       (ret_val, msgbuf) \<leftarrow> ixgbe_poll_mbx E msgbuf IXGBE_VF_PERMADDR_MSG_LEN 0;
       if ret_val \<noteq> 0 then ret ret_val
       else if msgbuf ! 0 \<noteq> IXGBE_VF_RESET OR IXGBE_VT_MSGTYPE_SUCCESS \<and>
               msgbuf ! 0 \<noteq> IXGBE_VF_RESET OR IXGBE_VT_MSGTYPE_FAILURE
       then ret IXGBE_ERR_INVALID_MAC_ADDR
       else do {
         whenM (msgbuf ! 0 = IXGBE_VF_RESET OR IXGBE_VT_MSGTYPE_SUCCESS)
           (upd_mac (\<lambda>m. m\<lparr>perm_addr := words_addr (msgbuf ! 1) (msgbuf ! 2)\<rparr>));
         upd_mac (\<lambda>m. m\<lparr>mc_filter_type := s32_of_u32 (msgbuf ! IXGBE_VF_MC_TYPE_WORD)\<rparr>);
         ret ret_val } } }"

lemma reset_hw_vf_split:
  "ixgbe_reset_hw_vf E stk = do {
     ops \<leftarrow> gets (\<lambda>hw. mac_ops (mac hw));
     (case op_stop_adapter ops of None \<Rightarrow> null_call 0 | Some _ \<Rightarrow> ixgbe_stop_adapter_vf E);
     modify (\<lambda>hw. hw\<lparr>api_version := ixgbe_mbox_api_10\<rparr>);
     ixgbe_init_mbx_params_vf;
     reset_rest E stk }"
  by (simp only: ixgbe_reset_hw_vf_def reset_rest_def)

definition reset_inv :: "ixgbe_mac_info \<Rightarrow> ixgbe_hw \<Rightarrow> bool" where
  "reset_inv m hw \<longleftrightarrow> legacy_mailbox hw \<and> api_version hw = ixgbe_mbox_api_10 \<and>
     mac hw\<lparr>perm_addr := perm_addr m, mc_filter_type := mc_filter_type m\<rparr> = m"

lemma reset_inv_frame: "keeps frame p \<Longrightarrow> preserves (reset_inv m) p"
proof (rule preservesI)
  fix hw assume "keeps frame p" and inv: "reset_inv m hw"
  then have fr: "frame (snd (run_state p hw)) = frame hw" by (simp add: keeps_snd)
  from inv show "reset_inv m (snd (run_state p hw))"
    unfolding reset_inv_def frame_parts(1,2) [OF fr] using legacy_mailbox_frame [OF fr] by blast
qed

lemma reset_rest_inv: "preserves (reset_inv m) (reset_rest E stk)"
proof -
  have upd: "preserves (reset_inv m) (upd_mac (\<lambda>m. m\<lparr>perm_addr := a\<rparr>))"
    "preserves (reset_inv m) (upd_mac (\<lambda>m. m\<lparr>mc_filter_type := t\<rparr>))"
    "preserves (reset_inv m) (upd_mbx (\<lambda>m. m\<lparr>mbx_timeout := IXGBE_VF_MBX_INIT_TIMEOUT\<rparr>))" for a t
    unfolding upd_mac_def upd_mbx_def
    by (intro preserves_rules; auto simp: reset_inv_def legacy_mailbox_def)+
  show ?thesis
    unfolding reset_rest_def Let_def
    by (intro preserves_rules upd reset_inv_frame [OF write_reg_core(1) [THEN core_frame]]
        reset_inv_frame [OF write_reg_core(4) [THEN core_frame]]
        reset_inv_frame [OF raw_io_core(4) [THEN core_frame]] reset_inv_frame [OF wait_rst_loop_frame]
        reset_inv_frame [OF virt_clr_reg_frame] reset_inv_frame [OF mbx_entry_frame(2)]
        reset_inv_frame [OF mbx_entry_frame(3)])
qed

lemma stop_adapter_mac: "keeps mac (ixgbe_stop_adapter_vf E)"
  unfolding ixgbe_stop_adapter_vf_def by (intro keeps_rules keeps_core_mac [OF write_reg_core(1)]
    keeps_core_mac [OF read_reg_core(1)] keeps_core_mac [OF write_reg_core(4)] keeps_core_mac [OF raw_io_core(4)]) simp

text \<open>C34: A reset always returns to a known mailbox: whether or not \<open>ixgbe_reset_hw_vf\<close> succeeds, it leaves API version 1.0 in
  force, mailbox 0 with the legacy operations, the full timeout and the default delay, and of the MAC state it
  changes nothing but the permanent address and the multicast filter type the PF reported.\<close>

theorem reset_restores_mailbox:
  assumes "run_state (ixgbe_reset_hw_vf E stk) hw = (r, hw')"
  shows "legacy_mailbox hw' \<and> api_version hw' = ixgbe_mbox_api_10 \<and>
    mac hw'\<lparr>perm_addr := perm_addr (mac hw), mc_filter_type := mc_filter_type (mac hw)\<rparr> = mac hw"
proof -
  let ?stop = "case op_stop_adapter (mac_ops (mac hw)) of None \<Rightarrow> null_call 0 | Some _ \<Rightarrow> ixgbe_stop_adapter_vf E"
  obtain x hw1 where stop: "run_state ?stop hw = (x, hw1)" by fastforce
  obtain u hw2 where init: "run_state ixgbe_init_mbx_params_vf (hw1\<lparr>api_version := ixgbe_mbox_api_10\<rparr>) = (u, hw2)"
    by (meson surj_pair)
  have rest: "run_state (reset_rest E stk) hw2 = (r, hw')"
    using assms stop init unfolding reset_hw_vf_split by simp
  have "keeps mac ?stop"
    by (auto split: option.split intro: stop_adapter_mac keeps_core_mac [OF call_core(2)])
  then have "mac hw1 = mac hw" using stop by (rule keepsD)
  then have "reset_inv (mac hw) hw2"
    using init_mbx_params_legacy [OF init] by (simp add: reset_inv_def)
  with reset_rest_inv rest have "reset_inv (mac hw) hw'" by (blast dest: preservesD)
  then show ?thesis by (simp add: reset_inv_def)
qed

theorem reset_restores_mailbox_witness:
  "legacy_mailbox (snd (run_state (ixgbe_reset_hw_vf sample_env (\<lambda>_. 0)) sample_hw))"
  using reset_restores_mailbox [of sample_env "\<lambda>_. 0" sample_hw] by (metis prod.collapse)

end
