(* ===== verification/Mac_HV.thy ===== *)
theory Mac_HV
  imports Mac_Facts
begin

text \<open>
  \<open>ixgbe_hv_vf.c\<close> and the Hyper-V variants of \<open>ixgbevf_main.c\<close>: on Hyper-V there is no mailbox,
  the PF is reached through emulated PCI config space. Then the calls through the operation
  table \<open>hw->mac.ops\<close>, which select the native routine or its Hyper-V variant. The kernel option
  \<open>CONFIG_PCI_MMCONFIG\<close> is the parameter \<open>mmconfig\<close>.
\<close>

definition EOPNOTSUPP :: int where [simp]: "EOPNOTSUPP = 95"
definition IXGBE_HV_RESET_OFFSET :: nat where [simp]: "IXGBE_HV_RESET_OFFSET = 0x201"
definition IXGBE_HV_LINK_STATUS_OFFSET :: nat where [simp]: "IXGBE_HV_LINK_STATUS_OFFSET = 0x209"
definition IXGBE_HV_LINK_STATUS_SIZE :: nat where [simp]: "IXGBE_HV_LINK_STATUS_SIZE = 4"

definition pci_read_config_byte :: "env \<Rightarrow> nat \<Rightarrow> (int \<times> u8) hwop" where
  "pci_read_config_byte E where = do {
     (e, b) \<leftarrow> gets (\<lambda>hw. pci_cfg E (io hw) where);
     log_io (Cfg_Read where e b);
     ret (e, b) }"

subsection \<open>Stubs and register variants\<close>

definition ixgbevf_hv_update_mc_addr_list_vf ::
    "'p \<Rightarrow> u32 \<Rightarrow> ('p \<Rightarrow> u8 list \<times> 'p) \<Rightarrow> bool \<Rightarrow> s32 hwop" where
  "ixgbevf_hv_update_mc_addr_list_vf mc_addr_list mc_addr_count next clear =
     ret IXGBE_ERR_FEATURE_NOT_SUPPORTED"

definition ixgbevf_hv_update_xcast_mode :: "int \<Rightarrow> s32 hwop" where
  "ixgbevf_hv_update_xcast_mode xcast_mode = ret IXGBE_ERR_FEATURE_NOT_SUPPORTED"

definition ixgbevf_hv_set_vfta_vf :: "u32 \<Rightarrow> u32 \<Rightarrow> bool \<Rightarrow> bool \<Rightarrow> s32 hwop" where
  "ixgbevf_hv_set_vfta_vf vlan vind vlan_on vlvf_bypass = ret IXGBE_ERR_FEATURE_NOT_SUPPORTED"

definition ixgbevf_hv_set_uc_addr_vf :: "u32 \<Rightarrow> u8 list option \<Rightarrow> s32 hwop" where
  "ixgbevf_hv_set_uc_addr_vf index addr = ret IXGBE_ERR_FEATURE_NOT_SUPPORTED"

definition ixgbevf_hv_set_rlpml_vf :: "env \<Rightarrow> u16 \<Rightarrow> s32 hwop" where
  "ixgbevf_hv_set_rlpml_vf E max_size = do {
     reg \<leftarrow> ixgbe_read_reg E (IXGBE_VFRXDCTL 0);
     IXGBE_WRITE_REG (IXGBE_VFRXDCTL 0) (reg OR ((ucast max_size + 4) OR IXGBE_RXDCTL_RLPML_EN));
     ret 0 }"

definition ixgbevf_hv_negotiate_api_version_vf :: "int \<Rightarrow> s32 hwop" where
  "ixgbevf_hv_negotiate_api_version_vf api =
     ret (if api \<noteq> ixgbe_mbox_api_10 then IXGBE_ERR_INVALID_ARGUMENT else 0)"

definition ixgbevf_hv_set_rar_vf :: "u32 \<Rightarrow> u8 list \<Rightarrow> u32 \<Rightarrow> u32 \<Rightarrow> s32 hwop" where
  "ixgbevf_hv_set_rar_vf index addr vmdq enable_addr = do {
     p \<leftarrow> gets (\<lambda>hw. perm_addr (mac hw));
     ret (if take 6 addr = take 6 p then 0 else - EOPNOTSUPP) }"

definition ixgbevf_hv_reset_hw_vf :: "env \<Rightarrow> bool \<Rightarrow> s32 hwop" where
  "ixgbevf_hv_reset_hw_vf E mmconfig = (if mmconfig then do {
       for_each [0..<6] (\<lambda>i. do {
         (_, b) \<leftarrow> pci_read_config_byte E (i + IXGBE_HV_RESET_OFFSET);
         upd_mac (\<lambda>m. m\<lparr>perm_addr := (perm_addr m)[i := b]\<rparr>) });
       ret 0
     } else ret (- EOPNOTSUPP))"

subsection \<open>Link state\<close>

definition hv_vflinks_speed :: "ixgbe_mac_type \<Rightarrow> u32 \<Rightarrow> u32" where
  "hv_vflinks_speed t links_reg = (let s = links_reg AND IXGBE_LINKS_SPEED_82599 in
     if s = IXGBE_LINKS_SPEED_10G_82599 then
       (if t \<ge> Ixgbe_mac_X550 \<and> links_reg AND IXGBE_LINKS_SPEED_NON_STD \<noteq> 0
        then IXGBE_LINK_SPEED_2_5GB_FULL else IXGBE_LINK_SPEED_10GB_FULL)
     else if s = IXGBE_LINKS_SPEED_1G_82599 then IXGBE_LINK_SPEED_1GB_FULL
     else if s = IXGBE_LINKS_SPEED_100_82599 then
       (if links_reg AND IXGBE_LINKS_SPEED_NON_STD \<noteq> 0 \<and> (t = Ixgbe_mac_X550 \<or> ixgbe_is_mac_E6xx t)
        then IXGBE_LINK_SPEED_5GB_FULL else IXGBE_LINK_SPEED_100_FULL)
     else if s = IXGBE_LINKS_SPEED_10_X550EM_A then
       (if t \<ge> Ixgbe_mac_X550 then IXGBE_LINK_SPEED_10_FULL else IXGBE_LINK_SPEED_UNKNOWN)
     else IXGBE_LINK_SPEED_UNKNOWN)"

definition hv_link_up_out :: "u32 \<Rightarrow> (s32 \<times> u32 \<times> bool) hwop" where
  "hv_link_up_out speed = do {
     g \<leftarrow> gets (\<lambda>hw. get_link_status (mac hw));
     ret (0, speed, \<not> g) }"

definition ixgbevf_hv_check_mac_link_vf ::
    "env \<Rightarrow> u32 \<Rightarrow> bool \<Rightarrow> bool \<Rightarrow> (s32 \<times> u32 \<times> bool) hwop" where
  "ixgbevf_hv_check_mac_link_vf E speed link_up autoneg_wait_to_complete = do {
     r \<leftarrow> call_ops0_check_for_rst E;
     t \<leftarrow> gets (\<lambda>hw. mbx_timeout (mbx hw));
     whenM (r = 0 \<or> t = 0) (set_get_link_status True);
     g \<leftarrow> gets (\<lambda>hw. get_link_status (mac hw));
     ty \<leftarrow> gets (\<lambda>hw. mac_type (mac hw));
     if \<not> g then hv_link_up_out speed else do {
       links_reg \<leftarrow> ixgbe_read_reg E IXGBE_VFLINKS;
       if links_reg AND IXGBE_LINKS_UP = 0 then hv_link_up_out speed else do {
         settled \<leftarrow> (if ty = Ixgbe_mac_82599_vf then vflinks_settle E 5 links_reg
                    else ret (Some links_reg));
         case settled of None \<Rightarrow> hv_link_up_out speed
         | Some links_reg \<Rightarrow> do {
             set_get_link_status False;
             hv_link_up_out (hv_vflinks_speed ty links_reg) } } } }"

text \<open>The loop that assembles the 32-bit status from config bytes, least significant first.\<close>

primrec hv_read_links :: "env \<Rightarrow> nat list \<Rightarrow> u32 \<Rightarrow> (int + u32) hwop" where
  "hv_read_links E [] links_reg = ret (Inr links_reg)"
| "hv_read_links E (i # is) links_reg = do {
     (r, b) \<leftarrow> pci_read_config_byte E (IXGBE_HV_LINK_STATUS_OFFSET + i);
     if r \<noteq> 0 then ret (Inl r)
     else hv_read_links E is (links_reg OR push_bit (i * 8) (ucast b)) }"

definition hv_e6xx_speed :: "u32 \<Rightarrow> u32" where
  "hv_e6xx_speed links_reg = (let s = links_reg AND IXGBE_LINKS_SPEED_82599 in
     if s = IXGBE_LINKS_SPEED_10G_82599 then
       (if links_reg AND IXGBE_LINKS_SPEED_NON_STD \<noteq> 0
        then IXGBE_LINK_SPEED_2_5GB_FULL else IXGBE_LINK_SPEED_10GB_FULL)
     else if s = IXGBE_LINKS_SPEED_1G_82599 then IXGBE_LINK_SPEED_1GB_FULL
     else if s = IXGBE_LINKS_SPEED_100_82599 then
       (if links_reg AND IXGBE_LINKS_SPEED_NON_STD \<noteq> 0
        then IXGBE_LINK_SPEED_5GB_FULL else IXGBE_LINK_SPEED_100_FULL)
     else IXGBE_LINK_SPEED_UNKNOWN)"

definition ixgbevf_hv_check_mac_link_e6xx ::
    "env \<Rightarrow> bool \<Rightarrow> u32 \<Rightarrow> bool \<Rightarrow> bool \<Rightarrow> (s32 \<times> u32 \<times> bool) hwop" where
  "ixgbevf_hv_check_mac_link_e6xx E mmconfig speed link_up autoneg_wait_to_complete = do {
     r \<leftarrow> call_ops0_check_for_rst E;
     t \<leftarrow> gets (\<lambda>hw. mbx_timeout (mbx hw));
     whenM (r = 0 \<or> t = 0) (set_get_link_status True);
     g \<leftarrow> gets (\<lambda>hw. get_link_status (mac hw));
     if \<not> g then hv_link_up_out speed
     else if \<not> mmconfig then ret (- EOPNOTSUPP, speed, link_up)
     else do {
       res \<leftarrow> hv_read_links E [0..<IXGBE_HV_LINK_STATUS_SIZE] 0;
       case res of Inl e \<Rightarrow> ret (e, speed, link_up)
       | Inr links_reg \<Rightarrow>
         if links_reg AND IXGBE_LINKS_UP = 0 then hv_link_up_out speed
         else do {
           set_get_link_status False;
           hv_link_up_out (hv_e6xx_speed links_reg) } } }"

subsection \<open>Operation tables\<close>

definition ixgbevf_hv_init_ops_vf :: "s32 hwop" where
  "ixgbevf_hv_init_ops_vf = do {
     ixgbe_init_ops_vf;
     upd_mac (\<lambda>m. m\<lparr>mac_ops := (mac_ops m)\<lparr>
       op_reset_hw := Some Hv_reset_hw_vf,
       op_check_link := Some Hv_check_mac_link_vf,
       op_negotiate_api_version := Some Hyperv_fn,
       op_set_rar := Some Hyperv_fn,
       op_update_mc_addr_list := Some Hyperv_fn,
       op_update_xcast_mode := Some Hyperv_fn,
       op_set_uc_addr := Some Hyperv_fn,
       op_set_vfta := Some Hyperv_fn,
       op_set_rlpml := Some Hyperv_fn\<rparr>\<rparr>);
     ret 0 }"

definition ixgbevf_hv_init_ops_e6xx_vf :: "unit hwop" where
  "ixgbevf_hv_init_ops_e6xx_vf = do {
     ixgbevf_hv_init_ops_vf;
     upd_mac (\<lambda>m. m\<lparr>mac_ops := (mac_ops m)\<lparr>op_check_link := Some Hv_check_mac_link_e6xx\<rparr>\<rparr>) }"

subsection \<open>Calls through the operation table\<close>

definition call_init_hw :: "s32 hwop" where
  "call_init_hw = do {
     op \<leftarrow> gets (\<lambda>hw. op_init_hw (mac_ops (mac hw)));
     case op of None \<Rightarrow> null_call 0 | Some _ \<Rightarrow> ixgbe_init_hw_vf }"

definition call_reset_hw :: "env \<Rightarrow> bool \<Rightarrow> (nat \<Rightarrow> u32) \<Rightarrow> s32 hwop" where
  "call_reset_hw E mmconfig stk = do {
     op \<leftarrow> gets (\<lambda>hw. op_reset_hw (mac_ops (mac hw)));
     case op of None \<Rightarrow> null_call 0
     | Some Reset_hw_vf \<Rightarrow> ixgbe_reset_hw_vf E stk
     | Some Hv_reset_hw_vf \<Rightarrow> ixgbevf_hv_reset_hw_vf E mmconfig }"

definition call_stop_adapter :: "env \<Rightarrow> s32 hwop" where
  "call_stop_adapter E = do {
     op \<leftarrow> gets (\<lambda>hw. op_stop_adapter (mac_ops (mac hw)));
     case op of None \<Rightarrow> null_call 0 | Some _ \<Rightarrow> ixgbe_stop_adapter_vf E }"

definition call_negotiate_api_version :: "env \<Rightarrow> int \<Rightarrow> s32 hwop" where
  "call_negotiate_api_version E api = do {
     op \<leftarrow> gets (\<lambda>hw. op_negotiate_api_version (mac_ops (mac hw)));
     case op of None \<Rightarrow> null_call 0
     | Some Native_fn \<Rightarrow> ixgbevf_negotiate_api_version E api
     | Some Hyperv_fn \<Rightarrow> ixgbevf_hv_negotiate_api_version_vf api }"

definition call_negotiate_features :: "env \<Rightarrow> u32 \<Rightarrow> (s32 \<times> u32) hwop" where
  "call_negotiate_features E f = do {
     op \<leftarrow> gets (\<lambda>hw. op_negotiate_features (mac_ops (mac hw)));
     case op of None \<Rightarrow> null_call (0, f) | Some _ \<Rightarrow> ixgbevf_negotiate_features_vf E f }"

definition call_check_link :: "env \<Rightarrow> bool \<Rightarrow> u32 \<Rightarrow> bool \<Rightarrow> bool \<Rightarrow> (s32 \<times> u32 \<times> bool) hwop" where
  "call_check_link E mmconfig speed link_up wait = do {
     op \<leftarrow> gets (\<lambda>hw. op_check_link (mac_ops (mac hw)));
     case op of None \<Rightarrow> null_call (0, speed, link_up)
     | Some Check_mac_link_vf \<Rightarrow> do {
         (r, s, u) \<leftarrow> ixgbe_check_mac_link_vf E speed (Some link_up) wait;
         ret (r, s, u = Some True) }
     | Some Hv_check_mac_link_vf \<Rightarrow> ixgbevf_hv_check_mac_link_vf E speed link_up wait
     | Some Hv_check_mac_link_e6xx \<Rightarrow> ixgbevf_hv_check_mac_link_e6xx E mmconfig speed link_up wait }"

definition call_set_rar :: "env \<Rightarrow> u32 \<Rightarrow> u8 list \<Rightarrow> u32 \<Rightarrow> u32 \<Rightarrow> s32 hwop" where
  "call_set_rar E index addr vmdq enable_addr = do {
     op \<leftarrow> gets (\<lambda>hw. op_set_rar (mac_ops (mac hw)));
     case op of None \<Rightarrow> null_call 0
     | Some Native_fn \<Rightarrow> ixgbe_set_rar_vf E index addr vmdq enable_addr
     | Some Hyperv_fn \<Rightarrow> ixgbevf_hv_set_rar_vf index addr vmdq enable_addr }"

definition call_set_uc_addr :: "env \<Rightarrow> u32 \<Rightarrow> u8 list option \<Rightarrow> s32 hwop" where
  "call_set_uc_addr E index addr = do {
     op \<leftarrow> gets (\<lambda>hw. op_set_uc_addr (mac_ops (mac hw)));
     case op of None \<Rightarrow> null_call 0
     | Some Native_fn \<Rightarrow> ixgbevf_set_uc_addr_vf E index addr
     | Some Hyperv_fn \<Rightarrow> ixgbevf_hv_set_uc_addr_vf index addr }"

definition call_update_mc_addr_list ::
    "env \<Rightarrow> (nat \<Rightarrow> u32) \<Rightarrow> 'p \<Rightarrow> u32 \<Rightarrow> ('p \<Rightarrow> u8 list \<times> 'p) \<Rightarrow> bool \<Rightarrow> s32 hwop" where
  "call_update_mc_addr_list E stk p n next clear = do {
     op \<leftarrow> gets (\<lambda>hw. op_update_mc_addr_list (mac_ops (mac hw)));
     case op of None \<Rightarrow> null_call 0
     | Some Native_fn \<Rightarrow> ixgbe_update_mc_addr_list_vf E stk p n next clear
     | Some Hyperv_fn \<Rightarrow> ixgbevf_hv_update_mc_addr_list_vf p n next clear }"

definition call_update_xcast_mode :: "env \<Rightarrow> int \<Rightarrow> s32 hwop" where
  "call_update_xcast_mode E mode = do {
     op \<leftarrow> gets (\<lambda>hw. op_update_xcast_mode (mac_ops (mac hw)));
     case op of None \<Rightarrow> null_call 0
     | Some Native_fn \<Rightarrow> ixgbevf_update_xcast_mode E mode
     | Some Hyperv_fn \<Rightarrow> ixgbevf_hv_update_xcast_mode mode }"

definition call_get_link_state :: "env \<Rightarrow> bool \<Rightarrow> (s32 \<times> bool) hwop" where
  "call_get_link_state E st = do {
     op \<leftarrow> gets (\<lambda>hw. op_get_link_state (mac_ops (mac hw)));
     case op of None \<Rightarrow> null_call (0, st) | Some _ \<Rightarrow> ixgbe_get_link_state_vf E st }"

definition call_set_vfta :: "env \<Rightarrow> u32 \<Rightarrow> u32 \<Rightarrow> bool \<Rightarrow> bool \<Rightarrow> s32 hwop" where
  "call_set_vfta E vlan vind on bypass = do {
     op \<leftarrow> gets (\<lambda>hw. op_set_vfta (mac_ops (mac hw)));
     case op of None \<Rightarrow> null_call 0
     | Some Native_fn \<Rightarrow> ixgbe_set_vfta_vf E vlan vind on bypass
     | Some Hyperv_fn \<Rightarrow> ixgbevf_hv_set_vfta_vf vlan vind on bypass }"

definition call_set_rlpml :: "env \<Rightarrow> u16 \<Rightarrow> s32 hwop" where
  "call_set_rlpml E n = do {
     op \<leftarrow> gets (\<lambda>hw. op_set_rlpml (mac_ops (mac hw)));
     case op of None \<Rightarrow> null_call 0
     | Some Native_fn \<Rightarrow> ixgbevf_rlpml_set_vf E n
     | Some Hyperv_fn \<Rightarrow> ixgbevf_hv_set_rlpml_vf E n }"

subsection \<open>Properties\<close>

lemma hv_read_links_env:
  assumes "\<And>h i. i < 4 \<Longrightarrow> pci_cfg E h (IXGBE_HV_LINK_STATUS_OFFSET + i) = (0, b i)"
  shows "fst (run_state (hv_read_links E [0..<IXGBE_HV_LINK_STATUS_SIZE] 0) hw) =
    Inr (le32 (b 0) (b 1) (b 2) (b 3))"
  using assms [of 0] assms [of 1] assms [of 2] assms [of 3]
  by (simp add: pci_read_config_byte_def log_io_def upt_rec le32_def or.assoc)

text \<open>The E6xx Hyper-V link status is the little-endian register of config space: with the four config bytes at offset 0x209
  readable, \<open>ixgbevf_hv_check_mac_link_e6xx\<close>, run on an adapter with a link check pending and the VF reset check installed,
  reports the link up exactly when the link bit of the assembled word is set, with the speed that word encodes,
  and otherwise keeps the speed and the pending check.\<close>

theorem hv_e6xx_link:
  assumes "\<And>h i. i < 4 \<Longrightarrow> pci_cfg E h (IXGBE_HV_LINK_STATUS_OFFSET + i) = (0, b i)"
    and "op_check_for_rst (mbx_ops (mbx hw) 0) = Some Check_vf" and "get_link_status (mac hw)"
  shows "let w = le32 (b 0) (b 1) (b 2) (b 3); up = (w AND IXGBE_LINKS_UP \<noteq> 0);
      (res, hw') = run_state (ixgbevf_hv_check_mac_link_e6xx E True sp up0 wt) hw in
    res = (0, (if up then hv_e6xx_speed w else sp), up) \<and> get_link_status (mac hw') = (\<not> up)"
proof -
  let ?pre = "do {
     r \<leftarrow> call_ops0_check_for_rst E;
     t \<leftarrow> gets (\<lambda>hw. mbx_timeout (mbx hw));
     whenM (r = 0 \<or> t = 0) (set_get_link_status True) }"
  have "keeps frame (call_ops0_check_for_rst E)"
    unfolding call_ops0_check_for_rst_def by (intro keeps_rules)
  then obtain r hw1 where rst: "run_state (call_ops0_check_for_rst E) hw = (r, hw1)" and m1: "mac hw1 = mac hw"
    by (metis (no_types, lifting) frame_parts(1) keepsD surj_pair)
  let ?hw2 = "if r = 0 \<or> mbx_timeout (mbx hw1) = 0
     then hw1\<lparr>mac := (mac hw1)\<lparr>get_link_status := True\<rparr>\<rparr> else hw1"
  have g2: "get_link_status (mac ?hw2)" using m1 assms(3) by simp
  obtain hw3 where rd: "run_state (hv_read_links E [0..<IXGBE_HV_LINK_STATUS_SIZE] 0) ?hw2 =
      (Inr (le32 (b 0) (b 1) (b 2) (b 3)), hw3)"
    using hv_read_links_env [OF assms(1)] by (metis prod.collapse)
  have "keeps hw_core (hv_read_links E is w)" for "is" w
    by (induction "is" arbitrary: w) (auto simp: pci_read_config_byte_def intro!: keeps_rules)
  then have "mac hw3 = mac ?hw2" using rd by (blast dest: keeps_core_mac keepsD)
  with g2 have "get_link_status (mac hw3)" by simp
  with rst rd g2 m1 assms(3) show ?thesis
    by (auto simp: ixgbevf_hv_check_mac_link_e6xx_def hv_link_up_out_def set_get_link_status_def
        upd_mac_def run_whenM Let_def simp del: IXGBE_HV_LINK_STATUS_SIZE_def)
qed

definition hv_env :: "(nat \<Rightarrow> u8) \<Rightarrow> env" where
  "hv_env b = sample_env\<lparr>pci_cfg := (\<lambda>h o'. (0, b (o' - IXGBE_HV_LINK_STATUS_OFFSET)))\<rparr>"

theorem hv_e6xx_link_witness:
  "fst (run_state (ixgbevf_hv_check_mac_link_e6xx (hv_env (\<lambda>i. if i = 3 then 0x60 else 0)) True 0 False False)
     sample_hw) = (0, IXGBE_LINK_SPEED_1GB_FULL, True)"
proof -
  let ?b = "\<lambda>i :: nat. if i = 3 then 0x60 else 0 :: u8"
  have "pci_cfg (hv_env ?b) h (IXGBE_HV_LINK_STATUS_OFFSET + i) = (0, ?b i)" for h i
    by (simp add: hv_env_def)
  moreover have "op_check_for_rst (mbx_ops (mbx sample_hw) 0) = Some Check_vf" "get_link_status (mac sample_hw)"
    by (simp_all add: sample_hw_def sample_mbx_def)
  moreover have "le32 (?b 0) (?b 1) (?b 2) (?b 3) = 0x60000000" by (simp add: le32_def)
  ultimately show ?thesis
    using hv_e6xx_link [of "hv_env ?b" ?b sample_hw 0 False False]
    by (simp add: Let_def split_beta hv_e6xx_speed_def)
qed

text \<open>
  The generic Hyper-V link check tests for the MAC types of physical functions, so the 5 Gb/s
  decoding is unreachable for every MAC type the driver assigns, while the native routine
  decodes it on the X550 VF.
\<close>

lemma hv_never_5gb:
  "is_vf_mac t \<Longrightarrow> hv_vflinks_speed t l \<noteq> IXGBE_LINK_SPEED_5GB_FULL"
  "vflinks_speed Ixgbe_mac_X550_vf 0x58000000 = IXGBE_LINK_SPEED_5GB_FULL"
  by (auto simp: hv_vflinks_speed_def vflinks_speed_def is_vf_mac_def ixgbe_is_mac_E6xx_def Let_def)

end
