(* ===== verification/Tx_Ring.thy ===== *)
theory Tx_Ring
  imports Mac_HV
begin

text \<open>
  The transmit ring of \<open>ixgbevf_main.c\<close>: building context and data descriptors for a packet
  (\<open>ixgbevf_xmit_frame_ring\<close> with TSO, checksum offload and DMA mapping, its unwinding on a
  mapping error included), reclaiming completed packets (\<open>ixgbevf_clean_tx_irq\<close>) and emptying
  the ring (\<open>ixgbevf_clean_tx_ring\<close>).

  A pointer into the ring's buffer or descriptor array is its index. \<open>tx_buffer\<close> and \<open>tx_desc\<close>
  of the C loops move together, so one index stands for both. The inner loop of the cleaning
  routines runs until it meets the end-of-packet descriptor; its recursion has the ring size as
  fuel, which the lemmas show to be enough. What the kernel and the device decide is the
  parameter \<open>txenv\<close>: DMA addresses and errors, written-back descriptor status, queue state, as
  functions of the history of the ring's events \<open>ring_ev\<close>, newest first. The packet content is
  not modelled, only what the descriptors depend on.
\<close>

subsection \<open>Constants\<close>

definition IXGBE_MAX_TXD_PWR :: nat where [simp]: "IXGBE_MAX_TXD_PWR = 14"
definition IXGBE_MAX_DATA_PER_TXD :: u32 where [simp]: "IXGBE_MAX_DATA_PER_TXD = 16384"
definition IXGBE_TX_FLAGS_CSUM :: u32 where [simp]: "IXGBE_TX_FLAGS_CSUM = 1"
definition IXGBE_TX_FLAGS_VLAN :: u32 where [simp]: "IXGBE_TX_FLAGS_VLAN = 2"
definition IXGBE_TX_FLAGS_TSO :: u32 where [simp]: "IXGBE_TX_FLAGS_TSO = 4"
definition IXGBE_TX_FLAGS_IPV4 :: u32 where [simp]: "IXGBE_TX_FLAGS_IPV4 = 8"
definition IXGBE_TX_FLAGS_VLAN_MASK :: u32 where [simp]: "IXGBE_TX_FLAGS_VLAN_MASK = 0xffff0000"
definition IXGBE_TX_FLAGS_VLAN_SHIFT :: nat where [simp]: "IXGBE_TX_FLAGS_VLAN_SHIFT = 16"
definition IXGBE_TXD_CMD_EOP :: u32 where [simp]: "IXGBE_TXD_CMD_EOP = 0x01000000"
definition IXGBE_TXD_CMD_RS :: u32 where [simp]: "IXGBE_TXD_CMD_RS = 0x08000000"
definition IXGBE_TXD_CMD_DEXT :: u32 where [simp]: "IXGBE_TXD_CMD_DEXT = 0x20000000"
definition IXGBE_TXD_CMD :: u32 where
  [simp]: "IXGBE_TXD_CMD = IXGBE_TXD_CMD_EOP OR IXGBE_TXD_CMD_RS"
definition IXGBE_TXD_STAT_DD :: u32 where [simp]: "IXGBE_TXD_STAT_DD = 1"
definition IXGBE_ADVTXD_DTYP_CTXT :: u32 where [simp]: "IXGBE_ADVTXD_DTYP_CTXT = 0x00200000"
definition IXGBE_ADVTXD_DTYP_DATA :: u32 where [simp]: "IXGBE_ADVTXD_DTYP_DATA = 0x00300000"
definition IXGBE_ADVTXD_DCMD_IFCS :: u32 where [simp]: "IXGBE_ADVTXD_DCMD_IFCS = 0x02000000"
definition IXGBE_ADVTXD_DCMD_DEXT :: u32 where [simp]: "IXGBE_ADVTXD_DCMD_DEXT = 0x20000000"
definition IXGBE_ADVTXD_DCMD_VLE :: u32 where [simp]: "IXGBE_ADVTXD_DCMD_VLE = 0x40000000"
definition IXGBE_ADVTXD_DCMD_TSE :: u32 where [simp]: "IXGBE_ADVTXD_DCMD_TSE = 0x80000000"
definition IXGBE_ADVTXD_IDX_SHIFT :: nat where [simp]: "IXGBE_ADVTXD_IDX_SHIFT = 4"
definition IXGBE_ADVTXD_CC :: u32 where [simp]: "IXGBE_ADVTXD_CC = 0x80"
definition IXGBE_ADVTXD_POPTS_IXSM :: u32 where [simp]: "IXGBE_ADVTXD_POPTS_IXSM = 0x100"
definition IXGBE_ADVTXD_POPTS_TXSM :: u32 where [simp]: "IXGBE_ADVTXD_POPTS_TXSM = 0x200"
definition IXGBE_ADVTXD_PAYLEN_SHIFT :: nat where [simp]: "IXGBE_ADVTXD_PAYLEN_SHIFT = 14"
definition IXGBE_ADVTXD_MACLEN_SHIFT :: nat where [simp]: "IXGBE_ADVTXD_MACLEN_SHIFT = 9"
definition IXGBE_ADVTXD_L4LEN_SHIFT :: nat where [simp]: "IXGBE_ADVTXD_L4LEN_SHIFT = 8"
definition IXGBE_ADVTXD_MSS_SHIFT :: nat where [simp]: "IXGBE_ADVTXD_MSS_SHIFT = 16"
definition IXGBE_ADVTXD_TUCMD_IPV4 :: u32 where [simp]: "IXGBE_ADVTXD_TUCMD_IPV4 = 0x400"
definition IXGBE_ADVTXD_TUCMD_L4T_TCP :: u32 where [simp]: "IXGBE_ADVTXD_TUCMD_L4T_TCP = 0x800"
definition IXGBE_ADVTXD_TUCMD_L4T_SCTP :: u32 where [simp]: "IXGBE_ADVTXD_TUCMD_L4T_SCTP = 0x1000"
definition ETH_P_IP :: u16 where [simp]: "ETH_P_IP = 0x0800"
definition ETH_P_IPV6 :: u16 where [simp]: "ETH_P_IPV6 = 0x86DD"
definition ETH_P_8021Q :: u16 where [simp]: "ETH_P_8021Q = 0x8100"
definition IPPROTO_SCTP :: u8 where [simp]: "IPPROTO_SCTP = 132"
definition EBUSY :: int where [simp]: "EBUSY = 16"
definition NETDEV_TX_OK :: int where [simp]: "NETDEV_TX_OK = 0"
definition NETDEV_TX_BUSY :: int where [simp]: "NETDEV_TX_BUSY = 16"

subsection \<open>Data\<close>

datatype ixgbevf_ring_state_t =
    RX_3K_BUFFER | RX_BUILD_SKB_ENABLED | TX_DETECT_HANG | HANG_CHECK_ARMED
  | RX_CSUM_UDP_ZERO_ERR | TX_XDP_RING | TX_XDP_RING_PRIMED

record ixgbevf_tx_buffer =
  next_to_watch :: "nat option"  \<comment> \<open>index of the end-of-packet descriptor; \<open>None\<close> is \<open>NULL\<close>\<close>
  time_stamp :: u64
  tb_skb :: "nat option"         \<comment> \<open>the packet, by identity\<close>
  bytecount :: u32
  gso_segs :: u16
  tb_protocol :: u16             \<comment> \<open>in host order\<close>
  tb_dma :: u64
  tb_len :: u32
  tb_tx_flags :: u32

text \<open>
  A 16-byte descriptor in its read format; a context descriptor has the same layout, its first
  two words being \<open>vlan_macip_lens\<close> and \<open>seqnum_seed\<close>.
\<close>

record ixgbe_adv_tx_desc =
  buffer_addr :: u64
  cmd_type_len :: u32
  olinfo_status :: u32

datatype dma_kind = Single | Page

datatype tx_event =
    Dma_map dma_kind u64 u32      \<comment> \<open>a mapping that succeeded: address, length\<close>
  | Dma_map_failed dma_kind u32
  | Dma_unmap dma_kind u64 u32
  | Free_skb "nat option"
  | Read_status nat u32           \<comment> \<open>written-back status of a descriptor\<close>
  | Stop_subqueue | Start_subqueue | Wake_subqueue
  | Tx_sent u32 | Tx_completed u32 u32 | Tx_reset_queue
  | Write_tail nat                \<comment> \<open>doorbell\<close>
  | Checksum_help nat | Tx_hang_report

record ixgbevf_ring =
  count :: nat
  next_to_use :: nat
  next_to_clean :: nat
  tx_buffer_info :: "ixgbevf_tx_buffer list"
  tx_descs :: "ixgbe_adv_tx_desc list"
  ring_state :: "ixgbevf_ring_state_t set"
  reg_idx :: u8
  st_packets :: u64
  st_bytes :: u64
  restart_queue :: u64
  tx_busy :: u64
  tx_done_old :: u64
  ring_ev :: "tx_event list"

record txenv =
  dma_addr :: "tx_event list \<Rightarrow> u64"
  dma_fails :: "tx_event list \<Rightarrow> bool"
  wb_status :: "tx_event list \<Rightarrow> nat \<Rightarrow> u32"
  tx_jiffies :: "tx_event list \<Rightarrow> u64"
  carrier_ok :: "tx_event list \<Rightarrow> bool"
  subqueue_stopped :: "tx_event list \<Rightarrow> bool"
  xmit_more :: "tx_event list \<Rightarrow> bool"
  xmit_stopped :: "tx_event list \<Rightarrow> bool"
  MAX_SKB_FRAGS :: nat

text \<open>What the transmit path reads of a packet.\<close>

record sk_buff =
  sk_id :: nat
  sk_len :: u32
  sk_headlen :: u32
  sk_data_len :: u32
  sk_frags :: "u32 list"             \<comment> \<open>sizes of the page fragments\<close>
  sk_protocol :: u16
  sk_vlan_tag :: "u16 option"        \<comment> \<open>hardware-accelerated tag, when present\<close>
  sk_vlan_hdr :: "(u16 \<times> u16) option"  \<comment> \<open>TCI and encapsulated protocol of an in-band VLAN header\<close>
  sk_partial :: bool                 \<comment> \<open>\<open>ip_summed == CHECKSUM_PARTIAL\<close>\<close>
  sk_gso_size :: u16
  sk_gso_segs :: u16
  sk_cow_err :: int                  \<comment> \<open>result of \<open>skb_cow_head\<close>\<close>
  sk_ipv4 :: bool                    \<comment> \<open>version field of the IP header is 4\<close>
  sk_network_offset :: u32
  sk_csum_start_offset :: u32
  sk_tcp_doff :: u32
  sk_csum_offset :: u32
  sk_ip_protocol :: u8
  sk_sctp_v6 :: bool                 \<comment> \<open>\<open>ixgbevf_ipv6_csum_is_sctp\<close>\<close>

type_synonym 'a ringop = "(ixgbevf_ring, 'a) state"

definition tx_ev :: "tx_event \<Rightarrow> unit ringop" where
  "tx_ev e = modify (\<lambda>r. r\<lparr>ring_ev := e # ring_ev r\<rparr>)"

definition upd_buf :: "nat \<Rightarrow> (ixgbevf_tx_buffer \<Rightarrow> ixgbevf_tx_buffer) \<Rightarrow> unit ringop" where
  "upd_buf i f = modify (\<lambda>r. r\<lparr>tx_buffer_info := (tx_buffer_info r)[i := f (tx_buffer_info r ! i)]\<rparr>)"

definition upd_desc :: "nat \<Rightarrow> (ixgbe_adv_tx_desc \<Rightarrow> ixgbe_adv_tx_desc) \<Rightarrow> unit ringop" where
  "upd_desc i f = modify (\<lambda>r. r\<lparr>tx_descs := (tx_descs r)[i := f (tx_descs r ! i)]\<rparr>)"

definition get_buf :: "nat \<Rightarrow> ixgbevf_tx_buffer ringop" where
  "get_buf i = gets (\<lambda>r. tx_buffer_info r ! i)"

definition TXD_USE_COUNT :: "u32 \<Rightarrow> nat" where
  "TXD_USE_COUNT s = (unat s + unat IXGBE_MAX_DATA_PER_TXD - 1) div unat IXGBE_MAX_DATA_PER_TXD"

definition DESC_NEEDED :: "txenv \<Rightarrow> nat" where
  "DESC_NEEDED E = MAX_SKB_FRAGS E + 4"

definition ixgbevf_desc_unused :: "ixgbevf_ring \<Rightarrow> nat" where
  "ixgbevf_desc_unused ring = nat ((if next_to_clean ring > next_to_use ring then 0 else int (count ring))
     + int (next_to_clean ring) - int (next_to_use ring) - 1)"

subsection \<open>Queue control\<close>

definition maybe_stop_tx_slow :: "txenv \<Rightarrow> nat \<Rightarrow> int ringop" where
  \<comment> \<open>\<open>__ixgbevf_maybe_stop_tx\<close>\<close>
  "maybe_stop_tx_slow E size' = do {
     tx_ev Stop_subqueue;
     u \<leftarrow> gets ixgbevf_desc_unused;
     if u < size' then ret (- EBUSY) else do {
       tx_ev Start_subqueue;
       modify (\<lambda>r. r\<lparr>restart_queue := restart_queue r + 1\<rparr>);
       ret 0 } }"

definition ixgbevf_maybe_stop_tx :: "txenv \<Rightarrow> nat \<Rightarrow> int ringop" where
  "ixgbevf_maybe_stop_tx E size' = do {
     u \<leftarrow> gets ixgbevf_desc_unused;
     if u \<ge> size' then ret 0 else maybe_stop_tx_slow E size' }"

subsection \<open>Context descriptors\<close>

definition ixgbevf_tx_ctxtdesc :: "u32 \<Rightarrow> u32 \<Rightarrow> u32 \<Rightarrow> unit ringop" where
  "ixgbevf_tx_ctxtdesc vlan_macip_lens type_tucmd mss_l4len_idx = do {
     i \<leftarrow> gets next_to_use;
     modify (\<lambda>r. r\<lparr>next_to_use := (if i + 1 < count r then i + 1 else 0)\<rparr>);
     let type_tucmd = type_tucmd OR (IXGBE_TXD_CMD_DEXT OR IXGBE_ADVTXD_DTYP_CTXT);
     upd_desc i (\<lambda>d. \<lparr>buffer_addr = ucast vlan_macip_lens, cmd_type_len = type_tucmd,
       olinfo_status = mss_l4len_idx\<rparr>) }"

definition ixgbevf_tso :: "sk_buff \<Rightarrow> nat \<Rightarrow> (int \<times> u8) ringop" where
  "ixgbevf_tso skb first = (
     if \<not> sk_partial skb then ret (0, 0)
     else if sk_gso_size skb = 0 then ret (0, 0)
     else if sk_cow_err skb \<noteq> 0 then ret (sk_cow_err skb, 0)
     else do {
       let type_tucmd = IXGBE_ADVTXD_TUCMD_L4T_TCP OR (if sk_ipv4 skb then IXGBE_ADVTXD_TUCMD_IPV4 else 0);
       upd_buf first (\<lambda>b. b\<lparr>tb_tx_flags := tb_tx_flags b OR IXGBE_TX_FLAGS_TSO OR IXGBE_TX_FLAGS_CSUM
         OR (if sk_ipv4 skb then IXGBE_TX_FLAGS_IPV4 else 0)\<rparr>);
       let l4_offset = sk_csum_start_offset skb;
       let hdr_len = (ucast (sk_tcp_doff skb * 4 + l4_offset) :: u8);
       upd_buf first (\<lambda>b. b\<lparr>gso_segs := sk_gso_segs skb\<rparr>);
       upd_buf first (\<lambda>b. b\<lparr>bytecount := bytecount b + (ucast (gso_segs b) - 1) * ucast hdr_len\<rparr>);
       let mss_l4len_idx = push_bit IXGBE_ADVTXD_L4LEN_SHIFT (ucast hdr_len - l4_offset)
         OR push_bit IXGBE_ADVTXD_MSS_SHIFT (ucast (sk_gso_size skb))
         OR push_bit IXGBE_ADVTXD_IDX_SHIFT 1;
       b \<leftarrow> get_buf first;
       let vlan_macip_lens = (l4_offset - sk_network_offset skb)
         OR push_bit IXGBE_ADVTXD_MACLEN_SHIFT (sk_network_offset skb)
         OR (tb_tx_flags b AND IXGBE_TX_FLAGS_VLAN_MASK);
       ixgbevf_tx_ctxtdesc vlan_macip_lens type_tucmd mss_l4len_idx;
       ret (1, hdr_len) })"

text \<open>
  The offsets of the checksum fields in the TCP, UDP and SCTP headers are 16, 6 and 8. \<open>None\<close> is the
  path to the label \<open>no_csum\<close>, with or without the software checksum.
\<close>

definition csum_type :: "sk_buff \<Rightarrow> ixgbevf_tx_buffer \<Rightarrow> u32 option" where
  "csum_type skb b = (
     if sk_csum_offset skb = 16 then Some IXGBE_ADVTXD_TUCMD_L4T_TCP
     else if sk_csum_offset skb = 6 then Some 0
     else if sk_csum_offset skb = 8 \<and>
       (tb_protocol b = ETH_P_IP \<and> sk_ip_protocol skb = IPPROTO_SCTP \<or>
        tb_protocol b = ETH_P_IPV6 \<and> sk_sctp_v6 skb) then Some IXGBE_ADVTXD_TUCMD_L4T_SCTP
     else None)"

definition ixgbevf_tx_csum :: "sk_buff \<Rightarrow> nat \<Rightarrow> unit ringop" where
  "ixgbevf_tx_csum skb first = do {
     b \<leftarrow> get_buf first;
     (type_tucmd, lens) \<leftarrow> (if \<not> sk_partial skb then ret (0, 0)
       else case csum_type skb b of
         None \<Rightarrow> do { tx_ev (Checksum_help (sk_id skb)); ret (0, 0) }
       | Some t \<Rightarrow> do {
           upd_buf first (\<lambda>b. b\<lparr>tb_tx_flags := tb_tx_flags b OR IXGBE_TX_FLAGS_CSUM\<rparr>);
           ret (t OR (if tb_protocol b = ETH_P_IP then IXGBE_ADVTXD_TUCMD_IPV4 else 0),
                sk_csum_start_offset skb - sk_network_offset skb) });
     b \<leftarrow> get_buf first;
     let vlan_macip_lens = lens OR push_bit IXGBE_ADVTXD_MACLEN_SHIFT (sk_network_offset skb)
       OR (tb_tx_flags b AND IXGBE_TX_FLAGS_VLAN_MASK);
     ixgbevf_tx_ctxtdesc vlan_macip_lens type_tucmd 0 }"

definition ixgbevf_tx_cmd_type :: "u32 \<Rightarrow> u32" where
  "ixgbevf_tx_cmd_type tx_flags =
     IXGBE_ADVTXD_DTYP_DATA OR IXGBE_ADVTXD_DCMD_IFCS OR IXGBE_ADVTXD_DCMD_DEXT
     OR (if tx_flags AND IXGBE_TX_FLAGS_VLAN \<noteq> 0 then IXGBE_ADVTXD_DCMD_VLE else 0)
     OR (if tx_flags AND IXGBE_TX_FLAGS_TSO \<noteq> 0 then IXGBE_ADVTXD_DCMD_TSE else 0)"

definition ixgbevf_tx_olinfo_status :: "u32 \<Rightarrow> u32 \<Rightarrow> u32" where
  "ixgbevf_tx_olinfo_status tx_flags paylen =
     push_bit IXGBE_ADVTXD_PAYLEN_SHIFT paylen
     OR (if tx_flags AND IXGBE_TX_FLAGS_CSUM \<noteq> 0 then IXGBE_ADVTXD_POPTS_TXSM else 0)
     OR (if tx_flags AND IXGBE_TX_FLAGS_IPV4 \<noteq> 0 then IXGBE_ADVTXD_POPTS_IXSM else 0)
     OR (if tx_flags AND IXGBE_TX_FLAGS_TSO \<noteq> 0 then push_bit IXGBE_ADVTXD_IDX_SHIFT 1 else 0)
     OR IXGBE_ADVTXD_CC"

subsection \<open>Mapping a packet\<close>

definition dma_map :: "txenv \<Rightarrow> dma_kind \<Rightarrow> u32 \<Rightarrow> (u64 \<times> bool) ringop" where
  "dma_map E k len = do {
     h \<leftarrow> gets ring_ev;
     let a = dma_addr E h;
     let err = dma_fails E h;
     tx_ev (if err then Dma_map_failed k len else Dma_map k a len);
     ret (a, err) }"

definition next_idx :: "nat \<Rightarrow> nat ringop" where
  "next_idx i = gets (\<lambda>r. if i + 1 = count r then 0 else i + 1)"

text \<open>The loop over 16 KiB pieces of one buffer.\<close>

function tx_split :: "u32 \<Rightarrow> u64 \<Rightarrow> u32 \<Rightarrow> nat \<Rightarrow> (u32 \<times> nat) ringop" where
  "tx_split cmd_type dma size' i = (
     if size' > IXGBE_MAX_DATA_PER_TXD then do {
       upd_desc i (\<lambda>d. d\<lparr>cmd_type_len := cmd_type OR IXGBE_MAX_DATA_PER_TXD\<rparr>);
       i \<leftarrow> next_idx i;
       upd_desc i (\<lambda>d. d\<lparr>olinfo_status := 0\<rparr>);
       let dma = dma + ucast IXGBE_MAX_DATA_PER_TXD;
       let size' = size' - IXGBE_MAX_DATA_PER_TXD;
       upd_desc i (\<lambda>d. d\<lparr>buffer_addr := dma\<rparr>);
       tx_split cmd_type dma size' i
     } else ret (size', i))"
  by pat_completeness auto
termination
proof (relation "measure (\<lambda>(c, d, s, i). unat s)")
  fix cmd_type dma i x xa xb xc xd xe and size' :: u32
  assume "IXGBE_MAX_DATA_PER_TXD < size'" and "xd = size' - IXGBE_MAX_DATA_PER_TXD"
  then show "((cmd_type, xc, xd, xa), cmd_type, dma, size', i) \<in> measure (\<lambda>(c, d, s, i). unat s)"
    by (simp add: word_less_nat_alt unat_sub word_le_nat_alt)
qed simp

declare tx_split.simps [simp del]

text \<open>
  The loop over the fragments: buffer \<open>b\<close> records the mapping, descriptor \<open>i\<close> is filled.
  \<open>Inl i\<close> is the jump to \<open>dma_error\<close>.
\<close>

primrec tx_frags ::
    "txenv \<Rightarrow> u32 \<Rightarrow> u32 list \<Rightarrow> u32 \<Rightarrow> u64 \<times> bool \<Rightarrow> u32 \<Rightarrow> nat \<Rightarrow> nat \<Rightarrow> (nat + u32 \<times> nat) ringop" where
  "tx_frags E cmd_type [] data_len m size' i b = (case m of (dma, err) \<Rightarrow>
     if err then ret (Inl i) else do {
       upd_buf b (\<lambda>tb. tb\<lparr>tb_len := size', tb_dma := dma\<rparr>);
       upd_desc i (\<lambda>d. d\<lparr>buffer_addr := dma\<rparr>);
       (size', i) \<leftarrow> tx_split cmd_type dma size' i;
       ret (Inr (size', i)) })"
| "tx_frags E cmd_type (frag # frags) data_len m size' i b = (case m of (dma, err) \<Rightarrow>
     if err then ret (Inl i) else do {
       upd_buf b (\<lambda>tb. tb\<lparr>tb_len := size', tb_dma := dma\<rparr>);
       upd_desc i (\<lambda>d. d\<lparr>buffer_addr := dma\<rparr>);
       (size', i) \<leftarrow> tx_split cmd_type dma size' i;
       if data_len = 0 then ret (Inr (size', i)) else do {
         upd_desc i (\<lambda>d. d\<lparr>cmd_type_len := cmd_type OR size'\<rparr>);
         i \<leftarrow> next_idx i;
         upd_desc i (\<lambda>d. d\<lparr>olinfo_status := 0\<rparr>);
         m \<leftarrow> dma_map E Page frag;
         tx_frags E cmd_type frags (data_len - frag) m frag i i } })"

text \<open>The unwinding loop of \<open>dma_error\<close>; \<open>i-- == 0\<close> wraps to the last slot.\<close>

primrec tx_unwind :: "nat \<Rightarrow> nat \<Rightarrow> nat \<Rightarrow> nat ringop" where
  "tx_unwind 0 first i = ret i"
| "tx_unwind (Suc fuel) first i = (if i = first then ret i else do {
     b \<leftarrow> get_buf i;
     whenM (tb_len b \<noteq> 0) (tx_ev (Dma_unmap Page (tb_dma b) (tb_len b)));
     upd_buf i (\<lambda>tb. tb\<lparr>tb_len := 0\<rparr>);
     i \<leftarrow> gets (\<lambda>r. if i = 0 then count r - 1 else i - 1);
     tx_unwind fuel first i })"

definition tx_map_error :: "nat \<Rightarrow> nat \<Rightarrow> unit ringop" where
  "tx_map_error first i = do {
     fuel \<leftarrow> gets count;
     i \<leftarrow> tx_unwind fuel first i;
     b \<leftarrow> get_buf i;
     whenM (tb_len b \<noteq> 0) (tx_ev (Dma_unmap Single (tb_dma b) (tb_len b)));
     upd_buf i (\<lambda>tb. tb\<lparr>tb_len := 0\<rparr>);
     tx_ev (Free_skb (tb_skb b));
     upd_buf i (\<lambda>tb. tb\<lparr>tb_skb := None\<rparr>);
     modify (\<lambda>r. r\<lparr>next_to_use := i\<rparr>) }"

definition tx_map_finish :: "txenv \<Rightarrow> u32 \<Rightarrow> nat \<Rightarrow> u32 \<Rightarrow> nat \<Rightarrow> unit ringop" where
  "tx_map_finish E cmd_type first size' i = do {
     upd_desc i (\<lambda>d. d\<lparr>cmd_type_len := cmd_type OR size' OR IXGBE_TXD_CMD\<rparr>);
     b \<leftarrow> get_buf first;
     tx_ev (Tx_sent (bytecount b));
     now \<leftarrow> gets (\<lambda>r. tx_jiffies E (ring_ev r));
     upd_buf first (\<lambda>tb. tb\<lparr>time_stamp := now\<rparr>);
     upd_buf first (\<lambda>tb. tb\<lparr>next_to_watch := Some i\<rparr>);
     i \<leftarrow> next_idx i;
     modify (\<lambda>r. r\<lparr>next_to_use := i\<rparr>);
     ixgbevf_maybe_stop_tx E (DESC_NEEDED E);
     more \<leftarrow> gets (\<lambda>r. xmit_more E (ring_ev r));
     stopped \<leftarrow> gets (\<lambda>r. xmit_stopped E (ring_ev r));
     whenM (\<not> more \<or> stopped) (tx_ev (Write_tail i)) }"

definition ixgbevf_tx_map :: "txenv \<Rightarrow> sk_buff \<Rightarrow> nat \<Rightarrow> u8 \<Rightarrow> unit ringop" where
  "ixgbevf_tx_map E skb first hdr_len = do {
     b \<leftarrow> get_buf first;
     let tx_flags = tb_tx_flags b;
     let cmd_type = ixgbevf_tx_cmd_type tx_flags;
     i \<leftarrow> gets next_to_use;
     upd_desc i (\<lambda>d. d\<lparr>olinfo_status := ixgbevf_tx_olinfo_status tx_flags (sk_len skb - ucast hdr_len)\<rparr>);
     m \<leftarrow> dma_map E Single (sk_headlen skb);
     res \<leftarrow> tx_frags E cmd_type (sk_frags skb) (sk_data_len skb) m (sk_headlen skb) i first;
     case res of Inl i \<Rightarrow> tx_map_error first i
     | Inr (size', i) \<Rightarrow> tx_map_finish E cmd_type first size' i }"

definition xmit_drop :: "nat \<Rightarrow> int ringop" where
  "xmit_drop first = do {
     b \<leftarrow> get_buf first;
     tx_ev (Free_skb (tb_skb b));
     upd_buf first (\<lambda>tb. tb\<lparr>tb_skb := None\<rparr>);
     ret NETDEV_TX_OK }"

definition xmit_count :: "sk_buff \<Rightarrow> nat" where
  \<comment> \<open>the local variable \<open>count\<close>, a \<open>u16\<close>\<close>
  "xmit_count skb = (TXD_USE_COUNT (sk_headlen skb) + sum_list (map TXD_USE_COUNT (sk_frags skb))) mod 2 ^ 16"

definition ixgbevf_xmit_frame_ring :: "txenv \<Rightarrow> sk_buff \<Rightarrow> int ringop" where
  "ixgbevf_xmit_frame_ring E skb = (
     if sk_protocol skb = 0x88CC then do { tx_ev (Free_skb (Some (sk_id skb))); ret NETDEV_TX_OK }
     else do {
       busy \<leftarrow> ixgbevf_maybe_stop_tx E (xmit_count skb + 3);
       if busy \<noteq> 0 then do {
         modify (\<lambda>r. r\<lparr>tx_busy := tx_busy r + 1\<rparr>);
         ret NETDEV_TX_BUSY
       } else do {
         first \<leftarrow> gets next_to_use;
         upd_buf first (\<lambda>tb. tb\<lparr>tb_skb := Some (sk_id skb), bytecount := sk_len skb, gso_segs := 1\<rparr>);
         case (case sk_vlan_tag skb of
             Some tag \<Rightarrow> Some (push_bit IXGBE_TX_FLAGS_VLAN_SHIFT (ucast tag) OR IXGBE_TX_FLAGS_VLAN,
                               sk_protocol skb)
           | None \<Rightarrow> if sk_protocol skb = ETH_P_8021Q then
               (case sk_vlan_hdr skb of None \<Rightarrow> None
                | Some (tci, proto) \<Rightarrow> Some (push_bit IXGBE_TX_FLAGS_VLAN_SHIFT (ucast tci), proto))
               else Some (0, sk_protocol skb)) of
           None \<Rightarrow> xmit_drop first
         | Some (tx_flags, protocol) \<Rightarrow> do {
             upd_buf first (\<lambda>tb. tb\<lparr>tb_tx_flags := tx_flags, tb_protocol := protocol\<rparr>);
             (tso, hdr_len) \<leftarrow> ixgbevf_tso skb first;
             if tso < 0 then xmit_drop first
             else do {
               whenM (tso = 0) (ixgbevf_tx_csum skb first);
               ixgbevf_tx_map E skb first hdr_len;
               ret NETDEV_TX_OK } } } })"

subsection \<open>Cleaning\<close>

text \<open>
  One step along the ring: the index \<open>p\<close> of \<open>tx_buffer\<close> and \<open>tx_desc\<close>, and the unsigned counter
  \<open>i\<close>, which runs from \<open>p - count\<close> up to 0.
\<close>

definition advance :: "nat \<Rightarrow> nat \<times> u32 \<Rightarrow> nat \<times> u32" where
  "advance n pi = (let i = snd pi + 1 in if i = 0 then (0, i - of_nat n) else (fst pi + 1, i))"

primrec unmap_rest :: "nat \<Rightarrow> nat \<Rightarrow> nat \<times> u32 \<Rightarrow> (nat \<times> u32) ringop" where
  "unmap_rest 0 eop pi = ret pi"
| "unmap_rest (Suc fuel) eop pi = (if fst pi = eop then ret pi else do {
     pi \<leftarrow> gets (\<lambda>r. advance (count r) pi);
     b \<leftarrow> get_buf (fst pi);
     whenM (tb_len b \<noteq> 0) (do {
       tx_ev (Dma_unmap Page (tb_dma b) (tb_len b));
       upd_buf (fst pi) (\<lambda>tb. tb\<lparr>tb_len := 0\<rparr>) });
     unmap_rest fuel eop pi })"

primrec clean_loop :: "txenv \<Rightarrow> nat \<Rightarrow> nat \<times> u32 \<Rightarrow> u32 \<Rightarrow> u32 \<Rightarrow> (nat \<times> (nat \<times> u32) \<times> u32 \<times> u32) ringop" where
  "clean_loop E 0 pi total_bytes total_packets = ret (0, pi, total_bytes, total_packets)"
| "clean_loop E (Suc budget) pi total_bytes total_packets = do {
     b \<leftarrow> get_buf (fst pi);
     case next_to_watch b of None \<Rightarrow> ret (Suc budget, pi, total_bytes, total_packets)
     | Some eop \<Rightarrow> do {
       st \<leftarrow> gets (\<lambda>r. wb_status E (ring_ev r) eop);
       tx_ev (Read_status eop st);
       if st AND IXGBE_TXD_STAT_DD = 0 then ret (Suc budget, pi, total_bytes, total_packets)
       else do {
         upd_buf (fst pi) (\<lambda>tb. tb\<lparr>next_to_watch := None\<rparr>);
         tx_ev (Free_skb (tb_skb b));
         tx_ev (Dma_unmap Single (tb_dma b) (tb_len b));
         upd_buf (fst pi) (\<lambda>tb. tb\<lparr>tb_len := 0\<rparr>);
         fuel \<leftarrow> gets count;
         pi \<leftarrow> unmap_rest fuel eop pi;
         pi \<leftarrow> gets (\<lambda>r. advance (count r) pi);
         clean_loop E budget pi (total_bytes + bytecount b) (total_packets + ucast (gso_segs b)) } } }"

text \<open>The part of \<open>ixgbevf_clean_tx_irq\<close> that works on the ring: returns budget left, bytes, packets.\<close>

definition clean_completed :: "txenv \<Rightarrow> (nat \<times> u32 \<times> u32) ringop" where
  "clean_completed E = do {
     n \<leftarrow> gets count;
     c \<leftarrow> gets next_to_clean;
     (budget, pi, total_bytes, total_packets) \<leftarrow>
       clean_loop E (n div 2) (c, of_nat c - of_nat n) 0 0;
     modify (\<lambda>r. r\<lparr>next_to_clean := unat (snd pi + of_nat n)\<rparr>);
     modify (\<lambda>r. r\<lparr>st_bytes := st_bytes r + ucast total_bytes,
                 st_packets := st_packets r + ucast total_packets\<rparr>);
     ret (budget, total_bytes, total_packets) }"

text \<open>\<open>ixgbevf_clean_tx_ring\<close>: frees every packet of the ring, done or not.\<close>

primrec drain_rest :: "nat \<Rightarrow> nat option \<Rightarrow> nat \<Rightarrow> nat ringop" where
  "drain_rest 0 eop i = ret i"
| "drain_rest (Suc fuel) eop i = (if eop = Some i then ret i else do {
     i \<leftarrow> next_idx i;
     b \<leftarrow> get_buf i;
     whenM (tb_len b \<noteq> 0) (tx_ev (Dma_unmap Page (tb_dma b) (tb_len b)));
     drain_rest fuel eop i })"

primrec drain_loop :: "nat \<Rightarrow> nat \<Rightarrow> unit ringop" where
  "drain_loop 0 i = ret ()"
| "drain_loop (Suc fuel) i = do {
     u \<leftarrow> gets next_to_use;
     if i = u then ret () else do {
       b \<leftarrow> get_buf i;
       tx_ev (Free_skb (tb_skb b));
       tx_ev (Dma_unmap Single (tb_dma b) (tb_len b));
       n \<leftarrow> gets count;
       i \<leftarrow> drain_rest n (next_to_watch b) i;
       i \<leftarrow> next_idx i;
       drain_loop fuel i } }"

definition ixgbevf_clean_tx_ring :: "unit ringop" where
  "ixgbevf_clean_tx_ring = do {
     n \<leftarrow> gets count;
     i \<leftarrow> gets next_to_clean;
     drain_loop n i;
     s \<leftarrow> gets ring_state;
     whenM (TX_XDP_RING \<notin> s) (tx_ev Tx_reset_queue);
     modify (\<lambda>r. r\<lparr>next_to_use := 0, next_to_clean := 0\<rparr>) }"

subsection \<open>Hang detection and the interrupt-time cleaning routine\<close>

text \<open>The ring together with the adapter's hardware structure and the vector's totals.\<close>

record txq =
  q_ring :: ixgbevf_ring
  q_hw :: ixgbe_hw
  total_bytes :: u32
  total_packets :: u32

type_synonym 'a txqop = "(txq, 'a) state"

definition on_ring :: "'a ringop \<Rightarrow> 'a txqop" where
  "on_ring m = State (\<lambda>q. case run_state m (q_ring q) of (a, r) \<Rightarrow> (a, q\<lparr>q_ring := r\<rparr>))"

definition on_hw :: "'a hwop \<Rightarrow> 'a txqop" where
  "on_hw m = State (\<lambda>q. case run_state m (q_hw q) of (a, h) \<Rightarrow> (a, q\<lparr>q_hw := h\<rparr>))"

definition ixgbevf_get_tx_completed :: "ixgbevf_ring \<Rightarrow> u64" where
  "ixgbevf_get_tx_completed ring = st_packets ring"

definition ixgbevf_get_tx_pending :: "env \<Rightarrow> u32 txqop" where
  "ixgbevf_get_tx_pending E = do {
     ring \<leftarrow> gets q_ring;
     head \<leftarrow> on_hw (ixgbe_read_reg E (IXGBE_VFTDH (ucast (reg_idx ring))));
     tail \<leftarrow> on_hw (ixgbe_read_reg E (IXGBE_VFTDT (ucast (reg_idx ring))));
     ret (if head \<noteq> tail then
            (if head < tail then tail - head else tail + of_nat (count ring) - head)
          else 0) }"

definition ixgbevf_check_tx_hang :: "env \<Rightarrow> bool txqop" where
  "ixgbevf_check_tx_hang E = do {
     tx_done \<leftarrow> gets (\<lambda>q. ucast (ixgbevf_get_tx_completed (q_ring q)) :: u32);
     old \<leftarrow> gets (\<lambda>q. ucast (tx_done_old (q_ring q)) :: u32);
     tx_pending \<leftarrow> ixgbevf_get_tx_pending E;
     on_ring (modify (\<lambda>r. r\<lparr>ring_state := ring_state r - {TX_DETECT_HANG}\<rparr>));
     if old = tx_done \<and> tx_pending \<noteq> 0 then do {
       armed \<leftarrow> gets (\<lambda>q. HANG_CHECK_ARMED \<in> ring_state (q_ring q));
       on_ring (modify (\<lambda>r. r\<lparr>ring_state := insert HANG_CHECK_ARMED (ring_state r)\<rparr>));
       ret armed
     } else do {
       on_ring (modify (\<lambda>r. r\<lparr>ring_state := ring_state r - {HANG_CHECK_ARMED}\<rparr>));
       on_ring (modify (\<lambda>r. r\<lparr>tx_done_old := ucast tx_done\<rparr>));
       ret False } }"

definition ixgbevf_tx_timeout_reset :: "unit hwop" where
  "ixgbevf_tx_timeout_reset = do {
     st \<leftarrow> gets back_state;
     whenM (IXGBEVF_DOWN \<notin> st) (do {
       modify (\<lambda>hw. hw\<lparr>back_state := insert IXGBEVF_RESET_REQUESTED (back_state hw)\<rparr>);
       ixgbevf_service_event_schedule }) }"

definition ixgbevf_tx_timeout :: "unit hwop" where
  "ixgbevf_tx_timeout = ixgbevf_tx_timeout_reset"

definition TX_WAKE_THRESHOLD :: "txenv \<Rightarrow> nat" where
  "TX_WAKE_THRESHOLD T = DESC_NEEDED T * 2"

definition ixgbevf_clean_tx_irq :: "env \<Rightarrow> txenv \<Rightarrow> int \<Rightarrow> bool txqop" where
  "ixgbevf_clean_tx_irq E T napi_budget = do {
     st \<leftarrow> gets (\<lambda>q. back_state (q_hw q));
     if IXGBEVF_DOWN \<in> st then ret True else do {
       (budget, bytes, packets) \<leftarrow> on_ring (clean_completed T);
       modify (\<lambda>q. q\<lparr>total_bytes := total_bytes q + bytes, total_packets := total_packets q + packets\<rparr>);
       detect \<leftarrow> gets (\<lambda>q. TX_DETECT_HANG \<in> ring_state (q_ring q));
       hung \<leftarrow> (if detect then ixgbevf_check_tx_hang E else ret False);
       xdp \<leftarrow> gets (\<lambda>q. TX_XDP_RING \<in> ring_state (q_ring q));
       if hung then do {
         ri \<leftarrow> gets (\<lambda>q. reg_idx (q_ring q));
         on_hw (ixgbe_read_reg E (IXGBE_VFTDH (ucast ri)));
         on_hw (ixgbe_read_reg E (IXGBE_VFTDT (ucast ri)));
         on_ring (tx_ev Tx_hang_report);
         whenM (\<not> xdp) (on_ring (tx_ev Stop_subqueue));
         on_hw ixgbevf_tx_timeout_reset;
         ret True
       } else if xdp then ret (budget \<noteq> 0)
       else do {
         on_ring (tx_ev (Tx_completed packets bytes));
         ok \<leftarrow> on_ring (gets (\<lambda>r. carrier_ok T (ring_ev r)));
         u \<leftarrow> on_ring (gets ixgbevf_desc_unused);
         stopped \<leftarrow> on_ring (gets (\<lambda>r. subqueue_stopped T (ring_ev r)));
         st \<leftarrow> gets (\<lambda>q. back_state (q_hw q));
         whenM (packets \<noteq> 0 \<and> ok \<and> u \<ge> TX_WAKE_THRESHOLD T \<and> stopped \<and> IXGBEVF_DOWN \<notin> st) (do {
           on_ring (tx_ev Wake_subqueue);
           on_ring (modify (\<lambda>r. r\<lparr>restart_queue := restart_queue r + 1\<rparr>)) });
         ret (budget \<noteq> 0) } } }"

end
