(* ===== verification/Rx_Ring.thy ===== *)
theory Rx_Ring
  imports Tx_Ring
begin

text \<open>
  The receive ring of \<open>ixgbevf_main.c\<close>: filling it with pages (\<open>ixgbevf_alloc_rx_buffers\<close>), receiving
  (\<open>ixgbevf_clean_rx_irq\<close> with page flipping, XDP, skb construction and header checks) and emptying it
  (\<open>ixgbevf_clean_rx_ring\<close>).

  Of the compile-time variants, the model has pages of 4096 bytes, XDP, \<open>build_skb\<close> receive, bulk page
  references and receive hashing, and neither busy polling nor the old VLAN registration. Pages are
  numbers, a pointer into the ring is its index. As for transmit, what the kernel and the device decide
  is the parameter \<open>rxenv\<close>, functions of the history \<open>rx_ev\<close>, newest event first; a descriptor is what the
  device wrote back when it is read, so the driver's own clearing of a length is an event.
  The receive loop does not count descriptors of frames it drops, so it runs as long as the device
  produces such frames: its recursion has fuel and the result \<open>None\<close> when the fuel ends.
\<close>

subsection \<open>Constants\<close>

definition IXGBEVF_RXBUFFER_256 :: u32 where [simp]: "IXGBEVF_RXBUFFER_256 = 256"
definition IXGBEVF_RXBUFFER_2048 :: u32 where [simp]: "IXGBEVF_RXBUFFER_2048 = 2048"
definition IXGBEVF_RXBUFFER_3072 :: u32 where [simp]: "IXGBEVF_RXBUFFER_3072 = 3072"
definition IXGBEVF_RX_HDR_SIZE :: u32 where [simp]: "IXGBEVF_RX_HDR_SIZE = IXGBEVF_RXBUFFER_256"
definition IXGBEVF_RX_BUFFER_WRITE :: u16 where [simp]: "IXGBEVF_RX_BUFFER_WRITE = 16"
definition IXGBE_TS_HDR_LEN :: u32 where [simp]: "IXGBE_TS_HDR_LEN = 8"
definition IXGBE_RXD_STAT_EOP :: u32 where [simp]: "IXGBE_RXD_STAT_EOP = 0x02"
definition IXGBE_RXD_STAT_VP :: u32 where [simp]: "IXGBE_RXD_STAT_VP = 0x08"
definition IXGBE_RXD_STAT_L4CS :: u32 where [simp]: "IXGBE_RXD_STAT_L4CS = 0x20"
definition IXGBE_RXD_STAT_IPCS :: u32 where [simp]: "IXGBE_RXD_STAT_IPCS = 0x40"
definition IXGBE_RXD_STAT_TSIP :: u32 where [simp]: "IXGBE_RXD_STAT_TSIP = 0x08000"
definition IXGBE_RXDADV_ERR_TCPE :: u32 where [simp]: "IXGBE_RXDADV_ERR_TCPE = 0x40000000"
definition IXGBE_RXDADV_ERR_IPE :: u32 where [simp]: "IXGBE_RXDADV_ERR_IPE = 0x80000000"
definition IXGBE_RXDADV_ERR_FRAME_ERR_MASK :: u32 where
  [simp]: "IXGBE_RXDADV_ERR_FRAME_ERR_MASK = 0x01000000 OR 0x02000000 OR 0x08000000 OR 0x10000000 OR 0x20000000"
definition IXGBE_RXDADV_PKTTYPE_UDP :: u16 where [simp]: "IXGBE_RXDADV_PKTTYPE_UDP = 0x0200"
definition IXGBE_RXDADV_RSSTYPE_MASK :: u16 where [simp]: "IXGBE_RXDADV_RSSTYPE_MASK = 0xF"
definition IXGBE_RXDADV_RSSTYPE_IPV4_TCP :: nat where [simp]: "IXGBE_RXDADV_RSSTYPE_IPV4_TCP = 1"
definition IXGBE_RXDADV_RSSTYPE_IPV6_TCP :: nat where [simp]: "IXGBE_RXDADV_RSSTYPE_IPV6_TCP = 3"
definition IXGBE_RXDADV_RSSTYPE_IPV4_UDP :: nat where [simp]: "IXGBE_RXDADV_RSSTYPE_IPV4_UDP = 7"
definition IXGBE_RXDADV_RSSTYPE_IPV6_UDP :: nat where [simp]: "IXGBE_RXDADV_RSSTYPE_IPV6_UDP = 8"
definition IXGBE_RSS_L4_TYPES_MASK :: u64 where
  [simp]: "IXGBE_RSS_L4_TYPES_MASK = push_bit IXGBE_RXDADV_RSSTYPE_IPV4_TCP 1 OR push_bit IXGBE_RXDADV_RSSTYPE_IPV4_UDP 1
     OR push_bit IXGBE_RXDADV_RSSTYPE_IPV6_TCP 1 OR push_bit IXGBE_RXDADV_RSSTYPE_IPV6_UDP 1"
definition IXGBEVF_XDP_PASS :: int where [simp]: "IXGBEVF_XDP_PASS = 0"
definition IXGBEVF_XDP_CONSUMED :: int where [simp]: "IXGBEVF_XDP_CONSUMED = 1"
definition IXGBEVF_XDP_TX :: int where [simp]: "IXGBEVF_XDP_TX = 2"
definition VLAN_VID_MASK :: u16 where [simp]: "VLAN_VID_MASK = 0x0fff"
definition PAGE_SIZE :: u32 where [simp]: "PAGE_SIZE = 4096"
definition USHRT_MAX :: u16 where [simp]: "USHRT_MAX = 65535"
definition ETH_ZLEN :: u32 where [simp]: "ETH_ZLEN = 60"
definition ETH_HLEN :: u32 where [simp]: "ETH_HLEN = 14"

subsection \<open>Data\<close>

record ixgbevf_rx_buffer =
  rb_dma :: u64
  rb_page :: "nat option"
  page_offset :: u32
  pagecnt_bias :: u16

text \<open>The written-back form of \<open>union ixgbe_adv_rx_desc\<close>.\<close>

record ixgbe_adv_rx_desc =
  wb_length :: u16
  status_error :: u32
  wb_vlan :: u16
  pkt_info :: u16
  wb_rss :: u32

datatype xdp_act = XDP_ABORTED | XDP_DROP | XDP_PASS | XDP_TX | XDP_other
datatype hash_type = PKT_HASH_TYPE_L3 | PKT_HASH_TYPE_L4
datatype packet_type = PACKET_HOST | PACKET_BROADCAST | PACKET_MULTICAST | PACKET_OTHERHOST

text \<open>A received packet; \<open>rs_parts\<close> are the regions of ring pages it refers to, as page, offset, size.\<close>

record rx_skb =
  rs_len :: u32
  rs_parts :: "(nat \<times> u32 \<times> u32) list"
  rs_hash :: "(u32 \<times> hash_type) option"
  rs_csum_ok :: bool
  rs_vlan :: "u16 option"
  rs_pkt_type :: packet_type

text \<open>A packet pointer: \<open>NULL\<close>, an error pointer of the XDP path, or a packet.\<close>

datatype skbp = Skb_null | Skb_err int | Skb rx_skb

datatype rx_event =
    Rx_alloc nat | Rx_alloc_failed
  | Rx_map nat u64 | Rx_map_failed nat
  | Rx_unmap u64
  | Free_page nat                 \<comment> \<open>\<open>__free_pages\<close> of a page that could not be mapped\<close>
  | Drain nat u16                 \<comment> \<open>\<open>__page_frag_cache_drain\<close>\<close>
  | Page_ref_add nat u16
  | Sync_for_cpu u64 u32 u32 | Sync_for_device u64 u32 u32
  | Write_desc nat u64 | Clear_length nat
  | Rx_status nat ixgbe_adv_rx_desc
  | Rx_tail nat | Xdp_tail nat
  | Alloc_skb bool | Xdp_run xdp_act | Xdp_warn
  | Skb_freed skbp | Rx_deliver bool rx_skb

record rx_ring =
  rx_count :: nat
  rx_next_to_use :: nat
  rx_next_to_clean :: nat
  next_to_alloc :: nat
  rx_buffer_info :: "ixgbevf_rx_buffer list"
  rx_state :: "ixgbevf_ring_state_t set"
  rx_skb_p :: skbp
  rx_netdev :: bool               \<comment> \<open>\<open>netdev\<close> is set\<close>
  xdp_prog :: bool                \<comment> \<open>an XDP program is attached\<close>
  rx_packets :: u64
  rx_bytes :: u64
  csum_err :: u64
  alloc_rx_page :: u64
  alloc_rx_page_failed :: u64
  alloc_rx_buff_failed :: u64
  qv_packets :: u32               \<comment> \<open>\<open>q_vector->rx.total_packets\<close>\<close>
  qv_bytes :: u32
  netpoll_rx :: bool
  xdp_ring :: ixgbevf_ring        \<comment> \<open>\<open>adapter->xdp_ring[queue_index]\<close>\<close>
  rx_ev :: "rx_event list"

record rxenv =
  rx_new_page :: "rx_event list \<Rightarrow> nat option"
  rx_dma_addr :: "rx_event list \<Rightarrow> u64"
  rx_dma_fails :: "rx_event list \<Rightarrow> bool"
  rx_reserved :: "rx_event list \<Rightarrow> nat \<Rightarrow> bool"
  rx_refs :: "rx_event list \<Rightarrow> nat \<Rightarrow> u32"
  rx_writeback :: "rx_event list \<Rightarrow> nat \<Rightarrow> ixgbe_adv_rx_desc"
  rx_skb_alloc :: "rx_event list \<Rightarrow> bool"
  eth_get_headlen :: "rx_event list \<Rightarrow> u32"
  run_xdp_prog :: "rx_event list \<Rightarrow> u32 \<Rightarrow> u32 \<Rightarrow> xdp_act \<times> u32 \<times> u32"
    \<comment> \<open>action, and data offset and size after the program ran\<close>
  pad_fails :: "rx_event list \<Rightarrow> bool"
  own_source :: "rx_event list \<Rightarrow> bool"
    \<comment> \<open>the source address is the device's own\<close>
  vlan_active :: "u16 \<Rightarrow> bool"
  eth_type_trans :: "rx_event list \<Rightarrow> packet_type"
  f_rxhash :: bool
  f_rxcsum :: bool
  f_rxall :: bool
  hwtstamp :: bool
  IXGBEVF_SKB_PAD :: u32
  skb_overhead :: u32
    \<comment> \<open>\<open>SKB_DATA_ALIGN(sizeof(struct skb_shared_info))\<close>\<close>
  xdp_env :: txenv

type_synonym 'a rxop = "(rx_ring, 'a) state"

definition rx_log :: "rx_event \<Rightarrow> unit rxop" where
  "rx_log e = modify (\<lambda>r. r\<lparr>rx_ev := e # rx_ev r\<rparr>)"

definition rx_hist :: "(rx_event list \<Rightarrow> 'a) \<Rightarrow> 'a rxop" where
  "rx_hist f = gets (\<lambda>r. f (rx_ev r))"

definition rx_buf :: "nat \<Rightarrow> ixgbevf_rx_buffer rxop" where
  "rx_buf i = gets (\<lambda>r. rx_buffer_info r ! i)"

definition upd_rx_buf :: "nat \<Rightarrow> (ixgbevf_rx_buffer \<Rightarrow> ixgbevf_rx_buffer) \<Rightarrow> unit rxop" where
  "upd_rx_buf i f = modify (\<lambda>r. r\<lparr>rx_buffer_info := (rx_buffer_info r)[i := f (rx_buffer_info r ! i)]\<rparr>)"

definition on_xdp_ring :: "'a ringop \<Rightarrow> 'a rxop" where
  "on_xdp_ring m = State (\<lambda>r. case run_state m (xdp_ring r) of (a, x) \<Rightarrow> (a, r\<lparr>xdp_ring := x\<rparr>))"

subsection \<open>Buffer geometry\<close>

definition ring_uses_large_buffer :: "ixgbevf_ring_state_t set \<Rightarrow> bool" where
  "ring_uses_large_buffer s \<longleftrightarrow> RX_3K_BUFFER \<in> s"

definition ring_uses_build_skb :: "ixgbevf_ring_state_t set \<Rightarrow> bool" where
  "ring_uses_build_skb s \<longleftrightarrow> RX_BUILD_SKB_ENABLED \<in> s"

definition IXGBEVF_MAX_FRAME_BUILD_SKB :: "rxenv \<Rightarrow> u32" where
  "IXGBEVF_MAX_FRAME_BUILD_SKB E = (IXGBEVF_RXBUFFER_2048 - skb_overhead E) - IXGBEVF_SKB_PAD E"

definition ixgbevf_rx_bufsz :: "rxenv \<Rightarrow> ixgbevf_ring_state_t set \<Rightarrow> u32" where
  "ixgbevf_rx_bufsz E s = (if ring_uses_large_buffer s then IXGBEVF_RXBUFFER_3072
     else if ring_uses_build_skb s then IXGBEVF_MAX_FRAME_BUILD_SKB E else IXGBEVF_RXBUFFER_2048)"

definition ixgbevf_rx_pg_order :: "ixgbevf_ring_state_t set \<Rightarrow> nat" where
  "ixgbevf_rx_pg_order s = (if ring_uses_large_buffer s then 1 else 0)"

definition ixgbevf_rx_pg_size :: "ixgbevf_ring_state_t set \<Rightarrow> u32" where
  "ixgbevf_rx_pg_size s = push_bit (ixgbevf_rx_pg_order s) PAGE_SIZE"

definition ixgbevf_rx_offset :: "rxenv \<Rightarrow> ixgbevf_ring_state_t set \<Rightarrow> u32" where
  "ixgbevf_rx_offset E s = (if ring_uses_build_skb s then IXGBEVF_SKB_PAD E else 0)"

definition ixgbevf_rx_frame_truesize :: "ixgbevf_ring_state_t set \<Rightarrow> u32" where
  "ixgbevf_rx_frame_truesize s = ixgbevf_rx_pg_size s div 2"

definition ixgbevf_rx_buffer_flip :: "nat \<Rightarrow> unit rxop" where
  "ixgbevf_rx_buffer_flip i = do {
     s \<leftarrow> gets rx_state;
     upd_rx_buf i (\<lambda>b. b\<lparr>page_offset := page_offset b XOR ixgbevf_rx_frame_truesize s\<rparr>) }"

subsection \<open>Filling the ring\<close>

definition ixgbevf_alloc_mapped_page :: "rxenv \<Rightarrow> nat \<Rightarrow> bool rxop" where
  "ixgbevf_alloc_mapped_page E i = do {
     bi \<leftarrow> rx_buf i;
     if rb_page bi \<noteq> None then ret True else do {
       page \<leftarrow> rx_hist (rx_new_page E);
       case page of
         None \<Rightarrow> do {
           rx_log Rx_alloc_failed;
           modify (\<lambda>r. r\<lparr>alloc_rx_page_failed := alloc_rx_page_failed r + 1\<rparr>);
           ret False }
       | Some p \<Rightarrow> do {
           rx_log (Rx_alloc p);
           dma \<leftarrow> rx_hist (rx_dma_addr E);
           err \<leftarrow> rx_hist (rx_dma_fails E);
           if err then do {
             rx_log (Rx_map_failed p);
             rx_log (Free_page p);
             modify (\<lambda>r. r\<lparr>alloc_rx_page_failed := alloc_rx_page_failed r + 1\<rparr>);
             ret False
           } else do {
             rx_log (Rx_map p dma);
             s \<leftarrow> gets rx_state;
             upd_rx_buf i (\<lambda>b. b\<lparr>rb_dma := dma, rb_page := Some p, page_offset := ixgbevf_rx_offset E s, pagecnt_bias := 1\<rparr>);
             modify (\<lambda>r. r\<lparr>alloc_rx_page := alloc_rx_page r + 1\<rparr>);
             ret True } } } }"

primrec alloc_loop :: "rxenv \<Rightarrow> nat \<Rightarrow> nat \<times> u32 \<Rightarrow> (nat \<times> u32) rxop" where
  "alloc_loop E 0 pi = ret pi"
| "alloc_loop E (Suc cleaned_count) pi = do {
     ok \<leftarrow> ixgbevf_alloc_mapped_page E (fst pi);
     if \<not> ok then ret pi else do {
       bi \<leftarrow> rx_buf (fst pi);
       s \<leftarrow> gets rx_state;
       rx_log (Sync_for_device (rb_dma bi) (page_offset bi) (ixgbevf_rx_bufsz E s));
       rx_log (Write_desc (fst pi) (rb_dma bi + ucast (page_offset bi)));
       pi \<leftarrow> gets (\<lambda>r. advance (rx_count r) pi);
       rx_log (Clear_length (fst pi));
       alloc_loop E cleaned_count pi } }"

definition ixgbevf_alloc_rx_buffers :: "rxenv \<Rightarrow> u16 \<Rightarrow> unit rxop" where
  "ixgbevf_alloc_rx_buffers E cleaned_count = do {
     nd \<leftarrow> gets rx_netdev;
     whenM (\<not> (cleaned_count = 0 \<or> \<not> nd)) (do {
       u \<leftarrow> gets rx_next_to_use;
       n \<leftarrow> gets rx_count;
       pi \<leftarrow> alloc_loop E (unat cleaned_count) (u, of_nat u - of_nat n);
       let i = unat (snd pi + of_nat n);
       whenM (u \<noteq> i) (do {
         modify (\<lambda>r. r\<lparr>rx_next_to_use := i\<rparr>);
         modify (\<lambda>r. r\<lparr>next_to_alloc := i\<rparr>);
         rx_log (Rx_tail i) }) }) }"

subsection \<open>Handing pages back\<close>

definition ixgbevf_get_rx_buffer :: "u32 \<Rightarrow> nat rxop" where
  "ixgbevf_get_rx_buffer size' = do {
     i \<leftarrow> gets rx_next_to_clean;
     b \<leftarrow> rx_buf i;
     rx_log (Sync_for_cpu (rb_dma b) (page_offset b) size');
     upd_rx_buf i (\<lambda>b. b\<lparr>pagecnt_bias := pagecnt_bias b - 1\<rparr>);
     ret i }"

definition ixgbevf_reuse_rx_page :: "nat \<Rightarrow> unit rxop" where
  "ixgbevf_reuse_rx_page old = do {
     nta \<leftarrow> gets next_to_alloc;
     modify (\<lambda>r. r\<lparr>next_to_alloc := (if nta + 1 < rx_count r then nta + 1 else 0)\<rparr>);
     o' \<leftarrow> rx_buf old;
     upd_rx_buf nta (\<lambda>b. b\<lparr>rb_page := rb_page o', rb_dma := rb_dma o', page_offset := page_offset o',
       pagecnt_bias := pagecnt_bias o'\<rparr>) }"

definition ixgbevf_page_is_reserved :: "rxenv \<Rightarrow> nat \<Rightarrow> bool rxop" where
  "ixgbevf_page_is_reserved E page = rx_hist (\<lambda>h. rx_reserved E h page)"

definition ixgbevf_can_reuse_rx_page :: "rxenv \<Rightarrow> nat \<Rightarrow> bool rxop" where
  "ixgbevf_can_reuse_rx_page E i = do {
     b \<leftarrow> rx_buf i;
     case rb_page b of None \<Rightarrow> ret False \<comment> \<open>not reached: a received buffer has a page\<close>
     | Some page \<Rightarrow> do {
         reserved \<leftarrow> ixgbevf_page_is_reserved E page;
         refs \<leftarrow> rx_hist (\<lambda>h. rx_refs E h page);
         if reserved then ret False
         else if refs - ucast (pagecnt_bias b) > 1 then ret False
         else do {
           whenM (pagecnt_bias b = 0) (do {
             rx_log (Page_ref_add page USHRT_MAX);
             upd_rx_buf i (\<lambda>b. b\<lparr>pagecnt_bias := USHRT_MAX\<rparr>) });
           ret True } } }"

fun IS_ERR :: "skbp \<Rightarrow> bool" where
  "IS_ERR (Skb_err e) = True"
| "IS_ERR _ = False"

definition ixgbevf_put_rx_buffer :: "rxenv \<Rightarrow> nat \<Rightarrow> skbp \<Rightarrow> unit rxop" where
  "ixgbevf_put_rx_buffer E i skb = do {
     reuse \<leftarrow> ixgbevf_can_reuse_rx_page E i;
     (if reuse then ixgbevf_reuse_rx_page i
      else do {
        b \<leftarrow> rx_buf i;
        whenM (IS_ERR skb) (rx_log (Rx_unmap (rb_dma b)));
        (case rb_page b of None \<Rightarrow> ret () | Some p \<Rightarrow> rx_log (Drain p (pagecnt_bias b))) });
     upd_rx_buf i (\<lambda>b. b\<lparr>rb_page := None\<rparr>) }"

definition ixgbevf_test_staterr :: "ixgbe_adv_rx_desc \<Rightarrow> u32 \<Rightarrow> bool" where
  "ixgbevf_test_staterr d bits \<longleftrightarrow> status_error d AND bits \<noteq> 0"

definition ixgbevf_is_non_eop :: "ixgbe_adv_rx_desc \<Rightarrow> bool rxop" where
  "ixgbevf_is_non_eop d = do {
     modify (\<lambda>r. r\<lparr>rx_next_to_clean := (if rx_next_to_clean r + 1 < rx_count r then rx_next_to_clean r + 1 else 0)\<rparr>);
     ret (\<not> ixgbevf_test_staterr d IXGBE_RXD_STAT_EOP) }"

subsection \<open>Building a packet\<close>

definition new_skb :: "u32 \<Rightarrow> (nat \<times> u32 \<times> u32) list \<Rightarrow> rx_skb" where
  "new_skb len parts = \<lparr>rs_len = len, rs_parts = parts, rs_hash = None, rs_csum_ok = False, rs_vlan = None,
     rs_pkt_type = PACKET_HOST\<rparr>"

definition ixgbevf_add_rx_frag :: "nat \<Rightarrow> rx_skb \<Rightarrow> u32 \<Rightarrow> rx_skb rxop" where
  "ixgbevf_add_rx_frag i skb size' = do {
     b \<leftarrow> rx_buf i;
     s \<leftarrow> gets rx_state;
     let truesize = ixgbevf_rx_pg_size s div 2;
     upd_rx_buf i (\<lambda>b. b\<lparr>page_offset := page_offset b XOR truesize\<rparr>);
     ret (skb\<lparr>rs_len := rs_len skb + size',
              rs_parts := rs_parts skb @ [(the (rb_page b), page_offset b, size')]\<rparr>) }"

text \<open>\<open>(off, size)\<close> is \<open>xdp->data\<close> relative to the page and its length.\<close>

definition ixgbevf_construct_skb :: "rxenv \<Rightarrow> nat \<Rightarrow> u32 \<times> u32 \<Rightarrow> skbp rxop" where
  "ixgbevf_construct_skb E i xdp = do {
     b \<leftarrow> rx_buf i;
     s \<leftarrow> gets rx_state;
     let truesize = ixgbevf_rx_pg_size s div 2;
     ok \<leftarrow> rx_hist (rx_skb_alloc E);
     rx_log (Alloc_skb ok);
     if \<not> ok then ret Skb_null else do {
       hl \<leftarrow> rx_hist (eth_get_headlen E);
       let headlen = (if snd xdp > IXGBEVF_RX_HDR_SIZE then hl else snd xdp);
       let rest = snd xdp - headlen;
       if rest \<noteq> 0 then do {
         upd_rx_buf i (\<lambda>b. b\<lparr>page_offset := page_offset b XOR truesize\<rparr>);
         ret (Skb (new_skb (headlen + rest) [(the (rb_page b), fst xdp + headlen, rest)]))
       } else do {
         upd_rx_buf i (\<lambda>b. b\<lparr>pagecnt_bias := pagecnt_bias b + 1\<rparr>);
         ret (Skb (new_skb headlen [])) } } }"

definition ixgbevf_build_skb :: "rxenv \<Rightarrow> nat \<Rightarrow> u32 \<times> u32 \<Rightarrow> skbp rxop" where
  "ixgbevf_build_skb E i xdp = do {
     b \<leftarrow> rx_buf i;
     s \<leftarrow> gets rx_state;
     let truesize = ixgbevf_rx_pg_size s div 2;
     ok \<leftarrow> rx_hist (rx_skb_alloc E);
     rx_log (Alloc_skb ok);
     if \<not> ok then ret Skb_null else do {
       upd_rx_buf i (\<lambda>b. b\<lparr>page_offset := page_offset b XOR truesize\<rparr>);
       ret (Skb (new_skb (snd xdp) [(the (rb_page b), fst xdp, snd xdp)])) } }"

subsection \<open>XDP\<close>

definition ixgbevf_xmit_xdp_ring :: "txenv \<Rightarrow> nat \<Rightarrow> u32 \<Rightarrow> int ringop" where
  "ixgbevf_xmit_xdp_ring E data len = do {
     u \<leftarrow> gets ixgbevf_desc_unused;
     if u = 0 then ret IXGBEVF_XDP_CONSUMED else do {
       (dma, err) \<leftarrow> dma_map E Single len;
       if err then ret IXGBEVF_XDP_CONSUMED else do {
         first \<leftarrow> gets next_to_use;
         upd_buf first (\<lambda>b. b\<lparr>tb_len := len, tb_dma := dma, tb_skb := Some data, bytecount := len, gso_segs := 1,
           tb_protocol := 0\<rparr>);
         primed \<leftarrow> gets (\<lambda>r. TX_XDP_RING_PRIMED \<in> ring_state r);
         i \<leftarrow> (if primed then ret first else do {
           modify (\<lambda>r. r\<lparr>ring_state := insert TX_XDP_RING_PRIMED (ring_state r)\<rparr>);
           upd_desc 0 (\<lambda>d. \<lparr>buffer_addr = ucast (push_bit IXGBE_ADVTXD_MACLEN_SHIFT ETH_HLEN),
             cmd_type_len = IXGBE_TXD_CMD_DEXT OR IXGBE_ADVTXD_DTYP_CTXT, olinfo_status = 0\<rparr>);
           ret 1 });
         let cmd_type = IXGBE_ADVTXD_DTYP_DATA OR IXGBE_ADVTXD_DCMD_DEXT OR IXGBE_ADVTXD_DCMD_IFCS OR len OR IXGBE_TXD_CMD;
         upd_desc i (\<lambda>d. \<lparr>buffer_addr = dma, cmd_type_len = cmd_type,
           olinfo_status = push_bit IXGBE_ADVTXD_PAYLEN_SHIFT len OR IXGBE_ADVTXD_CC\<rparr>);
         upd_buf first (\<lambda>b. b\<lparr>next_to_watch := Some i\<rparr>);
         j \<leftarrow> next_idx i;
         modify (\<lambda>r. r\<lparr>next_to_use := j\<rparr>);
         ret IXGBEVF_XDP_TX } } }"

text \<open>Returns \<open>ERR_PTR(-result)\<close>, which is \<open>NULL\<close> for \<open>IXGBEVF_XDP_PASS\<close>, and the possibly moved data.\<close>

definition ERR_PTR :: "int \<Rightarrow> skbp" where
  "ERR_PTR e = (if e = 0 then Skb_null else Skb_err e)"

definition ixgbevf_run_xdp :: "rxenv \<Rightarrow> nat \<Rightarrow> u32 \<times> u32 \<Rightarrow> (skbp \<times> u32 \<times> u32) rxop" where
  "ixgbevf_run_xdp E i xdp = do {
     prog \<leftarrow> gets xdp_prog;
     if \<not> prog then ret (ERR_PTR (- IXGBEVF_XDP_PASS), xdp) else do {
       (act, xdp) \<leftarrow> rx_hist (\<lambda>h. run_xdp_prog E h (fst xdp) (snd xdp));
       rx_log (Xdp_run act);
       result \<leftarrow> (case act of
           XDP_PASS \<Rightarrow> ret IXGBEVF_XDP_PASS
         | XDP_TX \<Rightarrow> do {
             b \<leftarrow> rx_buf i;
             on_xdp_ring (ixgbevf_xmit_xdp_ring (xdp_env E) (the (rb_page b)) (snd xdp)) }
         | XDP_other \<Rightarrow> do { rx_log Xdp_warn; ret IXGBEVF_XDP_CONSUMED }
         | XDP_ABORTED \<Rightarrow> ret IXGBEVF_XDP_CONSUMED
         | XDP_DROP \<Rightarrow> ret IXGBEVF_XDP_CONSUMED);
       ret (ERR_PTR (- result), xdp) } }"

subsection \<open>Packet fields\<close>

definition ixgbevf_cleanup_headers :: "rxenv \<Rightarrow> ixgbe_adv_rx_desc \<Rightarrow> skbp \<Rightarrow> (bool \<times> skbp) rxop" where
  "ixgbevf_cleanup_headers E d skb = (case skb of
     Skb s \<Rightarrow>
       if ixgbevf_test_staterr d IXGBE_RXDADV_ERR_FRAME_ERR_MASK \<and> \<not> f_rxall E then do {
         rx_log (Skb_freed skb); ret (True, skb)
       } else if rs_len s < ETH_ZLEN then do {
         bad \<leftarrow> rx_hist (pad_fails E);
         if bad then do { rx_log (Skb_freed skb); ret (True, skb) }
         else ret (False, Skb (s\<lparr>rs_len := ETH_ZLEN\<rparr>))
       } else ret (False, skb)
   | _ \<Rightarrow> ret (True, skb))"

definition ixgbevf_rx_hash :: "rxenv \<Rightarrow> ixgbe_adv_rx_desc \<Rightarrow> rx_skb \<Rightarrow> rx_skb" where
  "ixgbevf_rx_hash E d skb = (
     let rss_type = pkt_info d AND IXGBE_RXDADV_RSSTYPE_MASK in
     if \<not> f_rxhash E \<or> rss_type = 0 then skb
     else skb\<lparr>rs_hash := Some (wb_rss d,
       if IXGBE_RSS_L4_TYPES_MASK AND push_bit (unat rss_type) 1 \<noteq> 0 then PKT_HASH_TYPE_L4 else PKT_HASH_TYPE_L3)\<rparr>)"

definition ixgbevf_rx_checksum :: "rxenv \<Rightarrow> ixgbe_adv_rx_desc \<Rightarrow> rx_skb \<Rightarrow> rx_skb rxop" where
  "ixgbevf_rx_checksum E d skb = (
     let skb = skb\<lparr>rs_csum_ok := False\<rparr> in
     if \<not> f_rxcsum E then ret skb
     else if ixgbevf_test_staterr d IXGBE_RXD_STAT_IPCS \<and> ixgbevf_test_staterr d IXGBE_RXDADV_ERR_IPE then do {
       modify (\<lambda>r. r\<lparr>csum_err := csum_err r + 1\<rparr>); ret skb
     } else if \<not> ixgbevf_test_staterr d IXGBE_RXD_STAT_L4CS then ret skb
     else if ixgbevf_test_staterr d IXGBE_RXDADV_ERR_TCPE then do {
       st \<leftarrow> gets rx_state;
       if pkt_info d AND IXGBE_RXDADV_PKTTYPE_UDP \<noteq> 0 \<and> RX_CSUM_UDP_ZERO_ERR \<in> st then ret skb
       else do { modify (\<lambda>r. r\<lparr>csum_err := csum_err r + 1\<rparr>); ret skb }
     } else ret (skb\<lparr>rs_csum_ok := True\<rparr>))"

definition ixgbevf_process_skb_fields :: "rxenv \<Rightarrow> ixgbe_adv_rx_desc \<Rightarrow> rx_skb \<Rightarrow> rx_skb rxop" where
  "ixgbevf_process_skb_fields E d skb = do {
     let skb = ixgbevf_rx_hash E d skb;
     skb \<leftarrow> ixgbevf_rx_checksum E d skb;
     let skb = (if ixgbevf_test_staterr d IXGBE_RXD_STAT_VP \<and> vlan_active E (wb_vlan d AND VLAN_VID_MASK)
       then skb\<lparr>rs_vlan := Some (wb_vlan d)\<rparr> else skb);
     let skb = (if hwtstamp E \<and> ixgbevf_test_staterr d IXGBE_RXD_STAT_TSIP
       then skb\<lparr>rs_len := rs_len skb - IXGBE_TS_HDR_LEN\<rparr> else skb);
     t \<leftarrow> rx_hist (eth_type_trans E);
     ret (skb\<lparr>rs_pkt_type := t\<rparr>) }"

definition ixgbevf_rx_skb :: "rx_skb \<Rightarrow> unit rxop" where
  "ixgbevf_rx_skb skb = do { np \<leftarrow> gets netpoll_rx; rx_log (Rx_deliver np skb) }"

subsection \<open>The receive loop\<close>

definition rx_desc_unused :: "rx_ring \<Rightarrow> u16" where
  "rx_desc_unused ring = of_int ((if rx_next_to_clean ring > rx_next_to_use ring then 0 else int (rx_count ring))
     + int (rx_next_to_clean ring) - int (rx_next_to_use ring) - 1)"

text \<open>The local variables of \<open>ixgbevf_clean_rx_irq\<close>.\<close>

record rx_vars =
  cleaned_count :: u16
  v_skb :: skbp
  xdp_xmit :: bool
  total_rx_bytes :: u32
  total_rx_packets :: u32

text \<open>The packet after its buffer has been attached: error pointers count as packets, an existing packet gets
  a fragment, a new one is built.\<close>

definition rx_attach :: "rxenv \<Rightarrow> nat \<Rightarrow> u32 \<Rightarrow> rx_vars \<Rightarrow> rx_vars rxop" where
  "rx_attach E i size' v = do {
     b \<leftarrow> rx_buf i;
     (skb, xdp) \<leftarrow> (if v_skb v = Skb_null then ixgbevf_run_xdp E i (page_offset b, size') else ret (v_skb v, (0, 0)));
     case skb of
       Skb_err e \<Rightarrow> do {
         (if e = - IXGBEVF_XDP_TX then ixgbevf_rx_buffer_flip i
          else upd_rx_buf i (\<lambda>b. b\<lparr>pagecnt_bias := pagecnt_bias b + 1\<rparr>));
         ret (v\<lparr>v_skb := skb, xdp_xmit := (xdp_xmit v \<or> e = - IXGBEVF_XDP_TX),
           total_rx_packets := total_rx_packets v + 1, total_rx_bytes := total_rx_bytes v + size'\<rparr>) }
     | Skb s \<Rightarrow> do { s \<leftarrow> ixgbevf_add_rx_frag i s size'; ret (v\<lparr>v_skb := Skb s\<rparr>) }
     | Skb_null \<Rightarrow> do {
         st \<leftarrow> gets rx_state;
         skb \<leftarrow> (if ring_uses_build_skb st then ixgbevf_build_skb E i xdp else ixgbevf_construct_skb E i xdp);
         ret (v\<lparr>v_skb := skb\<rparr>) } }"

text \<open>The end of an iteration for a complete frame.\<close>

definition rx_frame :: "rxenv \<Rightarrow> ixgbe_adv_rx_desc \<Rightarrow> rx_vars \<Rightarrow> rx_vars rxop" where
  "rx_frame E d v = do {
     (err, skb) \<leftarrow> ixgbevf_cleanup_headers E d (v_skb v);
     if err then ret (v\<lparr>v_skb := Skb_null\<rparr>)
     else (case skb of Skb s \<Rightarrow> do {
       let v = v\<lparr>v_skb := skb, total_rx_bytes := total_rx_bytes v + rs_len s\<rparr>;
       own \<leftarrow> rx_hist (own_source E);
       if (rs_pkt_type s = PACKET_BROADCAST \<or> rs_pkt_type s = PACKET_MULTICAST) \<and> own then do {
         rx_log (Skb_freed skb); ret v
       } else do {
         s \<leftarrow> ixgbevf_process_skb_fields E d s;
         ixgbevf_rx_skb s;
         ret (v\<lparr>v_skb := Skb_null, total_rx_packets := total_rx_packets v + 1\<rparr>) } }
     | _ \<Rightarrow> ret v) }"

text \<open>One iteration; \<open>True\<close> is \<open>break\<close>.\<close>

definition rx_refill :: "rxenv \<Rightarrow> rx_vars \<Rightarrow> rx_vars rxop" where
  "rx_refill E v = (
     if cleaned_count v \<ge> IXGBEVF_RX_BUFFER_WRITE then do {
       ixgbevf_alloc_rx_buffers E (cleaned_count v);
       ret (v\<lparr>cleaned_count := 0\<rparr>)
     } else ret v)"

definition rx_iter :: "rxenv \<Rightarrow> rx_vars \<Rightarrow> (bool \<times> rx_vars) rxop" where
  "rx_iter E v = do {
     v \<leftarrow> rx_refill E v;
     i \<leftarrow> gets rx_next_to_clean;
     d \<leftarrow> rx_hist (\<lambda>h. rx_writeback E h i);
     rx_log (Rx_status i d);
     let size' = (ucast (wb_length d) :: u32);
     if size' = 0 then ret (True, v) else do {
       i \<leftarrow> ixgbevf_get_rx_buffer size';
       v \<leftarrow> rx_attach E i size' v;
       if v_skb v = Skb_null then do {
         modify (\<lambda>r. r\<lparr>alloc_rx_buff_failed := alloc_rx_buff_failed r + 1\<rparr>);
         upd_rx_buf i (\<lambda>b. b\<lparr>pagecnt_bias := pagecnt_bias b + 1\<rparr>);
         ret (True, v)
       } else do {
         ixgbevf_put_rx_buffer E i (v_skb v);
         let v = v\<lparr>cleaned_count := cleaned_count v + 1\<rparr>;
         more \<leftarrow> ixgbevf_is_non_eop d;
         if more then ret (False, v) else do {
           v \<leftarrow> rx_frame E d v;
           ret (False, v) } } } }"

primrec rx_loop :: "rxenv \<Rightarrow> nat \<Rightarrow> u32 \<Rightarrow> rx_vars \<Rightarrow> rx_vars option rxop" where
  "rx_loop E 0 budget v = (if total_rx_packets v < budget then ret None else ret (Some v))"
| "rx_loop E (Suc fuel) budget v = (
     if total_rx_packets v < budget then do {
       (stop, v) \<leftarrow> rx_iter E v;
       if stop then ret (Some v) else rx_loop E fuel budget v
     } else ret (Some v))"

definition ixgbevf_clean_rx_irq :: "rxenv \<Rightarrow> nat \<Rightarrow> u32 \<Rightarrow> u32 option rxop" where
  "ixgbevf_clean_rx_irq E fuel budget = do {
     n \<leftarrow> gets rx_desc_unused;
     skb \<leftarrow> gets rx_skb_p;
     res \<leftarrow> rx_loop E fuel budget \<lparr>cleaned_count = n, v_skb = skb, xdp_xmit = False, total_rx_bytes = 0, total_rx_packets = 0\<rparr>;
     case res of None \<Rightarrow> ret None
     | Some v \<Rightarrow> do {
         modify (\<lambda>r. r\<lparr>rx_skb_p := v_skb v\<rparr>);
         whenM (xdp_xmit v) (do { u \<leftarrow> gets (\<lambda>r. next_to_use (xdp_ring r)); rx_log (Xdp_tail u) });
         modify (\<lambda>r. r\<lparr>rx_packets := rx_packets r + ucast (total_rx_packets v), rx_bytes := rx_bytes r + ucast (total_rx_bytes v)\<rparr>);
         modify (\<lambda>r. r\<lparr>qv_packets := qv_packets r + total_rx_packets v, qv_bytes := qv_bytes r + total_rx_bytes v\<rparr>);
         modify (\<lambda>r. r\<lparr>netpoll_rx := False\<rparr>);
         ret (Some (total_rx_packets v)) } }"

subsection \<open>Emptying the ring\<close>

primrec rx_drain_loop :: "rxenv \<Rightarrow> nat \<Rightarrow> nat \<Rightarrow> unit rxop" where
  "rx_drain_loop E 0 i = ret ()"
| "rx_drain_loop E (Suc fuel) i = do {
     a \<leftarrow> gets next_to_alloc;
     if i = a then ret () else do {
       b \<leftarrow> rx_buf i;
       s \<leftarrow> gets rx_state;
       rx_log (Sync_for_cpu (rb_dma b) (page_offset b) (ixgbevf_rx_bufsz E s));
       rx_log (Rx_unmap (rb_dma b));
       (case rb_page b of None \<Rightarrow> ret () | Some p \<Rightarrow> rx_log (Drain p (pagecnt_bias b)));
       i \<leftarrow> gets (\<lambda>r. if i + 1 = rx_count r then 0 else i + 1);
       rx_drain_loop E fuel i } }"

definition ixgbevf_clean_rx_ring :: "rxenv \<Rightarrow> unit rxop" where
  "ixgbevf_clean_rx_ring E = do {
     i \<leftarrow> gets rx_next_to_clean;
     skb \<leftarrow> gets rx_skb_p;
     whenM (skb \<noteq> Skb_null) (do { rx_log (Skb_freed skb); modify (\<lambda>r. r\<lparr>rx_skb_p := Skb_null\<rparr>) });
     n \<leftarrow> gets rx_count;
     rx_drain_loop E n i;
     modify (\<lambda>r. r\<lparr>next_to_alloc := 0, rx_next_to_clean := 0, rx_next_to_use := 0\<rparr>) }"

end
