(* ===== verification/Tx_Facts.thy ===== *)
theory Tx_Facts
  imports "HOL-Library.Multiset" Tx_Ring
begin

text \<open>
  The transmit ring as a queue of packets. A ring is viewed from a base slot: \<open>view c X r\<close> is the
  ring \<open>r\<close> whose buffers, read cyclically from slot \<open>c\<close>, are the list \<open>X\<close>. The invariant splits that
  list into the pending packets and the free slots; cleaning removes packets at the front,
  transmitting adds one at the back, and every DMA mapping that was made is either recorded in a
  pending packet or has been undone exactly once.
\<close>

subsection \<open>Viewing the ring from a base slot\<close>

definition unrot :: "nat \<Rightarrow> 'a list \<Rightarrow> 'a list" where
  "unrot c xs = rotate (length xs - c mod length xs) xs"

lemma unrot_length [simp]: "length (unrot c xs) = length xs"
  by (simp add: unrot_def)

lemma unrot_nth:
  assumes "j < length xs"
  shows "unrot c xs ! ((c + j) mod length xs) = xs ! j"
proof -
  let ?n = "length xs"
  from assms have n: "0 < ?n" by linarith
  have cm: "c mod ?n \<le> ?n" using n by (simp add: less_imp_le)
  have "unrot c xs ! ((c + j) mod ?n) = xs ! ((?n - c mod ?n + (c + j) mod ?n) mod ?n)"
    using n by (simp add: unrot_def nth_rotate)
  also have "(?n - c mod ?n + (c + j) mod ?n) mod ?n = (?n - c mod ?n + (c mod ?n + j)) mod ?n"
    by (metis mod_add_left_eq mod_add_right_eq)
  also have "?n - c mod ?n + (c mod ?n + j) = ?n + j" using cm by linarith
  finally show ?thesis using assms by simp
qed

lemma slot_inj:
  assumes "j < n" and "k < n" and "(c + j) mod n = (c + k) mod (n :: nat)"
  shows "j = k"
proof (rule ccontr)
  have aux: False if "j < k" "k < n" "(c + j) mod n = (c + k) mod n" for j k
  proof -
    from that have "n dvd (c + k) - (c + j)" by (subst mod_eq_dvd_iff_nat [symmetric]) simp_all
    then have "n dvd k - j" by simp
    with that show False by (auto dest: dvd_imp_le)
  qed
  assume "j \<noteq> k"
  with aux [of j k] aux [of k j] assms show False by (cases "j < k") auto
qed

lemma unrot_update:
  assumes "j < length xs"
  shows "(unrot c xs)[(c + j) mod length xs := v] = unrot c (xs[j := v])"
proof (rule nth_equalityI)
  fix i assume "i < length ((unrot c xs)[(c + j) mod length xs := v])"
  then have i: "i < length xs" by simp
  define k where "k = (i + (length xs - c mod length xs)) mod length xs"
  have n: "0 < length xs" using i by linarith
  have "(c + k) mod length xs = (c mod length xs + (i + (length xs - c mod length xs))) mod length xs"
    unfolding k_def by (metis mod_add_left_eq mod_add_right_eq)
  also have "c mod length xs + (i + (length xs - c mod length xs)) = i + length xs"
    using mod_less_divisor [OF n, of c] by linarith
  finally have ik: "i = (c + k) mod length xs" using i by simp
  have k: "k < length xs" using n by (simp add: k_def)
  have "(c + k) mod length xs = (c + j) mod length xs \<longleftrightarrow> k = j"
    using slot_inj [OF k assms] by auto
  moreover have "unrot c (xs[j := v]) ! ((c + k) mod length xs) = xs[j := v] ! k"
    using unrot_nth [of k "xs[j := v]" c] k by simp
  moreover have "(c + k) mod length xs < length xs" using n by simp
  ultimately show "(unrot c xs)[(c + j) mod length xs := v] ! i = unrot c (xs[j := v]) ! i"
    using unrot_nth [OF k, of c] k assms unfolding ik by (auto simp: nth_list_update)
qed simp

lemma unrot_rotate: "unrot c (rotate c xs) = xs"
proof (cases "xs = []")
  case False
  then have n: "0 < length xs" by simp
  have "rotate (length xs - c mod length xs) (rotate c xs) = rotate (length xs - c mod length xs + c) xs"
    by (simp add: rotate_rotate)
  also have "\<dots> = rotate ((length xs - c mod length xs + c) mod length xs) xs"
    by (rule rotate_conv_mod)
  also have "(length xs - c mod length xs + c) mod length xs =
      (length xs - c mod length xs + c mod length xs) mod length xs" by (simp add: mod_simps)
  also have "length xs - c mod length xs + c mod length xs = length xs"
    using mod_less_divisor [OF n, of c] by linarith
  finally show ?thesis by (simp add: unrot_def)
qed (simp add: unrot_def)

lemma unrot_shift: "unrot c (xs @ ys) = unrot (c + length xs) (ys @ xs)"
proof -
  have "ys @ xs = rotate (length xs) (xs @ ys)" by (simp add: rotate_append)
  moreover have "unrot c (xs @ ys) = zs" if "rotate c zs = xs @ ys" for zs :: "'a list"
    using unrot_rotate [of c zs] that by simp
  moreover have "\<exists>zs. rotate c zs = xs @ ys"
  proof
    show "rotate c (unrot c (xs @ ys)) = xs @ ys"
      using unrot_nth [of _ "xs @ ys" c] by (intro nth_equalityI) (simp_all add: nth_rotate)
  qed
  ultimately show ?thesis
    by (metis add.commute rotate_rotate unrot_rotate)
qed

lemma unrot_mod: "unrot (c mod length xs) xs = unrot c xs"
  by (simp add: unrot_def)

definition view :: "nat \<Rightarrow> ixgbevf_tx_buffer list \<Rightarrow> ixgbevf_ring \<Rightarrow> ixgbevf_ring" where
  "view c X r = r\<lparr>tx_buffer_info := unrot c X\<rparr>"

lemma view_self: "view c (rotate c (tx_buffer_info r)) r = r"
  by (simp add: view_def unrot_rotate)

lemma view_simps [simp]:
  "count (view c X r) = count r" "next_to_use (view c X r) = next_to_use r"
  "next_to_clean (view c X r) = next_to_clean r" "ring_ev (view c X r) = ring_ev r"
  "tx_descs (view c X r) = tx_descs r" "ring_state (view c X r) = ring_state r"
  "ixgbevf_desc_unused (view c X r) = ixgbevf_desc_unused r"
  "st_packets (view c X r) = st_packets r" "st_bytes (view c X r) = st_bytes r"
  "tx_buffer_info (view c X r) = unrot c X"
  by (simp_all add: view_def ixgbevf_desc_unused_def)

lemma view_shift: "view c (xs @ ys) r = view (c + length xs) (ys @ xs) r"
  by (simp only: view_def unrot_shift [of c xs ys])

text \<open>Execution of the ring primitives on a view.\<close>

lemma run_get_buf:
  "j < length X \<Longrightarrow> n = length X \<Longrightarrow>
     run_state (get_buf ((c + j) mod n)) (view c X r) = (X ! j, view c X r)"
  by (simp add: get_buf_def unrot_nth)

lemma run_upd_buf:
  "j < length X \<Longrightarrow> n = length X \<Longrightarrow>
     run_state (upd_buf ((c + j) mod n) f) (view c X r) = ((), view c (X[j := f (X ! j)]) r)"
  by (simp add: upd_buf_def view_def unrot_nth unrot_update)

lemma run_tx_ev: "run_state (tx_ev e) (view c X r) = ((), view c X (r\<lparr>ring_ev := e # ring_ev r\<rparr>))"
  by (simp add: tx_ev_def view_def)

lemma run_upd_desc:
  "run_state (upd_desc i f) (view c X r) =
     ((), view c X (r\<lparr>tx_descs := (tx_descs r)[i := f (tx_descs r ! i)]\<rparr>))"
  by (simp add: upd_desc_def view_def)

lemma run_next_idx:
  assumes "n = count r" and "0 < n"
  shows "run_state (next_idx ((c + j) mod n)) (view c X r) = ((c + Suc j) mod n, view c X r)"
proof -
  have "(c + Suc j) mod n = (if Suc ((c + j) mod n) = n then 0 else Suc ((c + j) mod n))"
    by (simp add: mod_Suc)
  then show ?thesis using assms(1) by (simp add: next_idx_def)
qed

lemma advance_slot:
  assumes "0 < n" and "n < 2 ^ 32" and "i = of_nat ((c + j) mod n) - of_nat n"
  shows "advance n ((c + j) mod n, i) = ((c + Suc j) mod n, of_nat ((c + Suc j) mod n) - of_nat n)"
proof -
  let ?p = "(c + j) mod n"
  have p: "?p < n" using assms(1) by simp
  have i: "i + 1 = of_nat (Suc ?p) - of_nat n" using assms(3) by simp
  have inj: "(of_nat a :: u32) = of_nat b \<longleftrightarrow> a = b" if "a < 2 ^ 32" "b < 2 ^ 32" for a b
    using that by (simp add: word_unat_eq_iff unat_of_nat)
  have z: "i + 1 = 0 \<longleftrightarrow> Suc ?p = n"
    unfolding i using inj [of "Suc ?p" n] p assms(2) by simp
  have m: "(c + Suc j) mod n = (if Suc ?p = n then 0 else Suc ?p)" by (simp add: mod_Suc)
  show ?thesis
  proof (cases "Suc ?p = n")
    case True
    then have "i + 1 = 0" using z by simp
    then show ?thesis using True m by (simp add: advance_def)
  next
    case False
    then have "i + 1 \<noteq> 0" using z by simp
    then show ?thesis using False m i by (simp only: advance_def Let_def snd_conv fst_conv if_False) simp
  qed
qed

subsection \<open>Packets\<close>

type_synonym mapping = "dma_kind \<times> u64 \<times> u32"

definition clr :: "ixgbevf_tx_buffer \<Rightarrow> ixgbevf_tx_buffer" where
  "clr b = b\<lparr>tb_len := 0\<rparr>"

definition page_maps :: "ixgbevf_tx_buffer list \<Rightarrow> mapping list" where
  "page_maps bs = map (\<lambda>b. (Page, tb_dma b, tb_len b)) (filter (\<lambda>b. tb_len b \<noteq> 0) bs)"

definition unmaps :: "mapping list \<Rightarrow> tx_event list" where
  "unmaps ms = map (\<lambda>(k, a, l). Dma_unmap k a l) ms"

definition head_map :: "ixgbevf_tx_buffer \<Rightarrow> mapping" where
  "head_map b = (Single, tb_dma b, tb_len b)"

text \<open>The mappings a pending packet holds: the head in its first buffer, the pages in the others.\<close>

definition mappings :: "ixgbevf_tx_buffer list \<Rightarrow> mapping list" where
  "mappings g = head_map (hd g) # page_maps (tl g)"

lemma page_maps_simps [simp]:
  "page_maps [] = []"
  "page_maps (b # bs) = (if tb_len b \<noteq> 0 then (Page, tb_dma b, tb_len b) # page_maps bs else page_maps bs)"
  "page_maps (xs @ ys) = page_maps xs @ page_maps ys"
  by (simp_all add: page_maps_def)

lemma unmaps_simps [simp]:
  "unmaps [] = []" "unmaps (m # ms) = (case m of (k, a, l) \<Rightarrow> Dma_unmap k a l) # unmaps ms"
  "unmaps (xs @ ys) = unmaps xs @ unmaps ys" "unmaps (rev ms) = rev (unmaps ms)"
  by (simp_all add: unmaps_def rev_map)

lemma clr_simps [simp]:
  "tb_len (clr b) = 0" "next_to_watch (clr b) = next_to_watch b" "clr (clr b) = clr b"
  by (simp_all add: clr_def)

lemma clr_id: "tb_len b = 0 \<Longrightarrow> clr b = b"
  by (cases b) (simp add: clr_def)

lemma page_maps_clr [simp]: "page_maps (map clr bs) = []"
  by (induction bs) auto

subsection \<open>Unmapping the rest of a packet\<close>

lemma run_unmap_rest:
  assumes "length (A @ M @ Z) = count r" and "A \<noteq> []" and "length M \<le> fuel"
    and "count r < 2 ^ 32" and "c' = c + (length A - 1)"
    and "i = of_nat (c' mod count r) - of_nat (count r)"
  shows "run_state (unmap_rest fuel ((c' + length M) mod count r) (c' mod count r, i)) (view c (A @ M @ Z) r) =
    (((c' + length M) mod count r, of_nat ((c' + length M) mod count r) - of_nat (count r)),
     view c (A @ map clr M @ Z) (r\<lparr>ring_ev := rev (unmaps (page_maps M)) @ ring_ev r\<rparr>))"
  using assms
proof (induction M arbitrary: A r fuel c' i)
  case Nil
  then show ?case by (cases fuel) (simp_all add: view_def)
next
  case (Cons b M)
  let ?n = "count r"
  obtain f where fuel: "fuel = Suc f" using Cons.prems(3) by (cases fuel) auto
  have n: "0 < ?n" and lt: "length A - 1 < ?n" "length A + length M < ?n" "length A < ?n"
    using Cons.prems(1,2) by (cases A; simp)+
  let ?c1 = "Suc c'"
  let ?i1 = "of_nat (?c1 mod ?n) - of_nat ?n :: u32"
  have ne: "c' mod ?n \<noteq> (c' + length (b # M)) mod ?n"
  proof
    assume "c' mod ?n = (c' + length (b # M)) mod ?n"
    moreover have "length (b # M) < ?n" using Cons.prems(1,2) by (cases A) auto
    ultimately show False using slot_inj [of 0 ?n "length (b # M)" c'] n by simp
  qed
  have adv: "advance ?n (c' mod ?n, i) = (?c1 mod ?n, ?i1)"
    using advance_slot [OF n Cons.prems(4), of i c' 0] Cons.prems(6) by simp
  have c1: "?c1 = c + length A" using Cons.prems(2,5) by (cases A) auto
  have nth: "run_state (get_buf (?c1 mod ?n)) (view c (A @ (b # M) @ Z) r) = (b, view c (A @ (b # M) @ Z) r)"
    using run_get_buf [of "length A" "A @ (b # M) @ Z" ?n c r] Cons.prems(1) c1 by simp
  define r1 where "r1 = (if tb_len b \<noteq> 0 then r\<lparr>ring_ev := Dma_unmap Page (tb_dma b) (tb_len b) # ring_ev r\<rparr> else r)"
  have cnt: "count r1 = ?n" by (simp add: r1_def)
  have step: "run_state (whenM (tb_len b \<noteq> 0) (do {
        tx_ev (Dma_unmap Page (tb_dma b) (tb_len b));
        upd_buf (?c1 mod ?n) (\<lambda>tb. tb\<lparr>tb_len := 0\<rparr>) })) (view c (A @ (b # M) @ Z) r) =
      ((), view c ((A @ [clr b]) @ M @ Z) r1)"
    using run_upd_buf [of "length A" "A @ (b # M) @ Z" ?n c "\<lambda>tb. tb\<lparr>tb_len := 0\<rparr>" r1] Cons.prems(1) c1
    by (cases "tb_len b = 0") (simp_all add: run_whenM run_tx_ev clr_def [symmetric] clr_id r1_def)
  have IH: "run_state (unmap_rest f ((?c1 + length M) mod ?n) (?c1 mod ?n, ?i1))
      (view c ((A @ [clr b]) @ M @ Z) r1) =
    (((?c1 + length M) mod ?n, of_nat ((?c1 + length M) mod ?n) - of_nat ?n),
     view c ((A @ [clr b]) @ map clr M @ Z) (r1\<lparr>ring_ev := rev (unmaps (page_maps M)) @ ring_ev r1\<rparr>))"
  proof (rule Cons.IH [of "A @ [clr b]" r1 f ?c1 ?i1, unfolded cnt])
    show "length ((A @ [clr b]) @ M @ Z) = ?n" using Cons.prems(1) by simp
    show "length M \<le> f" using Cons.prems(3) fuel by simp
    show "?c1 = c + (length (A @ [clr b]) - 1)" using c1 by simp
  qed (use Cons.prems in simp_all)
  have c2: "c' + length (b # M) = ?c1 + length M" by simp
  have ev: "view c ((A @ [clr b]) @ map clr M @ Z) (r1\<lparr>ring_ev := rev (unmaps (page_maps M)) @ ring_ev r1\<rparr>) =
      view c (A @ map clr (b # M) @ Z) (r\<lparr>ring_ev := rev (unmaps (page_maps (b # M))) @ ring_ev r\<rparr>)"
    by (simp add: r1_def)
  have run: "run_state (unmap_rest fuel ((c' + length (b # M)) mod ?n) (c' mod ?n, i)) (view c (A @ (b # M) @ Z) r) =
      run_state (unmap_rest f ((?c1 + length M) mod ?n) (?c1 mod ?n, ?i1)) (view c ((A @ [clr b]) @ M @ Z) r1)"
    unfolding fuel unmap_rest.simps run_bind c2 [symmetric]
    by (simp only: ne fst_conv if_False run_bind run_gets view_simps adv nth step prod.case)
  show ?case using run unfolding IH ev c2 .
qed

subsection \<open>Packets of the queue\<close>

text \<open>
  The abstract queue of a ring: what a pending packet means to the rest of the driver. \<open>pkt_eop\<close> is
  the descriptor whose write-back reports the packet done, \<open>pkt_maps\<close> the DMA mappings it holds.
\<close>

record txpkt =
  pkt_eop :: nat
  pkt_skb :: "nat option"
  pkt_bytes :: u32
  pkt_segs :: u16
  pkt_maps :: "mapping list"

definition pkt_of :: "ixgbevf_tx_buffer list \<Rightarrow> txpkt" where
  "pkt_of g = \<lparr>pkt_eop = the (next_to_watch (hd g)), pkt_skb = tb_skb (hd g), pkt_bytes = bytecount (hd g),
     pkt_segs = gso_segs (hd g), pkt_maps = mappings g\<rparr>"

definition free_buf :: "ixgbevf_tx_buffer \<Rightarrow> bool" where
  "free_buf b \<longleftrightarrow> next_to_watch b = None \<and> tb_len b = 0"

definition packet :: "nat \<Rightarrow> nat \<Rightarrow> ixgbevf_tx_buffer list \<Rightarrow> bool" where
  "packet n c g \<longleftrightarrow> g \<noteq> [] \<and> next_to_watch (hd g) = Some ((c + (length g - 1)) mod n) \<and>
     (\<forall>b \<in> set (tl g). next_to_watch b = None)"

primrec packets :: "nat \<Rightarrow> nat \<Rightarrow> ixgbevf_tx_buffer list list \<Rightarrow> bool" where
  "packets n c [] \<longleftrightarrow> True"
| "packets n c (g # gs) \<longleftrightarrow> packet n c g \<and> packets n (c + length g) gs"

definition released :: "ixgbevf_tx_buffer list \<Rightarrow> ixgbevf_tx_buffer list" where
  "released g = clr ((hd g)\<lparr>next_to_watch := None\<rparr>) # map clr (tl g)"

definition release_events :: "txpkt \<Rightarrow> tx_event list" where
  "release_events p = Free_skb (pkt_skb p) # unmaps (pkt_maps p)"

lemma released_length: "g \<noteq> [] \<Longrightarrow> length (released g) = length g"
  by (cases g) (simp_all add: released_def)

lemma released_free: "packet n c g \<Longrightarrow> b \<in> set (released g) \<Longrightarrow> free_buf b"
  by (cases g) (auto simp: released_def free_buf_def packet_def clr_def)

lemma packets_mod: "packets n (c mod n) gs = packets n c gs"
proof (induction gs arbitrary: c)
  case (Cons g gs)
  have "packets n (c mod n + length g) gs = packets n (c + length g) gs"
    by (metis Cons.IH mod_add_left_eq)
  then show ?case by (simp add: packet_def mod_simps)
qed simp

lemma packets_append: "packets n c (gs @ hs) \<longleftrightarrow> packets n c gs \<and> packets n (c + length (concat gs)) hs"
  by (induction gs arbitrary: c) (simp_all add: add.assoc)

text \<open>Cleaning one packet that the device has finished.\<close>

lemma run_clean_packet:
  assumes len: "length (g @ Z) = n" and n: "n = count r" "n < 2 ^ 32" and Z: "Z \<noteq> []" and g: "packet n c g"
    and i: "i = of_nat (c mod n) - of_nat n" and p: "p = pkt_of g"
    and st: "st = wb_status E (ring_ev r) (pkt_eop p)" and dd: "st AND IXGBE_TXD_STAT_DD \<noteq> 0"
  shows "run_state (clean_loop E (Suc budget) (c mod n, i) tb tp) (view c (g @ Z) r) =
    run_state (clean_loop E budget ((c + length g) mod n, of_nat ((c + length g) mod n) - of_nat n)
        (tb + pkt_bytes p) (tp + ucast (pkt_segs p)))
      (view (c + length g) (Z @ released g)
        (r\<lparr>ring_ev := rev (Read_status (pkt_eop p) st # release_events p) @ ring_ev r\<rparr>))"
proof -
  from g obtain b M where gb: "g = b # M" and w: "next_to_watch b = Some ((c + length M) mod n)"
    by (cases g) (auto simp: packet_def)
  have pos: "0 < n" using len gb by simp
  let ?b = "clr (b\<lparr>next_to_watch := None\<rparr>)"
  define e1 where "e1 = Dma_unmap Single (tb_dma b) (tb_len b) # Free_skb (tb_skb b) #
    Read_status (pkt_eop p) st # ring_ev r"
  have get: "run_state (get_buf (c mod n)) (view c (b # M @ Z) r') = (b, view c (b # M @ Z) r')" for r'
    using run_get_buf [of 0 "b # M @ Z" n c r'] len gb by simp
  have upd: "run_state (upd_buf (c mod n) f) (view c (x # M @ Z) r') = ((), view c (f x # M @ Z) r')" for f x r'
    using run_upd_buf [of 0 "x # M @ Z" n c f r'] len gb by simp
  have eop: "pkt_eop p = (c + length M) mod n" using w gb p by (simp add: pkt_of_def)
  have rest: "run_state (unmap_rest n ((c + length M) mod n) (c mod n, i)) (view c (?b # M @ Z) (r\<lparr>ring_ev := e1\<rparr>)) =
     (((c + length M) mod n, of_nat ((c + length M) mod n) - of_nat n),
      view c (?b # map clr M @ Z) (r\<lparr>ring_ev := rev (unmaps (page_maps M)) @ e1\<rparr>))"
    using run_unmap_rest [of "[?b]" M Z "r\<lparr>ring_ev := e1\<rparr>" n c c i] len gb n Z i by simp
  have adv: "advance n ((c + length M) mod n, of_nat ((c + length M) mod n) - of_nat n) =
      ((c + length g) mod n, of_nat ((c + length g) mod n) - of_nat n)"
    using advance_slot [OF pos n(2) refl, of c "length M"] gb by simp
  have shift: "view c (?b # map clr M @ Z) r' = view (c + length g) (Z @ released g) r'" for r'
    using view_shift [of c "released g" Z r'] gb by (simp add: released_def)
  have evs: "rev (unmaps (page_maps M)) @ e1 = rev (Read_status (pkt_eop p) st # release_events p) @ ring_ev r"
    using gb p by (simp add: e1_def release_events_def pkt_of_def mappings_def head_map_def)
  have one: "run_state (clean_loop E (Suc budget) (c mod n, i) tb tp) (view c (g @ Z) r) =
      run_state (do { pi \<leftarrow> unmap_rest n ((c + length M) mod n) (c mod n, i);
                      pi \<leftarrow> gets (\<lambda>r. advance (count r) pi);
                      clean_loop E budget pi (tb + bytecount b) (tp + ucast (gso_segs b)) })
        (view c (?b # M @ Z) (r\<lparr>ring_ev := e1\<rparr>))"
    using dd st n(1) [symmetric] unfolding eop
    by (simp add: gb get upd w run_tx_ev e1_def eop clr_def)
  show ?thesis
    unfolding one run_bind rest prod.case run_gets view_simps
    using n(1) adv shift evs gb p by (simp add: pkt_of_def)
qed

subsection \<open>Cleaning refines the queue\<close>

text \<open>
  The abstract operation: from the front of the queue, at most \<open>budget\<close> packets, stopping at the
  first one the device has not finished. Returns the unused budget and the remaining packets.
\<close>

fun q_clean ::
    "txenv \<Rightarrow> nat \<Rightarrow> txpkt list \<Rightarrow> tx_event list \<Rightarrow> u32 \<Rightarrow> u32 \<Rightarrow> nat \<times> txpkt list \<times> tx_event list \<times> u32 \<times> u32" where
  "q_clean E 0 ps h tb tp = (0, ps, h, tb, tp)"
| "q_clean E (Suc budget) [] h tb tp = (Suc budget, [], h, tb, tp)"
| "q_clean E (Suc budget) (p # ps) h tb tp = (
     let st = wb_status E h (pkt_eop p) in
     if st AND IXGBE_TXD_STAT_DD = 0 then (Suc budget, p # ps, Read_status (pkt_eop p) st # h, tb, tp)
     else q_clean E budget ps (rev (Read_status (pkt_eop p) st # release_events p) @ h)
            (tb + pkt_bytes p) (tp + ucast (pkt_segs p)))"

lemma clean_loop_refines:
  assumes "length (concat gs @ F) = count r" and "count r < 2 ^ 32" and "F \<noteq> []"
    and "packets (count r) c gs" and "\<forall>b \<in> set F. free_buf b"
    and "i = of_nat (c mod count r) - of_nat (count r)"
    and "q_clean E budget (map pkt_of gs) (ring_ev r) tb tp = (bud, ps, h, tb', tp')"
  shows "\<exists>gs' F' c'. run_state (clean_loop E budget (c mod count r, i) tb tp) (view c (concat gs @ F) r) =
      ((bud, (c' mod count r, of_nat (c' mod count r) - of_nat (count r)), tb', tp'),
       view c' (concat gs' @ F') (r\<lparr>ring_ev := h\<rparr>)) \<and>
      ps = map pkt_of gs' \<and> length (concat gs' @ F') = count r \<and> F' \<noteq> [] \<and> packets (count r) c' gs' \<and>
      (\<forall>b \<in> set F'. free_buf b) \<and> c' + length (concat gs') = c + length (concat gs)"
  using assms
proof (induction budget arbitrary: gs F r c i tb tp)
  case 0
  then show ?case by (intro exI [of _ gs] exI [of _ F] exI [of _ c]) (auto simp: view_def)
next
  case (Suc budget)
  let ?n = "count r"
  show ?case
  proof (cases gs)
    case Nil
    have "run_state (get_buf (c mod ?n)) (view c F r) = (hd F, view c F r)"
      using run_get_buf [of 0 F ?n c r] Suc.prems Nil by (simp add: hd_conv_nth)
    moreover have "next_to_watch (hd F) = None" using Suc.prems by (simp add: free_buf_def)
    ultimately show ?thesis using Suc.prems Nil
      by (intro exI [of _ "[]"] exI [of _ F] exI [of _ c]) (auto simp: view_def)
  next
    case (Cons g hs)
    define p where "p = pkt_of g"
    define st where "st = wb_status E (ring_ev r) (pkt_eop p)"
    have g: "packet ?n c g" and hs: "packets ?n (c + length g) hs" using Suc.prems(4) Cons by simp_all
    show ?thesis
    proof (cases "st AND IXGBE_TXD_STAT_DD = 0")
      case True
      from g have w: "next_to_watch (hd g) = Some (pkt_eop p)" and ne: "g \<noteq> []"
        by (simp_all add: packet_def pkt_of_def p_def)
      have "run_state (get_buf (c mod ?n)) (view c (concat gs @ F) r) = (hd g, view c (concat gs @ F) r)"
        using run_get_buf [of 0 "concat gs @ F" ?n c r] Suc.prems(1) Cons ne by (cases g) auto
      then have "run_state (clean_loop E (Suc budget) (c mod ?n, i) tb tp) (view c (concat gs @ F) r) =
          ((Suc budget, (c mod ?n, i), tb, tp), view c (concat gs @ F) (r\<lparr>ring_ev := Read_status (pkt_eop p) st # ring_ev r\<rparr>))"
        using True w by (simp add: run_tx_ev st_def)
      moreover have "(bud, ps, h, tb', tp') =
          (Suc budget, map pkt_of gs, Read_status (pkt_eop p) st # ring_ev r, tb, tp)"
        using Suc.prems(7) True Cons by (simp add: Let_def p_def st_def)
      ultimately show ?thesis using Suc.prems(1-6)
        by (intro exI [of _ gs] exI [of _ F] exI [of _ c]) simp
    next
      case False
      define r' where "r' = r\<lparr>ring_ev := rev (Read_status (pkt_eop p) st # release_events p) @ ring_ev r\<rparr>"
      have step: "run_state (clean_loop E (Suc budget) (c mod ?n, i) tb tp) (view c (concat gs @ F) r) =
        run_state (clean_loop E budget ((c + length g) mod ?n, of_nat ((c + length g) mod ?n) - of_nat ?n)
          (tb + pkt_bytes p) (tp + ucast (pkt_segs p)))
          (view (c + length g) (concat hs @ (F @ released g)) r')"
        using run_clean_packet [of g "concat hs @ F" ?n r c i p st E budget tb tp] Suc.prems Cons g False
        by (simp add: st_def r'_def p_def)
      have gl: "length (released g) = length g" using g by (simp add: packet_def released_length)
      have cnt: "count r' = ?n" by (simp add: r'_def)
      note IH = Suc.IH [of hs "F @ released g" r' "c + length g" _ "tb + pkt_bytes p" "tp + ucast (pkt_segs p)",
          unfolded cnt]
      have "q_clean E budget (map pkt_of hs) (ring_ev r') (tb + pkt_bytes p) (tp + ucast (pkt_segs p)) =
          (bud, ps, h, tb', tp')"
        using Suc.prems(7) False Cons by (simp add: Let_def p_def st_def r'_def)
      moreover have "\<forall>b \<in> set (F @ released g). free_buf b"
        using Suc.prems(5) released_free [OF g] by auto
      moreover have "length (concat hs @ F @ released g) = ?n" using Suc.prems(1) gl Cons by simp
      ultimately show ?thesis
        unfolding step using IH [OF _ Suc.prems(2) _ hs _ refl] Suc.prems(3) Cons
        by (simp add: r'_def add.assoc)
    qed
  qed
qed

subsection \<open>The ring invariant\<close>

text \<open>
  \<open>ring_inv gs F r\<close>: from \<open>next_to_clean\<close> on, the buffers of \<open>r\<close> are the pending packets \<open>gs\<close> and then
  the free slots \<open>F\<close>, of which \<open>next_to_use\<close> is the first. One slot always stays free. The ring is
  shorter than 65536 (the driver allows 4096), so that the \<open>u16\<close> indices of the source do not wrap.
\<close>

definition ring_inv :: "ixgbevf_tx_buffer list list \<Rightarrow> ixgbevf_tx_buffer list \<Rightarrow> ixgbevf_ring \<Rightarrow> bool" where
  "ring_inv gs F r \<longleftrightarrow> next_to_clean r < count r \<and> count r < 2 ^ 16 \<and>
     length (concat gs @ F) = count r \<and> F \<noteq> [] \<and> (\<forall>b \<in> set F. free_buf b) \<and>
     tx_buffer_info r = unrot (next_to_clean r) (concat gs @ F) \<and> length (tx_descs r) = count r \<and>
     packets (count r) (next_to_clean r) gs \<and>
     next_to_use r = (next_to_clean r + length (concat gs)) mod count r"

lemma ring_inv_view: "ring_inv gs F r \<Longrightarrow> r = view (next_to_clean r) (concat gs @ F) r"
  by (simp add: ring_inv_def view_def)

lemma desc_unused_inv:
  assumes "ring_inv gs F r"
  shows "ixgbevf_desc_unused r = length F - 1"
proof -
  let ?c = "next_to_clean r" and ?k = "length (concat gs)" and ?n = "count r"
  from assms have 1: "?c < ?n" "?k + length F = ?n" "F \<noteq> []" "next_to_use r = (?c + ?k) mod ?n"
    by (simp_all add: ring_inv_def)
  then have k: "?k < ?n" by (cases F) auto
  show ?thesis
  proof (cases "?c + ?k < ?n")
    case True
    then show ?thesis using 1 by (simp add: ixgbevf_desc_unused_def nat_diff_distrib')
  next
    case False
    then have "(?c + ?k) mod ?n = ?c + ?k - ?n" using 1 k by (simp add: mod_if)
    moreover have "?n - Suc ?k = length F - 1" using 1 by simp
    ultimately show ?thesis using 1 k False by (simp add: ixgbevf_desc_unused_def nat_diff_distrib')
  qed
qed

lemma clean_completed_refines:
  assumes inv: "ring_inv gs F r"
    and q: "q_clean E (count r div 2) (map pkt_of gs) (ring_ev r) 0 0 = (bud, ps, h, bytes, pkts)"
  shows "\<exists>gs' F' r'. run_state (clean_completed E) r = ((bud, bytes, pkts), r') \<and> ring_inv gs' F' r' \<and>
     map pkt_of gs' = ps \<and> ring_ev r' = h \<and> next_to_use r' = next_to_use r \<and> count r' = count r \<and>
     st_bytes r' = st_bytes r + ucast bytes \<and> st_packets r' = st_packets r + ucast pkts \<and>
     ring_state r' = ring_state r"
proof -
  let ?c = "next_to_clean r" and ?n = "count r"
  have c: "?c mod ?n = ?c" and n: "0 < ?n" "?n < 2 ^ 32" using inv by (auto simp: ring_inv_def)
  from clean_loop_refines [of gs F r ?c "of_nat (?c mod ?n) - of_nat ?n" E "?n div 2" 0 0 bud ps h bytes pkts]
    inv q n obtain gs' F' c' where
    run: "run_state (clean_loop E (?n div 2) (?c mod ?n, of_nat (?c mod ?n) - of_nat ?n) 0 0)
        (view ?c (concat gs @ F) r) =
      ((bud, (c' mod ?n, of_nat (c' mod ?n) - of_nat ?n), bytes, pkts), view c' (concat gs' @ F') (r\<lparr>ring_ev := h\<rparr>))"
    and ps: "ps = map pkt_of gs'" and len: "length (concat gs' @ F') = ?n" and F': "F' \<noteq> []"
    and pk: "packets ?n c' gs'" and free: "\<forall>b \<in> set F'. free_buf b"
    and use: "c' + length (concat gs') = ?c + length (concat gs)"
    unfolding ring_inv_def by blast
  let ?r' = "(view c' (concat gs' @ F') (r\<lparr>ring_ev := h\<rparr>))\<lparr>next_to_clean := c' mod ?n,
      st_bytes := st_bytes r + ucast bytes, st_packets := st_packets r + ucast pkts\<rparr>"
  have u: "unat (of_nat (c' mod ?n) :: u32) = c' mod ?n"
    using n mod_less_divisor [of ?n c'] by (simp add: unat_of_nat less_trans [of "c' mod ?n" ?n])
  have "run_state (clean_completed E) r = ((bud, bytes, pkts), ?r')"
    using run u c ring_inv_view [OF inv] by (simp add: clean_completed_def view_def)
  moreover have "ring_inv gs' F' ?r'"
    using inv len F' pk free use n unrot_mod [of c' "concat gs' @ F'"]
    by (simp add: ring_inv_def packets_mod mod_simps)
  ultimately show ?thesis using ps by (intro exI conjI) (assumption, assumption, simp_all)
qed

end
