(* ===== verification/Rx_Facts.thy ===== *)
theory Rx_Facts
  imports Ledger Rx_Ring Tx_Facts
begin

text \<open>
  The receive ring as an account of pages. Seen from \<open>next_to_clean\<close>, the ring consists of \<open>u\<close> buffers the
  device may fill (up to \<open>next_to_use\<close>), of recycled pages up to \<open>next_to_alloc\<close> at distance \<open>a\<close>, and of empty
  slots; \<open>rx_good u a\<close> says so and that every page obtained from the kernel is in a slot or was given back
  once. All receive operations keep this, provided the device writes back only descriptors that were
  posted to it: the driver relies on the cleared length of the descriptor at \<open>next_to_use\<close> to stop.
\<close>

subsection \<open>History\<close>

fun got :: "rx_event list \<Rightarrow> nat list" where
  "got [] = []"
| "got (Rx_alloc p # h) = p # got h"
| "got (_ # h) = got h"

fun gone :: "rx_event list \<Rightarrow> nat list" where
  "gone [] = []"
| "gone (Free_page p # h) = p # gone h"
| "gone (Drain p _ # h) = p # gone h"
| "gone (_ # h) = gone h"

text \<open>A descriptor is posted when an address was written to it after its length was last cleared.\<close>

fun posted :: "rx_event list \<Rightarrow> nat \<Rightarrow> bool" where
  "posted [] i = False"
| "posted (Write_desc j _ # h) i = (i = j \<or> posted h i)"
| "posted (Clear_length j # h) i = (i \<noteq> j \<and> posted h i)"
| "posted (_ # h) i = posted h i"

definition honest_device :: "rxenv \<Rightarrow> bool" where
  "honest_device E \<longleftrightarrow> (\<forall>h i. wb_length (rx_writeback E h i) \<noteq> 0 \<longrightarrow> posted h i)"

definition pages :: "nat option list \<Rightarrow> nat list" where
  "pages ps = concat (map (\<lambda>x. case x of None \<Rightarrow> [] | Some p \<Rightarrow> [p]) ps)"

lemma mset_pages_update:
  "i < length ps \<Longrightarrow> mset (pages (ps[i := x])) + mset (pages [ps ! i]) = mset (pages ps) + mset (pages [x])"
proof (induction ps arbitrary: i)
  case (Cons y ps)
  then show ?case by (cases i) (auto simp: pages_def ac_simps split: option.splits)
qed simp

lemma mset_pages_put: "i < length ps \<Longrightarrow> ps ! i = None \<Longrightarrow> mset (pages (ps[i := Some p])) = add_mset p (mset (pages ps))"
  using mset_pages_update [of i ps "Some p"] by (simp add: pages_def)

lemma mset_pages_take:
  "i < length ps \<Longrightarrow> ps ! i = Some p \<Longrightarrow> add_mset p (mset (pages (ps[i := None]))) = mset (pages ps)"
  using mset_pages_update [of i ps None] by (simp add: pages_def)

lemma pages_none: "(\<And>k. k < length ps \<Longrightarrow> ps ! k = None) \<Longrightarrow> pages ps = []"
  by (auto simp: pages_def in_set_conv_nth split: option.splits)

subsection \<open>The part of the ring that the receive operations share\<close>

definition slots_of :: "rx_ring \<Rightarrow> nat option list" where
  "slots_of r = map rb_page (rx_buffer_info r)"

type_synonym rx_core =
  "(nat \<times> nat \<times> nat \<times> nat) \<times> nat option list \<times> bool \<times> nat list \<times> nat list \<times> (nat \<Rightarrow> bool)"

definition core :: "rx_ring \<Rightarrow> rx_core" where
  "core r = ((rx_count r, rx_next_to_use r, rx_next_to_clean r, next_to_alloc r), slots_of r, rx_netdev r,
     got (rx_ev r), gone (rx_ev r), posted (rx_ev r))"

definition filled :: "nat \<Rightarrow> rx_ring \<Rightarrow> bool" where
  "filled a r \<longleftrightarrow> (let n = rx_count r in 0 < n \<and> n < 2 ^ 16 \<and> length (slots_of r) = n \<and> rx_next_to_clean r < n \<and>
     (\<forall>k < n. slots_of r ! ((rx_next_to_clean r + k) mod n) \<noteq> None \<longleftrightarrow> k < a) \<and>
     mset (got (rx_ev r)) = mset (gone (rx_ev r)) + mset (pages (slots_of r)))"

definition rx_good :: "nat \<Rightarrow> nat \<Rightarrow> rx_ring \<Rightarrow> bool" where
  "rx_good u a r \<longleftrightarrow> (let n = rx_count r; c = rx_next_to_clean r in
     filled a r \<and> rx_netdev r \<and> rx_next_to_use r = (c + u) mod n \<and> next_to_alloc r = (c + a) mod n \<and>
     u \<le> a \<and> a < n \<and> \<not> posted (rx_ev r) (rx_next_to_use r))"

lemma core_good: "core r' = core r \<Longrightarrow> rx_good u a r' = rx_good u a r"
  by (simp add: core_def rx_good_def filled_def)

lemma keeps_good: "keeps core m \<Longrightarrow> run_state m r = (x, r') \<Longrightarrow> rx_good u a r \<Longrightarrow> rx_good u a r'"
  using core_good keepsD by metis

subsection \<open>Operations that leave pages and indices alone\<close>

definition page_event :: "rx_event \<Rightarrow> bool" where
  "page_event e = (case e of Rx_alloc _ \<Rightarrow> True | Free_page _ \<Rightarrow> True | Drain _ _ \<Rightarrow> True | Write_desc _ _ \<Rightarrow> True
     | Clear_length _ \<Rightarrow> True | _ \<Rightarrow> False)"

lemma quiet_event: "\<not> page_event e \<Longrightarrow> got (e # h) = got h \<and> gone (e # h) = gone h \<and> posted (e # h) = posted h"
  by (cases e) (auto simp: page_event_def)

lemma core_rx_log [keeps_rules]: "\<not> page_event e \<Longrightarrow> keeps core (rx_log e)"
  unfolding rx_log_def by (rule keeps_modify) (simp add: core_def slots_of_def quiet_event)

lemma map_update_same: "(\<And>b. f (g b) = f b) \<Longrightarrow> map f (xs[i := g (xs ! i)]) = map f xs"
  by (cases "i < length xs") (simp_all add: map_update list_update_same_conv list_update_beyond)

lemma core_upd_rx_buf [keeps_rules]: "(\<And>b. rb_page (f b) = rb_page b) \<Longrightarrow> keeps core (upd_rx_buf i f)"
  unfolding upd_rx_buf_def by (rule keeps_modify) (simp add: core_def slots_of_def map_update_same)

lemma core_rx_hist [keeps_rules]: "keeps f (rx_hist g)" "keeps f (rx_buf i)"
  by (simp_all add: rx_hist_def rx_buf_def keeps_rules)

lemma core_on_xdp_ring [keeps_rules]: "keeps core (on_xdp_ring m)"
  by (simp add: keeps_def on_xdp_ring_def core_def slots_of_def split: prod.splits)

lemma keeps_case_skbp [keeps_rules]:
  "keeps f a \<Longrightarrow> (\<And>e. keeps f (g e)) \<Longrightarrow> (\<And>s. keeps f (h s)) \<Longrightarrow>
     keeps f (case x of Skb_null \<Rightarrow> a | Skb_err e \<Rightarrow> g e | Skb s \<Rightarrow> h s)"
  by (simp split: skbp.splits)

lemma keeps_case_xdp_act [keeps_rules]:
  "keeps f a1 \<Longrightarrow> keeps f a2 \<Longrightarrow> keeps f a3 \<Longrightarrow> keeps f a4 \<Longrightarrow> keeps f a5 \<Longrightarrow>
     keeps f (case x of XDP_ABORTED \<Rightarrow> a1 | XDP_DROP \<Rightarrow> a2 | XDP_PASS \<Rightarrow> a3 | XDP_TX \<Rightarrow> a4 | XDP_other \<Rightarrow> a5)"
  by (simp split: xdp_act.splits)

lemmas rx_data_path_defs =
  ixgbevf_run_xdp_def ixgbevf_rx_buffer_flip_def ixgbevf_add_rx_frag_def ixgbevf_construct_skb_def ixgbevf_build_skb_def
  ixgbevf_cleanup_headers_def ixgbevf_rx_checksum_def ixgbevf_process_skb_fields_def ixgbevf_rx_skb_def

lemma core_get_rx_buffer: "keeps core (ixgbevf_get_rx_buffer s)"
  unfolding ixgbevf_get_rx_buffer_def by (intro keeps_rules) (simp_all add: page_event_def)

lemma core_rx_attach: "keeps core (rx_attach E i s v)"
  unfolding rx_attach_def rx_data_path_defs
  by (intro keeps_rules) (simp_all add: page_event_def)

lemma core_rx_frame: "keeps core (rx_frame E d v)"
  unfolding rx_frame_def rx_data_path_defs
  by (intro keeps_rules) (simp_all add: page_event_def core_def slots_of_def)

lemma core_can_reuse: "keeps core (ixgbevf_can_reuse_rx_page E i)"
  unfolding ixgbevf_can_reuse_rx_page_def ixgbevf_page_is_reserved_def
  by (intro keeps_rules) (simp_all add: page_event_def)

subsection \<open>Filling\<close>

lemma run_upd_page:
  "slots_of (snd (run_state (upd_rx_buf i f) r)) =
     (if i < length (slots_of r) then (slots_of r)[i := rb_page (f (rx_buffer_info r ! i))] else slots_of r)"
  by (simp add: upd_rx_buf_def slots_of_def map_update list_update_beyond)

lemma slots_of_simps [simp]:
  "slots_of (r\<lparr>rx_ev := h\<rparr>) = slots_of r" "slots_of (r\<lparr>rx_next_to_use := i\<rparr>) = slots_of r"
  "slots_of (r\<lparr>rx_next_to_clean := i\<rparr>) = slots_of r" "slots_of (r\<lparr>next_to_alloc := i\<rparr>) = slots_of r"
  by (simp_all add: slots_of_def)

lemma slot_nth: "i < length (slots_of r) \<Longrightarrow> rb_page (rx_buffer_info r ! i) = slots_of r ! i"
  by (simp add: slots_of_def)

lemma slot_update_nth:
  assumes "0 < n" and "length ps = n" and "j < n" and "k < n"
  shows "ps[(c + j) mod n := x] ! ((c + k) mod n) = (if k = j then x else ps ! ((c + k) mod n))"
  using assms slot_inj [of k n j c] by (auto simp: nth_list_update)

lemma filled_slot: "filled a r \<Longrightarrow> k < rx_count r \<Longrightarrow>
    (slots_of r ! ((rx_next_to_clean r + k) mod rx_count r) \<noteq> None) = (k < a)"
  by (simp add: filled_def Let_def)

lemma filled_bounds:
  "filled a r \<Longrightarrow> 0 < rx_count r \<and> rx_count r < 2 ^ 16 \<and> length (slots_of r) = rx_count r \<and> rx_next_to_clean r < rx_count r"
  by (simp add: filled_def Let_def)

lemma filledI:
  "rx_count r = n \<Longrightarrow> 0 < n \<Longrightarrow> n < 2 ^ 16 \<Longrightarrow> length (slots_of r) = n \<Longrightarrow> rx_next_to_clean r = c \<Longrightarrow> c < n \<Longrightarrow>
     (\<And>k. k < n \<Longrightarrow> (slots_of r ! ((c + k) mod n) \<noteq> None) = (k < a)) \<Longrightarrow>
     mset (got (rx_ev r)) = mset (gone (rx_ev r)) + mset (pages (slots_of r)) \<Longrightarrow> filled a r"
  by (simp add: filled_def Let_def)

lemma filled_balance: "filled a r \<Longrightarrow> mset (got (rx_ev r)) = mset (gone (rx_ev r)) + mset (pages (slots_of r))"
  by (simp add: filled_def Let_def)

definition indices :: "rx_ring \<Rightarrow> nat \<times> nat \<times> nat \<times> nat \<times> bool" where
  "indices r = (rx_count r, rx_next_to_use r, rx_next_to_clean r, next_to_alloc r, rx_netdev r)"

lemma filled_cong:
  "indices r' = indices r \<Longrightarrow> slots_of r' = slots_of r \<Longrightarrow> mset (got (rx_ev r')) = mset (got (rx_ev r)) + X \<Longrightarrow>
     mset (gone (rx_ev r')) = mset (gone (rx_ev r)) + X \<Longrightarrow> filled a r \<Longrightarrow> filled a r'"
  by (simp add: filled_def Let_def indices_def ac_simps)

lemma filled_put:
  assumes f: "filled a r" and a: "a < rx_count r" and i: "indices r' = indices r"
    and s: "slots_of r' = (slots_of r)[(rx_next_to_clean r + a) mod rx_count r := Some p]"
    and g: "got (rx_ev r') = p # got (rx_ev r)" "gone (rx_ev r') = gone (rx_ev r)"
  shows "filled (Suc a) r'"
proof -
  let ?n = "rx_count r" and ?c = "rx_next_to_clean r"
  let ?i = "(?c + a) mod ?n"
  have b: "0 < ?n" "length (slots_of r) = ?n" using f by (simp_all add: filled_def Let_def)
  have "slots_of r ! ?i = None" using filled_slot [OF f a] by simp
  then have m: "mset (pages (slots_of r')) = add_mset p (mset (pages (slots_of r)))"
    unfolding s using b by (intro mset_pages_put) simp_all
  have "\<forall>k < ?n. (slots_of r' ! ((?c + k) mod ?n) \<noteq> None) = (k < Suc a)"
    using filled_slot [OF f] by (auto simp: s slot_update_nth [OF b a])
  then show ?thesis using f i m g by (auto simp: filled_def Let_def indices_def s)
qed

lemma alloc_mapped_page_spec:
  assumes f: "filled b r" and j: "j \<le> b" "j < rx_count r"
    and run: "run_state (ixgbevf_alloc_mapped_page E ((rx_next_to_clean r + j) mod rx_count r)) r = (ok, r')"
  shows "indices r' = indices r \<and> posted (rx_ev r') = posted (rx_ev r) \<and>
    (if ok then filled (max b (Suc j)) r' else b = j \<and> filled b r')"
proof (cases "j < b")
  case True
  let ?i = "(rx_next_to_clean r + j) mod rx_count r"
  have "?i < length (slots_of r)" using filled_bounds [OF f] by simp
  then have "rb_page (rx_buffer_info r ! ?i) \<noteq> None" using filled_slot [OF f j(2)] True by (simp add: slot_nth)
  moreover have "max b (Suc j) = b" using True by simp
  ultimately show ?thesis using run f by (auto simp: ixgbevf_alloc_mapped_page_def rx_buf_def)
next
  case False
  with j(1) have b: "b = j" by simp
  let ?i = "(rx_next_to_clean r + j) mod rx_count r"
  have il: "?i < length (slots_of r)" using filled_bounds [OF f] by simp
  then have n: "rb_page (rx_buffer_info r ! ?i) = None" using filled_slot [OF f j(2)] b by (simp add: slot_nth)
  consider (none) "\<not> ok" "indices r' = indices r" "posted (rx_ev r') = posted (rx_ev r)" "slots_of r' = slots_of r"
      "got (rx_ev r') = got (rx_ev r)" "gone (rx_ev r') = gone (rx_ev r)"
    | (unmapped) p where "\<not> ok" "indices r' = indices r" "posted (rx_ev r') = posted (rx_ev r)" "slots_of r' = slots_of r"
      "got (rx_ev r') = p # got (rx_ev r)" "gone (rx_ev r') = p # gone (rx_ev r)"
    | (mapped) p where ok "indices r' = indices r" "posted (rx_ev r') = posted (rx_ev r)" "slots_of r' = (slots_of r)[?i := Some p]"
      "got (rx_ev r') = p # got (rx_ev r)" "gone (rx_ev r') = gone (rx_ev r)"
    using run n il
    by (auto simp: ixgbevf_alloc_mapped_page_def rx_buf_def rx_hist_def rx_log_def upd_rx_buf_def indices_def slots_of_def
          map_update fun_eq_iff split: option.splits if_splits)
  then show ?thesis
  proof cases
    case none
    then show ?thesis using filled_cong [of r' r "{#}" b] f b by simp
  next
    case unmapped
    then show ?thesis using filled_cong [of r' r "{#p#}" b] f b by simp
  next
    case mapped
    then show ?thesis using filled_put [OF f, of r' p] j b by simp
  qed
qed

lemma alloc_loop_spec:
  assumes "run_state (alloc_loop E m ((rx_next_to_clean r + j) mod rx_count r,
      of_nat ((rx_next_to_clean r + j) mod rx_count r) - of_nat (rx_count r))) r = (pi, r')"
    and "filled (max a j) r" and "j + m < rx_count r"
  shows "\<exists>j'. j \<le> j' \<and> j' \<le> j + m \<and> (j' = j + m \<or> a \<le> j') \<and> filled (max a j') r' \<and> indices r' = indices r \<and>
    pi = ((rx_next_to_clean r + j') mod rx_count r, of_nat ((rx_next_to_clean r + j') mod rx_count r) - of_nat (rx_count r)) \<and>
    (j' = j \<and> posted (rx_ev r') = posted (rx_ev r) \<or> \<not> posted (rx_ev r') ((rx_next_to_clean r + j') mod rx_count r))"
  using assms
proof (induction m arbitrary: j r)
  case 0
  then show ?case by (intro exI [of _ j]) auto
next
  case (Suc m)
  let ?n = "rx_count r" and ?c = "rx_next_to_clean r"
  let ?i = "(?c + j) mod ?n"
  obtain ok r1 where al: "run_state (ixgbevf_alloc_mapped_page E ?i) r = (ok, r1)" by (metis surj_pair)
  note sp = alloc_mapped_page_spec [OF Suc.prems(2) _ _ al]
  have jn: "j \<le> max a j" "j < ?n" using Suc.prems(3) by simp_all
  note sp = sp [OF jn]
  show ?case
  proof (cases ok)
    case False
    then have "pi = (?i, of_nat ?i - of_nat ?n)" "r' = r1" using Suc.prems(1) al by simp_all
    then show ?thesis using sp False by (intro exI [of _ j]) auto
  next
    case True
    have n: "0 < ?n" "?n < 2 ^ 32" using filled_bounds [OF Suc.prems(2)] by simp_all
    let ?b = "rx_buffer_info r1 ! ?i"
    define r2 where "r2 = r1\<lparr>rx_ev := Clear_length ((?c + Suc j) mod ?n) # Write_desc ?i (rb_dma ?b + ucast (page_offset ?b)) #
        Sync_for_device (rb_dma ?b) (page_offset ?b) (ixgbevf_rx_bufsz E (rx_state r1)) # rx_ev r1\<rparr>"
    have i1: "rx_count r1 = ?n" "rx_next_to_clean r1 = ?c" using sp by (simp_all add: indices_def)
    have "run_state (alloc_loop E m ((?c + Suc j) mod ?n, of_nat ((?c + Suc j) mod ?n) - of_nat ?n)) r2 = (pi, r')"
      using Suc.prems(1) al True i1
      by (simp add: rx_buf_def rx_log_def advance_slot [OF n refl] r2_def)
    note step = this
    have i2: "rx_count r2 = ?n" "rx_next_to_clean r2 = ?c" using i1 by (simp_all add: r2_def)
    have "filled (max a (Suc j)) r2"
    proof -
      have "max (max a j) (Suc j) = max a (Suc j)" by simp
      then have "filled (max a (Suc j)) r1" using sp True by simp
      then show ?thesis by (rule filled_cong [rotated -1, where X = "{#}"]) (simp_all add: indices_def slots_of_def r2_def)
    qed
    moreover have "Suc j + m < rx_count r2" using Suc.prems(3) i2 by simp
    ultimately obtain j' where j': "Suc j \<le> j'" "j' \<le> Suc j + m" "j' = Suc j + m \<or> a \<le> j'" "filled (max a j') r'"
      "indices r' = indices r2" "pi = ((?c + j') mod ?n, of_nat ((?c + j') mod ?n) - of_nat ?n)"
      "j' = Suc j \<and> posted (rx_ev r') = posted (rx_ev r2) \<or> \<not> posted (rx_ev r') ((?c + j') mod ?n)"
      using Suc.IH [where j = "Suc j" and r = r2, unfolded i2, OF step] unfolding i2 by blast
    have "\<not> posted (rx_ev r') ((?c + j') mod ?n)" using j'(7) by (auto simp: r2_def)
    moreover have "indices r' = indices r" using j'(5) sp by (simp add: indices_def r2_def)
    ultimately show ?thesis using j'(1-4,6) by (intro exI [of _ j']) simp
  qed
qed

lemma alloc_rx_buffers_good:
  assumes g: "rx_good u a r" and a: "a \<le> u + unat cc" and cc: "u + unat cc < rx_count r"
    and run: "run_state (ixgbevf_alloc_rx_buffers E cc) r = (x, r')"
  shows "\<exists>u'. u \<le> u' \<and> rx_good u' u' r' \<and> rx_count r' = rx_count r \<and> rx_next_to_clean r' = rx_next_to_clean r"
proof (cases "cc = 0")
  case True
  then show ?thesis using g a run by (intro exI [of _ u]) (auto simp: ixgbevf_alloc_rx_buffers_def rx_good_def Let_def)
next
  case False
  let ?n = "rx_count r" and ?c = "rx_next_to_clean r"
  have ntu: "rx_next_to_use r = (?c + u) mod ?n" and nd: "rx_netdev r" and f: "filled a r" and ua: "u \<le> a"
    using g by (simp_all add: rx_good_def Let_def)
  note b = filled_bounds [OF f]
  obtain pi r1 where al: "run_state (alloc_loop E (unat cc) ((?c + u) mod ?n, of_nat ((?c + u) mod ?n) - of_nat ?n)) r = (pi, r1)"
    by (metis surj_pair)
  have "filled (max a u) r" using f ua by (simp add: max_absorb1)
  from alloc_loop_spec [OF al this cc] obtain j where j: "u \<le> j" "j \<le> u + unat cc" "j = u + unat cc \<or> a \<le> j"
    "filled (max a j) r1" "indices r1 = indices r" "pi = ((?c + j) mod ?n, of_nat ((?c + j) mod ?n) - of_nat ?n)"
    "j = u \<and> posted (rx_ev r1) = posted (rx_ev r) \<or> \<not> posted (rx_ev r1) ((?c + j) mod ?n)" by blast
  have aj: "max a j = j" using j(3) a by auto
  have i1: "rx_count r1 = ?n" "rx_next_to_clean r1 = ?c" "rx_next_to_use r1 = (?c + u) mod ?n" "rx_netdev r1"
    "next_to_alloc r1 = next_to_alloc r" using j(5) ntu nd by (simp_all add: indices_def)
  have bk: "unat (snd pi + of_nat ?n) = (?c + j) mod ?n"
  proof -
    have "(?c + j) mod ?n < 2 ^ 16" using b less_trans [OF mod_less_divisor] by blast
    then show ?thesis using j(6) by (simp add: unat_of_nat)
  qed
  show ?thesis
  proof (cases "j = u")
    case True
    then have "r' = r1" "a = u" using run al nd False ntu bk aj ua
      by (simp_all add: ixgbevf_alloc_rx_buffers_def max_def split: if_splits)
    moreover have "next_to_alloc r = (?c + u) mod ?n" "\<not> posted (rx_ev r) ((?c + u) mod ?n)"
      using g ntu \<open>a = u\<close> by (auto simp: rx_good_def Let_def)
    ultimately show ?thesis using j True i1 aj cc by (intro exI [of _ u]) (auto simp: rx_good_def Let_def)
  next
    case neq: False
    have jn: "j < ?n" using j(2) cc by simp
    then have "(?c + u) mod ?n \<noteq> (?c + j) mod ?n" using slot_inj [of u ?n j ?c] neq cc by auto
    then have r': "r' = r1\<lparr>rx_next_to_use := (?c + j) mod ?n, next_to_alloc := (?c + j) mod ?n, rx_ev := Rx_tail ((?c + j) mod ?n) # rx_ev r1\<rparr>"
      using run al nd False ntu bk by (simp add: ixgbevf_alloc_rx_buffers_def rx_log_def Let_def)
    have "filled j r'" using j(4) aj by (simp add: r' filled_def Let_def)
    then have "rx_good j j r'" using i1 j(7) neq jn by (simp add: r' rx_good_def Let_def)
    then show ?thesis using j(1) i1 by (intro exI [of _ j]) (simp add: r')
  qed
qed

subsection \<open>Handing a page bk\<close>

lemma put_rx_buffer_cases:
  assumes f: "filled a r" and a: "0 < a" and nta: "next_to_alloc r = (rx_next_to_clean r + a) mod rx_count r" and an: "a < rx_count r"
    and run: "run_state (ixgbevf_put_rx_buffer E (rx_next_to_clean r) skb) r = (x, r')"
  obtains (reuse) "slots_of r' = (slots_of r)[next_to_alloc r := slots_of r ! rx_next_to_clean r, rx_next_to_clean r := None]"
      "indices r' = indices (r\<lparr>next_to_alloc := (rx_next_to_clean r + Suc a) mod rx_count r\<rparr>)"
      "got (rx_ev r') = got (rx_ev r)" "gone (rx_ev r') = gone (rx_ev r)" "posted (rx_ev r') = posted (rx_ev r)"
    | (drain) p where "slots_of r ! rx_next_to_clean r = Some p" "slots_of r' = (slots_of r)[rx_next_to_clean r := None]"
      "indices r' = indices r" "got (rx_ev r') = got (rx_ev r)" "gone (rx_ev r') = p # gone (rx_ev r)"
      "posted (rx_ev r') = posted (rx_ev r)"
proof -
  let ?n = "rx_count r" and ?c = "rx_next_to_clean r"
  note b = filled_bounds [OF f]
  obtain p where p: "slots_of r ! ?c = Some p" using filled_slot [OF f, of 0] a b by auto
  obtain ok r1 where cr: "run_state (ixgbevf_can_reuse_rx_page E ?c) r = (ok, r1)" by (metis surj_pair)
  have c1: "core r1 = core r" using core_can_reuse cr by (rule keepsD)
  have p1: "rb_page (rx_buffer_info r1 ! ?c) = Some p" using c1 p b slot_nth [of ?c r1] by (simp add: core_def)
  have l1: "length (rx_buffer_info r1) = ?n" using c1 b by (simp add: core_def slots_of_def) (metis length_map)
  have nx: "(if next_to_alloc r + 1 < ?n then next_to_alloc r + 1 else 0) = (?c + Suc a) mod ?n"
    using b unfolding nta by (simp add: mod_Suc) (metis Suc_lessI mod_less_divisor)
  show thesis
  proof (cases ok)
    case True
    have "slots_of r' = (slots_of r1)[next_to_alloc r1 := rb_page (rx_buffer_info r1 ! ?c), ?c := None]"
      "indices r' = indices (r1\<lparr>next_to_alloc := (if next_to_alloc r1 + 1 < rx_count r1 then next_to_alloc r1 + 1 else 0)\<rparr>)"
      "rx_ev r' = rx_ev r1"
      using run cr True by (auto simp: ixgbevf_put_rx_buffer_def ixgbevf_reuse_rx_page_def upd_rx_buf_def rx_buf_def
          slots_of_def map_update indices_def)
    then show thesis using reuse c1 p p1 nx by (simp add: core_def indices_def cong: if_cong)
  next
    case False
    have "slots_of r' = (slots_of r1)[?c := None]" "indices r' = indices r1"
      "got (rx_ev r') = got (rx_ev r1)" "gone (rx_ev r') = p # gone (rx_ev r1)" "posted (rx_ev r') = posted (rx_ev r1)"
      using run cr False p1 by (auto simp: ixgbevf_put_rx_buffer_def upd_rx_buf_def rx_buf_def rx_log_def run_whenM
          slots_of_def map_update indices_def fun_eq_iff split: if_splits)
    then show thesis using drain [OF p] c1 by (simp add: core_def indices_def)
  qed
qed

lemma put_then_advance_good:
  assumes g: "rx_good u a r" and u: "0 < u"
    and put: "run_state (ixgbevf_put_rx_buffer E (rx_next_to_clean r) skb) r = (x, r1)"
    and adv: "run_state (ixgbevf_is_non_eop d) r1 = (more', r')"
  shows "(rx_good (u - 1) a r' \<or> rx_good (u - 1) (a - 1) r') \<and> rx_count r' = rx_count r"
proof -
  let ?n = "rx_count r" and ?c = "rx_next_to_clean r"
  have f: "filled a r" and ua: "u \<le> a" and an: "a < ?n" and nta: "next_to_alloc r = (?c + a) mod ?n"
    and ntu: "rx_next_to_use r = (?c + u) mod ?n" and np: "\<not> posted (rx_ev r) (rx_next_to_use r)"
    using g by (auto simp: rx_good_def Let_def)
  note b = filled_bounds [OF f]
  define c' where "c' = Suc ?c mod ?n"
  have c': "(if ?c + 1 < ?n then ?c + 1 else 0) = c'" using b by (auto simp: c'_def mod_Suc)
  have sh: "(c' + k) mod ?n = (?c + Suc k) mod ?n" for k unfolding c'_def by (simp add: mod_add_left_eq)
  have sh': "0 < k \<Longrightarrow> (c' + (k - 1)) mod ?n = (?c + k) mod ?n" for k using sh [of "k - 1"] by simp
  have c'n: "c' < ?n" using b by (simp add: c'_def)
  have c0: "?c = (?c + 0) mod ?n" using b by simp
  have pos: "0 < a" using u ua by simp
  show ?thesis
  proof (cases rule: put_rx_buffer_cases [OF f pos nta an put, case_names reuse drain])
    case reuse
    have i': "rx_count r' = ?n" "rx_next_to_clean r' = c'" "next_to_alloc r' = (?c + Suc a) mod ?n"
      "rx_next_to_use r' = (?c + u) mod ?n" "rx_netdev r' = rx_netdev r" "slots_of r' = slots_of r1" "rx_ev r' = rx_ev r1"
      using adv reuse(2) c' ntu by (auto simp: ixgbevf_is_non_eop_def indices_def slots_of_def cong: if_cong)
    have sl: "slots_of r' = (slots_of r)[(?c + a) mod ?n := slots_of r ! ?c, (?c + 0) mod ?n := None]"
      using reuse(1) i'(6) nta c0 by simp
    have at: "slots_of r' ! ((?c + k) mod ?n) = (if k = 0 then None else if k = a then slots_of r ! ?c else slots_of r ! ((?c + k) mod ?n))"
      if "k < ?n" for k unfolding sl
      by (subst slot_update_nth, use that b in simp, use that b in simp, use that b in simp, use that b in simp)
         (subst slot_update_nth, use that b an in simp_all)
    have occ: "(slots_of r' ! ((?c + Suc k) mod ?n) \<noteq> None) = (k < a)" if "k < ?n" for k
    proof (cases "Suc k < ?n")
      case True
      then show ?thesis using at [of "Suc k"] filled_slot [OF f, of "Suc k"] filled_slot [OF f, of 0] pos b by auto
    next
      case False
      then have "Suc k = ?n" using that by simp
      then show ?thesis using at [of 0] b an by simp
    qed
    have m: "mset (pages (slots_of r')) = mset (pages (slots_of r))"
    proof -
      obtain p where p: "slots_of r ! ?c = Some p" using filled_slot [OF f, of 0] pos b by auto
      have e: "slots_of r ! ((?c + a) mod ?n) = None" using filled_slot [OF f an] by simp
      let ?s = "(slots_of r)[(?c + a) mod ?n := Some p]"
      have "?s ! ?c = Some p" using b p by (cases "(?c + a) mod ?n = ?c") simp_all
      then have "add_mset p (mset (pages (?s[?c := None]))) = mset (pages ?s)" using b by (intro mset_pages_take) simp_all
      moreover have "mset (pages ?s) = add_mset p (mset (pages (slots_of r)))" using b e by (intro mset_pages_put) simp_all
      ultimately show ?thesis using sl p b by simp
    qed
    have "filled a r'"
    proof (rule filledI [OF i'(1) _ _ _ i'(2) c'n])
      show "(slots_of r' ! ((c' + k) mod ?n) \<noteq> None) = (k < a)" if "k < ?n" for k unfolding sh by (rule occ [OF that])
      show "length (slots_of r') = ?n" unfolding sl using b by simp
    qed (use b filled_balance [OF f] m i' reuse(3,4) in simp_all)
    then have "rx_good (u - 1) a r'"
      using g i' sh' [OF u] sh [of a] reuse(5) ntu np ua an by (simp add: rx_good_def Let_def)
    then show ?thesis using i' by simp
  next
    case (drain p)
    have i': "rx_count r' = ?n" "rx_next_to_clean r' = c'" "next_to_alloc r' = (?c + a) mod ?n"
      "rx_next_to_use r' = (?c + u) mod ?n" "rx_netdev r' = rx_netdev r" "slots_of r' = slots_of r1" "rx_ev r' = rx_ev r1"
      using adv drain(3) c' ntu nta by (auto simp: ixgbevf_is_non_eop_def indices_def slots_of_def cong: if_cong)
    have sl: "slots_of r' = (slots_of r)[(?c + 0) mod ?n := None]" using drain(2) i'(6) c0 by simp
    have at: "slots_of r' ! ((?c + k) mod ?n) = (if k = 0 then None else slots_of r ! ((?c + k) mod ?n))"
      if "k < ?n" for k unfolding sl by (rule slot_update_nth) (use that b in simp_all)
    have occ: "(slots_of r' ! ((?c + Suc k) mod ?n) \<noteq> None) = (k < a - 1)" if "k < ?n" for k
    proof (cases "Suc k < ?n")
      case True
      then show ?thesis using at [of "Suc k"] filled_slot [OF f, of "Suc k"] by auto
    next
      case False
      then have "Suc k = ?n" using that by simp
      then show ?thesis using at [of 0] b an by simp
    qed
    have "add_mset p (mset (pages (slots_of r'))) = mset (pages (slots_of r))"
      unfolding sl using drain(1) b by (intro mset_pages_take) simp_all
    note m = this
    have "filled (a - 1) r'"
    proof (rule filledI [OF i'(1) _ _ _ i'(2) c'n])
      show "(slots_of r' ! ((c' + k) mod ?n) \<noteq> None) = (k < a - 1)" if "k < ?n" for k unfolding sh by (rule occ [OF that])
      show "length (slots_of r') = ?n" unfolding sl using b by simp
    qed (use b filled_balance [OF f] m [symmetric] i' drain(4,5) in simp_all)
    then have "rx_good (u - 1) (a - 1) r'"
      using g i' sh' [OF u] sh' [OF pos] drain(6) ntu np an by (auto simp: rx_good_def Let_def diff_le_mono ua)
    then show ?thesis using i' by simp
  qed
qed

subsection \<open>The receive loop\<close>

text \<open>The loop's counter of buffers to replace covers the recycled pages and never reaches \<open>next_to_clean\<close>.\<close>

definition rx_loop_inv :: "rx_vars \<Rightarrow> rx_ring \<Rightarrow> bool" where
  "rx_loop_inv v r \<longleftrightarrow> (\<exists>u a. rx_good u a r \<and> a \<le> u + unat (cleaned_count v) \<and> u + unat (cleaned_count v) < rx_count r)"

lemma rx_refill_inv:
  assumes "rx_loop_inv v r" and "run_state (rx_refill E v) r = (v', r')"
  shows "rx_loop_inv v' r' \<and> unat (cleaned_count v') < 16 \<and> v_skb v' = v_skb v \<and> rx_next_to_clean r' = rx_next_to_clean r"
proof -
  obtain u a where g: "rx_good u a r" "a \<le> u + unat (cleaned_count v)" "u + unat (cleaned_count v) < rx_count r"
    using assms(1) by (auto simp: rx_loop_inv_def)
  show ?thesis
  proof (cases "IXGBEVF_RX_BUFFER_WRITE \<le> cleaned_count v")
    case True
    then obtain x where al: "run_state (ixgbevf_alloc_rx_buffers E (cleaned_count v)) r = (x, r')" "v' = v\<lparr>cleaned_count := 0\<rparr>"
      using assms(2) by (auto simp: rx_refill_def split: prod.splits)
    from alloc_rx_buffers_good [OF g al(1)] obtain u' where u': "rx_good u' u' r'" "rx_next_to_clean r' = rx_next_to_clean r" by blast
    then have "u' < rx_count r'" by (simp add: rx_good_def Let_def)
    then have "rx_loop_inv v' r'" using u' al(2) by (auto simp: rx_loop_inv_def)
    then show ?thesis using u' al(2) by simp
  next
    case False
    then have "v' = v" "r' = r" using assms(2) by (simp_all add: rx_refill_def)
    moreover have "unat (cleaned_count v) < 16" using False by (simp add: word_le_nat_alt not_le)
    ultimately show ?thesis using assms(1) by simp
  qed
qed

lemma rx_loop_inv_core: "keeps core m \<Longrightarrow> run_state m r = (x, r') \<Longrightarrow> cleaned_count v' = cleaned_count v \<Longrightarrow>
    rx_loop_inv v r \<Longrightarrow> rx_loop_inv v' r'"
  using keepsD [of core m r x r'] core_good [of r' r] by (auto simp: rx_loop_inv_def core_def)

lemma rx_attach_cc: "run_state (rx_attach E i s v) r = (v', r') \<Longrightarrow> cleaned_count v' = cleaned_count v"
  by (auto simp: rx_attach_def split: prod.splits skbp.splits if_splits)

lemma rx_frame_cc: "run_state (rx_frame E d v) r = (v', r') \<Longrightarrow> cleaned_count v' = cleaned_count v"
  by (auto simp: rx_frame_def Let_def split: prod.splits skbp.splits if_splits)

lemma get_rx_buffer_index: "run_state (ixgbevf_get_rx_buffer s) r = (i, r') \<Longrightarrow> i = rx_next_to_clean r"
  by (auto simp: ixgbevf_get_rx_buffer_def split: prod.splits)

lemma rx_put_inv:
  assumes inv: "rx_loop_inv v r" and cc: "unat (cleaned_count v) < 16" and p: "posted (rx_ev r) (rx_next_to_clean r)"
    and put: "run_state (ixgbevf_put_rx_buffer E (rx_next_to_clean r) skb) r = (x, r1)"
    and adv: "run_state (ixgbevf_is_non_eop d) r1 = (b, r')"
  shows "rx_loop_inv (v\<lparr>cleaned_count := cleaned_count v + 1\<rparr>) r'"
proof -
  obtain u a where g: "rx_good u a r" "a \<le> u + unat (cleaned_count v)" "u + unat (cleaned_count v) < rx_count r"
    using inv by (auto simp: rx_loop_inv_def)
  have "0 < u"
  proof (rule ccontr)
    assume "\<not> 0 < u"
    then have "rx_next_to_use r = rx_next_to_clean r" "\<not> posted (rx_ev r) (rx_next_to_use r)"
      using g(1) filled_bounds [of a r] by (auto simp: rx_good_def Let_def)
    with p show False by simp
  qed
  moreover have "unat (cleaned_count v + 1) = Suc (unat (cleaned_count v))"
    using cc by (simp add: unat_word_ariths)
  moreover obtain a' where "rx_good (u - 1) a' r'" "a' \<le> a" "rx_count r' = rx_count r"
    using put_then_advance_good [OF g(1) \<open>0 < u\<close> put adv] by (metis diff_le_self order_refl)
  ultimately have "rx_good (u - 1) a' r' \<and> a' \<le> u - 1 + unat (cleaned_count v + 1) \<and> u - 1 + unat (cleaned_count v + 1) < rx_count r'"
    using g(2,3) by simp
  then show ?thesis unfolding rx_loop_inv_def by - (rule exI [of _ "u - 1"], rule exI [of _ a'], simp)
qed

text \<open>An iteration, step by step: \<open>rx_polled\<close> is its common beginning up to reading the descriptor \<open>d\<close>, \<open>rx_got\<close> goes on
  to the packet that the buffer \<open>i\<close> was attached to.\<close>

definition rx_polled :: "rxenv \<Rightarrow> rx_vars \<Rightarrow> rx_ring \<Rightarrow> rx_vars \<Rightarrow> rx_ring \<Rightarrow> ixgbe_adv_rx_desc \<Rightarrow> rx_ring \<Rightarrow> bool" where
  "rx_polled E v r v1 r1 d r2 \<longleftrightarrow> run_state (rx_refill E v) r = (v1, r1) \<and> d = rx_writeback E (rx_ev r1) (rx_next_to_clean r1) \<and>
     r2 = r1\<lparr>rx_ev := Rx_status (rx_next_to_clean r1) d # rx_ev r1\<rparr>"

definition rx_got :: "rxenv \<Rightarrow> rx_vars \<Rightarrow> ixgbe_adv_rx_desc \<Rightarrow> rx_ring \<Rightarrow> nat \<Rightarrow> rx_ring \<Rightarrow> rx_vars \<Rightarrow> rx_ring \<Rightarrow> bool" where
  "rx_got E v1 d r2 i r3 v4 r4 \<longleftrightarrow> wb_length d \<noteq> 0 \<and> run_state (ixgbevf_get_rx_buffer (ucast (wb_length d))) r2 = (i, r3) \<and>
     run_state (rx_attach E i (ucast (wb_length d)) v1) r3 = (v4, r4)"

definition rx_nomem :: "nat \<Rightarrow> unit rxop" where
  "rx_nomem i = do {
     modify (\<lambda>r. r\<lparr>alloc_rx_buff_failed := alloc_rx_buff_failed r + 1\<rparr>);
     upd_rx_buf i (\<lambda>b. b\<lparr>pagecnt_bias := pagecnt_bias b + 1\<rparr>) }"

lemma rx_iter_cases:
  assumes run: "run_state (rx_iter E v) r = ((stop, v'), r')"
  obtains (idle) v1 r1 d r2 where "rx_polled E v r v1 r1 d r2" "wb_length d = 0" "stop" "v' = v1" "r' = r2"
    | (nomem) v1 r1 d r2 i r3 r4 where "rx_polled E v r v1 r1 d r2" "rx_got E v1 d r2 i r3 v' r4" "v_skb v' = Skb_null" "stop"
        "run_state (rx_nomem i) r4 = ((), r')"
    | (frag) v1 r1 d r2 i r3 v4 r4 x r5 where "rx_polled E v r v1 r1 d r2" "rx_got E v1 d r2 i r3 v4 r4" "v_skb v4 \<noteq> Skb_null" "\<not> stop"
        "run_state (ixgbevf_put_rx_buffer E i (v_skb v4)) r4 = (x, r5)" "run_state (ixgbevf_is_non_eop d) r5 = (True, r')"
        "v' = v4\<lparr>cleaned_count := cleaned_count v4 + 1\<rparr>"
    | (frame) v1 r1 d r2 i r3 v4 r4 x r5 r6 where "rx_polled E v r v1 r1 d r2" "rx_got E v1 d r2 i r3 v4 r4" "v_skb v4 \<noteq> Skb_null" "\<not> stop"
        "run_state (ixgbevf_put_rx_buffer E i (v_skb v4)) r4 = (x, r5)" "run_state (ixgbevf_is_non_eop d) r5 = (False, r6)"
        "run_state (rx_frame E d (v4\<lparr>cleaned_count := cleaned_count v4 + 1\<rparr>)) r6 = (v', r')"
proof -
  obtain v1 r1 where rf: "run_state (rx_refill E v) r = (v1, r1)" by (metis surj_pair)
  define d where "d = rx_writeback E (rx_ev r1) (rx_next_to_clean r1)"
  define r2 where "r2 = r1\<lparr>rx_ev := Rx_status (rx_next_to_clean r1) d # rx_ev r1\<rparr>"
  have polled: "rx_polled E v r v1 r1 d r2" using rf by (simp add: rx_polled_def d_def r2_def)
  let ?s = "ucast (wb_length d) :: u32"
  show thesis
  proof (cases "?s = 0")
    case True
    then have "unat ?s = 0" by simp
    then have "wb_length d = 0" by (simp only: unat_ucast_u16_u32 unat_eq_0)
    then show thesis using idle [OF polled] run rf by (simp add: rx_iter_def rx_hist_def rx_log_def d_def r2_def)
  next
    case False
    then have nz: "wb_length d \<noteq> 0" by auto
    obtain i r3 where gb: "run_state (ixgbevf_get_rx_buffer ?s) r2 = (i, r3)" by (metis surj_pair)
    obtain v4 r4 where at: "run_state (rx_attach E i ?s v1) r3 = (v4, r4)" by (metis surj_pair)
    have got: "rx_got E v1 d r2 i r3 v4 r4" using nz gb at by (simp add: rx_got_def)
    note eqs = rx_iter_def rx_hist_def rx_log_def Let_def rf gb [unfolded r2_def d_def] at [unfolded d_def] False [unfolded d_def]
    show thesis
    proof (cases "v_skb v4 = Skb_null")
      case True
      then have "run_state (rx_iter E v) r = ((True, v4), snd (run_state (rx_nomem i) r4))" by (simp add: eqs rx_nomem_def upd_rx_buf_def)
      then show thesis using nomem [OF polled _ _ _ _] got True run by (simp add: prod_eq_iff)
    next
      case sk: False
      obtain x r5 where put: "run_state (ixgbevf_put_rx_buffer E i (v_skb v4)) r4 = (x, r5)" by (metis surj_pair)
      obtain b r6 where eop: "run_state (ixgbevf_is_non_eop d) r5 = (b, r6)" by (metis surj_pair)
      let ?v = "v4\<lparr>cleaned_count := cleaned_count v4 + 1\<rparr>"
      show thesis
      proof (cases b)
        case True
        then have "run_state (rx_iter E v) r = ((False, ?v), r6)" by (simp add: eqs sk put eop [unfolded d_def])
        then show thesis using frag [OF polled got sk _ put] eop True run by simp
      next
        case eopf: False
        obtain v7 r7 where fr: "run_state (rx_frame E d ?v) r6 = (v7, r7)" by (metis surj_pair)
        have "run_state (rx_iter E v) r = ((False, v7), r7)"
          using eopf by (simp add: eqs sk put eop [unfolded d_def] fr [unfolded d_def])
        then show thesis using frame [OF polled got sk _ put _ _] eop eopf fr run by simp
      qed
    qed
  qed
qed

lemma rx_polled_inv:
  assumes "honest_device E" and "rx_loop_inv v r" and "rx_polled E v r v1 r1 d r2"
  shows "rx_loop_inv v1 r2 \<and> unat (cleaned_count v1) < 16 \<and> (wb_length d \<noteq> 0 \<longrightarrow> posted (rx_ev r2) (rx_next_to_clean r2))"
proof -
  have i1: "rx_loop_inv v1 r1" "unat (cleaned_count v1) < 16" using rx_refill_inv [OF assms(2)] assms(3) by (auto simp: rx_polled_def)
  then have "rx_loop_inv v1 r2"
    using assms(3) core_good [of r2 r1] by (auto simp: rx_polled_def rx_loop_inv_def core_def slots_of_def fun_eq_iff)
  then show ?thesis using i1 assms(1,3) by (simp add: rx_polled_def honest_device_def)
qed

lemma rx_got_inv:
  assumes "rx_loop_inv v1 r2" and "unat (cleaned_count v1) < 16" and "wb_length d \<noteq> 0 \<longrightarrow> posted (rx_ev r2) (rx_next_to_clean r2)"
    and got: "rx_got E v1 d r2 i r3 v4 r4"
  shows "rx_loop_inv v4 r4 \<and> unat (cleaned_count v4) < 16 \<and> posted (rx_ev r4) (rx_next_to_clean r4) \<and> i = rx_next_to_clean r4"
proof -
  have gb: "run_state (ixgbevf_get_rx_buffer (ucast (wb_length d))) r2 = (i, r3)"
    and at: "run_state (rx_attach E i (ucast (wb_length d)) v1) r3 = (v4, r4)" using got by (simp_all add: rx_got_def)
  have "rx_loop_inv v4 r4" using rx_loop_inv_core [OF core_rx_attach at rx_attach_cc [OF at]]
      rx_loop_inv_core [OF core_get_rx_buffer gb refl assms(1)] by blast
  moreover have "core r4 = core r2" using keepsD [OF core_rx_attach at] keepsD [OF core_get_rx_buffer gb] by simp
  ultimately show ?thesis using assms(2,3) got rx_attach_cc [OF at] get_rx_buffer_index [OF gb]
    by (simp add: core_def rx_got_def)
qed

lemma rx_iter_inv:
  assumes dev: "honest_device E" and inv: "rx_loop_inv v r" and run: "run_state (rx_iter E v) r = ((stop, v'), r')"
  shows "rx_loop_inv v' r'"
  using run
proof (cases rule: rx_iter_cases)
  case idle
  then show ?thesis using rx_polled_inv [OF dev inv] by blast
next
  case (nomem v1 r1 d r2 i r3 r4)
  have "keeps core (rx_nomem i)" unfolding rx_nomem_def by (intro keeps_rules) (simp_all add: core_def slots_of_def)
  then show ?thesis using rx_loop_inv_core [OF _ nomem(5) refl] rx_got_inv [OF _ _ _ nomem(2)] rx_polled_inv [OF dev inv nomem(1)] by blast
next
  case (frag v1 r1 d r2 i r3 v4 r4 x r5)
  then show ?thesis using rx_put_inv rx_got_inv [OF _ _ _ frag(2)] rx_polled_inv [OF dev inv frag(1)] by blast
next
  case (frame v1 r1 d r2 i r3 v4 r4 x r5 r6)
  then have "rx_loop_inv (v4\<lparr>cleaned_count := cleaned_count v4 + 1\<rparr>) r6"
    using rx_put_inv rx_got_inv [OF _ _ _ frame(2)] rx_polled_inv [OF dev inv frame(1)] by blast
  then show ?thesis using rx_loop_inv_core [OF core_rx_frame frame(7) rx_frame_cc [OF frame(7)]] by blast
qed

lemma rx_loop_inv_loop:
  assumes dev: "honest_device E"
  shows "rx_loop_inv v r \<Longrightarrow> run_state (rx_loop E fuel budget v) r = (res, r') \<Longrightarrow> \<exists>u a. rx_good u a r'"
proof (induction fuel arbitrary: v r)
  case 0
  then show ?case by (auto simp: rx_loop_inv_def split: if_splits)
next
  case (Suc fuel)
  obtain stop v1 r1 where it: "run_state (rx_iter E v) r = ((stop, v1), r1)" by (metis surj_pair)
  note i1 = rx_iter_inv [OF dev Suc.prems(1) it]
  show ?case using Suc.IH [OF i1] Suc.prems it i1 by (auto simp: rx_loop_inv_def split: if_splits)
qed

lemma rx_desc_unused_good:
  assumes g: "rx_good u a r"
  shows "unat (rx_desc_unused r) = rx_count r - 1 - u"
proof -
  let ?n = "rx_count r" and ?c = "rx_next_to_clean r"
  have ntu: "rx_next_to_use r = (?c + u) mod ?n" and f: "filled a r" and u: "u < ?n"
    using g by (auto simp: rx_good_def Let_def)
  note b = filled_bounds [OF f]
  have "rx_next_to_use r = (if ?c + u < ?n then ?c + u else ?c + u - ?n)"
    unfolding ntu using b u by (auto simp: le_mod_geq)
  then have "(if ?c > rx_next_to_use r then 0 else int ?n) + int ?c - int (rx_next_to_use r) - 1 = int (?n - 1 - u)"
    using b u by auto
  then have "rx_desc_unused r = of_nat (?n - 1 - u)"
    unfolding rx_desc_unused_def by (simp only: of_int_of_nat_eq)
  then show ?thesis using b by (simp add: unat_of_nat less_imp_diff_less)
qed

lemma clean_rx_irq_good:
  assumes dev: "honest_device E" and g: "rx_good u a r"
    and run: "run_state (ixgbevf_clean_rx_irq E fuel budget) r = (res, r')"
  shows "\<exists>u a. rx_good u a r'"
proof -
  let ?v = "\<lparr>cleaned_count = rx_desc_unused r, v_skb = rx_skb_p r, xdp_xmit = False, total_rx_bytes = 0, total_rx_packets = 0\<rparr>"
  have "u \<le> a" "a < rx_count r" using g by (simp_all add: rx_good_def Let_def)
  then have "rx_loop_inv ?v r" unfolding rx_loop_inv_def
    using g rx_desc_unused_good [OF g] by - (rule exI [of _ u], rule exI [of _ a], auto)
  obtain lr r1 where lp: "run_state (rx_loop E fuel budget ?v) r = (lr, r1)" by (metis surj_pair)
  from rx_loop_inv_loop [OF dev \<open>rx_loop_inv ?v r\<close> lp] obtain u1 a1 where g1: "rx_good u1 a1 r1" by blast
  have "core r' = core r1"
    using run lp by (cases lr) (auto simp: ixgbevf_clean_rx_irq_def core_def slots_of_def run_whenM rx_log_def fun_eq_iff
      split: if_splits)
  then show ?thesis using g1 core_good by blast
qed

subsection \<open>Emptying\<close>

lemma run_rx_drain_loop:
  assumes f: "filled a r" and nta: "next_to_alloc r = (rx_next_to_clean r + a) mod rx_count r" and a: "a < rx_count r"
  shows "j \<le> a \<Longrightarrow> a - j \<le> fuel \<Longrightarrow>
    \<exists>h. run_state (rx_drain_loop E fuel ((rx_next_to_clean r + j) mod rx_count r)) (r\<lparr>rx_ev := h0\<rparr>) = ((), r\<lparr>rx_ev := h @ h0\<rparr>) \<and>
      (\<forall>h0. got (h @ h0) = got h0 \<and> posted (h @ h0) = posted h0 \<and> gone (h @ h0) = gone h @ gone h0) \<and>
      gone h = rev (pages (map (\<lambda>k. slots_of r ! ((rx_next_to_clean r + k) mod rx_count r)) [j..<a]))"
proof (induction fuel arbitrary: j h0)
  case 0
  then show ?case by (intro exI [of _ "[]"]) (simp add: pages_def)
next
  case (Suc fuel)
  let ?n = "rx_count r" and ?c = "rx_next_to_clean r"
  let ?i = "(?c + j) mod ?n"
  note b = filled_bounds [OF f]
  show ?case
  proof (cases "j = a")
    case True
    then show ?thesis using nta by (intro exI [of _ "[]"]) (simp add: pages_def)
  next
    case False
    then have ja: "j < a" using Suc.prems(1) by simp
    then have ne: "?i \<noteq> next_to_alloc r" using slot_inj [of j ?n a ?c] a unfolding nta by auto
    obtain p where p: "slots_of r ! ?i = Some p" using filled_slot [OF f, of j] ja a by auto
    have pb: "rb_page (rx_buffer_info r ! ?i) = Some p" using p b slot_nth [of ?i r] by simp
    let ?b = "rx_buffer_info r ! ?i"
    let ?e = "[Drain p (pagecnt_bias ?b), Rx_unmap (rb_dma ?b), Sync_for_cpu (rb_dma ?b) (page_offset ?b) (ixgbevf_rx_bufsz E (rx_state r))]"
    have nx: "(if ?i + 1 = ?n then 0 else ?i + 1) = (?c + Suc j) mod ?n" by (simp add: mod_Suc)
    have le: "Suc j \<le> a" "a - Suc j \<le> fuel" using ja Suc.prems(2) by simp_all
    obtain h where
      h: "run_state (rx_drain_loop E fuel ((?c + Suc j) mod ?n)) (r\<lparr>rx_ev := ?e @ h0\<rparr>) = ((), r\<lparr>rx_ev := h @ ?e @ h0\<rparr>)"
      "\<forall>h0. got (h @ h0) = got h0 \<and> posted (h @ h0) = posted h0 \<and> gone (h @ h0) = gone h @ gone h0"
      "gone h = rev (pages (map (\<lambda>k. slots_of r ! ((?c + k) mod ?n)) [Suc j..<a]))" using Suc.IH [OF le, of "?e @ h0"] by blast
    have "run_state (rx_drain_loop E (Suc fuel) ?i) (r\<lparr>rx_ev := h0\<rparr>) = ((), r\<lparr>rx_ev := (h @ ?e) @ h0\<rparr>)"
      using h(1) ne nx pb by (simp add: rx_buf_def rx_log_def)
    moreover have "gone (h @ ?e) = rev (pages (map (\<lambda>k. slots_of r ! ((?c + k) mod ?n)) [j..<a]))"
      using h(2,3) p ja by (simp add: upt_rec pages_def)
    ultimately show ?thesis using h(2) by (intro exI [of _ "h @ ?e"]) (simp add: fun_eq_iff)
  qed
qed

lemma filled_pages:
  assumes f: "filled a r" and a: "a \<le> rx_count r"
  shows "mset (pages (map (\<lambda>k. slots_of r ! ((rx_next_to_clean r + k) mod rx_count r)) [0..<a])) = mset (pages (slots_of r))"
proof -
  let ?n = "rx_count r" and ?c = "rx_next_to_clean r"
  let ?f = "\<lambda>k. slots_of r ! ((?c + k) mod ?n)"
  note b = filled_bounds [OF f]
  have "map ?f [0..<?n] = rotate ?c (slots_of r)" by (rule nth_equalityI) (use b in \<open>simp_all add: nth_rotate add.commute\<close>)
  then have "mset (pages (map ?f [0..<?n])) = mset (pages (slots_of r))"
    unfolding pages_def using mset_concat_map_cong [OF mset_rotate_list] by metis
  moreover have "pages (map ?f [0..<?n]) = pages (map ?f [0..<a]) @ pages (map ?f [a..<?n])"
    using a upt_add_eq_append [of 0 a "?n - a"] by (simp add: pages_def)
  moreover have "pages (map ?f [a..<?n]) = []"
  proof (rule pages_none)
    fix k assume "k < length (map ?f [a..<?n])"
    then show "map ?f [a..<?n] ! k = None" using filled_slot [OF f, of "a + k"] by auto
  qed
  ultimately show ?thesis by simp
qed

lemma run_clean_rx_ring:
  assumes g: "rx_good u a r"
  shows "\<exists>h. run_state (ixgbevf_clean_rx_ring E) r =
      ((), r\<lparr>rx_skb_p := Skb_null, rx_ev := h @ rx_ev r, next_to_alloc := 0, rx_next_to_clean := 0, rx_next_to_use := 0\<rparr>) \<and>
    got (h @ rx_ev r) = got (rx_ev r) \<and> gone (h @ rx_ev r) = gone h @ gone (rx_ev r) \<and> mset (gone h) = mset (pages (slots_of r))"
proof -
  have f: "filled a r" and a: "a < rx_count r" and nta: "next_to_alloc r = (rx_next_to_clean r + a) mod rx_count r"
    using g by (simp_all add: rx_good_def Let_def)
  define h0 where "h0 = (if rx_skb_p r = Skb_null then [] else [Skb_freed (rx_skb_p r)])"
  have h0: "got (h0 @ x) = got x" "gone (h0 @ x) = gone x" for x by (simp_all add: h0_def)
  let ?r = "r\<lparr>rx_skb_p := Skb_null\<rparr>"
  have s: "slots_of ?r = slots_of r" by (simp add: slots_of_def)
  have f': "filled a ?r" using f by (simp add: filled_def s)
  from run_rx_drain_loop [OF f', of 0 "rx_count r" E "h0 @ rx_ev r"] nta a filled_bounds [OF f] obtain h where
    h: "run_state (rx_drain_loop E (rx_count r) (rx_next_to_clean r)) (?r\<lparr>rx_ev := h0 @ rx_ev r\<rparr>) = ((), ?r\<lparr>rx_ev := h @ h0 @ rx_ev r\<rparr>)"
      "\<forall>h0. got (h @ h0) = got h0 \<and> posted (h @ h0) = posted h0 \<and> gone (h @ h0) = gone h @ gone h0"
      "gone h = rev (pages (map (\<lambda>k. slots_of r ! ((rx_next_to_clean r + k) mod rx_count r)) [0..<a]))" by (auto simp: s)
  have g0: "gone h0 = []" by (simp add: h0_def)
  have "run_state (ixgbevf_clean_rx_ring E) r =
      ((), r\<lparr>rx_skb_p := Skb_null, rx_ev := (h @ h0) @ rx_ev r, next_to_alloc := 0, rx_next_to_clean := 0, rx_next_to_use := 0\<rparr>)"
  proof -
    have "run_state (whenM (rx_skb_p r \<noteq> Skb_null) (do { rx_log (Skb_freed (rx_skb_p r)); modify (\<lambda>r. r\<lparr>rx_skb_p := Skb_null\<rparr>) })) r =
        ((), ?r\<lparr>rx_ev := h0 @ rx_ev r\<rparr>)"
      by (cases "rx_skb_p r = Skb_null") (auto simp: rx_log_def h0_def intro: rx_ring.equality)
    then show ?thesis using h(1) by (simp add: ixgbevf_clean_rx_ring_def)
  qed
  moreover have "gone (h @ h0) = gone h" using h(2) g0 by simp
  moreover have "mset (gone h) = mset (pages (slots_of r))"
    using h(3) filled_pages [OF f] a by simp
  ultimately show ?thesis using h(2) h0 by (intro exI [of _ "h @ h0"]) simp
qed

end
