(* ===== verification/Tx_Xmit.thy ===== *)
theory Tx_Xmit
  imports Tx_Facts
begin

text \<open>
  Transmission on the ring of \<open>Tx_Facts\<close>: descriptor writes stay in the free part of the ring, a
  packet is either queued behind the pending ones with exactly its mappings recorded, or dropped with
  every mapping undone and its slots free again.
\<close>

subsection \<open>Mapping a packet\<close>

text \<open>
  Descriptor writes stay within a range of positions: \<open>within c n lo hi D0 D\<close> says that \<open>D\<close> differs
  from \<open>D0\<close> only in the slots at distance \<open>lo\<close> to \<open>hi\<close> from \<open>c\<close>.
\<close>

definition within :: "nat \<Rightarrow> nat \<Rightarrow> nat \<Rightarrow> nat \<Rightarrow> 'a list \<Rightarrow> 'a list \<Rightarrow> bool" where
  "within c n lo hi D0 D \<longleftrightarrow> length D = length D0 \<and>
     (\<forall>l < n. l < lo \<or> hi < l \<longrightarrow> D ! ((c + l) mod n) = D0 ! ((c + l) mod n))"

lemma within_refl: "within c n lo hi D D"
  by (simp add: within_def)

lemma within_update:
  assumes "within c n lo hi D0 D" and "lo \<le> j" "j \<le> hi" "hi < n"
  shows "within c n lo hi D0 (D[(c + j) mod n := v])"
proof -
  have "D[(c + j) mod n := v] ! ((c + l) mod n) = D ! ((c + l) mod n)" if "l < n" "l < lo \<or> hi < l" for l
    using slot_inj [of l n j c] that assms(2-4) by (intro nth_list_update_neq) auto
  then show ?thesis using assms(1) unfolding within_def by auto
qed

lemma within_mono:
  "within c n lo hi D0 D \<Longrightarrow> lo' \<le> lo \<Longrightarrow> hi \<le> hi' \<Longrightarrow> within c n lo' hi' D0 D"
  by (auto simp: within_def)

lemma within_trans:
  "within c n lo hi D0 D \<Longrightarrow> within c n lo hi D D' \<Longrightarrow> within c n lo hi D0 D'"
  by (auto simp: within_def)

text \<open>The extra descriptors a buffer needs beyond its first, and the slots of a list of buffers.\<close>

definition extra :: "u32 \<Rightarrow> nat" where
  "extra s = (unat s - 1) div 16384"

definition slots :: "u32 list \<Rightarrow> nat" where
  "slots ss = sum_list (map (\<lambda>s. Suc (extra s)) ss)"

lemma slots_simps [simp]: "slots [] = 0" "slots (s # ss) = Suc (extra s) + slots ss"
  by (simp_all add: slots_def)

lemma TXD_USE_COUNT_extra: "s \<noteq> 0 \<Longrightarrow> TXD_USE_COUNT s = Suc (extra s)"
proof -
  assume "s \<noteq> 0"
  then have "0 < unat s" by (simp add: unat_gt_0)
  then have "unat s + 16384 - 1 = (unat s - 1) + 16384" by simp
  then show ?thesis by (simp add: TXD_USE_COUNT_def extra_def)
qed

lemma xmit_count_slots:
  "sk_headlen skb \<noteq> 0 \<Longrightarrow> 0 \<notin> set (sk_frags skb) \<Longrightarrow> slots (sk_headlen skb # sk_frags skb) < 2 ^ 16 \<Longrightarrow>
     xmit_count skb = slots (sk_headlen skb # sk_frags skb)"
proof -
  assume 1: "sk_headlen skb \<noteq> 0" "0 \<notin> set (sk_frags skb)" "slots (sk_headlen skb # sk_frags skb) < 2 ^ 16"
  have "sum_list (map TXD_USE_COUNT fs) = slots fs" if "0 \<notin> set fs" for fs
    using that by (induction fs) (auto simp: TXD_USE_COUNT_extra)
  then show ?thesis using 1 by (simp add: xmit_count_def TXD_USE_COUNT_extra)
qed

lemma extra_step: "16384 < s \<Longrightarrow> extra s = Suc (extra (s - 16384))"
proof -
  assume "16384 < s"
  then have "unat (s - 16384) = unat s - 16384" and "16384 < unat s"
    by (simp_all add: word_less_nat_alt unat_sub word_le_nat_alt)
  then have "unat s - 1 = unat (s - 16384) - 1 + 16384" by simp
  then show ?thesis by (simp add: extra_def)
qed

lemma extra_small: "\<not> 16384 < s \<Longrightarrow> extra s = 0"
  by (simp add: extra_def word_less_nat_alt)

lemma run_tx_split:
  assumes "n = count r" and "j + extra s < n"
  shows "\<exists>s' D. run_state (tx_split cmd dma s ((c + j) mod n)) (view c X r) =
     ((s', (c + (j + extra s)) mod n), view c X (r\<lparr>tx_descs := D\<rparr>)) \<and>
     within c n j (j + extra s) (tx_descs r) D"
  using assms
proof (induction s arbitrary: j dma r rule: measure_induct_rule [of unat])
  case (less s)
  show ?case
  proof (cases "16384 < s")
    case False
    then have "run_state (tx_split cmd dma s ((c + j) mod n)) (view c X r) =
        ((s, (c + (j + extra s)) mod n), view c X (r\<lparr>tx_descs := tx_descs r\<rparr>))"
      by (subst tx_split.simps) (simp add: extra_small)
    then show ?thesis using within_refl by blast
  next
    case True
    let ?s = "s - 16384"
    have n: "0 < n" using less.prems by simp
    have dec: "unat ?s < unat s" using True by (simp add: word_less_nat_alt unat_sub word_le_nat_alt)
    have ex: "extra s = Suc (extra ?s)" using True by (rule extra_step)
    have nx: "run_state (next_idx ((c + j) mod n)) (view c X r') = ((c + Suc j) mod n, view c X r')"
      if "count r' = n" for r' using run_next_idx [of n r' c j X] that n by simp
    let ?p = "(c + j) mod n" and ?q = "(c + Suc j) mod n"
    obtain D1 where D1: "D1 = (tx_descs r)[?p := (tx_descs r ! ?p)\<lparr>cmd_type_len := cmd OR 16384\<rparr>]" by blast
    obtain D2 where D2: "D2 = D1[?q := (D1 ! ?q)\<lparr>olinfo_status := 0\<rparr>]" by blast
    obtain D3 where D3: "D3 = D2[?q := (D2 ! ?q)\<lparr>buffer_addr := dma + 16384\<rparr>]" by blast
    have "run_state (tx_split cmd dma s ?p) (view c X r) =
        run_state (tx_split cmd (dma + 16384) ?s ?q) (view c X (r\<lparr>tx_descs := D3\<rparr>))"
      using True less.prems(1) nx by (subst tx_split.simps) (simp add: run_upd_desc D1 D2 D3 Let_def)
    moreover obtain s' D where "run_state (tx_split cmd (dma + 16384) ?s ?q) (view c X (r\<lparr>tx_descs := D3\<rparr>)) =
        ((s', (c + (Suc j + extra ?s)) mod n), view c X (r\<lparr>tx_descs := D\<rparr>))"
      and w: "within c n (Suc j) (Suc j + extra ?s) D3 D"
      using less.IH [OF dec, of "r\<lparr>tx_descs := D3\<rparr>" "Suc j" "dma + 16384"] less.prems ex by auto
    moreover have "within c n j (j + extra s) (tx_descs r) D3"
      unfolding D1 D2 D3 by (intro within_update within_refl; use less.prems(2) ex in simp)
    moreover from this have "within c n j (j + extra s) (tx_descs r) D"
      using within_trans within_mono [OF w, of j "j + extra s"] ex by auto
    ultimately show ?thesis using ex by (intro exI [of _ s'] exI [of _ D]) simp
  qed
qed

text \<open>The mappings made and undone by a list of events, oldest first.\<close>

fun mapped :: "tx_event list \<Rightarrow> mapping list" where
  "mapped [] = []"
| "mapped (Dma_map k a l # h) = mapped h @ [(k, a, l)]"
| "mapped (_ # h) = mapped h"

fun unmapped :: "tx_event list \<Rightarrow> mapping list" where
  "unmapped [] = []"
| "unmapped (Dma_unmap k a l # h) = unmapped h @ [(k, a, l)]"
| "unmapped (_ # h) = unmapped h"

fun freed :: "tx_event list \<Rightarrow> nat list" where
  "freed [] = []"
| "freed (Free_skb skb # h) = freed h @ (case skb of None \<Rightarrow> [] | Some s \<Rightarrow> [s])"
| "freed (_ # h) = freed h"

lemma history_append:
  "mapped (xs @ ys) = mapped ys @ mapped xs" "unmapped (xs @ ys) = unmapped ys @ unmapped xs"
  "freed (xs @ ys) = freed ys @ freed xs"
proof -
  show "mapped (xs @ ys) = mapped ys @ mapped xs" by (induction xs rule: mapped.induct) simp_all
  show "unmapped (xs @ ys) = unmapped ys @ unmapped xs" by (induction xs rule: unmapped.induct) simp_all
  show "freed (xs @ ys) = freed ys @ freed xs" by (induction xs rule: freed.induct) simp_all
qed

lemma history_unmaps [simp]:
  "mapped (unmaps ms) = []" "unmapped (unmaps ms) = rev ms" "freed (unmaps ms) = []"
  "mapped (rev (unmaps ms)) = []" "unmapped (rev (unmaps ms)) = ms" "freed (rev (unmaps ms)) = []"
  by (induction ms) (auto simp: history_append)

text \<open>Recording a mapping in buffer \<open>k\<close> and filling the descriptors from position \<open>j\<close> on.\<close>

lemma run_tx_piece:
  assumes n: "length X = n" "n = count r" and k: "k < n" and j: "j + extra s < n"
  shows "\<exists>s' D. run_state (do {
       upd_buf ((c + k) mod n) (\<lambda>tb. tb\<lparr>tb_len := s, tb_dma := dma\<rparr>);
       upd_desc ((c + j) mod n) (\<lambda>d. d\<lparr>buffer_addr := dma\<rparr>);
       tx_split cmd dma s ((c + j) mod n) }) (view c X r) =
     ((s', (c + (j + extra s)) mod n),
      view c (X[k := (X ! k)\<lparr>tb_len := s, tb_dma := dma\<rparr>]) (r\<lparr>tx_descs := D\<rparr>)) \<and>
     within c n j (j + extra s) (tx_descs r) D"
proof -
  let ?X = "X[k := (X ! k)\<lparr>tb_len := s, tb_dma := dma\<rparr>]" and ?p = "(c + j) mod n"
  obtain D1 where D1: "D1 = (tx_descs r)[?p := (tx_descs r ! ?p)\<lparr>buffer_addr := dma\<rparr>]" by blast
  from run_tx_split [of n "r\<lparr>tx_descs := D1\<rparr>" j s cmd dma c ?X] n j obtain s' D where
    run: "run_state (tx_split cmd dma s ?p) (view c ?X (r\<lparr>tx_descs := D1\<rparr>)) =
      ((s', (c + (j + extra s)) mod n), view c ?X (r\<lparr>tx_descs := D\<rparr>))"
    and w: "within c n j (j + extra s) D1 D" by auto
  have "run_state (upd_buf ((c + k) mod n) (\<lambda>tb. tb\<lparr>tb_len := s, tb_dma := dma\<rparr>)) (view c X r) = ((), view c ?X r)"
    using run_upd_buf [of k X n c _ r] k n by simp
  moreover have "within c n j (j + extra s) (tx_descs r) D1"
    unfolding D1 by (intro within_update within_refl; use j in simp)
  ultimately show ?thesis using run w D1
    by (intro exI [of _ s'] exI [of _ D]) (auto simp: run_upd_desc intro: within_trans)
qed

text \<open>The fragments after the head, each recorded in the buffer of its first descriptor.\<close>

definition frags_ok :: "u32 \<Rightarrow> u32 list \<Rightarrow> bool" where
  "frags_ok data_len fs \<longleftrightarrow> unat data_len = sum_list (map unat fs) \<and> 0 \<notin> set fs"

lemma frags_ok_Nil: "frags_ok d [] \<longleftrightarrow> d = 0"
  by (auto simp: frags_ok_def unat_eq_0)

lemma frags_ok_Cons: "frags_ok d (f # fs) \<Longrightarrow> d \<noteq> 0 \<and> f \<noteq> 0 \<and> frags_ok (d - f) fs"
proof -
  assume 1: "frags_ok d (f # fs)"
  then have "unat f \<le> unat d" by (simp add: frags_ok_def)
  then have "unat (d - f) = unat d - unat f" by (simp add: unat_sub word_le_nat_alt)
  with 1 show ?thesis by (auto simp: frags_ok_def unat_eq_0)
qed

definition map_result :: "nat \<Rightarrow> nat \<Rightarrow> nat \<Rightarrow> nat + u32 \<times> nat \<Rightarrow> bool" where
  "map_result c n k res \<longleftrightarrow> (case res of Inl i \<Rightarrow> i = (c + k) mod n | Inr (s, i) \<Rightarrow> 0 < k \<and> i = (c + (k - 1)) mod n)"

lemma run_dma_map:
  "run_state (dma_map E k l) (view c X r) =
     ((dma_addr E (ring_ev r), dma_fails E (ring_ev r)),
      view c X (r\<lparr>ring_ev := (if dma_fails E (ring_ev r) then Dma_map_failed k l
                              else Dma_map k (dma_addr E (ring_ev r)) l) # ring_ev r\<rparr>))"
  by (simp add: dma_map_def run_tx_ev Let_def)

text \<open>One buffer of the fragment loop up to the next mapping.\<close>

lemma run_tx_frags_step:
  assumes n: "length X = n" "n = count r" and k: "k < n" and j: "Suc (j + extra s) < n" and d: "d \<noteq> 0"
  shows "\<exists>D. run_state (tx_frags E cmd (f # fs) d (dma, False) s ((c + j) mod n) ((c + k) mod n)) (view c X r) =
      (let h = ring_ev r in
       run_state (tx_frags E cmd fs (d - f) (dma_addr E h, dma_fails E h) f
           ((c + Suc (j + extra s)) mod n) ((c + Suc (j + extra s)) mod n))
         (view c (X[k := (X ! k)\<lparr>tb_len := s, tb_dma := dma\<rparr>])
           (r\<lparr>tx_descs := D, ring_ev := (if dma_fails E h then Dma_map_failed Page f
              else Dma_map Page (dma_addr E h) f) # h\<rparr>))) \<and>
     within c n j (Suc (j + extra s)) (tx_descs r) D"
proof -
  let ?X = "X[k := (X ! k)\<lparr>tb_len := s, tb_dma := dma\<rparr>]" and ?j = "j + extra s"
  from run_tx_piece [of X n r k j s c dma cmd] n k j obtain s' D where
    run: "run_state (do {
       upd_buf ((c + k) mod n) (\<lambda>tb. tb\<lparr>tb_len := s, tb_dma := dma\<rparr>);
       upd_desc ((c + j) mod n) (\<lambda>d. d\<lparr>buffer_addr := dma\<rparr>);
       tx_split cmd dma s ((c + j) mod n) }) (view c X r) =
     ((s', (c + ?j) mod n), view c ?X (r\<lparr>tx_descs := D\<rparr>))"
    and w: "within c n j ?j (tx_descs r) D" by auto
  let ?p = "(c + ?j) mod n" and ?q = "(c + Suc ?j) mod n"
  obtain D1 where D1: "D1 = D[?p := (D ! ?p)\<lparr>cmd_type_len := cmd OR s'\<rparr>]" by blast
  obtain D2 where D2: "D2 = D1[?q := (D1 ! ?q)\<lparr>olinfo_status := 0\<rparr>]" by blast
  have nx: "run_state (next_idx ?p) (view c ?X r') = (?q, view c ?X r')" if "count r' = n" for r'
    using run_next_idx [of n r' c ?j ?X] that k by simp
  have "within c n j (Suc ?j) (tx_descs r) D2"
    unfolding D1 D2 by (intro within_update within_mono [OF w]; use j in simp)
  moreover have "run_state (tx_frags E cmd (f # fs) d (dma, False) s ((c + j) mod n) ((c + k) mod n)) (view c X r) =
      run_state (do {
        upd_desc ?p (\<lambda>d. d\<lparr>cmd_type_len := cmd OR s'\<rparr>); i \<leftarrow> next_idx ?p; upd_desc i (\<lambda>d. d\<lparr>olinfo_status := 0\<rparr>);
        m \<leftarrow> dma_map E Page f; tx_frags E cmd fs (d - f) m f i i }) (view c ?X (r\<lparr>tx_descs := D\<rparr>))"
    using run d by (auto simp add: split_def Let_def)
  ultimately show ?thesis
    using nx n by (intro exI [of _ D2]) (simp add: run_upd_desc run_dma_map D1 D2 Let_def)
qed

definition mapped_ok ::
    "nat \<Rightarrow> nat \<Rightarrow> ixgbevf_tx_buffer list \<Rightarrow> nat \<Rightarrow> mapping list \<Rightarrow> ixgbevf_ring \<Rightarrow>
     (nat + u32 \<times> nat) \<times> ixgbevf_ring \<Rightarrow> bool" where
  "mapped_ok c n A m ms r out \<longleftrightarrow> (\<exists>res M B D evs.
     out = (res, view c (A @ M @ B) (r\<lparr>tx_descs := D, ring_ev := evs @ ring_ev r\<rparr>)) \<and>
     length (A @ M @ B) = n \<and> B \<noteq> [] \<and> (\<forall>b \<in> set B. free_buf b) \<and> (\<forall>b \<in> set M. next_to_watch b = None) \<and>
     page_maps M = ms @ mapped evs \<and> unmapped evs = [] \<and> freed evs = [] \<and>
     map_result c n (length A + length M) res \<and> length M \<le> m \<and>
     within c n (length A) (length A + m) (tx_descs r) D)"

lemma mapped_okI:
  assumes "out = (res, view c (A @ M @ B) (r\<lparr>tx_descs := D, ring_ev := evs @ ring_ev r\<rparr>))"
    and "length (A @ M @ B) = n" "B \<noteq> []" "\<forall>b \<in> set B. free_buf b" "\<forall>b \<in> set M. next_to_watch b = None"
    and "page_maps M = ms @ mapped evs" "unmapped evs = []" "freed evs = []"
    and "map_result c n (length A + length M) res" "length M \<le> m"
    and "within c n (length A) (length A + m) (tx_descs r) D"
  shows "mapped_ok c n A m ms r out"
  using assms unfolding mapped_ok_def by blast

lemma mapped_ok_extend:
  assumes ok: "mapped_ok c n (A @ G) m ms (r\<lparr>tx_descs := D, ring_ev := e # ring_ev r\<rparr>) out"
    and G: "\<forall>b \<in> set G. next_to_watch b = None" "page_maps G = gs"
    and e: "mapped [e] = ms" "unmapped [e] = []" "freed [e] = []"
    and w: "within c n (length A) (length A + m') (tx_descs r) D" and m: "length G + m \<le> m'"
  shows "mapped_ok c n A m' gs r out"
proof -
  from ok obtain res M B D' evs where
    out: "out = (res, view c ((A @ G) @ M @ B) (r\<lparr>tx_descs := D', ring_ev := evs @ e # ring_ev r\<rparr>))"
    and len: "length ((A @ G) @ M @ B) = n" and B: "B \<noteq> []" "\<forall>b \<in> set B. free_buf b"
    and M: "\<forall>b \<in> set M. next_to_watch b = None" "page_maps M = ms @ mapped evs"
    and ev: "unmapped evs = []" "freed evs = []"
    and res: "map_result c n (length (A @ G) + length M) res" and lm: "length M \<le> m"
    and w': "within c n (length (A @ G)) (length (A @ G) + m) D D'"
    unfolding mapped_ok_def by auto
  have "within c n (length A) (length A + m') (tx_descs r) D'"
    using within_trans [OF w] within_mono [OF w', of "length A" "length A + m'"] m by simp
  moreover have "mapped (evs @ [e]) = ms @ mapped evs" "unmapped (evs @ [e]) = []" "freed (evs @ [e]) = []"
    using e ev by (simp_all add: history_append)
  ultimately show ?thesis using out len B M G res m lm
    by (intro mapped_okI [where M = "G @ M" and evs = "evs @ [e]" and B = B and D = D' and res = res])
       (auto simp: add.assoc)
qed

lemma run_tx_frags_failed:
  assumes "length (A @ B) = n" and "\<forall>b \<in> set B. free_buf b" and "B \<noteq> []"
  shows "mapped_ok c n A m [] r
    (run_state (tx_frags E cmd fs d (dma, True) s ((c + length A) mod n) k) (view c (A @ B) r))"
proof -
  have "run_state (tx_frags E cmd fs d (dma, True) s ((c + length A) mod n) k) (view c (A @ B) r) =
      (Inl ((c + length A) mod n), view c (A @ [] @ B) (r\<lparr>tx_descs := tx_descs r, ring_ev := [] @ ring_ev r\<rparr>))"
    by (cases fs) simp_all
  then show ?thesis using assms unfolding mapped_ok_def
    by (intro exI conjI) (assumption, simp_all add: map_result_def within_refl)
qed

lemma split_free:
  assumes "k < length B"
  obtains b S B' where "B = b # S @ B'" "length S = k"
  using assms by (cases B) (auto intro: that [of _ "take k (tl B)" "drop k (tl B)"])

lemma free_no_maps: "\<forall>b \<in> set S. free_buf b \<Longrightarrow> page_maps S = []"
  by (auto simp: free_buf_def page_maps_def filter_empty_conv)

lemma run_tx_frags:
  assumes "length (A @ B) = n" and "n = count r" and "\<forall>b \<in> set B. free_buf b" and "s \<noteq> 0"
    and "slots (s # fs) < length B" and "frags_ok d fs"
  shows "mapped_ok c n A (slots (s # fs)) (if err then [] else [(Page, dma, s)]) r
    (run_state (tx_frags E cmd fs d (dma, err) s ((c + length A) mod n) ((c + length A) mod n)) (view c (A @ B) r))"
  using assms
proof (induction fs arbitrary: A B r s d dma err)
  case Nil
  then have ne: "B \<noteq> []" by auto
  show ?case
  proof (cases err)
    case True
    then show ?thesis using run_tx_frags_failed [of A B n] Nil.prems ne by (simp del: tx_frags.simps)
  next
    case False
    obtain b S B2 where B: "B = b # S @ B2" "length S = extra s"
      using split_free [of "extra s" B] Nil.prems(5) by auto
    let ?b = "b\<lparr>tb_len := s, tb_dma := dma\<rparr>"
    from run_tx_piece [of "A @ B" n r "length A" "length A" s c dma cmd] Nil.prems B obtain s' D where
      run: "run_state (do {
         upd_buf ((c + length A) mod n) (\<lambda>tb. tb\<lparr>tb_len := s, tb_dma := dma\<rparr>);
         upd_desc ((c + length A) mod n) (\<lambda>d. d\<lparr>buffer_addr := dma\<rparr>);
         tx_split cmd dma s ((c + length A) mod n) }) (view c (A @ B) r) =
       ((s', (c + (length A + extra s)) mod n), view c (A @ (?b # S) @ B2) (r\<lparr>tx_descs := D\<rparr>))"
      and w: "within c n (length A) (length A + extra s) (tx_descs r) D" by auto
    have "run_state (tx_frags E cmd [] d (dma, err) s ((c + length A) mod n) ((c + length A) mod n)) (view c (A @ B) r) =
        (Inr (s', (c + (length A + extra s)) mod n), view c (A @ (?b # S) @ B2) (r\<lparr>tx_descs := D, ring_ev := [] @ ring_ev r\<rparr>))"
      using run False by (auto simp: split_def)
    moreover have "page_maps S = []" using Nil.prems(3) B by (intro free_no_maps) auto
    moreover have "within c n (length A) (length A + slots [s]) (tx_descs r) D" by (rule within_mono [OF w]) simp_all
    ultimately show ?thesis unfolding mapped_ok_def using Nil.prems B False
      by (intro exI conjI) (assumption, auto simp: map_result_def free_buf_def)
  qed
next
  case (Cons f fs)
  then have ne: "B \<noteq> []" by auto
  show ?case
  proof (cases err)
    case True
    then show ?thesis using run_tx_frags_failed [of A B n] Cons.prems ne by (simp del: tx_frags.simps)
  next
    case False
    obtain b S B2 where B: "B = b # S @ B2" "length S = extra s"
      using split_free [of "extra s" B] Cons.prems(5) by auto
    let ?b = "b\<lparr>tb_len := s, tb_dma := dma\<rparr>"
    let ?A = "A @ ?b # S" and ?h = "ring_ev r"
    let ?a = "dma_addr E ?h" and ?e = "dma_fails E ?h"
    let ?ev = "if ?e then Dma_map_failed Page f else Dma_map Page ?a f"
    have d: "d \<noteq> 0" "f \<noteq> 0" "frags_ok (d - f) fs" using frags_ok_Cons Cons.prems(6) by auto
    have X: "(A @ B)[length A := ((A @ B) ! length A)\<lparr>tb_len := s, tb_dma := dma\<rparr>] = ?A @ B2" using B by simp
    from run_tx_frags_step [of "A @ B" n r "length A" "length A" s d E cmd f fs dma c, unfolded X]
      Cons.prems B d(1) False obtain D where
      run: "run_state (tx_frags E cmd (f # fs) d (dma, err) s ((c + length A) mod n) ((c + length A) mod n)) (view c (A @ B) r) =
        run_state (tx_frags E cmd fs (d - f) (?a, ?e) f ((c + length ?A) mod n) ((c + length ?A) mod n))
         (view c (?A @ B2) (r\<lparr>tx_descs := D, ring_ev := ?ev # ?h\<rparr>))" (is "_ = run_state _ (view c _ ?r)")
      and w: "within c n (length A) (Suc (length A + extra s)) (tx_descs r) D"
      by (auto simp: Let_def)
    have IH: "mapped_ok c n ?A (slots (f # fs)) (if ?e then [] else [(Page, ?a, f)]) ?r
       (run_state (tx_frags E cmd fs (d - f) (?a, ?e) f ((c + length ?A) mod n) ((c + length ?A) mod n)) (view c (?A @ B2) ?r))"
      by (rule Cons.IH) (use Cons.prems B d in simp_all)
    have w': "within c n (length A) (length A + slots (s # f # fs)) (tx_descs r) D"
      by (rule within_mono [OF w]) simp_all
    have "page_maps S = []" using Cons.prems(3) B by (intro free_no_maps) auto
    then show ?thesis unfolding run using Cons.prems(3,4) B False
      by (intro mapped_ok_extend [OF IH _ _ _ _ _ w']) (auto simp: free_buf_def)
  qed
qed

text \<open>The unwinding loop walks back from the slot of the failed mapping to the head.\<close>

lemma run_tx_unwind:
  assumes "length (A @ h # M @ B) = count r" and "length M \<le> fuel"
  shows "run_state (tx_unwind fuel ((c + length A) mod count r) ((c + (length A + length M)) mod count r))
      (view c (A @ h # M @ B) r) =
    ((c + length A) mod count r,
     view c (A @ h # map clr M @ B) (r\<lparr>ring_ev := unmaps (page_maps M) @ ring_ev r\<rparr>))"
  using assms
proof (induction M arbitrary: B r fuel rule: rev_induct)
  case Nil
  then show ?case by (cases fuel) (simp_all add: view_def)
next
  case (snoc b M)
  let ?n = "count r" and ?k = "length A + length (M @ [b])"
  obtain f where fuel: "fuel = Suc f" using snoc.prems(2) by (cases fuel) auto
  have k: "?k < ?n" using snoc.prems(1) by simp
  have ne: "(c + ?k) mod ?n \<noteq> (c + length A) mod ?n"
    using slot_inj [of ?k ?n "length A" c] k by auto
  let ?X = "A @ h # (M @ [b]) @ B" and ?X' = "A @ h # M @ clr b # B"
  have nth: "run_state (get_buf ((c + ?k) mod ?n)) (view c ?X r) = (b, view c ?X r)"
    using run_get_buf [of ?k ?X ?n c r] snoc.prems(1) k by (simp add: nth_append)
  define r1 where "r1 = (if tb_len b \<noteq> 0 then r\<lparr>ring_ev := Dma_unmap Page (tb_dma b) (tb_len b) # ring_ev r\<rparr> else r)"
  have cnt: "count r1 = ?n" by (simp add: r1_def)
  have ev: "run_state (whenM (tb_len b \<noteq> 0) (tx_ev (Dma_unmap Page (tb_dma b) (tb_len b)))) (view c ?X r) =
      ((), view c ?X r1)"
    by (simp add: run_whenM run_tx_ev r1_def)
  have upd: "run_state (upd_buf ((c + ?k) mod ?n) (\<lambda>tb. tb\<lparr>tb_len := 0\<rparr>)) (view c ?X r1) = ((), view c ?X' r1)"
    using run_upd_buf [of ?k ?X ?n c "\<lambda>tb. tb\<lparr>tb_len := 0\<rparr>" r1] snoc.prems(1) k
    by (simp add: nth_append list_update_append clr_def)
  have prev: "(if (c + ?k) mod ?n = 0 then ?n - 1 else (c + ?k) mod ?n - 1) = (c + (length A + length M)) mod ?n"
    using mod_Suc [of "c + (length A + length M)" ?n] k by (simp split: if_splits)
  have IH: "run_state (tx_unwind f ((c + length A) mod ?n) ((c + (length A + length M)) mod ?n)) (view c ?X' r1) =
    ((c + length A) mod ?n, view c (A @ h # map clr M @ clr b # B) (r1\<lparr>ring_ev := unmaps (page_maps M) @ ring_ev r1\<rparr>))"
    using snoc.IH [of "clr b # B" r1 f, unfolded cnt] snoc.prems fuel by simp
  have fin: "view c (A @ h # map clr M @ clr b # B) (r1\<lparr>ring_ev := unmaps (page_maps M) @ ring_ev r1\<rparr>) =
      view c (A @ h # map clr (M @ [b]) @ B) (r\<lparr>ring_ev := unmaps (page_maps (M @ [b])) @ ring_ev r\<rparr>)"
    by (simp add: r1_def)
  have run: "run_state (tx_unwind fuel ((c + length A) mod ?n) ((c + ?k) mod ?n)) (view c ?X r) =
      run_state (tx_unwind f ((c + length A) mod ?n) ((c + (length A + length M)) mod ?n)) (view c ?X' r1)"
    unfolding fuel tx_unwind.simps run_bind
    by (simp only: ne if_False run_bind run_gets view_simps nth ev upd cnt prev prod.case)
  show ?case using run unfolding IH fin .
qed

lemma run_tx_map_error:
  assumes len: "length (A @ h # M @ B) = count r"
  shows "run_state (tx_map_error ((c + length A) mod count r) ((c + (length A + length M)) mod count r))
      (view c (A @ h # M @ B) r) =
    ((), view c (A @ (clr h)\<lparr>tb_skb := None\<rparr> # map clr M @ B)
      (r\<lparr>ring_ev := Free_skb (tb_skb h) # (if tb_len h \<noteq> 0 then [Dma_unmap Single (tb_dma h) (tb_len h)] else []) @
           unmaps (page_maps M) @ ring_ev r, next_to_use := (c + length A) mod count r\<rparr>))"
proof -
  let ?n = "count r" and ?p = "(c + length A) mod count r"
  let ?X = "\<lambda>h. A @ h # map clr M @ B"
  have get: "run_state (get_buf ?p) (view c (?X h) r') = (h, view c (?X h) r')" if "count r' = ?n" for h r'
    using run_get_buf [of "length A" "?X h" ?n c r'] len by simp
  have upd: "run_state (upd_buf ?p f) (view c (?X h) r') = ((), view c (?X (f h)) r')" if "count r' = ?n" for f h r'
    using run_upd_buf [of "length A" "?X h" ?n c f r'] len by simp
  have un: "run_state (tx_unwind ?n ?p ((c + (length A + length M)) mod ?n)) (view c (A @ h # M @ B) r) =
    (?p, view c (?X h) (r\<lparr>ring_ev := unmaps (page_maps M) @ ring_ev r\<rparr>))"
    by (rule run_tx_unwind [OF len]) (use len in simp)
  have nu: "run_state (modify (\<lambda>r. r\<lparr>next_to_use := i\<rparr>)) (view c X r') = ((), view c X (r'\<lparr>next_to_use := i\<rparr>))" for i X r'
    by (simp add: view_def)
  show ?thesis
    unfolding tx_map_error_def run_bind run_gets prod.case view_simps un
    by (cases "tb_len h = 0") (simp_all add: get upd nu run_tx_ev clr_def [symmetric] del: run_modify)
qed

text \<open>
  The whole fragment loop for a packet: \<open>h\<close> is the head's buffer, the slot after it holds the context
  descriptor's successor. In both outcomes \<open>M\<close> are the slots after the head up to the returned index.
\<close>

definition head_ok ::
    "nat \<Rightarrow> nat \<Rightarrow> ixgbevf_tx_buffer list \<Rightarrow> ixgbevf_tx_buffer \<Rightarrow> nat \<Rightarrow> ixgbevf_ring \<Rightarrow>
     (nat + u32 \<times> nat) \<times> ixgbevf_ring \<Rightarrow> bool" where
  "head_ok c n A h m r out \<longleftrightarrow> (\<exists>res M B D evs.
     out = (res, view c (A @ h # M @ B) (r\<lparr>tx_descs := D, ring_ev := evs @ ring_ev r\<rparr>)) \<and>
     length (A @ h # M @ B) = n \<and> M \<noteq> [] \<and> (\<forall>b \<in> set B. free_buf b) \<and> (\<forall>b \<in> set M. next_to_watch b = None) \<and>
     page_maps M = mapped evs \<and> unmapped evs = [] \<and> freed evs = [] \<and>
     (case res of Inl i \<Rightarrow> i = (c + (length A + length M)) mod n
      | Inr (s, i) \<Rightarrow> B \<noteq> [] \<and> tb_len h \<noteq> 0 \<and> i = (c + (length A + length M)) mod n) \<and>
     within c n (length A) (length A + m) (tx_descs r) D)"

lemma head_okI:
  assumes "out = (res, view c (A @ h # M @ B) (r\<lparr>tx_descs := D, ring_ev := evs @ ring_ev r\<rparr>))"
    and "length (A @ h # M @ B) = n" "M \<noteq> []" "\<forall>b \<in> set B. free_buf b" "\<forall>b \<in> set M. next_to_watch b = None"
    and "page_maps M = mapped evs" "unmapped evs = []" "freed evs = []"
    and "case res of Inl i \<Rightarrow> i = (c + (length A + length M)) mod n
      | Inr (s, i) \<Rightarrow> B \<noteq> [] \<and> tb_len h \<noteq> 0 \<and> i = (c + (length A + length M)) mod n"
    and "within c n (length A) (length A + m) (tx_descs r) D"
  shows "head_ok c n A h m r out"
  using assms unfolding head_ok_def by blast

lemma head_ok_extend:
  assumes ok: "mapped_ok c n (A @ h # G) m ms (r\<lparr>tx_descs := D, ring_ev := e # ring_ev r\<rparr>) out"
    and G: "\<forall>b \<in> set G. free_buf b" "G \<noteq> []" and h: "tb_len h \<noteq> 0"
    and e: "mapped [e] = ms" "unmapped [e] = []" "freed [e] = []"
    and w: "within c n (length A) (length A + m') (tx_descs r) D" and m: "Suc (length G) + m \<le> m'"
  shows "head_ok c n A h m' r out"
proof -
  from ok obtain res M B D' evs where
    out: "out = (res, view c ((A @ h # G) @ M @ B) (r\<lparr>tx_descs := D', ring_ev := evs @ e # ring_ev r\<rparr>))"
    and len: "length ((A @ h # G) @ M @ B) = n" and B: "B \<noteq> []" "\<forall>b \<in> set B. free_buf b"
    and M: "\<forall>b \<in> set M. next_to_watch b = None" "page_maps M = ms @ mapped evs"
    and ev: "unmapped evs = []" "freed evs = []"
    and res: "map_result c n (length (A @ h # G) + length M) res"
    and w': "within c n (length (A @ h # G)) (length (A @ h # G) + m) D D'"
    unfolding mapped_ok_def by auto
  from B(1) obtain x B' where x: "B = x # B'" by (cases B) auto
  have W: "within c n (length A) (length A + m') (tx_descs r) D'"
    using within_trans [OF w] within_mono [OF w', of "length A" "length A + m'"] m by simp
  have E: "mapped (evs @ [e]) = ms @ mapped evs" "unmapped (evs @ [e]) = []" "freed (evs @ [e]) = []"
    using e ev by (simp_all add: history_append)
  have P: "page_maps G = []" using G(1) by (rule free_no_maps)
  show ?thesis
  proof (cases res)
    case (Inl i)
    have "page_maps [x] = []" using B x by (simp add: free_buf_def)
    then show ?thesis using out len B M G res W E P h x Inl
      by (intro head_okI [where M = "G @ M @ [x]" and B = B' and D = D' and evs = "evs @ [e]" and res = res])
         (auto simp: map_result_def free_buf_def add.assoc)
  next
    case (Inr v)
    then show ?thesis using out len B M G res W E P h
      by (intro head_okI [where M = "G @ M" and B = B and D = D' and evs = "evs @ [e]" and res = res])
         (auto simp: map_result_def free_buf_def add.assoc)
  qed
qed

lemma run_tx_frags_head:
  assumes len: "length (A @ h # x # B) = n" "n = count r" and free: "free_buf h" "\<forall>b \<in> set (x # B). free_buf b"
    and s: "s \<noteq> 0" "slots (s # fs) < length B" and d: "frags_ok d fs"
  shows "head_ok c n A (if err then h else h\<lparr>tb_len := s, tb_dma := dma\<rparr>) (Suc (slots (s # fs))) r
    (run_state (tx_frags E cmd fs d (dma, err) s ((c + Suc (length A)) mod n) ((c + length A) mod n))
      (view c (A @ h # x # B) r))"
proof (cases err)
  case True
  then have "run_state (tx_frags E cmd fs d (dma, err) s ((c + Suc (length A)) mod n) ((c + length A) mod n))
      (view c (A @ h # x # B) r) =
     (Inl ((c + Suc (length A)) mod n), view c (A @ h # [x] @ B) (r\<lparr>tx_descs := tx_descs r, ring_ev := [] @ ring_ev r\<rparr>))"
    by (cases fs) simp_all
  then show ?thesis using True len free
    by (intro head_okI [where M = "[x]" and B = B and D = "tx_descs r" and evs = "[]" and res = "Inl ((c + Suc (length A)) mod n)"])
       (simp_all add: free_buf_def within_refl del: tx_frags.simps)
next
  case False
  obtain S B2 where B: "B = S @ B2" "length S = extra s" "B2 \<noteq> []"
    using s(2) by (intro that [of "take (extra s) B" "drop (extra s) B"]) auto
  let ?X = "A @ h # x # B" and ?h = "h\<lparr>tb_len := s, tb_dma := dma\<rparr>" and ?G = "x # S"
  have X: "?X[length A := (?X ! length A)\<lparr>tb_len := s, tb_dma := dma\<rparr>] = (A @ ?h # ?G) @ B2" using B by simp
  have G: "\<forall>b \<in> set ?G. free_buf b" using free B by auto
  show ?thesis
  proof (cases fs)
    case Nil
    from run_tx_piece [of ?X n r "length A" "Suc (length A)" s c dma cmd, unfolded X] len s B obtain s' D where
      run: "run_state (do {
         upd_buf ((c + length A) mod n) (\<lambda>tb. tb\<lparr>tb_len := s, tb_dma := dma\<rparr>);
         upd_desc ((c + Suc (length A)) mod n) (\<lambda>d. d\<lparr>buffer_addr := dma\<rparr>);
         tx_split cmd dma s ((c + Suc (length A)) mod n) }) (view c ?X r) =
       ((s', (c + (Suc (length A) + extra s)) mod n), view c ((A @ ?h # ?G) @ B2) (r\<lparr>tx_descs := D\<rparr>))"
      and w: "within c n (Suc (length A)) (Suc (length A) + extra s) (tx_descs r) D" by auto
    have "run_state (tx_frags E cmd fs d (dma, err) s ((c + Suc (length A)) mod n) ((c + length A) mod n)) (view c ?X r) =
        (Inr (s', (c + (Suc (length A) + extra s)) mod n),
         view c (A @ ?h # ?G @ B2) (r\<lparr>tx_descs := D, ring_ev := [] @ ring_ev r\<rparr>))"
      using run False Nil by (auto simp: split_def)
    moreover have "within c n (length A) (length A + Suc (slots [s])) (tx_descs r) D" by (rule within_mono [OF w]) simp_all
    moreover have "page_maps ?G = []" using G by (rule free_no_maps)
    ultimately show ?thesis using len s B False Nil free G
      by (intro head_okI [where M = ?G and B = B2 and D = D and evs = "[]"
            and res = "Inr (s', (c + (Suc (length A) + extra s)) mod n)"])
         (auto simp: free_buf_def simp del: tx_frags.simps)
  next
    case (Cons f fs')
    let ?e = "ring_ev r"
    let ?a = "dma_addr E ?e" and ?f = "dma_fails E ?e"
    let ?ev = "if ?f then Dma_map_failed Page f else Dma_map Page ?a f" and ?A = "A @ ?h # ?G"
    have d': "d \<noteq> 0" "f \<noteq> 0" "frags_ok (d - f) fs'" using frags_ok_Cons d Cons by auto
    from run_tx_frags_step [of ?X n r "length A" "Suc (length A)" s d E cmd f fs' dma c, unfolded X]
      len s B d'(1) False Cons obtain D where
      run: "run_state (tx_frags E cmd fs d (dma, err) s ((c + Suc (length A)) mod n) ((c + length A) mod n)) (view c ?X r) =
        run_state (tx_frags E cmd fs' (d - f) (?a, ?f) f ((c + length ?A) mod n) ((c + length ?A) mod n))
         (view c (?A @ B2) (r\<lparr>tx_descs := D, ring_ev := ?ev # ?e\<rparr>))" (is "_ = run_state _ (view c _ ?r)")
      and w: "within c n (Suc (length A)) (Suc (Suc (length A) + extra s)) (tx_descs r) D"
      by (auto simp: Let_def)
    have ok: "mapped_ok c n ?A (slots (f # fs')) (if ?f then [] else [(Page, ?a, f)]) ?r
       (run_state (tx_frags E cmd fs' (d - f) (?a, ?f) f ((c + length ?A) mod n) ((c + length ?A) mod n)) (view c (?A @ B2) ?r))"
      by (rule run_tx_frags) (use len B d' free s Cons in simp_all)
    have w': "within c n (length A) (length A + Suc (slots (s # fs))) (tx_descs r) D"
      by (rule within_mono [OF w]) (simp_all add: Cons)
    show ?thesis unfolding run if_not_P [OF False] using s B G Cons
      by (intro head_ok_extend [OF ok _ _ _ _ _ _ w']) simp_all
  qed
qed

subsection \<open>Queueing a packet\<close>

lemma desc_unused_frame: "ixgbevf_desc_unused (r\<lparr>ring_ev := h\<rparr>) = ixgbevf_desc_unused r"
  by (simp add: ixgbevf_desc_unused_def)

lemma ring_upd_swap:
  "(r :: ixgbevf_ring)\<lparr>restart_queue := q, ring_ev := h\<rparr> = r\<lparr>ring_ev := h, restart_queue := q\<rparr>"
  by (cases r) simp

lemma run_maybe_stop:
  "\<exists>v evs q. run_state (ixgbevf_maybe_stop_tx E m) (view c X r) =
     (v, view c X (r\<lparr>ring_ev := evs @ ring_ev r, restart_queue := q\<rparr>)) \<and>
     mapped evs = [] \<and> unmapped evs = [] \<and> freed evs = [] \<and> (v = 0 \<longleftrightarrow> m \<le> ixgbevf_desc_unused r)"
proof (cases "m \<le> ixgbevf_desc_unused r")
  case True
  then have "run_state (ixgbevf_maybe_stop_tx E m) (view c X r) =
     (0, view c X (r\<lparr>ring_ev := [] @ ring_ev r, restart_queue := restart_queue r\<rparr>))"
    by (simp add: ixgbevf_maybe_stop_tx_def)
  with True show ?thesis by (intro exI conjI) (assumption, simp_all)
next
  case False
  then have "run_state (ixgbevf_maybe_stop_tx E m) (view c X r) =
     (- EBUSY, view c X (r\<lparr>ring_ev := [Stop_subqueue] @ ring_ev r, restart_queue := restart_queue r\<rparr>))"
    by (simp add: ixgbevf_maybe_stop_tx_def maybe_stop_tx_slow_def run_tx_ev desc_unused_frame)
  with False show ?thesis by (intro exI conjI) (assumption, simp_all)
qed

text \<open>
  What handing one packet to the ring leads to, from a ring with pending buffers \<open>A\<close>: it is dropped, with
  the mappings undone, its slots free and the packet freed; or it is queued behind \<open>A\<close>.
\<close>

definition same_frame :: "ixgbevf_ring \<Rightarrow> ixgbevf_ring \<Rightarrow> bool" where
  "same_frame r r' \<longleftrightarrow> count r' = count r \<and> next_to_clean r' = next_to_clean r \<and>
     length (tx_descs r') = length (tx_descs r) \<and> ring_state r' = ring_state r \<and>
     st_packets r' = st_packets r \<and> st_bytes r' = st_bytes r"

definition dropped :: "nat \<Rightarrow> ixgbevf_tx_buffer list \<Rightarrow> nat option \<Rightarrow> ixgbevf_ring \<Rightarrow> ixgbevf_ring \<Rightarrow> bool" where
  "dropped c A skb r r' \<longleftrightarrow> same_frame r r' \<and> next_to_use r' = (c + length A) mod count r \<and>
     (\<exists>F evs. tx_buffer_info r' = unrot c (A @ F) \<and> length (A @ F) = count r \<and> F \<noteq> [] \<and>
       (\<forall>b \<in> set F. free_buf b) \<and> ring_ev r' = evs @ ring_ev r \<and>
       mset (mapped evs) = mset (unmapped evs) \<and> freed evs = (case skb of None \<Rightarrow> [] | Some s \<Rightarrow> [s]) \<and>
       within c (count r) (length A) (count r - 2) (tx_descs r) (tx_descs r'))"

definition queued :: "nat \<Rightarrow> ixgbevf_tx_buffer list \<Rightarrow> nat option \<Rightarrow> ixgbevf_ring \<Rightarrow> ixgbevf_ring \<Rightarrow> bool" where
  "queued c A skb r r' \<longleftrightarrow> same_frame r r' \<and>
     (\<exists>g F evs. tx_buffer_info r' = unrot c (A @ g @ F) \<and> length (A @ g @ F) = count r \<and> F \<noteq> [] \<and>
       next_to_use r' = (c + length (A @ g)) mod count r \<and> packet (count r) (c + length A) g \<and>
       (\<forall>b \<in> set F. free_buf b) \<and> ring_ev r' = evs @ ring_ev r \<and>
       mapped evs = mappings g \<and> unmapped evs = [] \<and> freed evs = [] \<and> tb_skb (hd g) = skb \<and>
       within c (count r) (length A) (count r - 2) (tx_descs r) (tx_descs r'))"

lemma queuedI:
  assumes "same_frame r r'" "tx_buffer_info r' = unrot c (A @ g @ F)" "length (A @ g @ F) = count r" "F \<noteq> []"
    and "next_to_use r' = (c + length (A @ g)) mod count r" "packet (count r) (c + length A) g"
    and "\<forall>b \<in> set F. free_buf b" "ring_ev r' = evs @ ring_ev r"
    and "mapped evs = mappings g" "unmapped evs = []" "freed evs = []" "tb_skb (hd g) = skb"
    and "within c (count r) (length A) (count r - 2) (tx_descs r) (tx_descs r')"
  shows "queued c A skb r r'"
  using assms unfolding queued_def by blast

lemma run_tx_map_finish:
  assumes len: "length (A @ h # M @ B) = n" "n = count r" and B: "B \<noteq> []" "\<forall>b \<in> set B. free_buf b"
    and M: "\<forall>b \<in> set M. next_to_watch b = None"
    and i: "i = (c + (length A + length M)) mod n" and hi: "length A + length M \<le> n - 2"
  shows "\<exists>ts D evs q. run_state (tx_map_finish E cmd ((c + length A) mod n) s i) (view c (A @ h # M @ B) r) =
     ((), view c (A @ (h\<lparr>time_stamp := ts, next_to_watch := Some i\<rparr> # M) @ B)
       (r\<lparr>tx_descs := D, next_to_use := (c + (length A + Suc (length M))) mod n, ring_ev := evs @ ring_ev r, restart_queue := q\<rparr>)) \<and>
     mapped evs = [] \<and> unmapped evs = [] \<and> freed evs = [] \<and> within c n (length A) (n - 2) (tx_descs r) D"
proof -
  let ?p = "(c + length A) mod n" and ?X = "\<lambda>h. A @ h # M @ B"
  have n: "0 < n" using len by simp
  have get: "run_state (get_buf ?p) (view c (?X h) r') = (h, view c (?X h) r')" if "count r' = n" for h r'
    using run_get_buf [of "length A" "?X h" n c r'] len by simp
  have upd: "run_state (upd_buf ?p f) (view c (?X h) r') = ((), view c (?X (f h)) r')" if "count r' = n" for f h r'
    using run_upd_buf [of "length A" "?X h" n c f r'] len by simp
  have nx: "run_state (next_idx i) (view c X r') = ((c + (length A + Suc (length M))) mod n, view c X r')"
    if "count r' = n" for X r'
    using run_next_idx [of n r' c "length A + length M" X] that n i by simp
  have nu: "run_state (modify (\<lambda>r. r\<lparr>next_to_use := j\<rparr>)) (view c X r') = ((), view c X (r'\<lparr>next_to_use := j\<rparr>))" for j X r'
    by (simp add: view_def)
  let ?D = "(tx_descs r)[i := (tx_descs r ! i)\<lparr>cmd_type_len := cmd OR s OR IXGBE_TXD_CMD\<rparr>]"
  let ?ev = "Tx_sent (bytecount h) # ring_ev r"
  let ?h = "h\<lparr>time_stamp := tx_jiffies E ?ev, next_to_watch := Some i\<rparr>"
  define r1 where "r1 = r\<lparr>tx_descs := ?D, ring_ev := ?ev, next_to_use := (c + (length A + Suc (length M))) mod n\<rparr>"
  obtain v evs q where ms: "run_state (ixgbevf_maybe_stop_tx E (DESC_NEEDED E)) (view c (?X ?h) r1) =
      (v, view c (?X ?h) (r1\<lparr>ring_ev := evs @ ring_ev r1, restart_queue := q\<rparr>))"
    and ev: "mapped evs = []" "unmapped evs = []" "freed evs = []"
    using run_maybe_stop [of E "DESC_NEEDED E" c "?X ?h" r1] by blast
  let ?h1 = "evs @ ring_ev r1"
  let ?w = "if \<not> xmit_more E ?h1 \<or> xmit_stopped E ?h1 then [Write_tail ((c + (length A + Suc (length M))) mod n)] else []"
  have run: "run_state (tx_map_finish E cmd ?p s i) (view c (?X h) r) =
     ((), view c (?X ?h) (r1\<lparr>ring_ev := ?w @ ?h1, restart_queue := q\<rparr>))"
    using ms len(2) [symmetric] unfolding tx_map_finish_def r1_def
    by (simp add: run_upd_desc get upd nx nu run_tx_ev run_whenM ring_upd_swap del: run_modify)
  have "within c n (length A) (n - 2) (tx_descs r) ?D"
    unfolding i by (intro within_update within_refl) (use hi len in simp_all)
  then show ?thesis unfolding run using ev
    by (intro exI [of _ "tx_jiffies E ?ev"] exI [of _ ?D] exI [of _ "?w @ evs @ [Tx_sent (bytecount h)]"] exI [of _ q])
       (simp add: r1_def history_append)
qed

lemma view_view [simp]: "view c X (view c' Y r) = view c X r"
  by (simp add: view_def)

lemma run_tx_map:
  assumes len: "length (A @ h # x # B) = count r" and free: "free_buf h" "\<forall>b \<in> set (x # B). free_buf b"
    and use: "next_to_use r = (c + Suc (length A)) mod count r"
    and skb: "sk_headlen skb \<noteq> 0" "frags_ok (sk_data_len skb) (sk_frags skb)"
    and room: "slots (sk_headlen skb # sk_frags skb) < length B"
    and run: "run_state (ixgbevf_tx_map E skb ((c + length A) mod count r) hdr_len) (view c (A @ h # x # B) r) = ((), r')"
  shows "dropped c A (tb_skb h) r r' \<or> queued c A (tb_skb h) r r'"
proof -
  let ?n = "count r" and ?p = "(c + length A) mod count r" and ?X = "A @ h # x # B"
  let ?hl = "sk_headlen skb" and ?fs = "sk_frags skb" and ?e = "ring_ev r" and ?i = "(c + Suc (length A)) mod count r"
  let ?dma = "dma_addr E ?e" and ?err = "dma_fails E ?e"
  let ?ev = "if ?err then Dma_map_failed Single ?hl else Dma_map Single ?dma ?hl"
  define cmd where "cmd = ixgbevf_tx_cmd_type (tb_tx_flags h)"
  define D0 where "D0 = (tx_descs r)[?i := (tx_descs r ! ?i)\<lparr>olinfo_status :=
      ixgbevf_tx_olinfo_status (tb_tx_flags h) (sk_len skb - ucast hdr_len)\<rparr>]"
  define r0 where "r0 = r\<lparr>tx_descs := D0, ring_ev := ?ev # ?e\<rparr>"
  define h' where "h' = (if ?err then h else h\<lparr>tb_len := ?hl, tb_dma := ?dma\<rparr>)"
  define fr where "fr = run_state (tx_frags E cmd ?fs (sk_data_len skb) (?dma, ?err) ?hl ?i ?p) (view c ?X r0)"
  have get: "run_state (get_buf ?p) (view c ?X r1) = (h, view c ?X r1)" for r1
    using run_get_buf [of "length A" ?X ?n c r1] len by simp
  have run': "((), r') = (case fr of (Inl i, s) \<Rightarrow> run_state (tx_map_error ?p i) s
      | (Inr (size', i), s) \<Rightarrow> run_state (tx_map_finish E cmd ?p size' i) s)"
    using run unfolding ixgbevf_tx_map_def fr_def cmd_def r0_def D0_def
    by (auto simp: get use run_upd_desc run_dma_map Let_def split: sum.splits prod.splits)
  have w0: "within c ?n (length A) (?n - 2) (tx_descs r) D0"
    unfolding D0_def by (intro within_update within_refl) (use len room in auto)
  have "head_ok c ?n A h' (Suc (slots (?hl # ?fs))) r0 fr"
    unfolding fr_def h'_def by (rule run_tx_frags_head) (use len free skb room in \<open>auto simp: r0_def\<close>)
  then obtain res M B' D evs where
    fr: "fr = (res, view c (A @ h' # M @ B') (r0\<lparr>tx_descs := D, ring_ev := evs @ ring_ev r0\<rparr>))"
    and len': "length (A @ h' # M @ B') = ?n" and M: "M \<noteq> []" "\<forall>b \<in> set M. next_to_watch b = None"
    and B': "\<forall>b \<in> set B'. free_buf b" and ev: "page_maps M = mapped evs" "unmapped evs = []" "freed evs = []"
    and res: "case res of Inl i \<Rightarrow> i = (c + (length A + length M)) mod ?n
      | Inr (s, i) \<Rightarrow> B' \<noteq> [] \<and> tb_len h' \<noteq> 0 \<and> i = (c + (length A + length M)) mod ?n"
    and w1: "within c ?n (length A) (length A + Suc (slots (?hl # ?fs))) D0 D"
    unfolding head_ok_def by (auto simp: r0_def)
  have w: "within c ?n (length A) (?n - 2) (tx_descs r) D"
    by (rule within_trans [OF w0 within_mono [OF w1]]) (use len room in auto)
  have hmap: "mapped [?ev] = (if tb_len h' = 0 then [] else [head_map h'])" "tb_skb h' = tb_skb h"
    "next_to_watch h' = None"
    using skb(1) free(1) by (auto simp: h'_def head_map_def free_buf_def)
  let ?r1 = "r0\<lparr>tx_descs := D, ring_ev := evs @ ring_ev r0\<rparr>"
  have r1: "count ?r1 = ?n" by (simp add: r0_def)
  show ?thesis
  proof (cases res)
    case (Inl i)
    then have i: "i = (c + (length A + length M)) mod ?n" using res by simp
    let ?u = "Free_skb (tb_skb h) # (if tb_len h' \<noteq> 0 then [Dma_unmap Single (tb_dma h') (tb_len h')] else []) @
          unmaps (page_maps M)"
    let ?F = "(clr h')\<lparr>tb_skb := None\<rparr> # map clr M @ B'"
    have r': "r' = view c (A @ ?F) (?r1\<lparr>ring_ev := ?u @ ring_ev ?r1, next_to_use := ?p\<rparr>)"
      using run' run_tx_map_error [of A h' M B' ?r1 c, unfolded r1, OF len'] Inl fr i hmap by simp
    have "\<forall>b \<in> set ?F. free_buf b" using M B' hmap by (auto simp: free_buf_def clr_def)
    moreover have "mset (mapped (?u @ evs @ [?ev])) = mset (unmapped (?u @ evs @ [?ev]))"
      using hmap ev by (auto simp: history_append head_map_def)
    moreover have "freed (?u @ evs @ [?ev]) = (case tb_skb h of None \<Rightarrow> [] | Some s \<Rightarrow> [s])"
      using ev by (simp add: history_append)
    moreover have "same_frame r r'" using w by (simp add: r' same_frame_def r0_def within_def)
    moreover have "tx_buffer_info r' = unrot c (A @ ?F)" "next_to_use r' = ?p"
      "ring_ev r' = (?u @ evs @ [?ev]) @ ring_ev r" "tx_descs r' = D"
      by (simp_all add: r' r0_def)
    moreover have "length (A @ ?F) = ?n" "?F \<noteq> []" using len' by simp_all
    ultimately have "dropped c A (tb_skb h) r r'"
      unfolding dropped_def using w by blast
    then show ?thesis ..
  next
    case (Inr v)
    then obtain s i where v: "res = Inr (s, i)" by (cases v) auto
    with res have i: "i = (c + (length A + length M)) mod ?n" and B1: "B' \<noteq> []" and hl: "tb_len h' \<noteq> 0" by auto
    have hi: "length A + length M \<le> ?n - 2" using len' B1 by (cases B') auto
    from run_tx_map_finish [OF len' r1 [symmetric] B1 B' M(2) i hi, of E cmd s] obtain ts D' evs' q where
      fin: "run_state (tx_map_finish E cmd ?p s i) (view c (A @ h' # M @ B') ?r1) =
       ((), view c (A @ (h'\<lparr>time_stamp := ts, next_to_watch := Some i\<rparr> # M) @ B')
         (?r1\<lparr>tx_descs := D', next_to_use := (c + (length A + Suc (length M))) mod ?n, ring_ev := evs' @ ring_ev ?r1, restart_queue := q\<rparr>))"
      and ev': "mapped evs' = []" "unmapped evs' = []" "freed evs' = []"
      and w2': "within c ?n (length A) (?n - 2) (tx_descs ?r1) D'" by blast
    have w2: "within c ?n (length A) (?n - 2) D D'" using w2' by simp
    let ?g = "h'\<lparr>time_stamp := ts, next_to_watch := Some i\<rparr> # M"
    have r': "r' = view c (A @ ?g @ B') (?r1\<lparr>tx_descs := D', next_to_use := (c + length (A @ ?g)) mod ?n, ring_ev := evs' @ ring_ev ?r1, restart_queue := q\<rparr>)"
      using run' fin v fr by simp
    have "packet ?n (c + length A) ?g" using M i by (simp add: packet_def add.assoc)
    moreover have "mapped (evs' @ evs @ [?ev]) = mappings ?g" "unmapped (evs' @ evs @ [?ev]) = []"
      "freed (evs' @ evs @ [?ev]) = []"
      using hmap hl ev ev' by (simp_all add: history_append mappings_def head_map_def)
    moreover have "same_frame r r'" using w w2 by (simp add: r' same_frame_def r0_def within_def)
    moreover have "tx_buffer_info r' = unrot c (A @ ?g @ B')" "next_to_use r' = (c + length (A @ ?g)) mod ?n"
      "ring_ev r' = (evs' @ evs @ [?ev]) @ ring_ev r" "within c ?n (length A) (?n - 2) (tx_descs r) (tx_descs r')"
      using within_trans [OF w w2] by (simp_all add: r' r0_def)
    moreover have "length (A @ ?g @ B') = ?n" "tb_skb (hd ?g) = tb_skb h" using len' hmap by simp_all
    ultimately have "queued c A (tb_skb h) r r'"
      using B1 B' by (intro queuedI [where g = ?g and F = B' and evs = "evs' @ evs @ [?ev]"]) assumption+
    then show ?thesis ..
  qed
qed

end
