(* ===== verification/Tx_Props.thy ===== *)
theory Tx_Props
  imports Tx_Xmit Ledger
begin

text \<open>
  The transmit path as a whole: \<open>ixgbevf_xmit_frame_ring\<close> and \<open>ixgbevf_clean_tx_irq\<close>'s ring work as
  operations on a queue of packets, their interleavings as a step relation, and the conservation of
  DMA mappings and packets over every reachable state of the ring.
\<close>

subsection \<open>Offloads\<close>

text \<open>Updates of the head's buffer that leave what the ring keeps of a packet alone.\<close>

definition same_pkt :: "ixgbevf_tx_buffer \<Rightarrow> ixgbevf_tx_buffer \<Rightarrow> bool" where
  "same_pkt h h' \<longleftrightarrow> tb_skb h' = tb_skb h \<and> next_to_watch h' = next_to_watch h \<and> tb_len h' = tb_len h"

lemma same_pkt_free: "same_pkt h h' \<Longrightarrow> free_buf h' = free_buf h"
  by (simp add: same_pkt_def free_buf_def)

definition ctx_written ::
    "nat \<Rightarrow> ixgbevf_tx_buffer list \<Rightarrow> ixgbevf_tx_buffer \<Rightarrow> ixgbevf_tx_buffer list \<Rightarrow> ixgbevf_ring \<Rightarrow> ixgbevf_ring \<Rightarrow> bool" where
  "ctx_written c A h T r r' \<longleftrightarrow> (\<exists>h' D evs. same_pkt h h' \<and>
     r' = view c (A @ h' # T) (r\<lparr>next_to_use := (c + Suc (length A)) mod count r, tx_descs := D, ring_ev := evs @ ring_ev r\<rparr>) \<and>
     within c (count r) (length A) (length A) (tx_descs r) D \<and> mapped evs = [] \<and> unmapped evs = [] \<and> freed evs = [])"

lemma run_set_use:
  "run_state (modify (\<lambda>r. r\<lparr>next_to_use := f r\<rparr>)) (view c X r) = ((), view c X (r\<lparr>next_to_use := f (view c X r)\<rparr>))"
  by (simp add: view_def)

lemma run_ctxtdesc:
  assumes "next_to_use r = (c + j) mod n" and "n = count r" and "j < n"
  shows "\<exists>D. run_state (ixgbevf_tx_ctxtdesc a t m) (view c X r) =
      ((), view c X (r\<lparr>next_to_use := (c + Suc j) mod n, tx_descs := D\<rparr>)) \<and> within c n j j (tx_descs r) D"
proof -
  let ?p = "(c + j) mod n"
  let ?D = "(tx_descs r)[?p := \<lparr>buffer_addr = ucast a, cmd_type_len = t OR (IXGBE_TXD_CMD_DEXT OR IXGBE_ADVTXD_DTYP_CTXT),
      olinfo_status = m\<rparr>]"
  have p: "?p < n" using assms(3) by (simp add: mod_less_divisor)
  have "(if ?p + 1 < n then ?p + 1 else 0) = (c + Suc j) mod n"
    using p by (auto simp: mod_Suc)
  then have "run_state (ixgbevf_tx_ctxtdesc a t m) (view c X r) =
      ((), view c X (r\<lparr>next_to_use := (c + Suc j) mod n, tx_descs := ?D\<rparr>))"
    using assms(1) unfolding assms(2) [symmetric] ixgbevf_tx_ctxtdesc_def
    by (simp add: run_upd_desc run_set_use Let_def assms(2) [symmetric] del: run_modify split del: if_split)
  moreover have "within c n j j (tx_descs r) ?D" by (intro within_update within_refl) (use assms in auto)
  ultimately show ?thesis by blast
qed

text \<open>The rest of the argument fixes the slot of the head at position \<open>length A\<close>.\<close>

lemma run_head:
  assumes "length (A @ h # T) = n"
  shows "run_state (get_buf ((c + length A) mod n)) (view c (A @ h # T) r) = (h, view c (A @ h # T) r)"
    and "run_state (upd_buf ((c + length A) mod n) f) (view c (A @ h # T) r) = ((), view c (A @ f h # T) r)"
  using run_get_buf [of "length A" "A @ h # T" n c r] run_upd_buf [of "length A" "A @ h # T" n c _ r] assms
  by simp_all

lemma ctx_writtenI:
  assumes run: "run_state (ixgbevf_tx_ctxtdesc a t m) (view c (A @ h' # T) (r\<lparr>ring_ev := evs @ ring_ev r\<rparr>)) = ((), r')"
    and "same_pkt h h'" and len: "length (A @ h # T) = count r" and use: "next_to_use r = (c + length A) mod count r"
    and "mapped evs = []" "unmapped evs = []" "freed evs = []"
  shows "ctx_written c A h T r r'"
proof -
  let ?r = "r\<lparr>ring_ev := evs @ ring_ev r\<rparr>" and ?X = "A @ h' # T"
  have "next_to_use ?r = (c + length A) mod count r" "count r = count ?r" "length A < count r"
    using len use by simp_all
  from run_ctxtdesc [OF this, of a t m ?X] obtain D where
    1: "run_state (ixgbevf_tx_ctxtdesc a t m) (view c ?X ?r) =
      ((), view c ?X (?r\<lparr>next_to_use := (c + Suc (length A)) mod count r, tx_descs := D\<rparr>))"
    and w': "within c (count r) (length A) (length A) (tx_descs ?r) D" by blast
  from w' have w: "within c (count r) (length A) (length A) (tx_descs r) D" by simp
  from trans [OF run [symmetric] 1]
  have r': "r' = view c ?X (?r\<lparr>next_to_use := (c + Suc (length A)) mod count r, tx_descs := D\<rparr>)" by simp
  have swap: "r\<lparr>ring_ev := e, next_to_use := u, tx_descs := D\<rparr> = r\<lparr>next_to_use := u, tx_descs := D, ring_ev := e\<rparr>" for e u
    by (cases r) simp
  show ?thesis unfolding ctx_written_def r' swap using assms(2,5-7) w
    by (intro exI [of _ h'] exI [of _ D] exI [of _ evs]) simp
qed

lemmas ctx_writtenI_quiet = ctx_writtenI [where evs = "[]", simplified]

lemma run_tso:
  assumes len: "length (A @ h # T) = count r" and use: "next_to_use r = (c + length A) mod count r"
    and run: "run_state (ixgbevf_tso skb ((c + length A) mod count r)) (view c (A @ h # T) r) = ((t, hl), r')"
  shows "(r' = view c (A @ h # T) r \<and> (t = 0 \<or> t = sk_cow_err skb)) \<or> (t = 1 \<and> ctx_written c A h T r r')"
proof (cases "sk_partial skb \<and> sk_gso_size skb \<noteq> 0 \<and> sk_cow_err skb = 0")
  case False
  then show ?thesis using run by (auto simp: ixgbevf_tso_def split: if_splits)
next
  case True
  have hd: "run_state (get_buf ((c + length A) mod count r)) (view c (A @ h # T) r) = (h, view c (A @ h # T) r)"
    "run_state (upd_buf ((c + length A) mod count r) f) (view c (A @ h # T) r) = ((), view c (A @ f h # T) r)" for h f
    using run_head [where A = A and T = T and n = "count r"] len by simp_all
  note w = ctx_writtenI_quiet [of _ _ _ c A _ T r r' h]
  from True run show ?thesis
    by (auto simp: ixgbevf_tso_def hd Let_def split: prod.splits intro!: w)
       (use len use in \<open>auto simp: same_pkt_def\<close>)
qed

lemma run_csum:
  assumes len: "length (A @ h # T) = count r" and use: "next_to_use r = (c + length A) mod count r"
    and run: "run_state (ixgbevf_tx_csum skb ((c + length A) mod count r)) (view c (A @ h # T) r) = ((), r')"
  shows "ctx_written c A h T r r'"
proof -
  have hd: "run_state (get_buf ((c + length A) mod count r)) (view c (A @ h # T) r0) = (h, view c (A @ h # T) r0)"
    "run_state (upd_buf ((c + length A) mod count r) f) (view c (A @ h # T) r0) = ((), view c (A @ f h # T) r0)" for h f r0
    using run_head [where A = A and T = T and n = "count r"] len by simp_all
  show ?thesis
  proof (cases "sk_partial skb \<and> csum_type skb h = None")
    case True
    then show ?thesis using run len use
      by (intro ctx_writtenI [where evs = "[Checksum_help (sk_id skb)]" and h' = h])
         (auto simp: ixgbevf_tx_csum_def hd run_tx_ev Let_def same_pkt_def)
  next
    case False
    then show ?thesis
    proof (cases "sk_partial skb")
      case True
      with False obtain t where "csum_type skb h = Some t" by auto
      with True show ?thesis using run len use
        by (intro ctx_writtenI_quiet [where h' = "h\<lparr>tb_tx_flags := tb_tx_flags h OR IXGBE_TX_FLAGS_CSUM\<rparr>"])
           (auto simp: ixgbevf_tx_csum_def hd Let_def same_pkt_def)
    next
      case False
      then show ?thesis using run len use
        by (intro ctx_writtenI_quiet [where h' = h]) (auto simp: ixgbevf_tx_csum_def hd Let_def same_pkt_def)
    qed
  qed
qed

subsection \<open>Transmitting a packet\<close>

text \<open>What the networking core guarantees of a packet: a non-empty head, non-empty fragments that add up to
  \<open>data_len\<close>, fewer than 65536 descriptors' worth of data, and \<open>skb_cow_head\<close> returning zero or a negative error.\<close>

definition skb_ok :: "sk_buff \<Rightarrow> bool" where
  "skb_ok skb \<longleftrightarrow> sk_headlen skb \<noteq> 0 \<and> frags_ok (sk_data_len skb) (sk_frags skb) \<and> sk_cow_err skb \<le> 0 \<and>
     slots (sk_headlen skb # sk_frags skb) < 2 ^ 16"

text \<open>A step that leads from \<open>r\<close> to \<open>r1\<close> without mapping, unmapping or freeing anything.\<close>

definition quiet_to :: "nat \<Rightarrow> nat \<Rightarrow> ixgbevf_ring \<Rightarrow> ixgbevf_ring \<Rightarrow> bool" where
  "quiet_to c k r r1 \<longleftrightarrow> same_frame r r1 \<and> within c (count r) k (count r - 2) (tx_descs r) (tx_descs r1) \<and>
     (\<exists>evs. ring_ev r1 = evs @ ring_ev r \<and> mapped evs = [] \<and> unmapped evs = [] \<and> freed evs = [])"

lemma same_frame_trans: "same_frame r r1 \<Longrightarrow> same_frame r1 r2 \<Longrightarrow> same_frame r r2"
  by (simp add: same_frame_def)

lemma quiet_dropped:
  assumes q: "quiet_to c (length A) r r1" and d: "dropped c A skb r1 r'"
  shows "dropped c A skb r r'"
proof -
  from q obtain e where fr: "same_frame r r1" and w: "within c (count r) (length A) (count r - 2) (tx_descs r) (tx_descs r1)"
    and e: "ring_ev r1 = e @ ring_ev r" "mapped e = []" "unmapped e = []" "freed e = []" by (auto simp: quiet_to_def)
  have n: "count r1 = count r" using fr by (simp add: same_frame_def)
  from d [unfolded dropped_def n] obtain F evs where
    1: "same_frame r1 r'" "next_to_use r' = (c + length A) mod count r" "tx_buffer_info r' = unrot c (A @ F)"
      "length (A @ F) = count r" "F \<noteq> []" "\<forall>b \<in> set F. free_buf b" "ring_ev r' = evs @ ring_ev r1"
    and 2: "mset (mapped evs) = mset (unmapped evs)" "freed evs = (case skb of None \<Rightarrow> [] | Some s \<Rightarrow> [s])"
    and 3: "within c (count r) (length A) (count r - 2) (tx_descs r1) (tx_descs r')" by blast
  have "ring_ev r' = (evs @ e) @ ring_ev r" "mset (mapped (evs @ e)) = mset (unmapped (evs @ e))"
    "freed (evs @ e) = (case skb of None \<Rightarrow> [] | Some s \<Rightarrow> [s])"
    using 1(7) 2 e by (simp_all add: history_append)
  then show ?thesis unfolding dropped_def
    using 1(2-6) same_frame_trans [OF fr 1(1)] within_trans [OF w 3] by blast
qed

lemma quiet_queued:
  assumes q: "quiet_to c (length A) r r1" and d: "queued c A skb r1 r'"
  shows "queued c A skb r r'"
proof -
  from q obtain e where fr: "same_frame r r1" and w: "within c (count r) (length A) (count r - 2) (tx_descs r) (tx_descs r1)"
    and e: "ring_ev r1 = e @ ring_ev r" "mapped e = []" "unmapped e = []" "freed e = []" by (auto simp: quiet_to_def)
  have n: "count r1 = count r" using fr by (simp add: same_frame_def)
  from d [unfolded queued_def n] obtain g F evs where
    1: "same_frame r1 r'" "tx_buffer_info r' = unrot c (A @ g @ F)" "length (A @ g @ F) = count r" "F \<noteq> []"
      "next_to_use r' = (c + length (A @ g)) mod count r" "packet (count r) (c + length A) g"
      "\<forall>b \<in> set F. free_buf b" "ring_ev r' = evs @ ring_ev r1"
    and 2: "mapped evs = mappings g" "unmapped evs = []" "freed evs = []" "tb_skb (hd g) = skb"
    and 3: "within c (count r) (length A) (count r - 2) (tx_descs r1) (tx_descs r')" by blast
  have "ring_ev r' = (evs @ e) @ ring_ev r" "mapped (evs @ e) = mappings g" "unmapped (evs @ e) = []" "freed (evs @ e) = []"
    using 1(8) 2 e by (simp_all add: history_append)
  then show ?thesis
    by (intro queuedI [OF same_frame_trans [OF fr 1(1)] 1(2-7) _ _ _ _ 2(4) within_trans [OF w 3]])
qed

lemma run_xmit_drop:
  assumes "length (A @ h # T) = count r" and "free_buf h" and "\<forall>b \<in> set T. free_buf b"
    and "next_to_use r = (c + length A) mod count r"
  shows "\<exists>r'. run_state (xmit_drop ((c + length A) mod count r)) (view c (A @ h # T) r) = (NETDEV_TX_OK, r') \<and>
    dropped c A (tb_skb h) r r'"
proof -
  let ?h = "h\<lparr>tb_skb := None\<rparr>"
  let ?r' = "view c (A @ ?h # T) (r\<lparr>ring_ev := [Free_skb (tb_skb h)] @ ring_ev r\<rparr>)"
  have "run_state (xmit_drop ((c + length A) mod count r)) (view c (A @ h # T) r) = (NETDEV_TX_OK, ?r')"
    unfolding xmit_drop_def using run_head [where A = A and T = T and n = "count r"] assms(1) by (simp add: run_tx_ev)
  moreover have "dropped c A (tb_skb h) r ?r'" unfolding dropped_def using assms
    by (intro conjI exI [of _ "?h # T"] exI [of _ "[Free_skb (tb_skb h)]"])
       (auto simp: same_frame_def free_buf_def within_refl)
  ultimately show ?thesis by blast
qed

text \<open>From the slot of the head on: offloads, then the mapping, or the error of \<open>skb_cow_head\<close>.\<close>

definition xmit_tail :: "txenv \<Rightarrow> sk_buff \<Rightarrow> nat \<Rightarrow> int ringop" where
  "xmit_tail E skb first = do {
     (tso, hdr_len) \<leftarrow> ixgbevf_tso skb first;
     if tso < 0 then xmit_drop first
     else do {
       whenM (tso = 0) (ixgbevf_tx_csum skb first);
       ixgbevf_tx_map E skb first hdr_len;
       ret NETDEV_TX_OK } }"

lemma run_mapped_tail:
  assumes ctx: "ctx_written c A h (x # B) r r1" and len: "length (A @ h # x # B) = count r"
    and free: "free_buf h" "\<forall>b \<in> set (x # B). free_buf b" and skb: "skb_ok skb"
    and room: "slots (sk_headlen skb # sk_frags skb) < length B"
    and run: "run_state (ixgbevf_tx_map E skb ((c + length A) mod count r) hdr) r1 = ((), r')"
  shows "dropped c A (tb_skb h) r r' \<or> queued c A (tb_skb h) r r'"
proof -
  from ctx obtain h' D evs where h': "same_pkt h h'"
    and r1: "r1 = view c (A @ h' # x # B) (r\<lparr>next_to_use := (c + Suc (length A)) mod count r, tx_descs := D, ring_ev := evs @ ring_ev r\<rparr>)"
      (is "_ = view c _ ?r")
    and w: "within c (count r) (length A) (length A) (tx_descs r) D"
    and ev: "mapped evs = []" "unmapped evs = []" "freed evs = []" unfolding ctx_written_def by blast
  have q: "quiet_to c (length A) r ?r" unfolding quiet_to_def using within_mono [OF w] w len room ev
    by (auto simp: same_frame_def within_def)
  have "dropped c A (tb_skb h') ?r r' \<or> queued c A (tb_skb h') ?r r'"
    by (rule run_tx_map [where x = x and B = B and skb = skb and E = E and hdr_len = hdr])
       (use len h' free skb room run in \<open>simp_all add: same_pkt_free skb_ok_def r1\<close>)
  then show ?thesis using q h' quiet_dropped quiet_queued by (auto simp: same_pkt_def)
qed

lemma run_xmit_tail:
  assumes len: "length (A @ h # x # B) = count r" and free: "free_buf h" "\<forall>b \<in> set (x # B). free_buf b"
    and use: "next_to_use r = (c + length A) mod count r" and skb: "skb_ok skb"
    and room: "slots (sk_headlen skb # sk_frags skb) < length B"
    and run: "run_state (xmit_tail E skb ((c + length A) mod count r)) (view c (A @ h # x # B) r) = (v, r')"
  shows "v = NETDEV_TX_OK \<and> (dropped c A (tb_skb h) r r' \<or> queued c A (tb_skb h) r r')"
proof -
  let ?p = "(c + length A) mod count r" and ?V = "view c (A @ h # x # B) r"
  obtain t hl r1 where tso: "run_state (ixgbevf_tso skb ?p) ?V = ((t, hl), r1)" by (metis surj_pair)
  note cases = run_tso [OF len use tso]
  show ?thesis
  proof (cases "t < 0")
    case True
    then have "r1 = ?V" using cases by auto
    moreover have "\<exists>r'. run_state (xmit_drop ?p) ?V = (NETDEV_TX_OK, r') \<and> dropped c A (tb_skb h) r r'"
      by (rule run_xmit_drop) (use len free use in auto)
    ultimately show ?thesis using run tso True by (auto simp: xmit_tail_def)
  next
    case False
    obtain r2 where csum: "run_state (whenM (t = 0) (ixgbevf_tx_csum skb ?p)) r1 = ((), r2)" by (metis surj_pair unit.exhaust)
    have ctx: "ctx_written c A h (x # B) r r2"
    proof (cases "t = 0")
      case True
      then show ?thesis using run_csum [OF len use, of skb r2] csum cases by auto
    next
      case F: False
      then have "r2 = r1" using csum by simp
      moreover have "\<not> (t = sk_cow_err skb)" using False F skb by (auto simp: skb_ok_def)
      ultimately show ?thesis using cases F by auto
    qed
    obtain r3 where map: "run_state (ixgbevf_tx_map E skb ?p hl) r2 = ((), r3)" by (metis surj_pair unit.exhaust)
    have "v = NETDEV_TX_OK" "r' = r3" using run tso csum map False by (auto simp: xmit_tail_def)
    then show ?thesis using run_mapped_tail [OF ctx len free skb room map] by simp
  qed
qed

definition tx_vlan :: "sk_buff \<Rightarrow> (u32 \<times> u16) option" where
  "tx_vlan skb = (case sk_vlan_tag skb of
      Some tag \<Rightarrow> Some (push_bit IXGBE_TX_FLAGS_VLAN_SHIFT (ucast tag) OR IXGBE_TX_FLAGS_VLAN, sk_protocol skb)
    | None \<Rightarrow> if sk_protocol skb = ETH_P_8021Q then
        (case sk_vlan_hdr skb of None \<Rightarrow> None
         | Some (tci, proto) \<Rightarrow> Some (push_bit IXGBE_TX_FLAGS_VLAN_SHIFT (ucast tci), proto))
        else Some (0, sk_protocol skb))"

lemma xmit_frame_ring_tail:
  "ixgbevf_xmit_frame_ring E skb = (
     if sk_protocol skb = 0x88CC then do { tx_ev (Free_skb (Some (sk_id skb))); ret NETDEV_TX_OK }
     else do {
       busy \<leftarrow> ixgbevf_maybe_stop_tx E (xmit_count skb + 3);
       if busy \<noteq> 0 then do { modify (\<lambda>r. r\<lparr>tx_busy := tx_busy r + 1\<rparr>); ret NETDEV_TX_BUSY }
       else do {
         first \<leftarrow> gets next_to_use;
         upd_buf first (\<lambda>tb. tb\<lparr>tb_skb := Some (sk_id skb), bytecount := sk_len skb, gso_segs := 1\<rparr>);
         case tx_vlan skb of
           None \<Rightarrow> xmit_drop first
         | Some (tx_flags, protocol) \<Rightarrow> do {
             upd_buf first (\<lambda>tb. tb\<lparr>tb_tx_flags := tx_flags, tb_protocol := protocol\<rparr>);
             xmit_tail E skb first } } })"
  by (simp only: ixgbevf_xmit_frame_ring_def xmit_tail_def tx_vlan_def)

lemma quiet_refl: "quiet_to c k r r"
  by (auto simp: quiet_to_def same_frame_def within_refl intro!: exI [of _ "[]"])

lemma quiet_emit:
  "mapped evs = [] \<Longrightarrow> unmapped evs = [] \<Longrightarrow> freed evs = [] \<Longrightarrow>
     quiet_to c k r (r\<lparr>ring_ev := evs @ ring_ev r, restart_queue := q\<rparr>)"
  by (auto simp: quiet_to_def same_frame_def within_refl)

lemma xmit_frame_outcome:
  assumes inv: "ring_inv gs F r" and skb: "skb_ok skb" and c: "c = next_to_clean r"
    and run: "run_state (ixgbevf_xmit_frame_ring E skb) r = (v, r')"
  shows "(v = NETDEV_TX_BUSY \<and> length F \<le> xmit_count skb + 3 \<and> quiet_to c (length (concat gs)) r r' \<and>
            tx_buffer_info r' = tx_buffer_info r \<and> next_to_use r' = next_to_use r) \<or>
         (v = NETDEV_TX_OK \<and> (dropped c (concat gs) (Some (sk_id skb)) r r' \<or> queued c (concat gs) (Some (sk_id skb)) r r'))"
proof -
  let ?A = "concat gs" and ?n = "count r"
  have I: "c < ?n" "length (?A @ F) = ?n" "F \<noteq> []" "\<forall>b \<in> set F. free_buf b" "next_to_use r = (c + length ?A) mod ?n"
    using inv c by (simp_all add: ring_inv_def)
  have V: "r = view c (?A @ F) r" using ring_inv_view [OF inv] c by simp
  show ?thesis
  proof (cases "sk_protocol skb = 0x88CC")
    case True
    then have "v = NETDEV_TX_OK" "r' = r\<lparr>ring_ev := [Free_skb (Some (sk_id skb))] @ ring_ev r\<rparr>"
      using run by (auto simp: ixgbevf_xmit_frame_ring_def tx_ev_def)
    moreover have "tx_buffer_info r = unrot c (?A @ F)" using inv c by (simp add: ring_inv_def)
    ultimately have "dropped c ?A (Some (sk_id skb)) r r'" unfolding dropped_def using I
      by (intro conjI exI [of _ F] exI [of _ "[Free_skb (Some (sk_id skb))]"]) (simp_all add: same_frame_def within_refl)
    then show ?thesis using \<open>v = NETDEV_TX_OK\<close> by simp
  next
    case notlldp: False
    from run_maybe_stop [of E "xmit_count skb + 3" c "?A @ F" r] obtain s evs q where
      ms: "run_state (ixgbevf_maybe_stop_tx E (xmit_count skb + 3)) r =
        (s, view c (?A @ F) (r\<lparr>ring_ev := evs @ ring_ev r, restart_queue := q\<rparr>))" (is "_ = (s, view c _ ?r0)")
      and ev: "mapped evs = []" "unmapped evs = []" "freed evs = []"
      and s: "s = 0 \<longleftrightarrow> xmit_count skb + 3 \<le> ixgbevf_desc_unused r" using V by metis
    have q0: "quiet_to c (length ?A) r ?r0" by (rule quiet_emit [OF ev])
    have un: "ixgbevf_desc_unused r = length F - 1" by (rule desc_unused_inv [OF inv])
    show ?thesis
    proof (cases "s = 0")
      case False
      then have r': "v = NETDEV_TX_BUSY" "r' = (view c (?A @ F) ?r0)\<lparr>tx_busy := tx_busy r + 1\<rparr>"
        using run notlldp ms by (auto simp: ixgbevf_xmit_frame_ring_def view_def)
      then have "quiet_to c (length ?A) r r'" "tx_buffer_info r' = tx_buffer_info r" "next_to_use r' = next_to_use r"
        using q0 inv c by (auto simp: quiet_to_def same_frame_def ring_inv_def)
      then show ?thesis using r' s un False I by auto
    next
      case True
      have room: "xmit_count skb + 4 \<le> length F" using True s un I(3) by (cases F) auto
      then obtain h x B where F: "F = h # x # B" by (cases F rule: remdups_adj.cases) auto
      have slots: "slots (sk_headlen skb # sk_frags skb) < length B"
        using room F skb xmit_count_slots [of skb] by (auto simp: skb_ok_def frags_ok_def)
      have len: "length (?A @ h # x # B) = count ?r0" and use: "next_to_use ?r0 = (c + length ?A) mod count ?r0"
        using I F by simp_all
      have hd: "run_state (upd_buf ((c + length ?A) mod ?n) f) (view c (?A @ h # x # B) ?r0) = ((), view c (?A @ f h # x # B) ?r0)" for h f
        using run_head(2) [of ?A h "x # B" ?n c f ?r0] I F by simp
      let ?h = "h\<lparr>tb_skb := Some (sk_id skb), bytecount := sk_len skb, gso_segs := 1\<rparr>"
      have free: "free_buf ?h" "free_buf (?h\<lparr>tb_tx_flags := a, tb_protocol := b\<rparr>)" "\<forall>b \<in> set (x # B). free_buf b" for a b
        using I F by (auto simp: free_buf_def)
      obtain h' where h': "free_buf h'" "tb_skb h' = Some (sk_id skb)"
        and rest: "run_state (xmit_drop ((c + length ?A) mod ?n)) (view c (?A @ h' # x # B) ?r0) = (v, r') \<or>
             run_state (xmit_tail E skb ((c + length ?A) mod ?n)) (view c (?A @ h' # x # B) ?r0) = (v, r')"
      proof (cases "tx_vlan skb")
        case None
        show ?thesis by (rule that [OF free(1)]) (use run notlldp ms True use F hd None in \<open>simp_all add: xmit_frame_ring_tail\<close>)
      next
        case (Some ab)
        then obtain a b where "tx_vlan skb = Some (a, b)" by (cases ab) auto
        then show ?thesis
          by (intro that [OF free(2) [of b a]]) (use run notlldp ms True use F hd in \<open>simp_all add: xmit_frame_ring_tail\<close>)
      qed
      have "v = NETDEV_TX_OK \<and> (dropped c ?A (tb_skb h') ?r0 r' \<or> queued c ?A (tb_skb h') ?r0 r')"
        using rest
      proof
        assume d: "run_state (xmit_drop ((c + length ?A) mod ?n)) (view c (?A @ h' # x # B) ?r0) = (v, r')"
        have "\<exists>r'. run_state (xmit_drop ((c + length ?A) mod count ?r0)) (view c (?A @ h' # x # B) ?r0) = (NETDEV_TX_OK, r') \<and>
            dropped c ?A (tb_skb h') ?r0 r'"
          by (rule run_xmit_drop) (use len h' free use in simp_all)
        then show ?thesis using d by auto
      next
        assume "run_state (xmit_tail E skb ((c + length ?A) mod ?n)) (view c (?A @ h' # x # B) ?r0) = (v, r')"
        then show ?thesis
          by (intro run_xmit_tail [where x = x and B = B and E = E and skb = skb]) (use len h' free use skb slots in simp_all)
      qed
      then show ?thesis using quiet_dropped [OF q0] quiet_queued [OF q0] h' by auto
    qed
  qed
qed

subsection \<open>The queue over time\<close>

lemma history_release [simp]:
  "mapped (rev (release_events p)) = []" "unmapped (rev (release_events p)) = pkt_maps p"
  "freed (rev (release_events p)) = (case pkt_skb p of None \<Rightarrow> [] | Some s \<Rightarrow> [s])"
  by (simp_all add: release_events_def history_append)

text \<open>The abstract cleaning operation takes a prefix of the queue, releasing each of its packets once.\<close>

lemma q_clean_prefix:
  assumes "q_clean E budget ps h tb tp = (bud, ps', h', tb', tp')"
  shows "\<exists>k \<le> budget. bud = budget - k \<and> ps' = drop k ps \<and> k \<le> length ps \<and>
    mapped h' = mapped h \<and> unmapped h' = unmapped h @ concat (map pkt_maps (take k ps)) \<and>
    freed h' = freed h @ concat (map (\<lambda>p. case pkt_skb p of None \<Rightarrow> [] | Some s \<Rightarrow> [s]) (take k ps)) \<and>
    tb' = tb + sum_list (map pkt_bytes (take k ps)) \<and>
    tp' = tp + sum_list (map (\<lambda>p. ucast (pkt_segs p)) (take k ps))"
  using assms
proof (induction E budget ps h tb tp rule: q_clean.induct)
  case (3 E budget p ps h tb tp)
  define st where "st = wb_status E h (pkt_eop p)"
  show ?case
  proof (cases "st AND IXGBE_TXD_STAT_DD = 0")
    case True
    then show ?thesis using 3(2) by (intro exI [of _ 0]) (auto simp: st_def Let_def)
  next
    case False
    with 3(2) have "q_clean E budget ps (rev (Read_status (pkt_eop p) st # release_events p) @ h)
        (tb + pkt_bytes p) (tp + ucast (pkt_segs p)) = (bud, ps', h', tb', tp')" by (simp add: st_def Let_def)
    with 3(1) [OF st_def] False obtain k where "k \<le> budget \<and> bud = budget - k \<and> ps' = drop k ps \<and> k \<le> length ps \<and>
        mapped h' = mapped (rev (Read_status (pkt_eop p) st # release_events p) @ h) \<and>
        unmapped h' = unmapped (rev (Read_status (pkt_eop p) st # release_events p) @ h) @ concat (map pkt_maps (take k ps)) \<and>
        freed h' = freed (rev (Read_status (pkt_eop p) st # release_events p) @ h) @
          concat (map (\<lambda>p. case pkt_skb p of None \<Rightarrow> [] | Some s \<Rightarrow> [s]) (take k ps)) \<and>
        tb' = tb + pkt_bytes p + sum_list (map pkt_bytes (take k ps)) \<and>
        tp' = tp + ucast (pkt_segs p) + sum_list (map (\<lambda>p. ucast (pkt_segs p)) (take k ps))" by blast
    then show ?thesis by (intro exI [of _ "Suc k"]) (auto simp: history_append algebra_simps)
  qed
qed auto

lemma dropped_inv:
  assumes inv: "ring_inv gs F r" and d: "dropped (next_to_clean r) (concat gs) skb r r'"
  shows "\<exists>F'. ring_inv gs F' r'"
  using assms unfolding dropped_def ring_inv_def same_frame_def by auto

lemma queued_inv:
  assumes inv: "ring_inv gs F r" and d: "queued (next_to_clean r) (concat gs) skb r r'"
  obtains g F' evs where "ring_inv (gs @ [g]) F' r'" "ring_ev r' = evs @ ring_ev r" "mapped evs = mappings g"
    "unmapped evs = []" "freed evs = []" "tb_skb (hd g) = skb"
proof -
  from d obtain g F' evs where fr: "same_frame r r'" and 1: "tx_buffer_info r' = unrot (next_to_clean r) (concat gs @ g @ F')"
      "length (concat gs @ g @ F') = count r" "F' \<noteq> []"
      "next_to_use r' = (next_to_clean r + length (concat gs @ g)) mod count r" "packet (count r) (next_to_clean r + length (concat gs)) g"
      "\<forall>b \<in> set F'. free_buf b"
    and 2: "ring_ev r' = evs @ ring_ev r" "mapped evs = mappings g" "unmapped evs = []" "freed evs = []" "tb_skb (hd g) = skb"
    unfolding queued_def by blast
  have "ring_inv (gs @ [g]) F' r'" using inv fr 1 by (auto simp: ring_inv_def same_frame_def packets_append)
  with 2 show ?thesis by (intro that)
qed

definition held :: "ixgbevf_tx_buffer list list \<Rightarrow> mapping list" where
  "held gs = concat (map mappings gs)"

lemma held_pkts: "concat (map pkt_maps (map pkt_of gs)) = held gs"
  by (simp add: held_def pkt_of_def comp_def)

text \<open>Every mapping ever made is held by a pending packet or has been undone, each exactly once.\<close>

definition conserved :: "ixgbevf_ring \<Rightarrow> bool" where
  "conserved r \<longleftrightarrow> (\<exists>gs F. ring_inv gs F r \<and>
     mset (mapped (ring_ev r)) = mset (unmapped (ring_ev r)) + mset (held gs))"

lemma xmit_conserves:
  assumes c: "conserved r" and skb: "skb_ok skb" and run: "run_state (ixgbevf_xmit_frame_ring E skb) r = (v, r')"
  shows "conserved r'"
proof -
  from c obtain gs F where inv: "ring_inv gs F r"
    and eq: "mset (mapped (ring_ev r)) = mset (unmapped (ring_ev r)) + mset (held gs)" by (auto simp: conserved_def)
  from xmit_frame_outcome [OF inv skb refl run]
  consider "quiet_to (next_to_clean r) (length (concat gs)) r r'" "tx_buffer_info r' = tx_buffer_info r" "next_to_use r' = next_to_use r"
    | "dropped (next_to_clean r) (concat gs) (Some (sk_id skb)) r r'"
    | "queued (next_to_clean r) (concat gs) (Some (sk_id skb)) r r'" by blast
  then show ?thesis
  proof cases
    case 1
    then have "ring_inv gs F r'" using inv by (auto simp: quiet_to_def same_frame_def ring_inv_def)
    then show ?thesis using 1(1) eq unfolding conserved_def quiet_to_def
      by (intro exI [of _ gs] exI [of _ F]) (auto simp: history_append)
  next
    case 2
    obtain F' where "ring_inv gs F' r'" using dropped_inv [OF inv 2] by blast
    then show ?thesis using 2 eq unfolding conserved_def dropped_def
      by (intro exI [of _ gs] exI [of _ F']) (auto simp: history_append)
  next
    case 3
    obtain g F' evs where "ring_inv (gs @ [g]) F' r'" "ring_ev r' = evs @ ring_ev r" "mapped evs = mappings g" "unmapped evs = []"
      using queued_inv [OF inv 3] by metis
    then show ?thesis using eq unfolding conserved_def
      by (intro exI [of _ "gs @ [g]"] exI [of _ F']) (auto simp: history_append held_def)
  qed
qed

lemma clean_conserves:
  assumes c: "conserved r" and run: "run_state (clean_completed E) r = (v, r')"
  shows "conserved r'"
proof -
  from c obtain gs F where inv: "ring_inv gs F r"
    and eq: "mset (mapped (ring_ev r)) = mset (unmapped (ring_ev r)) + mset (held gs)" by (auto simp: conserved_def)
  obtain bud ps h b p where q: "q_clean E (count r div 2) (map pkt_of gs) (ring_ev r) 0 0 = (bud, ps, h, b, p)"
    by (metis surj_pair)
  from clean_completed_refines [OF inv q] run obtain gs' F' where
    inv': "ring_inv gs' F' r'" and gs': "map pkt_of gs' = ps" and h: "ring_ev r' = h" by auto
  from q_clean_prefix [OF q] obtain k where k: "ps = drop k (map pkt_of gs)" "mapped h = mapped (ring_ev r)"
    "unmapped h = unmapped (ring_ev r) @ concat (map pkt_maps (take k (map pkt_of gs)))" by blast
  have "held gs = concat (map pkt_maps (take k (map pkt_of gs))) @ concat (map pkt_maps ps)"
    unfolding held_pkts [symmetric] k(1) by (metis append_take_drop_id concat_append map_append)
  moreover have "concat (map pkt_maps ps) = held gs'" unfolding gs' [symmetric] by (rule held_pkts)
  ultimately have "mset (mapped h) = mset (unmapped h) + mset (held gs')" using k eq by simp
  then show ?thesis using inv' h unfolding conserved_def by blast
qed

subsection \<open>Emptying the ring\<close>

lemma run_drain_rest:
  assumes "length X = count r" and "X = A @ M @ Z" and "A \<noteq> []" and "length M \<le> fuel" and "c' = c + (length A - 1)"
  shows "run_state (drain_rest fuel (Some ((c' + length M) mod count r)) (c' mod count r)) (view c X r) =
    ((c' + length M) mod count r, view c X (r\<lparr>ring_ev := rev (unmaps (page_maps M)) @ ring_ev r\<rparr>))"
  using assms
proof (induction M arbitrary: A r fuel c')
  case Nil
  then show ?case by (cases fuel) (simp_all add: view_def)
next
  case (Cons b M)
  let ?n = "count r" and ?c1 = "Suc c'"
  obtain f where fuel: "fuel = Suc f" using Cons.prems(4) by (cases fuel) auto
  have l: "length (b # M) < ?n" and n: "0 < ?n" using Cons.prems(1-3) by (cases A; simp)+
  have ne: "\<not> Some ((c' + length (b # M)) mod ?n) = Some (c' mod ?n)"
    using slot_inj [of "length (b # M)" ?n 0 c'] l n by auto
  have c1: "?c1 = c + length A" using Cons.prems(3,5) by (cases A) auto
  have nx: "run_state (next_idx (c' mod ?n)) (view c X r) = (?c1 mod ?n, view c X r)"
    using run_next_idx [of ?n r c' 0 X] n by (simp add: next_idx_def mod_Suc)
  have get: "run_state (get_buf (?c1 mod ?n)) (view c X r) = (b, view c X r)"
    using run_get_buf [of "length A" X ?n c r] Cons.prems(1,2) c1 by simp
  define r1 where "r1 = (if tb_len b \<noteq> 0 then r\<lparr>ring_ev := Dma_unmap Page (tb_dma b) (tb_len b) # ring_ev r\<rparr> else r)"
  have cnt: "count r1 = ?n" by (simp add: r1_def)
  have ev: "run_state (whenM (tb_len b \<noteq> 0) (tx_ev (Dma_unmap Page (tb_dma b) (tb_len b)))) (view c X r) = ((), view c X r1)"
    by (simp add: run_whenM run_tx_ev r1_def)
  have IH: "run_state (drain_rest f (Some ((?c1 + length M) mod ?n)) (?c1 mod ?n)) (view c X r1) =
      ((?c1 + length M) mod ?n, view c X (r1\<lparr>ring_ev := rev (unmaps (page_maps M)) @ ring_ev r1\<rparr>))"
  proof (rule Cons.IH [of r1 "A @ [b]" f ?c1, unfolded cnt])
    show "length M \<le> f" using Cons.prems(4) fuel by simp
    show "?c1 = c + (length (A @ [b]) - 1)" using c1 by simp
  qed (use Cons.prems in simp_all)
  have c2: "c' + length (b # M) = ?c1 + length M" by simp
  have fin: "view c X (r1\<lparr>ring_ev := rev (unmaps (page_maps M)) @ ring_ev r1\<rparr>) =
      view c X (r\<lparr>ring_ev := rev (unmaps (page_maps (b # M))) @ ring_ev r\<rparr>)" by (simp add: r1_def)
  have run: "run_state (drain_rest fuel (Some ((c' + length (b # M)) mod ?n)) (c' mod ?n)) (view c X r) =
      run_state (drain_rest f (Some ((?c1 + length M) mod ?n)) (?c1 mod ?n)) (view c X r1)"
    unfolding fuel drain_rest.simps c2 [symmetric]
    by (simp only: ne if_False run_bind nx get ev prod.case)
  show ?case using run unfolding IH fin c2 .
qed

lemma run_drain_loop:
  assumes "length X = count r" and "X = P @ concat gs @ F" and "F \<noteq> []" and "packets (count r) (c + length P) gs"
    and "length gs < fuel" and "next_to_use r = (c + length P + length (concat gs)) mod count r"
  shows "run_state (drain_loop fuel ((c + length P) mod count r)) (view c X r) =
    ((), view c X (r\<lparr>ring_ev := rev (concat (map (\<lambda>g. release_events (pkt_of g)) gs)) @ ring_ev r\<rparr>))"
  using assms
proof (induction gs arbitrary: P r fuel)
  case Nil
  then obtain f where "fuel = Suc f" by (cases fuel) auto
  then show ?case using Nil.prems by (simp add: view_def)
next
  case (Cons g gs)
  let ?n = "count r"
  obtain f where fuel: "fuel = Suc f" using Cons.prems(5) by (cases fuel) auto
  from Cons.prems(4) obtain b M where g: "g = b # M" and w: "next_to_watch b = Some ((c + length P + length M) mod ?n)"
    by (cases g) (auto simp: packet_def)
  have n: "0 < ?n" and l: "length P + length (concat (g # gs)) < ?n" using Cons.prems(1-3) by (cases F; simp)+
  have ne: "\<not> (c + length P) mod ?n = next_to_use r"
    using slot_inj [of "length P" ?n "length P + length (concat (g # gs))" c] l g Cons.prems(6) by (auto simp: add.assoc)
  have get: "run_state (get_buf ((c + length P) mod ?n)) (view c X r) = (b, view c X r)"
    using run_get_buf [of "length P" X ?n c r] Cons.prems(1,2) g l by (simp add: nth_append)
  define e1 where "e1 = Dma_unmap Single (tb_dma b) (tb_len b) # Free_skb (tb_skb b) # ring_ev r"
  have rest: "run_state (drain_rest ?n (next_to_watch b) ((c + length P) mod ?n)) (view c X (r\<lparr>ring_ev := e1\<rparr>)) =
      ((c + length P + length M) mod ?n, view c X (r\<lparr>ring_ev := rev (unmaps (page_maps M)) @ e1\<rparr>))"
    using run_drain_rest [of X "r\<lparr>ring_ev := e1\<rparr>" "P @ [b]" M "concat gs @ F" ?n "c + length P" c] Cons.prems(1,2) g w l by simp
  define r1 where "r1 = r\<lparr>ring_ev := rev (release_events (pkt_of g)) @ ring_ev r\<rparr>"
  have r1: "r\<lparr>ring_ev := rev (unmaps (page_maps M)) @ e1\<rparr> = r1" and cnt: "count r1 = ?n"
    by (simp_all add: r1_def e1_def g release_events_def pkt_of_def mappings_def head_map_def)
  have nx: "run_state (next_idx ((c + length P + length M) mod ?n)) (view c X r1) = ((c + length (P @ g)) mod ?n, view c X r1)"
    using run_next_idx [of ?n r1 c "length P + length M" X] n cnt g by (simp add: add.assoc)
  have IH: "run_state (drain_loop f ((c + length (P @ g)) mod ?n)) (view c X r1) =
      ((), view c X (r1\<lparr>ring_ev := rev (concat (map (\<lambda>g. release_events (pkt_of g)) gs)) @ ring_ev r1\<rparr>))"
    by (rule Cons.IH [of r1 "P @ g" f, unfolded cnt])
       (use Cons.prems fuel in \<open>simp_all add: r1_def add.assoc\<close>)
  have "run_state (drain_loop fuel ((c + length P) mod ?n)) (view c X r) =
      run_state (drain_loop f ((c + length (P @ g)) mod ?n)) (view c X r1)"
    unfolding fuel drain_loop.simps run_bind run_gets prod.case view_simps if_not_P [OF ne] get run_tx_ev
    by (simp add: rest [unfolded e1_def, simplified] r1 [unfolded e1_def, simplified] nx)
  then show ?case unfolding IH by (simp add: r1_def)
qed

lemma packets_length: "packets n c gs \<Longrightarrow> length gs \<le> length (concat gs)"
proof (induction gs arbitrary: c)
  case (Cons g gs)
  then have "g \<noteq> []" "length gs \<le> length (concat gs)" by (auto simp: packet_def)
  then show ?case by (cases g) simp_all
qed simp

lemma run_clean_tx_ring:
  assumes inv: "ring_inv gs F r"
  shows "run_state ixgbevf_clean_tx_ring r = ((), r\<lparr>next_to_use := 0, next_to_clean := 0,
     ring_ev := (if TX_XDP_RING \<in> ring_state r then [] else [Tx_reset_queue]) @
       rev (concat (map (\<lambda>g. release_events (pkt_of g)) gs)) @ ring_ev r\<rparr>)"
proof -
  let ?c = "next_to_clean r" and ?n = "count r" and ?X = "concat gs @ F"
  have I: "?c < ?n" "length ?X = ?n" "F \<noteq> []" "packets ?n ?c gs" "next_to_use r = (?c + length (concat gs)) mod ?n"
    using inv by (simp_all add: ring_inv_def)
  have "length gs \<le> length (concat gs)" by (rule packets_length [OF I(4)])
  then have lg: "length gs < ?n" using I(2,3) by (cases F) auto
  have V: "view ?c ?X r = r" using ring_inv_view [OF inv] by simp
  have "run_state (drain_loop ?n ?c) r = ((), r\<lparr>ring_ev := rev (concat (map (\<lambda>g. release_events (pkt_of g)) gs)) @ ring_ev r\<rparr>)"
    using run_drain_loop [of ?X r "[]" gs F ?c ?n] I lg V inv by (simp add: view_def ring_inv_def)
  then show ?thesis
    by (cases r) (simp add: ixgbevf_clean_tx_ring_def tx_ev_def run_whenM)
qed

subsection \<open>The mappings a ring holds\<close>

text \<open>Read off the ring itself: a buffer with \<open>next_to_watch\<close> set holds the head of a packet, any other
  buffer with a length holds a page.\<close>

definition buf_maps :: "ixgbevf_tx_buffer \<Rightarrow> mapping list" where
  "buf_maps b = (if next_to_watch b \<noteq> None then [head_map b]
     else if tb_len b \<noteq> 0 then [(Page, tb_dma b, tb_len b)] else [])"

definition live_maps :: "ixgbevf_ring \<Rightarrow> mapping list" where
  "live_maps r = concat (map buf_maps (tx_buffer_info r))"

lemma buf_maps_tail: "\<forall>b \<in> set bs. next_to_watch b = None \<Longrightarrow> concat (map buf_maps bs) = page_maps bs"
  by (induction bs) (auto simp: buf_maps_def)

lemma buf_maps_packet: "packet n c g \<Longrightarrow> concat (map buf_maps g) = mappings g"
  by (cases g) (auto simp: packet_def mappings_def buf_maps_tail, simp add: buf_maps_def)

lemma buf_maps_packets: "packets n c gs \<Longrightarrow> concat (map buf_maps (concat gs)) = held gs"
  by (induction gs arbitrary: c) (auto simp: held_def buf_maps_packet)

lemma live_maps_inv:
  assumes "ring_inv gs F r"
  shows "mset (live_maps r) = mset (held gs)"
proof -
  have "mset (tx_buffer_info r) = mset (concat gs @ F)"
    using assms by (simp only: ring_inv_def unrot_def mset_rotate_list)
  then have "mset (live_maps r) = mset (concat (map buf_maps (concat gs @ F)))"
    unfolding live_maps_def by (rule mset_concat_map_cong)
  also have "concat (map buf_maps (concat gs @ F)) = held gs @ concat (map buf_maps F)"
    using assms buf_maps_packets by (auto simp: ring_inv_def)
  also have "concat (map buf_maps F) = []"
    using assms by (auto simp: ring_inv_def free_buf_def buf_maps_def)
  finally show ?thesis by simp
qed

subsection \<open>Steps of the ring\<close>

text \<open>The part of \<open>ixgbevf_configure_tx_ring\<close> that reinitialises the ring before it is used again.\<close>

definition zero_tx_buffer :: ixgbevf_tx_buffer where
  "zero_tx_buffer = \<lparr>next_to_watch = None, time_stamp = 0, tb_skb = None, bytecount = 0, gso_segs = 0,
     tb_protocol = 0, tb_dma = 0, tb_len = 0, tb_tx_flags = 0\<rparr>"

definition tx_ring_reinit :: "unit ringop" where
  "tx_ring_reinit = do {
     modify (\<lambda>r. r\<lparr>next_to_clean := 0, next_to_use := 0\<rparr>);
     modify (\<lambda>r. r\<lparr>tx_buffer_info := replicate (count r) zero_tx_buffer\<rparr>);
     modify (\<lambda>r. r\<lparr>ring_state := ring_state r - {HANG_CHECK_ARMED, TX_XDP_RING_PRIMED}\<rparr>) }"

text \<open>Down and up again: \<open>ixgbevf_down\<close> empties the ring, \<open>ixgbevf_up\<close> reinitialises it.\<close>

definition tx_ring_restart :: "unit ringop" where
  "tx_ring_restart = do { ixgbevf_clean_tx_ring; tx_ring_reinit }"

inductive tx_step :: "txenv \<Rightarrow> ixgbevf_ring \<Rightarrow> ixgbevf_ring \<Rightarrow> bool" for E where
  xmit: "skb_ok skb \<Longrightarrow> run_state (ixgbevf_xmit_frame_ring E skb) r = (v, r') \<Longrightarrow> tx_step E r r'"
| clean: "run_state (clean_completed E) r = (v, r') \<Longrightarrow> tx_step E r r'"
| restart: "run_state tx_ring_restart r = ((), r') \<Longrightarrow> tx_step E r r'"

inductive_cases tx_stepE: "tx_step E r r'"

lemma unrot_0: "unrot 0 xs = xs"
  by (simp add: unrot_def rotate_id)

lemma unrot_replicate: "unrot c (replicate n x) = replicate n x"
proof -
  have "rotate k (replicate n x) = replicate n x" for k
    by (induction k) (simp_all add: rotate_def rotate1_replicate)
  then show ?thesis by (simp add: unrot_def)
qed

lemma ring_inv_empty:
  assumes "0 < count r" "count r < 2 ^ 16" "length (tx_descs r) = count r" "tx_buffer_info r = replicate (count r) zero_tx_buffer"
    "next_to_use r = 0" "next_to_clean r = 0"
  shows "ring_inv [] (tx_buffer_info r) r"
  using assms by (auto simp: ring_inv_def free_buf_def zero_tx_buffer_def unrot_replicate)

lemma history_releases:
  "mapped (rev (concat (map release_events ps))) = []"
  "unmapped (rev (concat (map release_events ps))) = concat (map pkt_maps ps)"
  by (induction ps) (simp_all add: history_append)

lemma restart_conserves:
  assumes c: "conserved r" and run: "run_state tx_ring_restart r = ((), r')"
  shows "conserved r'"
proof -
  from c obtain gs F where inv: "ring_inv gs F r"
    and eq: "mset (mapped (ring_ev r)) = mset (unmapped (ring_ev r)) + mset (held gs)" by (auto simp: conserved_def)
  let ?evs = "(if TX_XDP_RING \<in> ring_state r then [] else [Tx_reset_queue]) @
      rev (concat (map release_events (map pkt_of gs)))"
  have r': "ring_ev r' = ?evs @ ring_ev r" "tx_buffer_info r' = replicate (count r) zero_tx_buffer"
    "count r' = count r" "next_to_use r' = 0" "next_to_clean r' = 0" "tx_descs r' = tx_descs r"
    using run run_clean_tx_ring [OF inv] by (auto simp: tx_ring_restart_def tx_ring_reinit_def comp_def)
  have "ring_inv [] (tx_buffer_info r') r'"
    by (rule ring_inv_empty) (use inv r' in \<open>auto simp: ring_inv_def\<close>)
  moreover have "mapped ?evs = []" "unmapped ?evs = held gs"
    by (simp_all add: history_append history_releases held_pkts del: map_map)
  ultimately show ?thesis unfolding conserved_def using eq r'(1)
    by (intro exI [of _ "[]"] exI [of _ "tx_buffer_info r'"]) (simp add: history_append held_def)
qed

interpretation tx: ledger conserved "tx_step E" "\<lambda>r. mapped (ring_ev r)" "\<lambda>r. unmapped (ring_ev r)" live_maps for E
proof unfold_locales
  fix r r' assume "conserved r" and "tx_step E r r'"
  then show "conserved r'"
    by (auto elim!: tx_stepE intro: xmit_conserves clean_conserves restart_conserves)
next
  fix r assume "conserved r"
  then show "mset (mapped (ring_ev r)) = mset (unmapped (ring_ev r)) + mset (live_maps r)"
    unfolding conserved_def using live_maps_inv by metis
qed

subsection \<open>Properties\<close>

definition tx_ring_init :: "nat \<Rightarrow> ixgbevf_ring" where
  "tx_ring_init n = \<lparr>count = n, next_to_use = 0, next_to_clean = 0, tx_buffer_info = replicate n zero_tx_buffer,
     tx_descs = replicate n \<lparr>buffer_addr = 0, cmd_type_len = 0, olinfo_status = 0\<rparr>, ring_state = {}, reg_idx = 0,
     st_packets = 0, st_bytes = 0, restart_queue = 0, tx_busy = 0, tx_done_old = 0, ring_ev = []\<rparr>"

lemma tx_ring_init_inv: "0 < n \<Longrightarrow> n < 2 ^ 16 \<Longrightarrow> ring_inv [] (replicate n zero_tx_buffer) (tx_ring_init n)"
  using ring_inv_empty [of "tx_ring_init n"] by (simp add: tx_ring_init_def)

lemma tx_ring_init_conserved: "0 < n \<Longrightarrow> n < 2 ^ 16 \<Longrightarrow> conserved (tx_ring_init n)"
  using tx_ring_init_inv [of n] unfolding conserved_def
  by (intro exI [of _ "[]"] exI [of _ "replicate n zero_tx_buffer"]) (simp add: tx_ring_init_def held_def)

text \<open>A packet of one page fragment, an environment whose device completes everything, and a ring with one
  pending packet in its first two slots.\<close>

definition sample_skb :: sk_buff where
  "sample_skb = \<lparr>sk_id = 7, sk_len = 200, sk_headlen = 100, sk_data_len = 100, sk_frags = [100], sk_protocol = 0x0800,
     sk_vlan_tag = None, sk_vlan_hdr = None, sk_partial = False, sk_gso_size = 0, sk_gso_segs = 0, sk_cow_err = 0,
     sk_ipv4 = True, sk_network_offset = 14, sk_csum_start_offset = 34, sk_tcp_doff = 5, sk_csum_offset = 16,
     sk_ip_protocol = 6, sk_sctp_v6 = False\<rparr>"

definition sample_txenv :: txenv where
  "sample_txenv = \<lparr>dma_addr = (\<lambda>h. of_nat (length h)), dma_fails = (\<lambda>h. False), wb_status = (\<lambda>h i. 1),
     tx_jiffies = (\<lambda>h. 0), carrier_ok = (\<lambda>h. True), subqueue_stopped = (\<lambda>h. False), xmit_more = (\<lambda>h. False),
     xmit_stopped = (\<lambda>h. False), MAX_SKB_FRAGS = 17\<rparr>"

definition sample_head :: ixgbevf_tx_buffer where
  "sample_head = zero_tx_buffer\<lparr>next_to_watch := Some 1, tb_skb := Some 7, bytecount := 100, gso_segs := 1, tb_dma := 64, tb_len := 100\<rparr>"

definition sample_ring :: ixgbevf_ring where
  "sample_ring = (tx_ring_init 4)\<lparr>next_to_use := 2,
     tx_buffer_info := [sample_head, zero_tx_buffer, zero_tx_buffer, zero_tx_buffer]\<rparr>"

lemma sample_skb_ok: "skb_ok sample_skb"
  by (simp add: skb_ok_def frags_ok_def sample_skb_def extra_def)

lemma sample_ring_inv: "ring_inv [[sample_head, zero_tx_buffer]] [zero_tx_buffer, zero_tx_buffer] sample_ring"
  using unrot_0 [of "[sample_head, zero_tx_buffer, zero_tx_buffer, zero_tx_buffer]"]
  by (simp add: ring_inv_def sample_ring_def tx_ring_init_def free_buf_def zero_tx_buffer_def packet_def sample_head_def)

text \<open>C1: DMA mappings are conserved. Over every sequence of transmissions (successful, dropped or refused),
  cleanings and restarts of a transmit ring, each mapping the driver made is either recorded in the ring
  or has been undone exactly once; nothing is undone that was not made.\<close>

theorem tx_mappings_conserved:
  assumes "0 < n" and "n < 2 ^ 16" and "(tx_step E)\<^sup>*\<^sup>* (tx_ring_init n) r"
  shows "mset (mapped (ring_ev r)) = mset (unmapped (ring_ev r)) + mset (live_maps r)"
  using tx.reach_balance [OF assms(3) tx_ring_init_conserved [OF assms(1,2)]] .

theorem tx_mappings_conserved_witness:
  "mset (mapped (ring_ev (snd (run_state (ixgbevf_xmit_frame_ring sample_txenv sample_skb) (tx_ring_init 16))))) =
   mset (unmapped (ring_ev (snd (run_state (ixgbevf_xmit_frame_ring sample_txenv sample_skb) (tx_ring_init 16))))) +
   mset (live_maps (snd (run_state (ixgbevf_xmit_frame_ring sample_txenv sample_skb) (tx_ring_init 16))))"
proof (rule tx_mappings_conserved [of 16 sample_txenv])
  show "(tx_step sample_txenv)\<^sup>*\<^sup>* (tx_ring_init 16)
      (snd (run_state (ixgbevf_xmit_frame_ring sample_txenv sample_skb) (tx_ring_init 16)))"
    by (rule r_into_rtranclp, rule tx_step.xmit [OF sample_skb_ok]) (rule surjective_pairing)
qed simp_all

text \<open>C2: Transmitting a packet on a ring in a good state has exactly three outcomes. \<open>NETDEV_TX_BUSY\<close>, with the
  packets and the buffers untouched, only when fewer than the needed descriptors plus the reserve are free.
  Or \<open>NETDEV_TX_OK\<close> with the packet dropped: it is freed once and every mapping made on the way is undone.
  Or \<open>NETDEV_TX_OK\<close> with the packet queued last, recording exactly the mappings that were made. In no
  case is the descriptor or the buffer of a pending packet written.\<close>

theorem xmit_frame_ring_outcomes:
  assumes inv: "ring_inv gs F r" and skb: "skb_ok skb"
    and run: "run_state (ixgbevf_xmit_frame_ring E skb) r = (v, r')"
  shows "\<exists>gs' F' evs. ring_inv gs' F' r' \<and> ring_ev r' = evs @ ring_ev r \<and>
     (\<forall>l < length (concat gs). tx_descs r' ! ((next_to_clean r + l) mod count r) = tx_descs r ! ((next_to_clean r + l) mod count r)) \<and>
     ((v = NETDEV_TX_BUSY \<and> gs' = gs \<and> ixgbevf_desc_unused r < xmit_count skb + 3 \<and>
         mapped evs = [] \<and> unmapped evs = [] \<and> freed evs = []) \<or>
      (v = NETDEV_TX_OK \<and> gs' = gs \<and> mset (mapped evs) = mset (unmapped evs) \<and> freed evs = [sk_id skb]) \<or>
      (v = NETDEV_TX_OK \<and> (\<exists>g. gs' = gs @ [g] \<and> tb_skb (hd g) = Some (sk_id skb) \<and>
         mapped evs = mappings g \<and> unmapped evs = [] \<and> freed evs = [])))"
proof -
  let ?c = "next_to_clean r" and ?A = "concat gs"
  have lt: "length ?A < count r" using inv by (cases F) (auto simp: ring_inv_def)
  have keep: "\<forall>l < length ?A. D ! ((?c + l) mod count r) = tx_descs r ! ((?c + l) mod count r)"
    if "within ?c (count r) (length ?A) m (tx_descs r) D" for D m using that lt by (auto simp: within_def)
  from xmit_frame_outcome [OF inv skb refl run]
  consider (busy) "v = NETDEV_TX_BUSY" "length F \<le> xmit_count skb + 3" "quiet_to ?c (length ?A) r r'"
      "tx_buffer_info r' = tx_buffer_info r" "next_to_use r' = next_to_use r"
    | (drop) "v = NETDEV_TX_OK" "dropped ?c ?A (Some (sk_id skb)) r r'"
    | (queue) "v = NETDEV_TX_OK" "queued ?c ?A (Some (sk_id skb)) r r'" by blast
  then show ?thesis
  proof cases
    case busy
    from busy(3) obtain evs where w: "within ?c (count r) (length ?A) (count r - 2) (tx_descs r) (tx_descs r')"
      and e: "ring_ev r' = evs @ ring_ev r" "mapped evs = []" "unmapped evs = []" "freed evs = []" by (auto simp: quiet_to_def)
    have "ring_inv gs F r'" using busy inv by (auto simp: quiet_to_def same_frame_def ring_inv_def)
    moreover have "ixgbevf_desc_unused r < xmit_count skb + 3"
      using desc_unused_inv [OF inv] busy(2) inv by (cases F) (auto simp: ring_inv_def)
    ultimately show ?thesis using busy(1) e keep [OF w] by blast
  next
    case drop
    from drop(2) obtain evs where w: "within ?c (count r) (length ?A) (count r - 2) (tx_descs r) (tx_descs r')"
      and e: "ring_ev r' = evs @ ring_ev r" "mset (mapped evs) = mset (unmapped evs)" "freed evs = [sk_id skb]"
      by (auto simp: dropped_def)
    obtain F' where "ring_inv gs F' r'" using dropped_inv [OF inv drop(2)] by blast
    then show ?thesis using drop(1) e keep [OF w] by blast
  next
    case queue
    from queue(2) have w: "within ?c (count r) (length ?A) (count r - 2) (tx_descs r) (tx_descs r')" by (auto simp: queued_def)
    obtain g F' evs where "ring_inv (gs @ [g]) F' r'" "ring_ev r' = evs @ ring_ev r" "mapped evs = mappings g"
      "unmapped evs = []" "freed evs = []" "tb_skb (hd g) = Some (sk_id skb)" using queued_inv [OF inv queue(2)] by metis
    then show ?thesis using queue(1) keep [OF w] by blast
  qed
qed

theorem xmit_frame_ring_outcomes_witness:
  "\<exists>gs' F'. ring_inv gs' F' (snd (run_state (ixgbevf_xmit_frame_ring sample_txenv sample_skb) sample_ring))"
  using xmit_frame_ring_outcomes [OF sample_ring_inv sample_skb_ok surjective_pairing, of sample_txenv] by blast

text \<open>C3: The cleaning loop refines the queue. On a ring in a good state, \<open>clean_completed\<close> returns, event for
  event, what the abstract operation \<open>q_clean\<close> computes on the list of pending packets: the finished packets at
  the front, at most half a ring of them, are released in order and the rest stays, \<open>next_to_clean\<close> moves
  accordingly, \<open>next_to_use\<close> does not move and the counters grow by the bytes and segments released.\<close>

theorem clean_refines_queue:
  assumes inv: "ring_inv gs F r"
    and q: "q_clean E (count r div 2) (map pkt_of gs) (ring_ev r) 0 0 = (bud, ps, h, bytes, pkts)"
  shows "\<exists>gs' F' r' k. run_state (clean_completed E) r = ((bud, bytes, pkts), r') \<and> ring_inv gs' F' r' \<and>
     map pkt_of gs' = ps \<and> ps = drop k (map pkt_of gs) \<and> k \<le> count r div 2 \<and> bud = count r div 2 - k \<and>
     ring_ev r' = h \<and> next_to_use r' = next_to_use r \<and>
     st_bytes r' = st_bytes r + ucast bytes \<and> st_packets r' = st_packets r + ucast pkts \<and>
     unmapped h = unmapped (ring_ev r) @ concat (map pkt_maps (take k (map pkt_of gs)))"
  using clean_completed_refines [OF inv q] q_clean_prefix [OF q] by blast

lemma sample_ring_half: "count sample_ring div 2 = Suc (Suc 0)" "ring_ev sample_ring = []"
  by (simp_all add: sample_ring_def tx_ring_init_def)

theorem clean_refines_queue_witness:
  "\<exists>gs' F' r' k. run_state (clean_completed sample_txenv) sample_ring = ((1, 100, 1), r') \<and> ring_inv gs' F' r' \<and>
     map pkt_of gs' = [] \<and> [] = drop k (map pkt_of [[sample_head, zero_tx_buffer]]) \<and> k \<le> count sample_ring div 2 \<and>
     1 = count sample_ring div 2 - k \<and>
     ring_ev r' = [Dma_unmap Single 64 100, Free_skb (Some 7), Read_status 1 1] \<and> next_to_use r' = next_to_use sample_ring \<and>
     st_bytes r' = st_bytes sample_ring + ucast (100 :: u32) \<and> st_packets r' = st_packets sample_ring + ucast (1 :: u32) \<and>
     unmapped [Dma_unmap Single 64 100, Free_skb (Some 7), Read_status 1 1] =
       unmapped (ring_ev sample_ring) @ concat (map pkt_maps (take k (map pkt_of [[sample_head, zero_tx_buffer]])))"
  by (rule clean_refines_queue [OF sample_ring_inv])
     (simp add: sample_ring_half sample_head_def zero_tx_buffer_def sample_txenv_def pkt_of_def mappings_def
        head_map_def release_events_def)

text \<open>C32: Emptying a ring (\<open>ixgbevf_clean_tx_ring\<close>, on the way down) ends, whatever the device has done: it frees
  every pending packet and undoes every mapping the ring records exactly once, oldest packet first.\<close>

theorem clean_tx_ring_releases_all:
  assumes inv: "ring_inv gs F r" and run: "run_state ixgbevf_clean_tx_ring r = (u, r')"
  shows "\<exists>evs. ring_ev r' = evs @ ring_ev r \<and> mapped evs = [] \<and> unmapped evs = held gs \<and>
    mset (unmapped evs) = mset (live_maps r) \<and>
    freed evs = concat (map (\<lambda>g. case tb_skb (hd g) of None \<Rightarrow> [] | Some s \<Rightarrow> [s]) gs) \<and>
    next_to_use r' = 0 \<and> next_to_clean r' = 0"
proof -
  let ?evs = "(if TX_XDP_RING \<in> ring_state r then [] else [Tx_reset_queue]) @
      rev (concat (map release_events (map pkt_of gs)))"
  have "freed (rev (concat (map release_events (map pkt_of gs)))) =
      concat (map (\<lambda>g. case tb_skb (hd g) of None \<Rightarrow> [] | Some s \<Rightarrow> [s]) gs)"
    by (induction gs) (simp_all add: history_append pkt_of_def)
  moreover have "mapped ?evs = []" "unmapped ?evs = held gs"
    by (simp_all add: history_append history_releases held_pkts del: map_map)
  moreover have "ring_ev r' = ?evs @ ring_ev r" "next_to_use r' = 0" "next_to_clean r' = 0"
    using run run_clean_tx_ring [OF inv] by (auto simp: comp_def)
  ultimately show ?thesis using live_maps_inv [OF inv]
    by (intro exI [of _ ?evs]) (simp add: history_append)
qed

theorem clean_tx_ring_releases_all_witness:
  "\<exists>evs. ring_ev (snd (run_state ixgbevf_clean_tx_ring sample_ring)) = evs @ ring_ev sample_ring \<and>
     unmapped evs = [(Single, 64, 100)] \<and> freed evs = [7]"
  using clean_tx_ring_releases_all [OF sample_ring_inv surjective_pairing]
  by (auto simp: held_def mappings_def head_map_def sample_head_def zero_tx_buffer_def)

text \<open>A hang is reported only on the second of two consecutive checks without progress. \<open>ixgbevf_check_tx_hang\<close>
  returns true exactly when the previous check had armed it, the completed count has not moved since and the
  hardware queue is not empty; progress or an empty queue disarms it.\<close>

theorem check_tx_hang_two_checks:
  assumes p: "run_state (ixgbevf_get_tx_pending E) q = (pending, q1)"
    and run: "run_state (ixgbevf_check_tx_hang E) q = (hung, q')"
    and stuck: "stuck = ((ucast (tx_done_old (q_ring q)) :: u32) = ucast (st_packets (q_ring q)) \<and> pending \<noteq> 0)"
  shows "(hung \<longleftrightarrow> stuck \<and> HANG_CHECK_ARMED \<in> ring_state (q_ring q)) \<and>
    (HANG_CHECK_ARMED \<in> ring_state (q_ring q') \<longleftrightarrow> stuck) \<and> TX_DETECT_HANG \<notin> ring_state (q_ring q') \<and>
    (\<not> stuck \<longrightarrow> tx_done_old (q_ring q') = ucast (ucast (st_packets (q_ring q)) :: u32))"
proof -
  have q1: "q_ring q1 = q_ring q"
  proof -
    have "keeps q_ring (ixgbevf_get_tx_pending E)"
      unfolding ixgbevf_get_tx_pending_def by (intro keeps_rules) (simp_all add: keeps_def on_hw_def split: prod.splits)
    then show ?thesis using p by (rule keepsD)
  qed
  show ?thesis using run p q1 stuck
    by (auto simp: ixgbevf_check_tx_hang_def ixgbevf_get_tx_completed_def on_ring_def split: if_splits)
qed

definition sample_txq :: txq where
  "sample_txq = \<lparr>q_ring = sample_ring, q_hw = sample_hw, total_bytes = 0, total_packets = 0\<rparr>"

theorem check_tx_hang_two_checks_witness:
  "\<not> fst (run_state (ixgbevf_check_tx_hang sample_env) sample_txq)"
  using check_tx_hang_two_checks [OF surjective_pairing surjective_pairing refl, of sample_env sample_txq]
  by (simp add: sample_txq_def sample_ring_def tx_ring_init_def)

lemma tx_split_last:
  "run_state (tx_split cmd dma s i) r = ((s', i'), r') \<Longrightarrow> s \<noteq> 0 \<Longrightarrow>
     0 < s' \<and> s' \<le> 16384 \<and> unat s = extra s * 16384 + unat s'"
proof (induction s arbitrary: dma i r rule: measure_induct_rule [of unat])
  case (less s)
  show ?case
  proof (cases "16384 < s")
    case False
    then have "s' = s" using less.prems(1) by (subst (asm) tx_split.simps) simp
    then show ?thesis using False less.prems(2) by (auto simp: extra_small word_neq_0_conv)
  next
    case True
    let ?s = "s - 16384"
    have u: "unat ?s = unat s - 16384" "16384 < unat s"
      using True by (simp_all add: word_less_nat_alt unat_sub word_le_nat_alt)
    then have nz: "?s \<noteq> 0" by (auto simp: unat_eq_0 [symmetric])
    obtain d j r1 where "run_state (tx_split cmd d ?s j) r1 = ((s', i'), r')"
      using less.prems(1) True by (subst (asm) tx_split.simps) (auto simp: Let_def split: prod.splits)
    from less.IH [OF _ this nz] u have "0 < s' \<and> s' \<le> 16384" "unat s - 16384 = extra ?s * 16384 + unat s'" by auto
    then show ?thesis using u(2) unfolding extra_step [OF True] mult_Suc by linarith
  qed
qed

text \<open>Splitting a buffer over descriptors. For a non-empty buffer at ring position \<open>j\<close> that fits, the loop over
  16 KiB pieces ends after filling exactly \<open>TXD_USE_COUNT\<close> descriptors, the number reserved for it, writes
  no descriptor outside that range and leaves a last piece of 1 to 16384 bytes.\<close>

theorem tx_split_bounds:
  assumes n: "n = count r" and s: "s \<noteq> 0" and j: "j + TXD_USE_COUNT s \<le> n"
    and run: "run_state (tx_split cmd dma s ((c + j) mod n)) (view c X r) = ((s', i), r')"
  shows "i = (c + (j + TXD_USE_COUNT s - 1)) mod n \<and> 0 < s' \<and> s' \<le> 16384 \<and>
    unat s = (TXD_USE_COUNT s - 1) * 16384 + unat s' \<and>
    within c n j (j + TXD_USE_COUNT s - 1) (tx_descs r) (tx_descs r') \<and> tx_buffer_info r' = unrot c X"
proof -
  have ex: "TXD_USE_COUNT s = Suc (extra s)" using s by (rule TXD_USE_COUNT_extra)
  from run_tx_split [OF n, of j s cmd dma c X] j ex run obtain D where
    1: "i = (c + (j + extra s)) mod n" "r' = view c X (r\<lparr>tx_descs := D\<rparr>)" "within c n j (j + extra s) (tx_descs r) D" by auto
  then show ?thesis using tx_split_last [OF run s] ex by simp
qed

theorem tx_split_bounds_witness:
  "fst (fst (run_state (tx_split 0 64 40000 ((0 + 1) mod 16))
     (view 0 (replicate 16 zero_tx_buffer) (tx_ring_init 16)))) \<le> 16384 \<and> TXD_USE_COUNT 40000 = 3"
proof -
  have 3: "TXD_USE_COUNT 40000 = 3" by (simp add: TXD_USE_COUNT_def)
  obtain s' i r' where run: "run_state (tx_split 0 64 40000 ((0 + 1) mod 16))
      (view 0 (replicate 16 zero_tx_buffer) (tx_ring_init 16)) = ((s', i), r')" by (metis surj_pair)
  have "s' \<le> 16384" using tx_split_bounds [OF _ _ _ run] 3 by (simp add: tx_ring_init_def)
  with run 3 show ?thesis by simp
qed

end
