(* ===== verification/Rx_Props.thy ===== *)
theory Rx_Props
  imports Rx_Facts Tx_Props
begin

text \<open>
  Properties of the receive ring: the page account over all histories of a ring, buffer geometry, what happens
  to a buffer when its packet is done, termination of the receive loop, checksum and hash reporting,
  delivery of complete frames.
\<close>

subsection \<open>The ring over time\<close>

definition zero_rx_buffer :: ixgbevf_rx_buffer where
  "zero_rx_buffer = \<lparr>rb_dma = 0, rb_page = None, page_offset = 0, pagecnt_bias = 0\<rparr>"

text \<open>The part of \<open>ixgbevf_configure_rx_ring\<close> that concerns the software ring; the registers it writes are not state
  of the ring.\<close>

definition rx_ring_reinit :: "unit rxop" where
  "rx_ring_reinit = do {
     modify (\<lambda>r. r\<lparr>rx_buffer_info := replicate (rx_count r) zero_rx_buffer\<rparr>);
     rx_log (Clear_length 0);
     modify (\<lambda>r. r\<lparr>rx_next_to_clean := 0, rx_next_to_use := 0, next_to_alloc := 0\<rparr>) }"

definition rx_ring_restart :: "rxenv \<Rightarrow> unit rxop" where
  "rx_ring_restart E = do {
     ixgbevf_clean_rx_ring E;
     rx_ring_reinit;
     n \<leftarrow> gets rx_desc_unused;
     ixgbevf_alloc_rx_buffers E n }"

text \<open>The steps of a ring: receiving with some budget, and being brought down and up again. The device and the
  kernel may behave differently in each step.\<close>

inductive rx_step :: "rx_ring \<Rightarrow> rx_ring \<Rightarrow> bool" where
  receive: "honest_device E \<Longrightarrow> run_state (ixgbevf_clean_rx_irq E fuel budget) r = (Some k, r') \<Longrightarrow> rx_step r r'"
| restart: "run_state (rx_ring_restart E) r = (u, r') \<Longrightarrow> rx_step r r'"

inductive_cases rx_stepE: "rx_step r r'"

definition rx_ok :: "rx_ring \<Rightarrow> bool" where
  "rx_ok r \<longleftrightarrow> (\<exists>u a. rx_good u a r)"

definition live_pages :: "rx_ring \<Rightarrow> nat list" where
  "live_pages r = pages (slots_of r)"

lemma rx_good_empty:
  assumes "0 < rx_count r" "rx_count r < 2 ^ 16" "rx_netdev r" "slots_of r = replicate (rx_count r) None"
    "rx_next_to_clean r = 0" "rx_next_to_use r = 0" "next_to_alloc r = 0" "\<not> posted (rx_ev r) 0"
    "mset (got (rx_ev r)) = mset (gone (rx_ev r))"
  shows "rx_good 0 0 r"
  using assms by (simp add: rx_good_def filled_def Let_def pages_def)

lemma restart_good:
  assumes g: "rx_good u a r" and run: "run_state (rx_ring_restart E) r = (x, r')"
  shows "rx_ok r'"
proof -
  from run_clean_rx_ring [OF g] obtain h where
    h: "run_state (ixgbevf_clean_rx_ring E) r =
      ((), r\<lparr>rx_skb_p := Skb_null, rx_ev := h @ rx_ev r, next_to_alloc := 0, rx_next_to_clean := 0, rx_next_to_use := 0\<rparr>)"
    "got (h @ rx_ev r) = got (rx_ev r)" "gone (h @ rx_ev r) = gone h @ gone (rx_ev r)" "mset (gone h) = mset (pages (slots_of r))"
    by blast
  have f: "filled a r" "rx_netdev r" using g by (simp_all add: rx_good_def Let_def)
  note b = filled_bounds [OF f(1)]
  obtain r1 where r1: "run_state (do { ixgbevf_clean_rx_ring E; rx_ring_reinit }) r = ((), r1)" by (metis surj_pair unit.exhaust)
  have al: "run_state (ixgbevf_alloc_rx_buffers E (rx_desc_unused r1)) r1 = (x, r')"
    using run r1 by (auto simp: rx_ring_restart_def split: prod.splits)
  have "rx_good 0 0 r1"
    by (rule rx_good_empty) (use r1 h b f filled_balance [OF f(1)] in
      \<open>auto simp: rx_ring_reinit_def rx_log_def slots_of_def zero_rx_buffer_def ac_simps\<close>)
  moreover have "0 < rx_count r1" using calculation by (simp add: rx_good_def Let_def)
  ultimately show ?thesis using alloc_rx_buffers_good [OF _ _ _ al] rx_desc_unused_good unfolding rx_ok_def by fastforce
qed

interpretation rx: ledger rx_ok rx_step "\<lambda>r. got (rx_ev r)" "\<lambda>r. gone (rx_ev r)" live_pages
proof unfold_locales
  fix r r' assume "rx_ok r" and "rx_step r r'"
  then show "rx_ok r'"
    by (auto simp: rx_ok_def [of r] elim!: rx_stepE intro: restart_good)
       (use clean_rx_irq_good in \<open>auto simp: rx_ok_def\<close>)
next
  fix r assume "rx_ok r"
  then show "mset (got (rx_ev r)) = mset (gone (rx_ev r)) + mset (live_pages r)"
    by (auto simp: rx_ok_def rx_good_def Let_def live_pages_def filled_balance)
qed

definition rx_ring_init :: "nat \<Rightarrow> ixgbevf_ring_state_t set \<Rightarrow> rx_ring" where
  "rx_ring_init n s = \<lparr>rx_count = n, rx_next_to_use = 0, rx_next_to_clean = 0, next_to_alloc = 0,
     rx_buffer_info = replicate n zero_rx_buffer, rx_state = s, rx_skb_p = Skb_null, rx_netdev = True, xdp_prog = False,
     rx_packets = 0, rx_bytes = 0, csum_err = 0, alloc_rx_page = 0, alloc_rx_page_failed = 0, alloc_rx_buff_failed = 0,
     qv_packets = 0, qv_bytes = 0, netpoll_rx = False, xdp_ring = tx_ring_init n, rx_ev = []\<rparr>"

lemma rx_ring_init_good: "0 < n \<Longrightarrow> n < 2 ^ 16 \<Longrightarrow> rx_good 0 0 (rx_ring_init n s)"
  by (rule rx_good_empty) (simp_all add: rx_ring_init_def slots_of_def zero_rx_buffer_def)

subsection \<open>A concrete ring\<close>

definition no_desc :: ixgbe_adv_rx_desc where
  "no_desc = \<lparr>wb_length = 0, status_error = 0, wb_vlan = 0, pkt_info = 0, wb_rss = 0\<rparr>"

definition received :: "rx_event \<Rightarrow> bool" where
  "received e = (case e of Rx_status i d \<Rightarrow> wb_length d \<noteq> 0 | _ \<Rightarrow> False)"

text \<open>A device that receives one frame of 100 bytes into a posted descriptor, and a kernel that never fails.\<close>

definition sample_rxenv :: rxenv where
  "sample_rxenv = \<lparr>rx_new_page = (\<lambda>h. Some (length h)), rx_dma_addr = (\<lambda>h. of_nat (length h)), rx_dma_fails = (\<lambda>h. False),
     rx_reserved = (\<lambda>h p. False), rx_refs = (\<lambda>h p. 1),
     rx_writeback = (\<lambda>h i. if posted h i \<and> \<not> list_ex received h
       then no_desc\<lparr>wb_length := 100, status_error := IXGBE_RXD_STAT_EOP\<rparr> else no_desc),
     rx_skb_alloc = (\<lambda>h. True), eth_get_headlen = (\<lambda>h. 14), run_xdp_prog = (\<lambda>h off s. (XDP_PASS, off, s)),
     pad_fails = (\<lambda>h. False), own_source = (\<lambda>h. True), vlan_active = (\<lambda>v. False), eth_type_trans = (\<lambda>h. PACKET_HOST),
     f_rxhash = True, f_rxcsum = True, f_rxall = False, hwtstamp = False, IXGBEVF_SKB_PAD = 64, skb_overhead = 320,
     xdp_env = sample_txenv\<rparr>"

lemma sample_rxenv_honest: "honest_device sample_rxenv"
  by (simp add: honest_device_def sample_rxenv_def no_desc_def)

subsection \<open>Properties\<close>

text \<open>C4: Pages of a receive ring are conserved. Over every history of receiving (with any budget, allocation and
  mapping failures included) and of bringing the ring down and up, with a device that writes back only
  posted descriptors, each page obtained from the kernel is in exactly one slot of the ring or has been
  released exactly once.\<close>

theorem rx_pages_conserved:
  assumes "0 < n" and "n < 2 ^ 16" and "rx_step\<^sup>*\<^sup>* (rx_ring_init n s) r"
  shows "mset (got (rx_ev r)) = mset (gone (rx_ev r)) + mset (live_pages r)"
  using rx.reach_balance [OF assms(3)] rx_ring_init_good [OF assms(1,2)] unfolding rx_ok_def by blast

theorem rx_pages_conserved_witness:
  "mset (got (rx_ev (snd (run_state (rx_ring_restart sample_rxenv) (rx_ring_init 8 {}))))) =
   mset (gone (rx_ev (snd (run_state (rx_ring_restart sample_rxenv) (rx_ring_init 8 {}))))) +
   mset (live_pages (snd (run_state (rx_ring_restart sample_rxenv) (rx_ring_init 8 {}))))"
proof (rule rx_pages_conserved)
  show "rx_step\<^sup>*\<^sup>* (rx_ring_init 8 {}) (snd (run_state (rx_ring_restart sample_rxenv) (rx_ring_init 8 {})))"
    by (rule r_into_rtranclp, rule rx_step.restart) (rule surjective_pairing)
qed simp_all

text \<open>C6: The layout of a receive ring. In every reachable state, going round from \<open>next_to_clean\<close>, the slots up to
  \<open>next_to_alloc\<close> hold a page and no other slot does, \<open>next_to_use\<close> is not behind \<open>next_to_clean\<close> nor beyond
  \<open>next_to_alloc\<close>, at least one slot is free, and \<open>ixgbevf_desc_unused\<close> counts the slots not posted, without
  wrapping around.\<close>

theorem rx_ring_layout:
  assumes "0 < n" and "n < 2 ^ 16" and "rx_step\<^sup>*\<^sup>* (rx_ring_init n s) r"
  shows "\<exists>u a. rx_next_to_use r = (rx_next_to_clean r + u) mod rx_count r \<and>
    next_to_alloc r = (rx_next_to_clean r + a) mod rx_count r \<and> u \<le> a \<and> a < rx_count r \<and>
    (\<forall>k < rx_count r. (rb_page (rx_buffer_info r ! ((rx_next_to_clean r + k) mod rx_count r)) \<noteq> None) = (k < a)) \<and>
    unat (rx_desc_unused r) = rx_count r - 1 - u"
proof -
  from rx.reach_ok [OF assms(3)] rx_ring_init_good [OF assms(1,2)] obtain u a where g: "rx_good u a r"
    unfolding rx_ok_def by blast
  then have f: "filled a r" by (simp add: rx_good_def Let_def)
  have "(rb_page (rx_buffer_info r ! ((rx_next_to_clean r + k) mod rx_count r)) \<noteq> None) = (k < a)" if "k < rx_count r" for k
    using filled_slot [OF f that] filled_bounds [OF f] by (simp add: slot_nth)
  then show ?thesis using g rx_desc_unused_good [OF g] by - (rule exI [of _ u], rule exI [of _ a], auto simp: rx_good_def Let_def)
qed

theorem rx_ring_layout_witness:
  "\<exists>u < 8. unat (rx_desc_unused (snd (run_state (rx_ring_restart sample_rxenv) (rx_ring_init 8 {})))) = 7 - u"
proof -
  let ?r = "snd (run_state (rx_ring_restart sample_rxenv) (rx_ring_init 8 {}))"
  have st: "rx_step\<^sup>*\<^sup>* (rx_ring_init 8 {}) ?r"
    by (rule r_into_rtranclp, rule rx_step.restart) (rule surjective_pairing)
  obtain u a where "u \<le> a" "a < rx_count ?r" "unat (rx_desc_unused ?r) = rx_count ?r - 1 - u"
    using rx_ring_layout [OF _ _ st] by auto
  moreover have "rx_count ?r = 8" by code_simp
  ultimately show ?thesis by (intro exI [of _ u]) simp
qed

text \<open>C7: What becomes of a buffer once its packet owns the data. \<open>ixgbevf_put_rx_buffer\<close> on the buffer at
  \<open>next_to_clean\<close>: when the page is local, not emergency memory and nobody else holds a reference, the same
  page, mapping and offset move to the slot at \<open>next_to_alloc\<close>, which advances, and nothing is released.
  Otherwise the page's references are dropped in one go, and its DMA mapping is undone only when the packet
  was an error pointer of the XDP path: for an ordinary packet the mapping is kept although the slot
  forgets it. In both cases the slot is left without a page.\<close>

theorem put_rx_buffer_outcomes:
  assumes g: "rx_good u a r" and u: "0 < u" and c: "c = rx_next_to_clean r" and b: "b = rx_buffer_info r ! c" and p: "rb_page b = Some p"
    and run: "run_state (ixgbevf_put_rx_buffer E c skb) r = (x, r')"
    and ok: "ok = (\<not> rx_reserved E (rx_ev r) p \<and> rx_refs E (rx_ev r) p - ucast (pagecnt_bias b) \<le> 1)"
  shows "rb_page (rx_buffer_info r' ! c) = None \<and>
    (if ok then
       next_to_alloc r' = (if next_to_alloc r + 1 < rx_count r then next_to_alloc r + 1 else 0) \<and>
       rx_buffer_info r' ! next_to_alloc r = b\<lparr>pagecnt_bias := (if pagecnt_bias b = 0 then USHRT_MAX else pagecnt_bias b)\<rparr> \<and>
       rx_ev r' = (if pagecnt_bias b = 0 then [Page_ref_add p USHRT_MAX] else []) @ rx_ev r
     else next_to_alloc r' = next_to_alloc r \<and>
       rx_ev r' = Drain p (pagecnt_bias b) # (if IS_ERR skb then [Rx_unmap (rb_dma b)] else []) @ rx_ev r)"
proof -
  have f: "filled a r" and nta: "next_to_alloc r = (rx_next_to_clean r + a) mod rx_count r" and a: "0 < a" "a < rx_count r"
    using g u by (simp_all add: rx_good_def Let_def)
  note bd = filled_bounds [OF f]
  have len: "length (rx_buffer_info r) = rx_count r" using bd by (simp add: slots_of_def)
  have ne: "next_to_alloc r \<noteq> c" "next_to_alloc r < rx_count r" "c < rx_count r"
    using slot_inj [of a "rx_count r" 0 "rx_next_to_clean r"] a bd unfolding nta c by auto
  have cr: "run_state (ixgbevf_can_reuse_rx_page E c) r = (ok, if ok \<and> pagecnt_bias b = 0 then
      r\<lparr>rx_ev := Page_ref_add p USHRT_MAX # rx_ev r, rx_buffer_info := (rx_buffer_info r)[c := b\<lparr>pagecnt_bias := USHRT_MAX\<rparr>]\<rparr> else r)"
    using p b ok by (cases "1 < rx_refs E (rx_ev r) p - ucast (pagecnt_bias b)")
      (auto simp: ixgbevf_can_reuse_rx_page_def ixgbevf_page_is_reserved_def rx_buf_def rx_hist_def rx_log_def
        upd_rx_buf_def run_whenM)
  show ?thesis
  proof (cases ok)
    case True
    then show ?thesis using run cr ne len b
      by (auto simp: ixgbevf_put_rx_buffer_def ixgbevf_reuse_rx_page_def upd_rx_buf_def rx_buf_def nth_list_update split: if_splits)
  next
    case False
    then show ?thesis using run cr ne len b p
      by (auto simp: ixgbevf_put_rx_buffer_def upd_rx_buf_def rx_buf_def rx_log_def run_whenM split: if_splits)
  qed
qed

text \<open>A ring of four with one posted page, and one whose page is shared.\<close>

definition sample_rxring :: rx_ring where
  "sample_rxring = (rx_ring_init 4 {})\<lparr>rx_next_to_use := 1, next_to_alloc := 1,
     rx_buffer_info := (zero_rx_buffer\<lparr>rb_page := Some 5, rb_dma := 64, pagecnt_bias := 1\<rparr>) # replicate 3 zero_rx_buffer,
     rx_ev := [Clear_length 1, Write_desc 0 64, Rx_map 5 64, Rx_alloc 5]\<rparr>"

lemma sample_rxring_good: "rx_good 1 1 sample_rxring"
proof -
  have k: "k < 4 \<Longrightarrow> k = 0 \<or> k = 1 \<or> k = 2 \<or> k = 3" for k :: nat by linarith
  have "filled 1 sample_rxring"
    by (rule filledI [of _ 4 0]) (auto simp: sample_rxring_def rx_ring_init_def slots_of_def zero_rx_buffer_def pages_def dest!: k)
  then show ?thesis by (simp add: rx_good_def Let_def sample_rxring_def rx_ring_init_def)
qed

lemma sample_rxring_buf: "rx_next_to_clean sample_rxring = 0"
    "rx_buffer_info sample_rxring ! 0 = \<lparr>rb_dma = 64, rb_page = Some 5, page_offset = 0, pagecnt_bias = 1\<rparr>"
  by (simp_all add: sample_rxring_def rx_ring_init_def zero_rx_buffer_def)

lemma sample_rxenv_reserved: "rx_reserved sample_rxenv = (\<lambda>h p. False)"
  by (simp add: sample_rxenv_def)

theorem put_rx_buffer_outcomes_witness:
  "rx_ev (snd (run_state (ixgbevf_put_rx_buffer (sample_rxenv\<lparr>rx_refs := \<lambda>h p. 3\<rparr>) 0 (Skb (new_skb 100 []))) sample_rxring)) =
     Drain 5 1 # rx_ev sample_rxring"
  using put_rx_buffer_outcomes [OF sample_rxring_good _ refl refl _ surjective_pairing refl,
      of 5 "sample_rxenv\<lparr>rx_refs := \<lambda>h p. 3\<rparr>" "Skb (new_skb 100 [])"]
  by (simp add: sample_rxring_buf sample_rxenv_reserved word_le_nat_alt)

subsection \<open>Termination of the receive loop\<close>

definition seen :: "rx_event list \<Rightarrow> nat" where
  "seen h = length (filter received h)"

definition bounded_device :: "nat \<Rightarrow> rxenv \<Rightarrow> bool" where
  "bounded_device K E \<longleftrightarrow> (\<forall>h i. K \<le> seen h \<longrightarrow> wb_length (rx_writeback E h i) = 0)"

definition past :: "nat \<Rightarrow> rx_ring \<Rightarrow> bool" where
  "past k r \<longleftrightarrow> k \<le> seen (rx_ev r)"

lemma past_rx_log [preserves_rules]: "preserves (past k) (rx_log e)"
  unfolding rx_log_def by (rule preserves_modify) (simp add: past_def seen_def)

lemma past_modify [preserves_rules]: "(\<And>r. rx_ev (f r) = rx_ev r) \<Longrightarrow> preserves (past k) (modify f)"
  by (rule preserves_modify) (simp add: past_def)

lemma past_state [preserves_rules]:
  "preserves P (rx_hist g)" "preserves P (rx_buf i)" "preserves (past k) (upd_rx_buf i f)" "preserves (past k) (on_xdp_ring m)"
  by (simp_all add: rx_hist_def rx_buf_def upd_rx_buf_def preserves_rules)
     (auto simp: on_xdp_ring_def past_def intro!: preservesI split: prod.splits)

lemma preserves_case_skbp [preserves_rules]:
  "preserves P a \<Longrightarrow> (\<And>e. preserves P (g e)) \<Longrightarrow> (\<And>s. preserves P (h s)) \<Longrightarrow>
     preserves P (case x of Skb_null \<Rightarrow> a | Skb_err e \<Rightarrow> g e | Skb s \<Rightarrow> h s)"
  by (simp split: skbp.splits)

lemma preserves_case_xdp_act [preserves_rules]:
  "preserves P a1 \<Longrightarrow> preserves P a2 \<Longrightarrow> preserves P a3 \<Longrightarrow> preserves P a4 \<Longrightarrow> preserves P a5 \<Longrightarrow>
     preserves P (case x of XDP_ABORTED \<Rightarrow> a1 | XDP_DROP \<Rightarrow> a2 | XDP_PASS \<Rightarrow> a3 | XDP_TX \<Rightarrow> a4 | XDP_other \<Rightarrow> a5)"
  by (simp split: xdp_act.splits)

lemma past_alloc: "preserves (past k) (ixgbevf_alloc_mapped_page E i)" "preserves (past k) (alloc_loop E m pi)"
proof -
  show 1: "preserves (past k) (ixgbevf_alloc_mapped_page E i)" for i
    unfolding ixgbevf_alloc_mapped_page_def by (intro preserves_rules past_modify past_rx_log past_state) simp_all
  show "preserves (past k) (alloc_loop E m pi)"
    by (induction m arbitrary: pi) (auto intro!: preserves_rules past_rx_log past_state 1)
qed

lemma past_ops:
  "preserves (past k) (rx_refill E v)" "preserves (past k) (ixgbevf_get_rx_buffer s)" "preserves (past k) (rx_attach E i s v)"
  "preserves (past k) (ixgbevf_put_rx_buffer E i skb)" "preserves (past k) (ixgbevf_is_non_eop d)" "preserves (past k) (rx_frame E d v)"
  unfolding rx_refill_def ixgbevf_alloc_rx_buffers_def ixgbevf_get_rx_buffer_def rx_attach_def ixgbevf_put_rx_buffer_def
    ixgbevf_can_reuse_rx_page_def ixgbevf_page_is_reserved_def ixgbevf_reuse_rx_page_def ixgbevf_is_non_eop_def rx_frame_def
    rx_data_path_defs
  by (intro past_modify past_rx_log past_state past_alloc preserves_rules; simp)+

lemma past_later: "preserves (past k) m \<Longrightarrow> run_state m r = (x, r') \<Longrightarrow> past k r \<Longrightarrow> past k r'"
  by (rule preservesD)

lemma rx_iter_progress:
  assumes past: "past k r" and run: "run_state (rx_iter E v) r = ((False, v'), r')"
  shows "past (Suc k) r' \<and> \<not> (bounded_device K E \<and> K \<le> k)"
proof -
  have polled: "past k r1 \<and> past (Suc k) r2 \<and> \<not> (bounded_device K E \<and> K \<le> k)"
    if "rx_polled E v r v1 r1 d r2" "wb_length d \<noteq> 0" for v1 r1 d r2
  proof -
    have "past k r1" using past_later [OF past_ops(1)] past that(1) by (auto simp: rx_polled_def)
    then show ?thesis using that by (auto simp: rx_polled_def past_def seen_def received_def bounded_device_def)
  qed
  have got: "past j r4" if "rx_got E v1 d r2 i r3 v4 r4" "past j r2" for j v1 d r2 i r3 v4 r4
    using that past_later [OF past_ops(2)] past_later [OF past_ops(3)] unfolding rx_got_def by blast
  from run show ?thesis
  proof (cases rule: rx_iter_cases)
    case (frag v1 r1 d r2 i r3 v4 r4 x r5)
    then show ?thesis using polled [OF frag(1)] got [OF frag(2)] past_later [OF past_ops(4)] past_later [OF past_ops(5)]
      unfolding rx_got_def by blast
  next
    case (frame v1 r1 d r2 i r3 v4 r4 x r5 r6)
    then show ?thesis using polled [OF frame(1)] got [OF frame(2)] past_later [OF past_ops(4)] past_later [OF past_ops(5)]
        past_later [OF past_ops(6)] unfolding rx_got_def by blast
  qed simp_all
qed

lemma rx_loop_returns:
  "bounded_device K E \<Longrightarrow> past k r \<Longrightarrow> k \<le> K \<Longrightarrow> K < k + fuel \<Longrightarrow>
     \<exists>v' r'. run_state (rx_loop E fuel budget v) r = (Some v', r')"
proof (induction fuel arbitrary: k r v)
  case (Suc fuel)
  obtain stop v1 r1 where it: "run_state (rx_iter E v) r = ((stop, v1), r1)" by (metis surj_pair)
  show ?case
  proof (cases "total_rx_packets v < budget \<and> \<not> stop")
    case True
    with it have it': "run_state (rx_iter E v) r = ((False, v1), r1)" by simp
    from rx_iter_progress [OF Suc.prems(2) it', of K] Suc.prems(1) have "past (Suc k) r1" "k < K" by auto
    then show ?thesis using Suc.IH [of "Suc k" r1 v1] Suc.prems True it' by auto
  qed (use it in auto)
qed simp

text \<open>C8: The receive loop ends. The loop counts only frames it delivers or hands to XDP, so nothing in the driver
  bounds it; but with a device that reports at most \<open>K\<close> descriptors in total, of which \<open>k\<close> were seen before,
  \<open>ixgbevf_clean_rx_irq\<close> returns after at most \<open>K - k + 1\<close> iterations, whatever the budget, and whatever
  the kernel and the XDP program do.\<close>

theorem clean_rx_irq_returns:
  assumes dev: "bounded_device K E" and k: "k = seen (rx_ev r)" "k \<le> K" and fuel: "K - k < fuel"
  shows "\<exists>n r'. run_state (ixgbevf_clean_rx_irq E fuel budget) r = (Some n, r')"
proof -
  have "past k r" using k by (simp add: past_def)
  moreover have "K < k + fuel" using k(2) fuel by simp
  ultimately obtain v' r1 where "run_state (rx_loop E fuel budget \<lparr>cleaned_count = rx_desc_unused r, v_skb = rx_skb_p r, xdp_xmit = False,
      total_rx_bytes = 0, total_rx_packets = 0\<rparr>) r = (Some v', r1)" using rx_loop_returns [OF dev _ k(2)] by blast
  then show ?thesis by (simp add: ixgbevf_clean_rx_irq_def split: prod.splits)
qed

lemma sample_rxenv_bounded: "bounded_device 1 sample_rxenv"
proof -
  have "list_ex received h" if "Suc 0 \<le> seen h" for h
    using that by (auto simp: seen_def list_ex_iff filter_empty_conv Suc_le_eq)
  then show ?thesis by (simp add: bounded_device_def sample_rxenv_def no_desc_def)
qed

theorem clean_rx_irq_returns_witness:
  "\<exists>n r'. run_state (ixgbevf_clean_rx_irq sample_rxenv 2 64) sample_rxring = (Some n, r')"
  by (rule clean_rx_irq_returns [OF sample_rxenv_bounded refl])
     (simp_all add: sample_rxring_def rx_ring_init_def seen_def received_def)

subsection \<open>Geometry of the buffers\<close>

definition halves :: "rxenv \<Rightarrow> ixgbevf_ring_state_t set \<Rightarrow> u32 set" where
  "halves E s = {ixgbevf_rx_offset E s, ixgbevf_rx_offset E s XOR ixgbevf_rx_frame_truesize s}"

definition in_half :: "rxenv \<Rightarrow> ixgbevf_ring_state_t set \<Rightarrow> ixgbevf_rx_buffer \<Rightarrow> bool" where
  "in_half E s b \<longleftrightarrow> rb_page b \<noteq> None \<longrightarrow> page_offset b \<in> halves E s"

definition halved :: "rxenv \<Rightarrow> ixgbevf_ring_state_t set \<Rightarrow> nat \<Rightarrow> rx_ring \<Rightarrow> bool" where
  "halved E s n r \<longleftrightarrow> rx_state r = s \<and> rx_count r = n \<and> length (rx_buffer_info r) = n \<and> rx_next_to_clean r < n \<and>
     (\<forall>b \<in> set (rx_buffer_info r). in_half E s b)"

lemma flip_half: "off \<in> halves E s \<Longrightarrow> off XOR ixgbevf_rx_frame_truesize s \<in> halves E s"
  by (auto simp: halves_def ac_simps)

lemma halved_modify:
  "(\<And>r. rx_state (f r) = rx_state r \<and> rx_buffer_info (f r) = rx_buffer_info r \<and> rx_count (f r) = rx_count r \<and>
     (rx_next_to_clean r < rx_count r \<longrightarrow> rx_next_to_clean (f r) < rx_count r)) \<Longrightarrow> preserves (halved E s n) (modify f)"
  by (rule preserves_modify) (auto simp: halved_def)

lemma halved_rx_log: "preserves (halved E s n) (rx_log e)"
  unfolding rx_log_def by (rule halved_modify) simp

lemma halved_xdp: "preserves (halved E s n) (on_xdp_ring m)"
  by (rule preservesI) (simp add: on_xdp_ring_def halved_def split: prod.splits)

lemma halved_upd: "(\<And>b. in_half E s b \<Longrightarrow> in_half E s (f b)) \<Longrightarrow> preserves (halved E s n) (upd_rx_buf i f)"
  unfolding upd_rx_buf_def
proof (rule preserves_modify)
  fix r assume f: "\<And>b. in_half E s b \<Longrightarrow> in_half E s (f b)" and h: "halved E s n r"
  have "in_half E s b" if "b \<in> set ((rx_buffer_info r)[i := f (rx_buffer_info r ! i)])" for b
  proof (cases "i < length (rx_buffer_info r)")
    case True
    moreover have "b = f (rx_buffer_info r ! i) \<or> b \<in> set (rx_buffer_info r)"
      using that set_update_subset_insert by fastforce
    ultimately show ?thesis using f h by (auto simp: halved_def)
  qed (use that h in \<open>simp add: halved_def list_update_beyond\<close>)
  then show "halved E s n (r\<lparr>rx_buffer_info := (rx_buffer_info r)[i := f (rx_buffer_info r ! i)]\<rparr>)"
    using h by (simp add: halved_def)
qed

lemma halved_gets_state: "preserves (halved E s n) (g s) \<Longrightarrow> preserves (halved E s n) (State_Monad.bind (gets rx_state) g)"
proof (rule preservesI)
  fix r assume "preserves (halved E s n) (g s)" "halved E s n r"
  then show "halved E s n (snd (run_state (State_Monad.bind (gets rx_state) g) r))"
    using preserves_snd [of "halved E s n" "g s" r] by (simp add: halved_def)
qed

lemma halved_rx_buf:
  "i < n \<Longrightarrow> (\<And>b. in_half E s b \<Longrightarrow> preserves (halved E s n) (g b)) \<Longrightarrow>
     preserves (halved E s n) (State_Monad.bind (rx_buf i) g)"
proof (rule preservesI)
  fix r assume "i < n" and g: "\<And>b. in_half E s b \<Longrightarrow> preserves (halved E s n) (g b)" and h: "halved E s n r"
  then have "in_half E s (rx_buffer_info r ! i)" by (simp add: halved_def)
  from preserves_snd [OF g [OF this] h] show "halved E s n (snd (run_state (State_Monad.bind (rx_buf i) g) r))"
    by (simp add: rx_buf_def)
qed

lemma halved_get_rx_buffer:
  "(\<And>i. i < n \<Longrightarrow> preserves (halved E s n) (g i)) \<Longrightarrow> preserves (halved E s n) (State_Monad.bind (ixgbevf_get_rx_buffer z) g)"
proof (rule preservesI)
  fix r assume g: "\<And>i. i < n \<Longrightarrow> preserves (halved E s n) (g i)" and h: "halved E s n r"
  obtain i r1 where b: "run_state (ixgbevf_get_rx_buffer z) r = (i, r1)" by (metis surj_pair)
  have "preserves (halved E s n) (ixgbevf_get_rx_buffer z)" unfolding ixgbevf_get_rx_buffer_def
    by (intro halved_rx_log halved_upd past_state preserves_rules) (simp add: in_half_def)
  then have h1: "halved E s n r1" using h b by (rule preservesD)
  have "i < n" using get_rx_buffer_index [OF b] h by (simp add: halved_def)
  from preserves_snd [OF g [OF this] h1] b show "halved E s n (snd (run_state (State_Monad.bind (ixgbevf_get_rx_buffer z) g) r))"
    by simp
qed

lemmas halved_rules = halved_gets_state halved_rx_log halved_xdp halved_upd halved_modify past_state(1,2)
  preserves_ret preserves_gets preserves_bind preserves_if preserves_whenM preserves_Let preserves_case_prod
  preserves_case_option preserves_case_skbp preserves_case_xdp_act

lemma halved_alloc: "preserves (halved E s n) (ixgbevf_alloc_mapped_page E i)" "preserves (halved E s n) (alloc_loop E m pi)"
proof -
  show 1: "preserves (halved E s n) (ixgbevf_alloc_mapped_page E i)" for i
    unfolding ixgbevf_alloc_mapped_page_def by (intro halved_rules) (simp_all add: in_half_def halves_def)
  show "preserves (halved E s n) (alloc_loop E m pi)"
    by (induction m arbitrary: pi) (auto intro!: halved_rules 1)
qed

lemma halved_refill: "preserves (halved E s n) (ixgbevf_alloc_rx_buffers E cc)" "preserves (halved E s n) (rx_refill E v)"
  unfolding rx_refill_def ixgbevf_alloc_rx_buffers_def by (intro halved_rules halved_alloc; simp)+

lemma halved_attach: "preserves (halved E s n) (rx_attach E i z v)"
  unfolding rx_attach_def rx_data_path_defs Let_def
  by (intro halved_rules) (auto simp: in_half_def ixgbevf_rx_frame_truesize_def [symmetric] intro: flip_half)

lemma halved_frame: "preserves (halved E s n) (rx_frame E d v)"
  unfolding rx_frame_def rx_data_path_defs by (intro halved_rules) simp_all

lemma halved_put: "i < n \<Longrightarrow> preserves (halved E s n) (ixgbevf_put_rx_buffer E i skb)"
  unfolding ixgbevf_put_rx_buffer_def ixgbevf_can_reuse_rx_page_def ixgbevf_page_is_reserved_def ixgbevf_reuse_rx_page_def
  by (intro halved_rx_buf halved_rules) (simp_all add: in_half_def)

lemma halved_non_eop: "preserves (halved E s n) (ixgbevf_is_non_eop d)"
  unfolding ixgbevf_is_non_eop_def by (intro halved_rules) auto

lemma halved_iter: "preserves (halved E s n) (rx_iter E v)"
  unfolding rx_iter_def
  by (intro halved_get_rx_buffer halved_refill halved_attach halved_put halved_non_eop halved_frame halved_rules)
     (simp_all add: in_half_def)

lemma halved_loop: "preserves (halved E s n) (rx_loop E fuel budget v)"
  by (induction fuel arbitrary: v) (auto intro!: halved_iter preserves_rules)

lemma halved_clean_rx_irq: "preserves (halved E s n) (ixgbevf_clean_rx_irq E fuel budget)"
  unfolding ixgbevf_clean_rx_irq_def by (intro halved_loop halved_rules) simp_all

text \<open>The kernel's head room and \<open>skb_shared_info\<close> leave room for a frame in half a buffer page.\<close>

definition fits :: "rxenv \<Rightarrow> ixgbevf_ring_state_t set \<Rightarrow> bool" where
  "fits E s \<longleftrightarrow> 0 < skb_overhead E \<and> unat (IXGBEVF_SKB_PAD E) + unat (skb_overhead E) + (if RX_3K_BUFFER \<in> s then 3072 else 0) \<le>
     (if RX_3K_BUFFER \<in> s then 4096 else 2048)"

lemma xor_half:
  assumes "unat (off :: u32) < 2 ^ k"
  shows "off XOR 2 ^ k = off + 2 ^ k"
proof -
  have t: "take_bit k off = off" using assms by (simp add: word_unat_eq_iff unsigned_take_bit_eq take_bit_nat_eq_self)
  have "take_bit k off AND 2 ^ k = 0" by (rule bit_word_eqI) (auto simp: bit_simps)
  then have "off AND 2 ^ k = 0" unfolding t .
  then show ?thesis by (rule disjunctive_add_eq_xor [symmetric])
qed

lemma half_bounds:
  assumes f: "fits E s" and off: "off \<in> halves E s"
  shows "unat off + unat (ixgbevf_rx_bufsz E s) \<le> unat (ixgbevf_rx_frame_truesize s) \<or>
    (unat (ixgbevf_rx_frame_truesize s) \<le> unat off \<and> unat off + unat (ixgbevf_rx_bufsz E s) \<le> unat (ixgbevf_rx_pg_size s))"
proof -
  define k :: nat where "k = (if RX_3K_BUFFER \<in> s then 12 else 11)"
  let ?o = "ixgbevf_rx_offset E s"
  have t: "ixgbevf_rx_frame_truesize s = 2 ^ k" and pg: "unat (ixgbevf_rx_pg_size s) = 2 * 2 ^ k" and t': "unat (2 ^ k :: u32) = 2 ^ k"
    by (simp_all add: ixgbevf_rx_frame_truesize_def ixgbevf_rx_pg_size_def ixgbevf_rx_pg_order_def ring_uses_large_buffer_def k_def)
  have sub: "unat (2048 - skb_overhead E - IXGBEVF_SKB_PAD E) + unat (IXGBEVF_SKB_PAD E) \<le> 2048" if "RX_3K_BUFFER \<notin> s"
  proof -
    have le: "skb_overhead E \<le> 2048" using f that by (simp add: fits_def word_le_nat_alt)
    then have "unat (2048 - skb_overhead E) = 2048 - unat (skb_overhead E)" by (simp add: unat_sub)
    moreover have "IXGBEVF_SKB_PAD E \<le> 2048 - skb_overhead E" using f that calculation by (auto simp: fits_def word_le_nat_alt)
    ultimately show ?thesis by (simp add: unat_sub word_le_nat_alt)
  qed
  have b: "unat ?o + unat (ixgbevf_rx_bufsz E s) \<le> 2 ^ k" and ok: "unat ?o < 2 ^ k"
    using f sub unat_gt_0 [of "skb_overhead E"] by (auto simp: ixgbevf_rx_offset_def ixgbevf_rx_bufsz_def ring_uses_build_skb_def ring_uses_large_buffer_def
        IXGBEVF_MAX_FRAME_BUILD_SKB_def k_def fits_def)
  from off consider "off = ?o" | "off = ?o + 2 ^ k" using xor_half [OF ok] by (auto simp: halves_def t)
  then show ?thesis
  proof cases
    case 2
    have "(2 :: nat) ^ k \<le> 4096" by (simp add: k_def)
    then have "unat off = unat ?o + 2 ^ k" using 2 ok t' by (simp add: unat_word_ariths)
    then show ?thesis using b t t' pg by simp
  qed (use b t t' in simp)
qed



subsection \<open>What is reported to the stack\<close>

text \<open>Receive checksum. The stack is told that the checksum is good exactly when checksumming is enabled, the
  device checked the layer-4 checksum and neither found it bad nor found the IP checksum bad; the error counter
  grows by one exactly for a bad IP checksum or a bad layer-4 checksum, except for UDP on devices that
  report an error for a zero UDP checksum.\<close>

theorem rx_checksum_report:
  fixes d and E
  defines "on \<equiv> \<lambda>b. ixgbevf_test_staterr d b"
  assumes run: "run_state (ixgbevf_rx_checksum E d skb) r = (skb', r')"
  shows "(rs_csum_ok skb' \<longleftrightarrow> f_rxcsum E \<and> \<not> (on IXGBE_RXD_STAT_IPCS \<and> on IXGBE_RXDADV_ERR_IPE) \<and>
      on IXGBE_RXD_STAT_L4CS \<and> \<not> on IXGBE_RXDADV_ERR_TCPE) \<and>
    skb'\<lparr>rs_csum_ok := rs_csum_ok skb\<rparr> = skb \<and>
    csum_err r' = csum_err r + (if f_rxcsum E \<and> ((on IXGBE_RXD_STAT_IPCS \<and> on IXGBE_RXDADV_ERR_IPE) \<or>
      (on IXGBE_RXD_STAT_L4CS \<and> on IXGBE_RXDADV_ERR_TCPE \<and>
       \<not> (pkt_info d AND IXGBE_RXDADV_PKTTYPE_UDP \<noteq> 0 \<and> RX_CSUM_UDP_ZERO_ERR \<in> rx_state r))) then 1 else 0)"
  using run unfolding ixgbevf_rx_checksum_def on_def by (auto simp: Let_def split: if_splits)

theorem rx_checksum_report_witness:
  "rs_csum_ok (fst (run_state (ixgbevf_rx_checksum sample_rxenv (no_desc\<lparr>status_error := 0x22\<rparr>) (new_skb 100 [])) sample_rxring))"
proof -
  have "f_rxcsum sample_rxenv" by (simp add: sample_rxenv_def)
  then show ?thesis
    using rx_checksum_report [OF surjective_pairing, of sample_rxenv "no_desc\<lparr>status_error := 0x22\<rparr>" "new_skb 100 []" sample_rxring]
    by (simp add: ixgbevf_test_staterr_def)
qed

text \<open>A packet under construction has the packet type it was allocated with.\<close>

definition host_type :: "skbp \<Rightarrow> bool" where
  "host_type skb = (case skb of Skb s \<Rightarrow> rs_pkt_type s = PACKET_HOST | _ \<Rightarrow> True)"

lemma run_xdp_no_packet: "run_state (ixgbevf_run_xdp E i xdp) r \<noteq> ((Skb s, x), r')"
  by (auto simp: ixgbevf_run_xdp_def ERR_PTR_def split: prod.splits if_splits)

lemma rx_attach_host_type:
  assumes "host_type (v_skb v)" and "run_state (rx_attach E i z v) r = (v', r')"
  shows "host_type (v_skb v')"
  using assms
  by (auto simp: rx_attach_def host_type_def ixgbevf_add_rx_frag_def ixgbevf_build_skb_def ixgbevf_construct_skb_def new_skb_def
      Let_def run_xdp_no_packet split: prod.splits skbp.splits if_splits)

lemma rx_frame_host_type:
  assumes "host_type (v_skb v)" and "run_state (rx_frame E d v) r = (v', r')"
  shows "host_type (v_skb v')"
  using assms
  by (auto simp: rx_frame_def host_type_def ixgbevf_cleanup_headers_def Let_def split: prod.splits skbp.splits if_splits)



text \<open>C39: Emptying a receive ring (\<open>ixgbevf_clean_rx_ring\<close>, on the way down) ends, drains every page the ring holds
  exactly once, drops a partly received packet and resets the indices.\<close>

theorem clean_rx_ring_releases_all:
  assumes g: "rx_good u a r" and run: "run_state (ixgbevf_clean_rx_ring E) r = (x, r')"
  shows "\<exists>h. rx_ev r' = h @ rx_ev r \<and> got (rx_ev r') = got (rx_ev r) \<and> mset (gone h) = mset (live_pages r) \<and>
    mset (got (rx_ev r')) = mset (gone (rx_ev r')) \<and>
    rx_skb_p r' = Skb_null \<and> rx_next_to_use r' = 0 \<and> rx_next_to_clean r' = 0 \<and> next_to_alloc r' = 0"
proof -
  have "mset (got (rx_ev r)) = mset (gone (rx_ev r)) + mset (live_pages r)"
    using g by (auto simp: rx_good_def Let_def filled_balance live_pages_def)
  then show ?thesis using run_clean_rx_ring [OF g, of E] run by (auto simp: live_pages_def)
qed

theorem clean_rx_ring_releases_all_witness:
  "\<exists>h. rx_ev (snd (run_state (ixgbevf_clean_rx_ring sample_rxenv) sample_rxring)) = h @ rx_ev sample_rxring \<and> mset (gone h) = {#5#}"
proof -
  have "live_pages sample_rxring = [5]"
    by (simp add: live_pages_def slots_of_def pages_def sample_rxring_def zero_rx_buffer_def)
  then show ?thesis using clean_rx_ring_releases_all [OF sample_rxring_good surjective_pairing, of sample_rxenv] by auto
qed

end
