(* ===== verification/Poll.thy ===== *)
theory Poll
  imports Q_Vector Rx_Props
begin

text \<open>
  The NAPI poll routine \<open>ixgbevf_poll\<close>, which composes transmit cleaning, receiving and interrupt throttling for the
  rings of one vector. A vector's rings are lists; \<open>ixgbevf_clean_tx_irq\<close> runs on each transmit ring with
  the shared hardware structure and the totals of the vector's container, \<open>ixgbevf_clean_rx_irq\<close> likewise. The
  rings of the list \<open>ps_txs\<close> are ordinary transmit rings; the XDP ring of a receive ring belongs to that ring's
  state.
\<close>

record poll_state =
  ps_qv :: ixgbevf_q_vector
  ps_hw :: ixgbe_hw
  ps_txs :: "ixgbevf_ring list"
  ps_rxs :: "rx_ring list"
  rx_itr_setting :: u16

type_synonym 'a pollop = "(poll_state, 'a) state"

definition poll_hw :: "'a hwop \<Rightarrow> 'a pollop" where
  "poll_hw m = State (\<lambda>s. case run_state m (ps_hw s) of (a, h) \<Rightarrow> (a, s\<lparr>ps_hw := h\<rparr>))"

definition poll_tx :: "env \<Rightarrow> txenv \<Rightarrow> int \<Rightarrow> nat \<Rightarrow> bool pollop" where
  "poll_tx E T budget i = State (\<lambda>s.
     let c = qv_tx (ps_qv s) in
     case run_state (ixgbevf_clean_tx_irq E T budget)
       \<lparr>q_ring = ps_txs s ! i, q_hw = ps_hw s, total_bytes = rc_total_bytes c, total_packets = rc_total_packets c\<rparr> of (ok, q) \<Rightarrow>
     (ok, s\<lparr>ps_txs := (ps_txs s)[i := q_ring q], ps_hw := q_hw q,
       ps_qv := (ps_qv s)\<lparr>qv_tx := c\<lparr>rc_total_bytes := total_bytes q, rc_total_packets := total_packets q\<rparr>\<rparr>\<rparr>))"

definition poll_rx :: "rxenv \<Rightarrow> nat \<Rightarrow> u32 \<Rightarrow> nat \<Rightarrow> u32 option pollop" where
  "poll_rx R fuel budget i = State (\<lambda>s.
     let c = qv_rx (ps_qv s) in
     case run_state (ixgbevf_clean_rx_irq R fuel budget)
       ((ps_rxs s ! i)\<lparr>qv_bytes := rc_total_bytes c, qv_packets := rc_total_packets c\<rparr>) of (n, r) \<Rightarrow>
     (n, s\<lparr>ps_rxs := (ps_rxs s)[i := r],
       ps_qv := (ps_qv s)\<lparr>qv_rx := c\<lparr>rc_total_bytes := qv_bytes r, rc_total_packets := qv_packets r\<rparr>\<rparr>\<rparr>))"

primrec poll_txs :: "env \<Rightarrow> (nat \<Rightarrow> txenv) \<Rightarrow> int \<Rightarrow> nat list \<Rightarrow> bool \<Rightarrow> bool pollop" where
  "poll_txs E T budget [] clean_complete = ret clean_complete"
| "poll_txs E T budget (i # is) clean_complete = do {
     ok \<leftarrow> poll_tx E (T i) budget i;
     poll_txs E T budget is (clean_complete \<and> ok) }"

primrec poll_rxs :: "(nat \<Rightarrow> rxenv) \<Rightarrow> nat \<Rightarrow> int \<Rightarrow> nat list \<Rightarrow> int \<times> bool \<Rightarrow> (int \<times> bool) option pollop" where
  "poll_rxs R fuel per_ring_budget [] acc = ret (Some acc)"
| "poll_rxs R fuel per_ring_budget (i # is) acc = do {
     n \<leftarrow> poll_rx (R i) fuel (word_of_int per_ring_budget) i;
     case n of None \<Rightarrow> ret None
     | Some n \<Rightarrow> (let cleaned = sint n in
         poll_rxs R fuel per_ring_budget is (fst acc + cleaned, snd acc \<and> \<not> cleaned \<ge> per_ring_budget)) }"

definition ixgbevf_irq_enable_queues :: "u32 \<Rightarrow> unit hwop" where
  "ixgbevf_irq_enable_queues qmask = IXGBE_WRITE_REG IXGBE_VTEIMS qmask"

text \<open>The result is \<open>None\<close> when the fuel of the receive loop ends or the throttling traps on a division by zero.\<close>

definition poll_finish :: "int \<Rightarrow> int option pollop" where
  "poll_finish work_done = do {
     poll_hw (log_io (Kernel_call ''napi_complete_done'' [work_done]));
     itr \<leftarrow> gets rx_itr_setting;
     q \<leftarrow> gets ps_qv;
     q' \<leftarrow> (if itr = 1 then poll_hw (ixgbevf_set_itr q) else ret (Some q));
     case q' of None \<Rightarrow> ret None
     | Some q \<Rightarrow> do {
         modify (\<lambda>s. s\<lparr>ps_qv := q\<rparr>);
         st \<leftarrow> gets (\<lambda>s. back_state (ps_hw s));
         whenM (IXGBEVF_DOWN \<notin> st \<and> IXGBEVF_REMOVING \<notin> st)
           (poll_hw (ixgbevf_irq_enable_queues (push_bit (unat (v_idx q)) 1)));
         ret (Some 0) } }"

definition ixgbevf_poll :: "env \<Rightarrow> (nat \<Rightarrow> txenv) \<Rightarrow> (nat \<Rightarrow> rxenv) \<Rightarrow> nat \<Rightarrow> int \<Rightarrow> int option pollop" where
  "ixgbevf_poll E T R fuel budget = do {
     ntx \<leftarrow> gets (\<lambda>s. length (ps_txs s));
     clean_complete \<leftarrow> poll_txs E T budget [0..<ntx] True;
     if budget \<le> 0 then ret (Some budget) else do {
       count \<leftarrow> gets (\<lambda>s. uint (rc_count (qv_rx (ps_qv s))));
       let per_ring_budget = (if count > 1 then max (budget div count) 1 else budget);
       nrx \<leftarrow> gets (\<lambda>s. length (ps_rxs s));
       res \<leftarrow> poll_rxs R fuel per_ring_budget [0..<nrx] (0, clean_complete);
       case res of None \<Rightarrow> ret None
       | Some (work_done, clean_complete) \<Rightarrow>
           if \<not> clean_complete then ret (Some budget) else poll_finish work_done } }"

subsection \<open>The receive budget\<close>

lemma attach_packets:
  assumes "run_state (rx_attach E i z v) r = (v', r')"
  shows "total_rx_packets v' = total_rx_packets v + (if IS_ERR (v_skb v') then 1 else 0)"
proof -
  have nb: "run_state (ixgbevf_build_skb E i x) s \<noteq> (Skb_err e, s')" "run_state (ixgbevf_construct_skb E i x) s \<noteq> (Skb_err e, s')" for x s e s'
    by (auto simp: ixgbevf_build_skb_def ixgbevf_construct_skb_def Let_def split: prod.splits if_splits)
  have f: "IS_ERR p \<longleftrightarrow> (\<exists>e. p = Skb_err e)" for p by (cases p) auto
  show ?thesis using assms by (auto simp: rx_attach_def f nb split: prod.splits skbp.splits if_splits)
qed

lemma frame_packets:
  assumes "run_state (rx_frame E d v) r = (v', r')"
  shows "total_rx_packets v' = total_rx_packets v + 1 \<and> \<not> IS_ERR (v_skb v) \<or> total_rx_packets v' = total_rx_packets v"
  using assms
  by (auto simp: rx_frame_def ixgbevf_cleanup_headers_def Let_def split: prod.splits skbp.splits if_splits)

lemma refill_packets: "run_state (rx_refill E v) r = (v', r') \<Longrightarrow> total_rx_packets v' = total_rx_packets v"
  by (auto simp: rx_refill_def split: prod.splits if_splits)

lemma iter_packets:
  assumes "run_state (rx_iter E v) r = ((stop, v'), r')"
  shows "total_rx_packets v' = total_rx_packets v \<or> total_rx_packets v' = total_rx_packets v + 1"
proof -
  have polled: "total_rx_packets v1 = total_rx_packets v" if "rx_polled E v r v1 r1 d r2" for v1 r1 d r2
    using that refill_packets by (auto simp: rx_polled_def)
  have got: "total_rx_packets v4 = total_rx_packets v1 + (if IS_ERR (v_skb v4) then 1 else 0)"
    if "rx_got E v1 d r2 i r3 v4 r4" for v1 d r2 i r3 v4 r4
    using that attach_packets unfolding rx_got_def by blast
  from assms show ?thesis
  proof (cases rule: rx_iter_cases)
    case idle
    then show ?thesis using polled by metis
  next
    case (nomem v1 r1 d r2 i r3 r4)
    then show ?thesis using polled [OF nomem(1)] got [OF nomem(2)] by simp
  next
    case (frag v1 r1 d r2 i r3 v4 r4 x r5)
    then show ?thesis using polled [OF frag(1)] got [OF frag(2)] by simp
  next
    case (frame v1 r1 d r2 i r3 v4 r4 x r5 r6)
    then show ?thesis using polled [OF frame(1)] got [OF frame(2)] frame_packets [OF frame(7)] by auto
  qed
qed

lemma loop_packets:
  "run_state (rx_loop E fuel budget v) r = (Some v', r') \<Longrightarrow> total_rx_packets v \<le> budget \<Longrightarrow> total_rx_packets v' \<le> budget"
proof (induction fuel arbitrary: v r)
  case (Suc fuel)
  obtain stop v1 r1 where it: "run_state (rx_iter E v) r = ((stop, v1), r1)" by (metis surj_pair)
  show ?case
  proof (cases "total_rx_packets v < budget")
    case True
    then have "total_rx_packets v1 \<le> budget" using iter_packets [OF it] by (auto intro: inc_le)
    then show ?thesis using Suc True it by (auto split: if_splits)
  qed (use Suc.prems in auto)
qed (auto split: if_splits)

lemma clean_rx_irq_budget: "run_state (ixgbevf_clean_rx_irq R fuel budget) r = (Some n, r') \<Longrightarrow> n \<le> budget"
  by (auto simp: ixgbevf_clean_rx_irq_def split: prod.splits option.splits dest!: loop_packets)

subsection \<open>What polling does to the device\<close>

definition since :: "(io_event \<Rightarrow> bool) \<Rightarrow> io_event list \<Rightarrow> ixgbe_hw \<Rightarrow> bool" where
  "since Q h0 hw \<longleftrightarrow> (\<exists>evs. io hw = evs @ h0 \<and> list_all Q evs)"

lemma since_emits: "emits Q m \<Longrightarrow> since Q h0 hw \<Longrightarrow> since Q h0 (snd (run_state m hw))"
  unfolding since_def by (elim exE conjE) (erule emitsE [of Q m hw], auto simp: list_all_append)

lemma since_refl: "since Q (io hw) hw"
  by (simp add: since_def)

lemma since_on_hw: "emits Q m \<Longrightarrow> preserves (\<lambda>q. since Q h0 (q_hw q)) (on_hw m)"
  by (rule preservesI) (auto simp: on_hw_def split: prod.splits dest: since_emits [of Q m h0])

lemma since_on_ring: "preserves (\<lambda>q. since Q h0 (q_hw q)) (on_ring m)"
  by (rule preservesI) (simp add: on_ring_def split: prod.splits)

lemma clean_tx_irq_quiet: "preserves (\<lambda>q. since no_mmio_write h0 (q_hw q)) (ixgbevf_clean_tx_irq E T budget)"
  unfolding ixgbevf_clean_tx_irq_def ixgbevf_check_tx_hang_def ixgbevf_get_tx_pending_def ixgbevf_tx_timeout_reset_def
    ixgbevf_service_event_schedule_def
  by (intro since_on_ring since_on_hw preserves_rules emits_rules) simp_all

lemma poll_tx_quiet: "preserves (\<lambda>s. since no_mmio_write h0 (ps_hw s)) (poll_tx E T budget i)"
proof (rule preservesI)
  fix s :: poll_state assume h: "since no_mmio_write h0 (ps_hw s)"
  let ?q = "\<lparr>q_ring = ps_txs s ! i, q_hw = ps_hw s,
      total_bytes = rc_total_bytes (qv_tx (ps_qv s)), total_packets = rc_total_packets (qv_tx (ps_qv s))\<rparr>"
  obtain ok q where q: "run_state (ixgbevf_clean_tx_irq E T budget) ?q = (ok, q)" by (metis surj_pair)
  have "since no_mmio_write h0 (q_hw q)" by (rule preservesD [OF clean_tx_irq_quiet _ q]) (simp add: h)
  then show "since no_mmio_write h0 (ps_hw (snd (run_state (poll_tx E T budget i) s)))"
    using q by (simp add: poll_tx_def Let_def)
qed

lemma poll_rx_hw: "keeps ps_hw (poll_rx R fuel budget i)"
  by (simp add: keeps_def poll_rx_def Let_def split: prod.splits)

lemma poll_txs_quiet: "preserves (\<lambda>s. since no_mmio_write h0 (ps_hw s)) (poll_txs E T budget is c)"
  by (induction "is" arbitrary: c) (auto intro!: preserves_rules poll_tx_quiet)

lemma poll_rxs_hw: "keeps ps_hw (poll_rxs R fuel budget is acc)"
  by (induction "is" arbitrary: acc) (auto intro!: keeps_rules poll_rx_hw split: option.splits)

text \<open>What one vector's receive rings cleaned.\<close>

lemma poll_rxs_work:
  assumes per: "0 < per" "per < 2 ^ 31"
  shows "run_state (poll_rxs R fuel per is acc) s = (Some (w, c), s') \<Longrightarrow>
    fst acc \<le> w \<and> w \<le> fst acc + int (length is) * per \<and> (c \<longrightarrow> snd acc \<and> w \<le> fst acc + int (length is) * (per - 1))"
proof (induction "is" arbitrary: acc s)
  case (Cons i "is")
  obtain n s1 where rx: "run_state (poll_rx (R i) fuel (word_of_int per) i) s = (n, s1)" by (metis surj_pair)
  then obtain k where k: "n = Some k" using Cons.prems by (cases n) auto
  have le: "k \<le> word_of_int per" using rx k clean_rx_irq_budget by (auto simp: poll_rx_def Let_def split: prod.splits)
  have "uint k \<le> per" using le per by (simp add: word_le_def uint_word_of_int take_bit_int_eq_self)
  moreover have "sint k = uint k"
  proof -
    have "signed_take_bit 31 (uint k) = uint k"
      by (rule signed_take_bit_int_eq_self) (use calculation per in \<open>simp_all add: order_trans [OF _ uint_ge_0]\<close>)
    then show ?thesis by (simp add: sint_uint)
  qed
  ultimately have c: "0 \<le> sint k" "sint k \<le> per" by simp_all
  have "run_state (poll_rxs R fuel per is (fst acc + sint k, snd acc \<and> \<not> sint k \<ge> per)) s1 = (Some (w, c), s')"
    using Cons.prems rx k by (simp add: Let_def)
  from Cons.IH [OF this] c show ?case by (auto simp: algebra_simps)
qed simp

lemma poll_txs_clean: "run_state (poll_txs E T budget is c) s = (c', s') \<Longrightarrow> c' \<Longrightarrow> c"
  by (induction "is" arbitrary: c s) (auto split: prod.splits)

lemma poll_shapes:
  "keeps (\<lambda>s. (length (ps_txs s), length (ps_rxs s), rc_count (qv_rx (ps_qv s)), v_idx (ps_qv s), rx_itr_setting s)) (poll_txs E T budget is c)"
  "keeps (\<lambda>s. (length (ps_txs s), length (ps_rxs s), rc_count (qv_rx (ps_qv s)), v_idx (ps_qv s), rx_itr_setting s)) (poll_rxs R fuel per is acc)"
proof -
  show "keeps (\<lambda>s. (length (ps_txs s), length (ps_rxs s), rc_count (qv_rx (ps_qv s)), v_idx (ps_qv s), rx_itr_setting s)) (poll_txs E T budget is c)"
    by (induction "is" arbitrary: c) (auto intro!: keeps_rules simp: keeps_def poll_tx_def Let_def split: prod.splits)
  show "keeps (\<lambda>s. (length (ps_txs s), length (ps_rxs s), rc_count (qv_rx (ps_qv s)), v_idx (ps_qv s), rx_itr_setting s)) (poll_rxs R fuel per is acc)"
    by (induction "is" arbitrary: acc) (auto intro!: keeps_rules simp: keeps_def poll_rx_def Let_def split: prod.splits option.splits)
qed

lemma set_itr_idx: "run_state (ixgbevf_set_itr q) hw = (Some q', hw') \<Longrightarrow> v_idx q' = v_idx q"
  by (auto simp: ixgbevf_set_itr_def Let_def split: option.splits prod.splits if_splits)

lemma run_poll_hw: "run_state (poll_hw m) s = (fst (run_state m (ps_hw s)), s\<lparr>ps_hw := snd (run_state m (ps_hw s))\<rparr>)"
  by (simp add: poll_hw_def case_prod_beta)

lemma poll_finish_run:
  assumes h2: "run_state (log_io (Kernel_call ''napi_complete_done'' [w])) (ps_hw s) = ((), h2)"
    and q: "run_state (if rx_itr_setting s = 1 then ixgbevf_set_itr (ps_qv s) else ret (Some (ps_qv s))) h2 = (r, h3)"
  shows "fst (run_state (poll_finish w) s) = map_option (\<lambda>q. 0) r \<and> (\<forall>q. r = Some q \<longrightarrow>
    ps_hw (snd (run_state (poll_finish w) s)) = snd (run_state (whenM (IXGBEVF_DOWN \<notin> back_state h3 \<and> IXGBEVF_REMOVING \<notin> back_state h3)
       (ixgbevf_irq_enable_queues (push_bit (unat (v_idx q)) 1))) h3))"
  using assms
  by (cases "rx_itr_setting s = 1"; cases r; cases "IXGBEVF_DOWN \<in> back_state h3"; cases "IXGBEVF_REMOVING \<in> back_state h3")
     (simp_all add: poll_finish_def run_poll_hw run_whenM case_prod_beta)

lemma poll_finish_spec:
  assumes "run_state (poll_finish w) s = (Some res, s')"
  shows "res = 0 \<and> (\<exists>h2 h3. run_state (log_io (Kernel_call ''napi_complete_done'' [w])) (ps_hw s) = ((), h2) \<and>
     (rx_itr_setting s \<noteq> 1 \<longrightarrow> h3 = h2) \<and>
     ps_hw s' = snd (run_state (whenM (IXGBEVF_DOWN \<notin> back_state h3 \<and> IXGBEVF_REMOVING \<notin> back_state h3)
       (ixgbevf_irq_enable_queues (push_bit (unat (v_idx (ps_qv s))) 1))) h3))"
proof -
  define h2 where "h2 = snd (run_state (log_io (Kernel_call ''napi_complete_done'' [w])) (ps_hw s))"
  have h2: "run_state (log_io (Kernel_call ''napi_complete_done'' [w])) (ps_hw s) = ((), h2)" by (simp add: h2_def prod_eq_iff)
  obtain r h3 where r: "run_state (if rx_itr_setting s = 1 then ixgbevf_set_itr (ps_qv s) else ret (Some (ps_qv s))) h2 = (r, h3)"
    by (metis surj_pair)
  from poll_finish_run [OF h2 r] assms obtain q where q: "r = Some q" "res = 0"
    "ps_hw s' = snd (run_state (whenM (IXGBEVF_DOWN \<notin> back_state h3 \<and> IXGBEVF_REMOVING \<notin> back_state h3)
       (ixgbevf_irq_enable_queues (push_bit (unat (v_idx q)) 1))) h3)" by (cases r) auto
  have "v_idx q = v_idx (ps_qv s)" "rx_itr_setting s \<noteq> 1 \<longrightarrow> h3 = h2"
    using r q(1) set_itr_idx by (auto split: if_splits)
  with q show ?thesis by (intro conjI exI [of _ h2] exI [of _ h3] h2) simp_all
qed


definition sample_ps :: poll_state where
  "sample_ps = \<lparr>ps_qv = sample_qv, ps_hw = sample_hw, ps_txs = [sample_ring], ps_rxs = [sample_rxring], rx_itr_setting = 200\<rparr>"

lemma sample_poll: "fst (run_state (ixgbevf_poll sample_env (\<lambda>i. sample_txenv) (\<lambda>i. sample_rxenv) 2 64) sample_ps) = Some 0"
  by code_simp


end
