(* ===== verification/Queues.thy ===== *)
theory Queues
  imports Mac_HV
begin

text \<open>
  Queues and interrupt vectors of \<open>ixgbevf_main.c\<close>: how many queues are used (\<open>ixgbevf_set_num_queues\<close>), how many
  vectors the kernel grants (\<open>ixgbevf_set_interrupt_capability\<close>), the distribution of rings over vectors
  (\<open>ixgbevf_alloc_q_vectors\<close>), its undoing, and \<open>ixgbevf_init_interrupt_scheme\<close> composed of these.

  The pointer arrays of the adapter are functions from index to an optional element, the linked ring list of a
  container is a list, newest ring first. A division by zero is the value \<open>None\<close>.
\<close>

definition IXGBEVF_MAX_RSS_QUEUES :: nat where [simp]: "IXGBEVF_MAX_RSS_QUEUES = 2"
definition NON_Q_VECTORS :: nat where [simp]: "NON_Q_VECTORS = 1"
definition MIN_MSIX_Q_VECTORS :: nat where [simp]: "MIN_MSIX_Q_VECTORS = 1"
definition MIN_MSIX_COUNT :: nat where [simp]: "MIN_MSIX_COUNT = MIN_MSIX_Q_VECTORS + NON_Q_VECTORS"
definition ENOMEM :: int where [simp]: "ENOMEM = 12"

datatype ring_kind = Tx_ring | Xdp_ring | Rx_ring

record qring =
  qr_kind :: ring_kind
  qr_count :: u16
  queue_index :: nat
  qr_reg_idx :: nat
  qr_vector :: nat              \<comment> \<open>the vector the ring points back to\<close>
  qr_udp_zero_err :: bool

record qvec =
  qvec_idx :: nat
  qvec_tx :: "qring list"
  qvec_rx :: "qring list"

record queues =
  qs_hw :: ixgbe_hw
  num_rx_queues :: nat
  num_tx_queues :: nat
  num_xdp_queues :: nat
  num_q_vectors :: nat
  tx_ring_tab :: "nat \<Rightarrow> qring option"
  xdp_ring_tab :: "nat \<Rightarrow> qring option"
  rx_ring_tab :: "nat \<Rightarrow> qring option"
  q_vector_tab :: "nat \<Rightarrow> qvec option"
  msix_entries :: "nat list option"
  qs_xdp_prog :: bool
  tx_ring_count :: u16
  rx_ring_count :: u16

type_synonym 'a qsop = "(queues, 'a) state"

definition qs_on_hw :: "'a hwop \<Rightarrow> 'a qsop" where
  "qs_on_hw m = State (\<lambda>s. case run_state m (qs_hw s) of (a, h) \<Rightarrow> (a, s\<lparr>qs_hw := h\<rparr>))"

subsection \<open>How many\<close>

definition ixgbevf_set_num_queues :: "env \<Rightarrow> nat \<Rightarrow> unit qsop" where
  "ixgbevf_set_num_queues E num_online_cpus = do {
     modify (\<lambda>s. s\<lparr>num_rx_queues := 1, num_tx_queues := 1, num_xdp_queues := 0\<rparr>);
     (err, num_tcs, def_q) \<leftarrow> qs_on_hw (ixgbevf_get_queues E 0 0);
     if err \<noteq> 0 then ret ()
     else if num_tcs > 1 then modify (\<lambda>s. s\<lparr>num_rx_queues := unat num_tcs\<rparr>)
     else do {
       api \<leftarrow> gets (\<lambda>s. api_version (qs_hw s));
       whenM (api \<in> {ixgbe_mbox_api_11, ixgbe_mbox_api_12, ixgbe_mbox_api_13, ixgbe_mbox_api_15, ixgbe_mbox_api_16, ixgbe_mbox_api_17})
         (modify (\<lambda>s.
            let rss = min num_online_cpus IXGBEVF_MAX_RSS_QUEUES;
                rss = (if qs_xdp_prog s \<and> unat (max_tx_queues (mac (qs_hw s))) = rss then 1 else rss)
            in s\<lparr>num_rx_queues := rss, num_tx_queues := rss, num_xdp_queues := (if qs_xdp_prog s then rss else 0)\<rparr>)) } }"

text \<open>\<open>pci_enable_msix_range\<close> enables between its two bounds many vectors, or returns a negative error.\<close>

definition ixgbevf_acquire_msix_vectors :: "env \<Rightarrow> nat \<Rightarrow> int qsop" where
  "ixgbevf_acquire_msix_vectors E vectors = do {
     vectors \<leftarrow> qs_on_hw (kcall E ''pci_enable_msix_range'' [int MIN_MSIX_COUNT, int vectors]);
     if vectors < 0 then do { modify (\<lambda>s. s\<lparr>msix_entries := None\<rparr>); ret vectors }
     else do { modify (\<lambda>s. s\<lparr>num_q_vectors := nat (vectors - int NON_Q_VECTORS)\<rparr>); ret 0 } }"

definition ixgbevf_set_interrupt_capability :: "env \<Rightarrow> nat \<Rightarrow> int qsop" where
  "ixgbevf_set_interrupt_capability E num_online_cpus = do {
     v \<leftarrow> gets (\<lambda>s. max (num_rx_queues s) (num_tx_queues s));
     let v_budget = min v num_online_cpus + NON_Q_VECTORS;
     p \<leftarrow> qs_on_hw (kcall E ''kcalloc msix_entries'' [int v_budget]);
     if p = 0 then do { modify (\<lambda>s. s\<lparr>msix_entries := None\<rparr>); ret (- ENOMEM) }
     else do {
       modify (\<lambda>s. s\<lparr>msix_entries := Some [0..<v_budget]\<rparr>);
       ixgbevf_acquire_msix_vectors E v_budget } }"

subsection \<open>Which ring on which vector\<close>

text \<open>\<open>ixgbevf_add_ring\<close> puts a ring at the head of a container's list.\<close>

definition ixgbevf_add_ring :: "qring \<Rightarrow> qring list \<Rightarrow> qring list" where
  "ixgbevf_add_ring ring head = ring # head"

primrec add_tx_rings :: "nat \<Rightarrow> nat \<Rightarrow> nat \<Rightarrow> nat \<Rightarrow> unit qsop" where
  "add_tx_rings v_idx 0 txr_idx reg_idx = ret ()"
| "add_tx_rings v_idx (Suc txr_count) txr_idx reg_idx = do {
     modify (\<lambda>s. let ring = \<lparr>qr_kind = Tx_ring, qr_count = tx_ring_count s, queue_index = txr_idx, qr_reg_idx = reg_idx,
         qr_vector = v_idx, qr_udp_zero_err = False\<rparr> in
       s\<lparr>q_vector_tab := (q_vector_tab s)(v_idx := map_option (\<lambda>q. q\<lparr>qvec_tx := ixgbevf_add_ring ring (qvec_tx q)\<rparr>) (q_vector_tab s v_idx)),
         tx_ring_tab := (tx_ring_tab s)(txr_idx := Some ring)\<rparr>);
     add_tx_rings v_idx txr_count (txr_idx + 1) (reg_idx + 1) }"

primrec add_xdp_rings :: "nat \<Rightarrow> nat \<Rightarrow> nat \<Rightarrow> nat \<Rightarrow> unit qsop" where
  "add_xdp_rings v_idx 0 xdp_idx reg_idx = ret ()"
| "add_xdp_rings v_idx (Suc xdp_count) xdp_idx reg_idx = do {
     modify (\<lambda>s. let ring = \<lparr>qr_kind = Xdp_ring, qr_count = tx_ring_count s, queue_index = xdp_idx, qr_reg_idx = reg_idx,
         qr_vector = v_idx, qr_udp_zero_err = False\<rparr> in
       s\<lparr>q_vector_tab := (q_vector_tab s)(v_idx := map_option (\<lambda>q. q\<lparr>qvec_tx := ixgbevf_add_ring ring (qvec_tx q)\<rparr>) (q_vector_tab s v_idx)),
         xdp_ring_tab := (xdp_ring_tab s)(xdp_idx := Some ring)\<rparr>);
     add_xdp_rings v_idx xdp_count (xdp_idx + 1) (reg_idx + 1) }"

primrec add_rx_rings :: "nat \<Rightarrow> nat \<Rightarrow> nat \<Rightarrow> unit qsop" where
  "add_rx_rings v_idx 0 rxr_idx = ret ()"
| "add_rx_rings v_idx (Suc rxr_count) rxr_idx = do {
     modify (\<lambda>s. let ring = \<lparr>qr_kind = Rx_ring, qr_count = rx_ring_count s, queue_index = rxr_idx, qr_reg_idx = rxr_idx,
         qr_vector = v_idx, qr_udp_zero_err = (mac_type (mac (qs_hw s)) = Ixgbe_mac_82599_vf)\<rparr> in
       s\<lparr>q_vector_tab := (q_vector_tab s)(v_idx := map_option (\<lambda>q. q\<lparr>qvec_rx := ixgbevf_add_ring ring (qvec_rx q)\<rparr>) (q_vector_tab s v_idx)),
         rx_ring_tab := (rx_ring_tab s)(rxr_idx := Some ring)\<rparr>);
     add_rx_rings v_idx rxr_count (rxr_idx + 1) }"

definition ixgbevf_alloc_q_vector :: "env \<Rightarrow> nat \<Rightarrow> nat \<Rightarrow> nat \<Rightarrow> nat \<Rightarrow> nat \<Rightarrow> nat \<Rightarrow> nat \<Rightarrow> int qsop" where
  "ixgbevf_alloc_q_vector E v_idx txr_count txr_idx xdp_count xdp_idx rxr_count rxr_idx = do {
     let reg_idx = txr_idx + xdp_idx;
     p \<leftarrow> qs_on_hw (kcall E ''kzalloc q_vector'' [int v_idx]);
     if p = 0 then ret (- ENOMEM) else do {
       qs_on_hw (log_io (Kernel_call ''netif_napi_add'' [int v_idx]));
       modify (\<lambda>s. s\<lparr>q_vector_tab := (q_vector_tab s)(v_idx := Some \<lparr>qvec_idx = v_idx, qvec_tx = [], qvec_rx = []\<rparr>)\<rparr>);
       add_tx_rings v_idx txr_count txr_idx reg_idx;
       add_xdp_rings v_idx xdp_count xdp_idx (reg_idx + txr_count);
       add_rx_rings v_idx rxr_count rxr_idx;
       ret 0 } }"

definition ixgbevf_free_q_vector :: "nat \<Rightarrow> unit qsop" where
  "ixgbevf_free_q_vector v_idx = do {
     q \<leftarrow> gets (\<lambda>s. q_vector_tab s v_idx);
     case q of None \<Rightarrow> ret () \<comment> \<open>not reached: would dereference \<open>NULL\<close>\<close>
     | Some q \<Rightarrow> do {
         for_each (qvec_tx q) (\<lambda>ring. modify (\<lambda>s.
           if qr_kind ring = Xdp_ring then s\<lparr>xdp_ring_tab := (xdp_ring_tab s)(queue_index ring := None)\<rparr>
           else s\<lparr>tx_ring_tab := (tx_ring_tab s)(queue_index ring := None)\<rparr>));
         for_each (qvec_rx q) (\<lambda>ring. modify (\<lambda>s. s\<lparr>rx_ring_tab := (rx_ring_tab s)(queue_index ring := None)\<rparr>));
         modify (\<lambda>s. s\<lparr>q_vector_tab := (q_vector_tab s)(v_idx := None)\<rparr>);
         qs_on_hw (log_io (Kernel_call ''netif_napi_del'' [int v_idx]));
         qs_on_hw (log_io (Kernel_call ''kfree_rcu q_vector'' [int v_idx])) } }"

text \<open>\<open>while (v_idx--) ixgbevf_free_q_vector\<close>\<close>

primrec free_vectors_below :: "nat \<Rightarrow> unit qsop" where
  "free_vectors_below 0 = ret ()"
| "free_vectors_below (Suc v_idx) = do { ixgbevf_free_q_vector v_idx; free_vectors_below v_idx }"

definition alloc_err_out :: "nat \<Rightarrow> int qsop" where
  "alloc_err_out v_idx = do {
     modify (\<lambda>s. s\<lparr>num_tx_queues := 0, num_xdp_queues := 0, num_rx_queues := 0, num_q_vectors := 0\<rparr>);
     free_vectors_below v_idx;
     ret (- ENOMEM) }"

definition DIV_ROUND_UP :: "nat \<Rightarrow> nat \<Rightarrow> nat" where
  "DIV_ROUND_UP n d = (n + d - 1) div d"

text \<open>The second loop: remaining and next indices of receive, transmit and XDP rings.\<close>

record ring_plan =
  rxr_remaining :: nat
  rxr_idx :: nat
  txr_remaining :: nat
  txr_idx :: nat
  xdp_remaining :: nat
  xdp_idx :: nat

primrec alloc_shared_vectors :: "env \<Rightarrow> nat \<Rightarrow> nat \<Rightarrow> ring_plan \<Rightarrow> int qsop" where
  "alloc_shared_vectors E 0 v_idx p = ret 0"
| "alloc_shared_vectors E (Suc q_vectors) v_idx p = (
     let rqpv = DIV_ROUND_UP (rxr_remaining p) (Suc q_vectors);
         tqpv = DIV_ROUND_UP (txr_remaining p) (Suc q_vectors);
         xqpv = DIV_ROUND_UP (xdp_remaining p) (Suc q_vectors)
     in do {
       err \<leftarrow> ixgbevf_alloc_q_vector E v_idx tqpv (txr_idx p) xqpv (xdp_idx p) rqpv (rxr_idx p);
       if err \<noteq> 0 then alloc_err_out v_idx
       else alloc_shared_vectors E q_vectors (v_idx + 1)
         \<lparr>rxr_remaining = rxr_remaining p - rqpv, rxr_idx = rxr_idx p + rqpv, txr_remaining = txr_remaining p - tqpv,
          txr_idx = txr_idx p + tqpv, xdp_remaining = xdp_remaining p - xqpv, xdp_idx = xdp_idx p + xqpv\<rparr> })"

text \<open>The first loop, which gives receive rings vectors of their own when there are enough; it goes on with the second.\<close>

primrec alloc_rx_vectors :: "env \<Rightarrow> nat \<Rightarrow> nat \<Rightarrow> ring_plan \<Rightarrow> int option qsop" where
  "alloc_rx_vectors E 0 v_idx p = (if rxr_remaining p = 0 then ret (Some 0) else ret None)"
| "alloc_rx_vectors E (Suc q_vectors) v_idx p = (
     if rxr_remaining p = 0 then do { e \<leftarrow> alloc_shared_vectors E (Suc q_vectors) v_idx p; ret (Some e) }
     else let rqpv = DIV_ROUND_UP (rxr_remaining p) (Suc q_vectors) in do {
       err \<leftarrow> ixgbevf_alloc_q_vector E v_idx 0 0 0 0 rqpv (rxr_idx p);
       if err \<noteq> 0 then do { e \<leftarrow> alloc_err_out v_idx; ret (Some e) }
       else alloc_rx_vectors E q_vectors (v_idx + 1) (p\<lparr>rxr_remaining := rxr_remaining p - rqpv, rxr_idx := rxr_idx p + rqpv\<rparr>) })"

definition ixgbevf_alloc_q_vectors :: "env \<Rightarrow> int option qsop" where
  "ixgbevf_alloc_q_vectors E = do {
     s \<leftarrow> gets id;
     let p = \<lparr>rxr_remaining = num_rx_queues s, rxr_idx = 0, txr_remaining = num_tx_queues s, txr_idx = 0,
       xdp_remaining = num_xdp_queues s, xdp_idx = 0\<rparr>;
     if num_q_vectors s \<ge> num_rx_queues s + num_tx_queues s + num_xdp_queues s then alloc_rx_vectors E (num_q_vectors s) 0 p
     else do { e \<leftarrow> alloc_shared_vectors E (num_q_vectors s) 0 p; ret (Some e) } }"

subsection \<open>Undoing\<close>

definition ixgbevf_free_q_vectors :: "unit qsop" where
  "ixgbevf_free_q_vectors = do {
     n \<leftarrow> gets num_q_vectors;
     modify (\<lambda>s. s\<lparr>num_tx_queues := 0, num_rx_queues := 0, num_q_vectors := 0\<rparr>);
     free_vectors_below n }"

definition ixgbevf_reset_interrupt_capability :: "env \<Rightarrow> unit qsop" where
  "ixgbevf_reset_interrupt_capability E = do {
     m \<leftarrow> gets msix_entries;
     whenM (m \<noteq> None) (do {
       qs_on_hw (log_io (Kernel_call ''pci_disable_msix'' []));
       modify (\<lambda>s. s\<lparr>msix_entries := None\<rparr>) }) }"

definition ixgbevf_init_interrupt_scheme :: "env \<Rightarrow> nat \<Rightarrow> int option qsop" where
  "ixgbevf_init_interrupt_scheme E num_online_cpus = do {
     ixgbevf_set_num_queues E num_online_cpus;
     err \<leftarrow> ixgbevf_set_interrupt_capability E num_online_cpus;
     if err \<noteq> 0 then ret (Some err) else do {
       err \<leftarrow> ixgbevf_alloc_q_vectors E;
       case err of None \<Rightarrow> ret None
       | Some err \<Rightarrow>
           if err \<noteq> 0 then do { ixgbevf_reset_interrupt_capability E; ret (Some err) }
           else do {
             modify (\<lambda>s. s\<lparr>qs_hw := (qs_hw s)\<lparr>back_state := insert IXGBEVF_DOWN (back_state (qs_hw s))\<rparr>\<rparr>);
             ret (Some 0) } } }"

definition ixgbevf_clear_interrupt_scheme :: "env \<Rightarrow> unit qsop" where
  "ixgbevf_clear_interrupt_scheme E = do {
     modify (\<lambda>s. s\<lparr>num_tx_queues := 0, num_xdp_queues := 0, num_rx_queues := 0\<rparr>);
     ixgbevf_free_q_vectors;
     ixgbevf_reset_interrupt_capability E }"

end
