(* ===== verification/Queue_Facts.thy ===== *)
theory Queue_Facts
  imports Queues Mailbox_Props
begin

text \<open>
  The distribution of rings over interrupt vectors. \<open>spread v t x r\<close> says that exactly the vectors below \<open>v\<close> exist
  and that they own exactly the transmit rings below \<open>t\<close>, the XDP rings below \<open>x\<close> and the receive rings below
  \<open>r\<close>, each ring on one vector and with a hardware queue of its own. Each step of the allocation extends it,
  freeing undoes it.
\<close>

subsection \<open>The invariant\<close>

definition owned :: "ring_kind \<Rightarrow> qvec \<Rightarrow> qring set" where
  "owned k q = {c \<in> (if k = Rx_ring then set (qvec_rx q) else set (qvec_tx q)). qr_kind c = k}"

definition table :: "ring_kind \<Rightarrow> queues \<Rightarrow> nat \<Rightarrow> qring option" where
  "table k s = (case k of Tx_ring \<Rightarrow> tx_ring_tab s | Xdp_ring \<Rightarrow> xdp_ring_tab s | Rx_ring \<Rightarrow> rx_ring_tab s)"

definition kinds_ok :: "qvec \<Rightarrow> bool" where
  "kinds_ok q \<longleftrightarrow> (\<forall>c \<in> set (qvec_tx q). qr_kind c \<noteq> Rx_ring) \<and> (\<forall>c \<in> set (qvec_rx q). qr_kind c = Rx_ring)"

text \<open>Entry \<open>i\<close> of a table is a ring that knows its index and whose vector owns it, and a vector's rings are in the tables.\<close>

definition linked :: "queues \<Rightarrow> bool" where
  "linked s \<longleftrightarrow>
     (\<forall>k i c. table k s i = Some c \<longrightarrow> queue_index c = i \<and> (\<exists>q. q_vector_tab s (qr_vector c) = Some q \<and> c \<in> owned k q)) \<and>
     (\<forall>w q. q_vector_tab s w = Some q \<longrightarrow> qvec_idx q = w \<and> kinds_ok q \<and>
        (\<forall>k. \<forall>c \<in> owned k q. qr_vector c = w \<and> table k s (queue_index c) = Some c))"

definition regs_ok :: "nat \<Rightarrow> queues \<Rightarrow> bool" where
  "regs_ok g s \<longleftrightarrow> (\<forall>i c. rx_ring_tab s i = Some c \<longrightarrow> qr_reg_idx c = i) \<and>
     (\<forall>k i c. k \<noteq> Rx_ring \<and> table k s i = Some c \<longrightarrow> qr_reg_idx c < g) \<and>
     (\<forall>k i c l j d. k \<noteq> Rx_ring \<and> l \<noteq> Rx_ring \<and> table k s i = Some c \<and> table l s j = Some d \<and> qr_reg_idx c = qr_reg_idx d \<longrightarrow>
        k = l \<and> i = j)"

definition spread :: "nat \<Rightarrow> nat \<Rightarrow> nat \<Rightarrow> nat \<Rightarrow> queues \<Rightarrow> bool" where
  "spread v t x r s \<longleftrightarrow> linked s \<and> regs_ok (t + x) s \<and> dom (q_vector_tab s) = {..<v} \<and>
     dom (tx_ring_tab s) = {..<t} \<and> dom (xdp_ring_tab s) = {..<x} \<and> dom (rx_ring_tab s) = {..<r}"

subsection \<open>Adding one ring\<close>

definition put_ring :: "ring_kind \<Rightarrow> nat \<Rightarrow> qring \<Rightarrow> queues \<Rightarrow> queues" where
  "put_ring k v c s = (
     let s = s\<lparr>q_vector_tab := (q_vector_tab s)(v := map_option (\<lambda>q. if k = Rx_ring then q\<lparr>qvec_rx := c # qvec_rx q\<rparr> else q\<lparr>qvec_tx := c # qvec_tx q\<rparr>) (q_vector_tab s v))\<rparr>
     in case k of Tx_ring \<Rightarrow> s\<lparr>tx_ring_tab := (tx_ring_tab s)(queue_index c \<mapsto> c)\<rparr>
        | Xdp_ring \<Rightarrow> s\<lparr>xdp_ring_tab := (xdp_ring_tab s)(queue_index c \<mapsto> c)\<rparr>
        | Rx_ring \<Rightarrow> s\<lparr>rx_ring_tab := (rx_ring_tab s)(queue_index c \<mapsto> c)\<rparr>)"

lemma put_ring_table: "table l (put_ring k v c s) = (if l = k then (table k s)(queue_index c \<mapsto> c) else table l s)"
  by (cases k; cases l) (simp_all add: put_ring_def table_def Let_def)

lemma put_ring_vector: "q_vector_tab (put_ring k v c s) =
    (q_vector_tab s)(v := map_option (\<lambda>q. if k = Rx_ring then q\<lparr>qvec_rx := c # qvec_rx q\<rparr> else q\<lparr>qvec_tx := c # qvec_tx q\<rparr>) (q_vector_tab s v))"
  by (cases k) (simp_all add: put_ring_def Let_def)

lemma owned_put: "qr_kind c = k \<Longrightarrow>
    owned l (if k = Rx_ring then q\<lparr>qvec_rx := c # qvec_rx q\<rparr> else q\<lparr>qvec_tx := c # qvec_tx q\<rparr>) = (if l = k then insert c (owned l q) else owned l q)"
  by (cases k; cases l) (auto simp: owned_def)

lemma linked_put:
  assumes l: "linked s" and q: "q_vector_tab s v = Some q" and c: "qr_kind c = k" "qr_vector c = v" and free: "table k s (queue_index c) = None"
  shows "linked (put_ring k v c s)"
proof -
  let ?q = "if k = Rx_ring then q\<lparr>qvec_rx := c # qvec_rx q\<rparr> else q\<lparr>qvec_tx := c # qvec_tx q\<rparr>"
  have vec: "q_vector_tab (put_ring k v c s) = (q_vector_tab s)(v \<mapsto> ?q)" using q by (simp add: put_ring_vector)
  have idx: "qvec_idx ?q = qvec_idx q" by simp
  have kok: "kinds_ok q \<Longrightarrow> kinds_ok ?q" using c by (auto simp: kinds_ok_def)
  have entries: "queue_index d = i \<and> (\<exists>p. ((q_vector_tab s)(v \<mapsto> ?q)) (qr_vector d) = Some p \<and> d \<in> owned m p)"
    if "table m (put_ring k v c s) i = Some d" for m i d
  proof (cases "m = k \<and> i = queue_index c")
    case True
    then have "d = c" using that by (simp add: put_ring_table)
    then show ?thesis using True c owned_put [OF c(1), of m q] by (auto simp: owned_def)
  next
    case False
    then have "table m s i = Some d" using that by (auto simp: put_ring_table split: if_splits)
    then obtain p where p: "queue_index d = i" "q_vector_tab s (qr_vector d) = Some p" "d \<in> owned m p" using l unfolding linked_def by blast
    then show ?thesis using q owned_put [OF c(1), of m q] by (cases "qr_vector d = v") auto
  qed
  have rings: "qvec_idx p = w \<and> kinds_ok p \<and> (\<forall>m. \<forall>d \<in> owned m p. qr_vector d = w \<and> table m (put_ring k v c s) (queue_index d) = Some d)"
    if "((q_vector_tab s)(v \<mapsto> ?q)) w = Some p" for w p
  proof -
    have old: "\<And>m d. d \<in> owned m o' \<Longrightarrow> qr_vector d = w \<and> table m (put_ring k v c s) (queue_index d) = Some d"
      if "q_vector_tab s w = Some o'" for o'
    proof -
      fix m d assume "d \<in> owned m o'"
      then have "qr_vector d = w" "table m s (queue_index d) = Some d" using l that by (auto simp: linked_def)
      then show "qr_vector d = w \<and> table m (put_ring k v c s) (queue_index d) = Some d"
        using free by (auto simp: put_ring_table)
    qed
    show ?thesis
    proof (cases "w = v")
      case True
      then have p: "p = ?q" using that by simp
      have "qvec_idx q = v" "kinds_ok q" using l q by (auto simp: linked_def)
      moreover have "qr_vector d = w \<and> table m (put_ring k v c s) (queue_index d) = Some d" if d: "d \<in> owned m p" for m d
      proof (cases "m = k \<and> d = c")
        case True
        then show ?thesis using c \<open>w = v\<close> by (simp add: put_ring_table)
      next
        case False
        then have "d \<in> owned m q" using d unfolding p owned_put [OF c(1)] by (simp split: if_splits)
        then show ?thesis using old q \<open>w = v\<close> by blast
      qed
      ultimately show ?thesis using True p kok idx by blast
    next
      case False
      then have "q_vector_tab s w = Some p" using that by simp
      then show ?thesis using old l by (auto simp: linked_def)
    qed
  qed
  show ?thesis unfolding linked_def vec using entries rings by blast
qed

lemma linked_same: "q_vector_tab s' = q_vector_tab s \<Longrightarrow> (\<And>k. table k s' = table k s) \<Longrightarrow> linked s' = linked s"
  by (simp add: linked_def)

lemma linked_new_vector:
  assumes l: "linked s" and v: "q_vector_tab s v = None"
  shows "linked (s\<lparr>q_vector_tab := (q_vector_tab s)(v \<mapsto> \<lparr>qvec_idx = v, qvec_tx = [], qvec_rx = []\<rparr>)\<rparr>)" (is "linked ?s")
proof -
  have t: "table k ?s = table k s" for k by (cases k) (simp_all add: table_def)
  have "queue_index c = i \<and> (\<exists>q. q_vector_tab ?s (qr_vector c) = Some q \<and> c \<in> owned k q)" if "table k s i = Some c" for k i c
  proof -
    from l that obtain q where "queue_index c = i" "q_vector_tab s (qr_vector c) = Some q" "c \<in> owned k q"
      unfolding linked_def by blast
    then show ?thesis using v by (cases "qr_vector c = v") auto
  qed
  moreover have "qvec_idx q = w \<and> kinds_ok q \<and> (\<forall>k. \<forall>c \<in> owned k q. qr_vector c = w \<and> table k s (queue_index c) = Some c)"
    if "q_vector_tab ?s w = Some q" for w q
  proof (cases "w = v")
    case True
    then show ?thesis using that by (auto simp: owned_def kinds_ok_def)
  next
    case False
    then have "q_vector_tab s w = Some q" using that by simp
    then show ?thesis using l unfolding linked_def by blast
  qed
  ultimately show ?thesis unfolding linked_def t by blast
qed

lemma table_simps: "table Tx_ring s = tx_ring_tab s" "table Xdp_ring s = xdp_ring_tab s" "table Rx_ring s = rx_ring_tab s"
  by (simp_all add: table_def fun_eq_iff)

lemma regs_same: "(\<And>k. table k s' = table k s) \<Longrightarrow> regs_ok g s' = regs_ok g s"
  unfolding regs_ok_def table_simps(3) [symmetric] by (simp only:)

lemma spread_same:
  "q_vector_tab s' = q_vector_tab s \<Longrightarrow> tx_ring_tab s' = tx_ring_tab s \<Longrightarrow> xdp_ring_tab s' = xdp_ring_tab s \<Longrightarrow>
     rx_ring_tab s' = rx_ring_tab s \<Longrightarrow> spread v t x r s' = spread v t x r s"
proof -
  assume a: "q_vector_tab s' = q_vector_tab s" "tx_ring_tab s' = tx_ring_tab s" "xdp_ring_tab s' = xdp_ring_tab s" "rx_ring_tab s' = rx_ring_tab s"
  have tab: "\<And>k. table k s' = table k s" using a by (case_tac k) (simp_all add: table_simps)
  have "linked s' = linked s" by (rule linked_same [OF a(1) tab])
  moreover have "regs_ok (t + x) s' = regs_ok (t + x) s" by (rule regs_same [OF tab])
  ultimately show ?thesis using a by (simp add: spread_def)
qed

lemma spread_new_vector:
  assumes s: "spread v t x r s"
  shows "spread (Suc v) t x r (s\<lparr>q_vector_tab := (q_vector_tab s)(v \<mapsto> \<lparr>qvec_idx = v, qvec_tx = [], qvec_rx = []\<rparr>)\<rparr>)" (is "spread _ _ _ _ ?s")
proof -
  have "v \<notin> dom (q_vector_tab s)" using s by (simp add: spread_def)
  then have "linked ?s" using s by (intro linked_new_vector) (auto simp: spread_def domIff)
  moreover have "regs_ok (t + x) ?s = regs_ok (t + x) s" by (rule regs_same) (case_tac k; simp add: table_simps)
  ultimately show ?thesis using s by (simp add: spread_def lessThan_Suc)
qed

text \<open>The next ring of a kind, with the next free hardware queue, on the newest vector.\<close>

lemma regs_put:
  assumes g: "regs_ok g s" and c: "qr_reg_idx c = (if k = Rx_ring then queue_index c else g)"
  shows "regs_ok (if k = Rx_ring then g else Suc g) (put_ring k v c s)"
proof -
  let ?s = "put_ring k v c s"
  have grx: "\<And>i d. rx_ring_tab s i = Some d \<Longrightarrow> qr_reg_idx d = i"
    and glt: "\<And>m i d. m \<noteq> Rx_ring \<Longrightarrow> table m s i = Some d \<Longrightarrow> qr_reg_idx d < g"
    and ginj: "\<And>m n i j d e. m \<noteq> Rx_ring \<Longrightarrow> n \<noteq> Rx_ring \<Longrightarrow> table m s i = Some d \<Longrightarrow> table n s j = Some e \<Longrightarrow>
        qr_reg_idx d = qr_reg_idx e \<Longrightarrow> m = n \<and> i = j"
    using g unfolding regs_ok_def by blast+
  have rx: "qr_reg_idx d = i" if d: "rx_ring_tab ?s i = Some d" for i d
  proof (cases "k = Rx_ring \<and> i = queue_index c")
    case True
    then show ?thesis using d c put_ring_table [of Rx_ring k v c s] by (simp add: table_simps)
  next
    case False
    then have "rx_ring_tab s i = Some d" using d put_ring_table [of Rx_ring k v c s] by (simp add: table_simps split: if_splits)
    then show ?thesis by (rule grx)
  qed
  have old: "table m s i = Some d \<and> qr_reg_idx d < g \<or> k = m \<and> i = queue_index c \<and> d = c \<and> qr_reg_idx d = g"
    if m: "m \<noteq> Rx_ring" and d: "table m ?s i = Some d" for m i d
  proof (cases "k = m \<and> i = queue_index c")
    case True
    then show ?thesis using m d c by (simp add: put_ring_table)
  next
    case False
    then have "table m s i = Some d" using d by (simp add: put_ring_table split: if_splits)
    then show ?thesis using glt [OF m] by blast
  qed
  have lt: "qr_reg_idx d < (if k = Rx_ring then g else Suc g)" if "m \<noteq> Rx_ring" "table m ?s i = Some d" for m i d
    using old [OF that] that(1) by auto
  have inj: "m = n \<and> i = j"
    if "m \<noteq> Rx_ring" "n \<noteq> Rx_ring" "table m ?s i = Some d" "table n ?s j = Some e" "qr_reg_idx d = qr_reg_idx e" for m i d n j e
    using old [OF that(1,3)] old [OF that(2,4)] that(5) ginj [OF that(1,2), of i d j e] by auto
  show ?thesis unfolding regs_ok_def using rx lt inj by blast
qed

lemma spread_put:
  assumes s: "spread (Suc v) t x r s" and c: "qr_kind c = k" "qr_vector c = v"
      "queue_index c = (case k of Tx_ring \<Rightarrow> t | Xdp_ring \<Rightarrow> x | Rx_ring \<Rightarrow> r)"
      "qr_reg_idx c = (if k = Rx_ring then r else t + x)"
  shows "spread (Suc v) (if k = Tx_ring then Suc t else t) (if k = Xdp_ring then Suc x else x) (if k = Rx_ring then Suc r else r)
    (put_ring k v c s)"
proof -
  have "v \<in> dom (q_vector_tab s)" using s by (simp add: spread_def)
  then obtain q where q: "q_vector_tab s v = Some q" by blast
  have "queue_index c \<notin> dom (table k s)" using s c(3) by (cases k) (simp_all add: spread_def table_simps)
  then have "linked (put_ring k v c s)" using linked_put [OF _ q c(1,2)] s by (simp add: spread_def domIff)
  moreover have "regs_ok (if k = Rx_ring then t + x else Suc (t + x)) (put_ring k v c s)"
    using s c(3,4) by (intro regs_put) (auto simp: spread_def)
  moreover have "dom (q_vector_tab (put_ring k v c s)) = {..<Suc v}"
    using s q by (simp add: put_ring_vector spread_def insert_absorb)
  moreover have "tx_ring_tab (put_ring k v c s) = (if k = Tx_ring then (tx_ring_tab s)(t \<mapsto> c) else tx_ring_tab s)"
      "xdp_ring_tab (put_ring k v c s) = (if k = Xdp_ring then (xdp_ring_tab s)(x \<mapsto> c) else xdp_ring_tab s)"
      "rx_ring_tab (put_ring k v c s) = (if k = Rx_ring then (rx_ring_tab s)(r \<mapsto> c) else rx_ring_tab s)"
    using put_ring_table [of Tx_ring k v c s] put_ring_table [of Xdp_ring k v c s] put_ring_table [of Rx_ring k v c s] c(3)
    by (cases k; simp add: table_simps)+
  ultimately show ?thesis using s by (cases k) (simp_all add: spread_def lessThan_Suc)
qed

subsection \<open>One vector\<close>

lemma put_ring_counts:
  "num_rx_queues (put_ring k v c s) = num_rx_queues s" "num_tx_queues (put_ring k v c s) = num_tx_queues s"
  "num_xdp_queues (put_ring k v c s) = num_xdp_queues s" "num_q_vectors (put_ring k v c s) = num_q_vectors s"
  by (cases k; simp add: put_ring_def Let_def)+

abbreviation counts :: "queues \<Rightarrow> nat \<times> nat \<times> nat \<times> nat" where
  "counts s \<equiv> (num_q_vectors s, num_tx_queues s, num_xdp_queues s, num_rx_queues s)"

lemma add_tx_rings_spread:
  "spread (Suc v) t x r s \<Longrightarrow> spread (Suc v) (t + n) x r (snd (run_state (add_tx_rings v n t (t + x)) s)) \<and>
     counts (snd (run_state (add_tx_rings v n t (t + x)) s)) = counts s"
proof (induction n arbitrary: t s)
  case (Suc n)
  let ?c = "\<lparr>qr_kind = Tx_ring, qr_count = tx_ring_count s, queue_index = t, qr_reg_idx = t + x, qr_vector = v, qr_udp_zero_err = False\<rparr>"
  have "spread (Suc v) (Suc t) x r (put_ring Tx_ring v ?c s)" using spread_put [OF Suc.prems, of ?c Tx_ring] by simp
  from Suc.IH [OF this] show ?case
    by (simp add: exec_simps put_ring_counts) (simp add: put_ring_def ixgbevf_add_ring_def Let_def)
qed simp

lemma add_xdp_rings_spread:
  "spread (Suc v) t x r s \<Longrightarrow> spread (Suc v) t (x + n) r (snd (run_state (add_xdp_rings v n x (t + x)) s)) \<and>
     counts (snd (run_state (add_xdp_rings v n x (t + x)) s)) = counts s"
proof (induction n arbitrary: x s)
  case (Suc n)
  let ?c = "\<lparr>qr_kind = Xdp_ring, qr_count = tx_ring_count s, queue_index = x, qr_reg_idx = t + x, qr_vector = v, qr_udp_zero_err = False\<rparr>"
  have "spread (Suc v) t (Suc x) r (put_ring Xdp_ring v ?c s)" using spread_put [OF Suc.prems, of ?c Xdp_ring] by simp
  from Suc.IH [OF this] show ?case
    by (simp add: exec_simps put_ring_counts) (simp add: put_ring_def ixgbevf_add_ring_def Let_def)
qed simp

lemma add_rx_rings_spread:
  "spread (Suc v) t x r s \<Longrightarrow> spread (Suc v) t x (r + n) (snd (run_state (add_rx_rings v n r) s)) \<and>
     counts (snd (run_state (add_rx_rings v n r) s)) = counts s"
proof (induction n arbitrary: r s)
  case (Suc n)
  let ?c = "\<lparr>qr_kind = Rx_ring, qr_count = rx_ring_count s, queue_index = r, qr_reg_idx = r, qr_vector = v,
    qr_udp_zero_err = (mac_type (mac (qs_hw s)) = Ixgbe_mac_82599_vf)\<rparr>"
  have "spread (Suc v) t x (Suc r) (put_ring Rx_ring v ?c s)" using spread_put [OF Suc.prems, of ?c Rx_ring] by simp
  from Suc.IH [OF this] show ?case
    by (simp add: exec_simps put_ring_counts) (simp add: put_ring_def ixgbevf_add_ring_def Let_def)
qed simp

lemma run_qs_on_hw: "run_state (qs_on_hw m) s = (fst (run_state m (qs_hw s)), s\<lparr>qs_hw := snd (run_state m (qs_hw s))\<rparr>)"
  by (simp add: qs_on_hw_def case_prod_beta)

lemma spread_hw [simp]: "spread v t x r (s\<lparr>qs_hw := h\<rparr>) = spread v t x r s"
  by (rule spread_same) simp_all

lemma alloc_q_vector_spread:
  assumes s: "spread v t x r s" and run: "run_state (ixgbevf_alloc_q_vector E v tc t xc x rc r) s = (e, s')"
  shows "counts s' = counts s \<and> (e = 0 \<and> spread (Suc v) (t + tc) (x + xc) (r + rc) s' \<or> e = - ENOMEM \<and> spread v t x r s')"
proof -
  let ?p = "run_state (kcall E ''kzalloc q_vector'' [int v]) (qs_hw s)"
  show ?thesis
  proof (cases "fst ?p = 0")
    case True
    then show ?thesis using run s by (simp add: ixgbevf_alloc_q_vector_def run_qs_on_hw Let_def) auto
  next
    case False
    let ?n = "(q_vector_tab s)(v \<mapsto> \<lparr>qvec_idx = v, qvec_tx = [], qvec_rx = []\<rparr>)"
    define s1 where "s1 = s\<lparr>qs_hw := snd (run_state (log_io (Kernel_call ''netif_napi_add'' [int v])) (snd ?p)), q_vector_tab := ?n\<rparr>"
    define s2 where "s2 = snd (run_state (add_tx_rings v tc t (t + x)) s1)"
    define s3 where "s3 = snd (run_state (add_xdp_rings v xc x (t + tc + x)) s2)"
    define s4 where "s4 = snd (run_state (add_rx_rings v rc r) s3)"
    have "spread (Suc v) t x r s1"
      using spread_new_vector [OF s] by (subst spread_same [of s1 "s\<lparr>q_vector_tab := ?n\<rparr>"]) (simp_all add: s1_def)
    moreover have "counts s1 = counts s" by (simp add: s1_def)
    ultimately have "spread (Suc v) (t + tc) (x + xc) (r + rc) s4" "counts s4 = counts s"
      using add_tx_rings_spread [of v t x r s1 tc] add_xdp_rings_spread [of v "t + tc" x r s2 xc] add_rx_rings_spread [of v "t + tc" "x + xc" r s3 rc]
      by (simp_all add: s2_def s3_def s4_def)
    moreover have "s' = s4" "e = 0"
      using run False by (auto simp: ixgbevf_alloc_q_vector_def run_qs_on_hw Let_def s1_def s2_def s3_def s4_def ac_simps case_prod_beta)
    ultimately show ?thesis by simp
  qed
qed

subsection \<open>Freeing\<close>

definition no_vectors :: "queues \<Rightarrow> bool" where
  "no_vectors s \<longleftrightarrow> q_vector_tab s = Map.empty \<and> tx_ring_tab s = Map.empty \<and> xdp_ring_tab s = Map.empty \<and> rx_ring_tab s = Map.empty"

lemma clear_tx_rings:
  "snd (run_state (for_each cs (\<lambda>ring. modify (\<lambda>s.
       if qr_kind ring = Xdp_ring then s\<lparr>xdp_ring_tab := (xdp_ring_tab s)(queue_index ring := None)\<rparr>
       else s\<lparr>tx_ring_tab := (tx_ring_tab s)(queue_index ring := None)\<rparr>))) s) =
   s\<lparr>xdp_ring_tab := (\<lambda>i. if i \<in> queue_index ` {c \<in> set cs. qr_kind c = Xdp_ring} then None else xdp_ring_tab s i),
     tx_ring_tab := (\<lambda>i. if i \<in> queue_index ` {c \<in> set cs. qr_kind c \<noteq> Xdp_ring} then None else tx_ring_tab s i)\<rparr>"
proof (induction cs arbitrary: s)
  case (Cons c cs)
  then show ?case by (cases s; cases "qr_kind c = Xdp_ring") (auto simp: Cons.IH case_prod_beta fun_eq_iff)
qed simp

lemma clear_rx_rings:
  "snd (run_state (for_each cs (\<lambda>ring. modify (\<lambda>s. s\<lparr>rx_ring_tab := (rx_ring_tab s)(queue_index ring := None)\<rparr>))) s) =
   s\<lparr>rx_ring_tab := (\<lambda>i. if i \<in> queue_index ` set cs then None else rx_ring_tab s i)\<rparr>"
proof (induction cs arbitrary: s)
  case (Cons c cs)
  then show ?case by (cases s) (auto simp: Cons.IH case_prod_beta fun_eq_iff)
qed simp

lemma free_q_vector_tables:
  assumes q: "q_vector_tab s v = Some q" and k: "kinds_ok q"
  shows "table k (snd (run_state (ixgbevf_free_q_vector v) s)) i = (if i \<in> queue_index ` owned k q then None else table k s i)"
    and "q_vector_tab (snd (run_state (ixgbevf_free_q_vector v) s)) = (q_vector_tab s)(v := None)"
    and "counts (snd (run_state (ixgbevf_free_q_vector v) s)) = counts s"
proof -
  let ?s = "snd (run_state (ixgbevf_free_q_vector v) s)"
  have s: "q_vector_tab ?s = (q_vector_tab s)(v := None)" "counts ?s = counts s"
      "tx_ring_tab ?s = (\<lambda>i. if i \<in> queue_index ` {c \<in> set (qvec_tx q). qr_kind c \<noteq> Xdp_ring} then None else tx_ring_tab s i)"
      "xdp_ring_tab ?s = (\<lambda>i. if i \<in> queue_index ` {c \<in> set (qvec_tx q). qr_kind c = Xdp_ring} then None else xdp_ring_tab s i)"
      "rx_ring_tab ?s = (\<lambda>i. if i \<in> queue_index ` set (qvec_rx q) then None else rx_ring_tab s i)"
    using q by (simp_all add: ixgbevf_free_q_vector_def case_prod_beta clear_tx_rings clear_rx_rings run_qs_on_hw cong: if_cong)
  have "{c \<in> set (qvec_tx q). qr_kind c \<noteq> Xdp_ring} = owned Tx_ring q" "set (qvec_rx q) = owned Rx_ring q"
    using k ring_kind.exhaust by (auto simp: owned_def kinds_ok_def)
  moreover have "{c \<in> set (qvec_tx q). qr_kind c = Xdp_ring} = owned Xdp_ring q" by (auto simp: owned_def)
  ultimately show "table k ?s i = (if i \<in> queue_index ` owned k q then None else table k s i)"
    by (cases k) (simp_all add: table_simps s)
  show "q_vector_tab ?s = (q_vector_tab s)(v := None)" "counts ?s = counts s" by (simp_all add: s)
qed

lemma free_q_vector_linked:
  assumes l: "linked s" and d: "dom (q_vector_tab s) = {..<Suc v}"
  shows "linked (snd (run_state (ixgbevf_free_q_vector v) s))"
    and "dom (q_vector_tab (snd (run_state (ixgbevf_free_q_vector v) s))) = {..<v}"
    and "counts (snd (run_state (ixgbevf_free_q_vector v) s)) = counts s"
proof -
  let ?s = "snd (run_state (ixgbevf_free_q_vector v) s)"
  have "v \<in> dom (q_vector_tab s)" using d by simp
  then obtain q where q: "q_vector_tab s v = Some q" by blast
  have k: "kinds_ok q" using l q unfolding linked_def by blast
  note f = free_q_vector_tables [OF q k]
  have entries: "queue_index c = i \<and> (\<exists>p. q_vector_tab ?s (qr_vector c) = Some p \<and> c \<in> owned m p)" if c: "table m ?s i = Some c" for m i c
  proof -
    from c have old: "table m s i = Some c" and i: "i \<notin> queue_index ` owned m q" by (simp_all add: f(1) split: if_splits)
    from l old obtain p where p: "queue_index c = i" "q_vector_tab s (qr_vector c) = Some p" "c \<in> owned m p" unfolding linked_def by blast
    then have "qr_vector c \<noteq> v" using q i by auto
    then show ?thesis using p f(2) by simp
  qed
  have rings: "qvec_idx p = w \<and> kinds_ok p \<and> (\<forall>m. \<forall>c \<in> owned m p. qr_vector c = w \<and> table m ?s (queue_index c) = Some c)"
    if "q_vector_tab ?s w = Some p" for w p
  proof -
    have w: "w \<noteq> v" "q_vector_tab s w = Some p" using that f(2) by (auto split: if_splits)
    have "table m ?s (queue_index c) = Some c" if c: "c \<in> owned m p" for m c
    proof -
      have cw: "qr_vector c = w" "table m s (queue_index c) = Some c" using l w(2) c unfolding linked_def by blast+
      have "queue_index c \<noteq> queue_index d" if "d \<in> owned m q" for d
      proof
        assume "queue_index c = queue_index d"
        moreover have "qr_vector d = v" "table m s (queue_index d) = Some d" using l q that unfolding linked_def by blast+
        ultimately show False using cw w(1) by simp
      qed
      then show ?thesis using cw(2) by (auto simp: f(1))
    qed
    then show ?thesis using l w(2) unfolding linked_def by blast
  qed
  show "linked ?s" unfolding linked_def using entries rings by blast
  show "dom (q_vector_tab ?s) = {..<v}" using d by (simp add: f(2) lessThan_Suc)
  show "counts ?s = counts s" by (rule f(3))
qed

lemma free_vectors_below_empties:
  "linked s \<Longrightarrow> dom (q_vector_tab s) = {..<v} \<Longrightarrow>
     no_vectors (snd (run_state (free_vectors_below v) s)) \<and> counts (snd (run_state (free_vectors_below v) s)) = counts s"
proof (induction v arbitrary: s)
  case 0
  then have none: "q_vector_tab s = Map.empty" by simp
  have "table k s i = None" for k i using 0(1) none unfolding linked_def by (cases "table k s i") auto
  from this [of Tx_ring] this [of Xdp_ring] this [of Rx_ring] show ?case using none by (simp add: no_vectors_def table_simps fun_eq_iff)
next
  case (Suc v)
  then show ?case using Suc.IH [OF free_q_vector_linked(1,2) [OF Suc.prems]] free_q_vector_linked(3) [OF Suc.prems]
    by (simp add: case_prod_beta)
qed

subsection \<open>All vectors\<close>

definition all_released :: "queues \<Rightarrow> bool" where
  "all_released s \<longleftrightarrow> no_vectors s \<and> counts s = (0, 0, 0, 0)"

lemma alloc_err_out_releases:
  assumes "linked s" "dom (q_vector_tab s) = {..<v}"
  shows "fst (run_state (alloc_err_out v) s) = - ENOMEM \<and> all_released (snd (run_state (alloc_err_out v) s))"
proof -
  let ?s = "s\<lparr>num_tx_queues := 0, num_xdp_queues := 0, num_rx_queues := 0, num_q_vectors := 0\<rparr>"
  have "table k ?s = table k s" for k by (cases k) (simp_all add: table_simps)
  then have "linked ?s = linked s" by (intro linked_same) simp_all
  then have "linked ?s" "dom (q_vector_tab ?s) = {..<v}" using assms by simp_all
  from free_vectors_below_empties [OF this] show ?thesis by (simp add: alloc_err_out_def case_prod_beta all_released_def)
qed

lemma DIV_ROUND_UP_le: "0 < d \<Longrightarrow> DIV_ROUND_UP n d \<le> n"
proof (cases n)
  case (Suc m)
  assume "0 < d"
  then have "DIV_ROUND_UP n d = Suc (m div d)" using Suc by (simp add: DIV_ROUND_UP_def div_add_self2)
  then show ?thesis using Suc by simp
qed (simp add: DIV_ROUND_UP_def)

lemma DIV_ROUND_UP_1 [simp]: "DIV_ROUND_UP n (Suc 0) = n"
  by (simp add: DIV_ROUND_UP_def)

lemma DIV_ROUND_UP_small: "0 < n \<Longrightarrow> n \<le> d \<Longrightarrow> DIV_ROUND_UP n d = 1"
  by (simp add: DIV_ROUND_UP_def div_nat_eqI)

text \<open>What an allocation loop promises: all vectors and all rings, or nothing.\<close>

definition alloc_done :: "nat \<Rightarrow> nat \<Rightarrow> nat \<Rightarrow> nat \<Rightarrow> queues \<Rightarrow> int \<Rightarrow> queues \<Rightarrow> bool" where
  "alloc_done v t x r s e s' \<longleftrightarrow> e = 0 \<and> spread v t x r s' \<and> counts s' = counts s \<or> e = - ENOMEM \<and> all_released s'"

lemma alloc_shared_vectors_done:
  assumes "spread v (txr_idx p) (xdp_idx p) (rxr_idx p) s" and "n = 0 \<Longrightarrow> txr_remaining p = 0 \<and> xdp_remaining p = 0 \<and> rxr_remaining p = 0"
  shows "alloc_done (v + n) (txr_idx p + txr_remaining p) (xdp_idx p + xdp_remaining p) (rxr_idx p + rxr_remaining p) s
    (fst (run_state (alloc_shared_vectors E n v p) s)) (snd (run_state (alloc_shared_vectors E n v p) s))"
  using assms
proof (induction n arbitrary: v p s)
  case 0
  then show ?case by (simp add: alloc_done_def)
next
  case (Suc n)
  let ?r = "DIV_ROUND_UP (rxr_remaining p) (Suc n)" and ?t = "DIV_ROUND_UP (txr_remaining p) (Suc n)" and ?x = "DIV_ROUND_UP (xdp_remaining p) (Suc n)"
  let ?p = "\<lparr>rxr_remaining = rxr_remaining p - ?r, rxr_idx = rxr_idx p + ?r, txr_remaining = txr_remaining p - ?t,
          txr_idx = txr_idx p + ?t, xdp_remaining = xdp_remaining p - ?x, xdp_idx = xdp_idx p + ?x\<rparr>"
  obtain e s1 where run: "run_state (ixgbevf_alloc_q_vector E v ?t (txr_idx p) ?x (xdp_idx p) ?r (rxr_idx p)) s = (e, s1)" by fastforce
  have le: "?r \<le> rxr_remaining p" "?t \<le> txr_remaining p" "?x \<le> xdp_remaining p" by (simp_all add: DIV_ROUND_UP_le)
  note one = alloc_q_vector_spread [OF Suc.prems(1) run]
  show ?case
  proof (cases "e = 0")
    case True
    have "spread (Suc v) (txr_idx ?p) (xdp_idx ?p) (rxr_idx ?p) s1" using one True by (simp add: ENOMEM_def)
    moreover have "n = 0 \<Longrightarrow> txr_remaining ?p = 0 \<and> xdp_remaining ?p = 0 \<and> rxr_remaining ?p = 0" by simp
    ultimately have "alloc_done (Suc v + n) (txr_idx ?p + txr_remaining ?p) (xdp_idx ?p + xdp_remaining ?p) (rxr_idx ?p + rxr_remaining ?p) s1
        (fst (run_state (alloc_shared_vectors E n (Suc v) ?p) s1)) (snd (run_state (alloc_shared_vectors E n (Suc v) ?p) s1))"
      by (rule Suc.IH)
    then show ?thesis using True run one le by (simp add: Let_def alloc_done_def)
  next
    case False
    then have "linked s1" "dom (q_vector_tab s1) = {..<v}" using one by (simp_all add: spread_def)
    from alloc_err_out_releases [OF this] show ?thesis using False run by (simp add: Let_def alloc_done_def)
  qed
qed

lemma alloc_rx_vectors_done:
  assumes "spread v 0 0 (rxr_idx p) s" "txr_idx p = 0" "xdp_idx p = 0" "rxr_remaining p + txr_remaining p + xdp_remaining p \<le> n"
  shows "\<exists>e. fst (run_state (alloc_rx_vectors E n v p) s) = Some e \<and>
    alloc_done (v + n) (txr_remaining p) (xdp_remaining p) (rxr_idx p + rxr_remaining p) s e (snd (run_state (alloc_rx_vectors E n v p) s))"
  using assms
proof (induction n arbitrary: v p s)
  case 0
  then show ?case by (simp add: alloc_done_def)
next
  case (Suc n)
  show ?case
  proof (cases "rxr_remaining p = 0")
    case True
    have "alloc_done (v + Suc n) (txr_idx p + txr_remaining p) (xdp_idx p + xdp_remaining p) (rxr_idx p + rxr_remaining p) s
        (fst (run_state (alloc_shared_vectors E (Suc n) v p) s)) (snd (run_state (alloc_shared_vectors E (Suc n) v p) s))"
      using Suc.prems by (intro alloc_shared_vectors_done) simp_all
    then show ?thesis using True Suc.prems(2,3) by (simp add: case_prod_beta del: alloc_shared_vectors.simps)
  next
    case False
    then have one: "DIV_ROUND_UP (rxr_remaining p) (Suc n) = 1" using Suc.prems(4) by (intro DIV_ROUND_UP_small) simp_all
    let ?p = "p\<lparr>rxr_remaining := rxr_remaining p - 1, rxr_idx := rxr_idx p + 1\<rparr>"
    obtain e s1 where run: "run_state (ixgbevf_alloc_q_vector E v 0 0 0 0 1 (rxr_idx p)) s = (e, s1)" by fastforce
    note a = alloc_q_vector_spread [OF Suc.prems(1) run]
    show ?thesis
    proof (cases "e = 0")
      case True
      have "spread (Suc v) 0 0 (rxr_idx ?p) s1" using a True by (simp add: ENOMEM_def)
      then have "\<exists>e. fst (run_state (alloc_rx_vectors E n (Suc v) ?p) s1) = Some e \<and>
          alloc_done (Suc v + n) (txr_remaining ?p) (xdp_remaining ?p) (rxr_idx ?p + rxr_remaining ?p) s1 e (snd (run_state (alloc_rx_vectors E n (Suc v) ?p) s1))"
        using Suc.prems(2-4) False by (intro Suc.IH) simp_all
      then show ?thesis using True False run one a by (simp add: Let_def alloc_done_def)
    next
      case err: False
      then have "linked s1" "dom (q_vector_tab s1) = {..<v}" using a by (simp_all add: spread_def)
      from alloc_err_out_releases [OF this] show ?thesis using err False run one by (simp add: Let_def alloc_done_def case_prod_beta)
    qed
  qed
qed

lemma no_vectors_spread: "no_vectors s \<Longrightarrow> spread 0 0 0 0 s"
proof -
  assume n: "no_vectors s"
  then have "table k s i = None" for k i by (cases k) (simp_all add: no_vectors_def table_simps)
  then have "linked s" "regs_ok 0 s" using n by (simp_all add: linked_def regs_ok_def no_vectors_def)
  then show ?thesis using n by (simp add: spread_def no_vectors_def)
qed

lemma alloc_q_vectors_done:
  assumes s: "no_vectors s" and n: "0 < num_q_vectors s"
  shows "\<exists>e. fst (run_state (ixgbevf_alloc_q_vectors E) s) = Some e \<and>
    alloc_done (num_q_vectors s) (num_tx_queues s) (num_xdp_queues s) (num_rx_queues s) s e (snd (run_state (ixgbevf_alloc_q_vectors E) s))"
proof -
  let ?p = "\<lparr>rxr_remaining = num_rx_queues s, rxr_idx = 0, txr_remaining = num_tx_queues s, txr_idx = 0,
       xdp_remaining = num_xdp_queues s, xdp_idx = 0\<rparr>"
  have sp: "spread 0 (txr_idx ?p) (xdp_idx ?p) (rxr_idx ?p) s" using no_vectors_spread [OF s] by simp
  show ?thesis
  proof (cases "num_q_vectors s \<ge> num_rx_queues s + num_tx_queues s + num_xdp_queues s")
    case True
    with alloc_rx_vectors_done [of 0 ?p s "num_q_vectors s" E] sp show ?thesis by (simp add: ixgbevf_alloc_q_vectors_def Let_def)
  next
    case False
    with alloc_shared_vectors_done [OF sp, of "num_q_vectors s" E] n show ?thesis
      by (simp add: ixgbevf_alloc_q_vectors_def Let_def case_prod_beta)
  qed
qed

lemma no_vectors_same: "no_vectors s \<Longrightarrow> q_vector_tab s' = q_vector_tab s \<Longrightarrow> tx_ring_tab s' = tx_ring_tab s \<Longrightarrow>
    xdp_ring_tab s' = xdp_ring_tab s \<Longrightarrow> rx_ring_tab s' = rx_ring_tab s \<Longrightarrow> no_vectors s'"
  by (simp add: no_vectors_def)

text \<open>The kernel enables a number of vectors within the bounds asked for, or fails.\<close>

definition honest_msix :: "env \<Rightarrow> bool" where
  "honest_msix E \<longleftrightarrow> (\<forall>evs lo hi. let v = kernel E evs ''pci_enable_msix_range'' [lo, hi] in v < 0 \<or> lo \<le> v \<and> v \<le> hi)"

lemma set_num_queues_tables:
  assumes "no_vectors s"
  shows "no_vectors (snd (run_state (ixgbevf_set_num_queues E cpus) s))"
  by (rule no_vectors_same [OF assms]; simp add: ixgbevf_set_num_queues_def run_qs_on_hw case_prod_beta run_whenM Let_def)

lemma acquire_msix_vectors_outcome:
  assumes s: "no_vectors s" and k: "honest_msix E" and run: "run_state (ixgbevf_acquire_msix_vectors E n) s = (e, s')"
  shows "no_vectors s' \<and> (e = 0 \<and> 0 < num_q_vectors s' \<and> num_q_vectors s' < n \<and> msix_entries s' = msix_entries s \<and>
      num_rx_queues s' = num_rx_queues s \<and> num_tx_queues s' = num_tx_queues s \<or> e < 0 \<and> msix_entries s' = None)"
proof -
  obtain v h where call: "run_state (kcall E ''pci_enable_msix_range'' [int MIN_MSIX_COUNT, int n]) (qs_hw s) = (v, h)" by fastforce
  then have "v = kernel E (io (qs_hw s)) ''pci_enable_msix_range'' [int MIN_MSIX_COUNT, int n]" by (simp add: kcall_def log_io_def)
  then have v: "v < 0 \<or> 2 \<le> v \<and> v \<le> int n"
    using k [unfolded honest_msix_def Let_def, rule_format, of "io (qs_hw s)" "int MIN_MSIX_COUNT" "int n"] by simp
  have run': "(e, s') = (if v < 0 then (v, s\<lparr>qs_hw := h, msix_entries := None\<rparr>)
      else (0, s\<lparr>qs_hw := h, num_q_vectors := nat (v - int NON_Q_VECTORS)\<rparr>))"
    unfolding run [symmetric] ixgbevf_acquire_msix_vectors_def run_bind run_qs_on_hw call by simp
  show ?thesis using run' v s by (cases "v < 0") (auto simp: no_vectors_def)
qed

lemma set_interrupt_capability_outcome:
  assumes s: "no_vectors s" and k: "honest_msix E" and run: "run_state (ixgbevf_set_interrupt_capability E cpus) s = (e, s')"
  shows "no_vectors s' \<and> (e = 0 \<and> 0 < num_q_vectors s' \<and> num_q_vectors s' \<le> max (num_rx_queues s') (num_tx_queues s') \<and> msix_entries s' \<noteq> None
    \<or> e < 0 \<and> msix_entries s' = None)"
proof -
  define n where "n = min (max (num_rx_queues s) (num_tx_queues s)) cpus + NON_Q_VECTORS"
  obtain p h where call: "run_state (kcall E ''kcalloc msix_entries'' [int n]) (qs_hw s) = (p, h)" by fastforce
  let ?s1 = "s\<lparr>qs_hw := h, msix_entries := Some [0..<n]\<rparr>"
  have run': "(e, s') = (if p = 0 then (- ENOMEM, s\<lparr>qs_hw := h, msix_entries := None\<rparr>)
      else run_state (ixgbevf_acquire_msix_vectors E n) ?s1)"
    unfolding run [symmetric] ixgbevf_set_interrupt_capability_def run_bind run_qs_on_hw run_gets Let_def n_def [symmetric] prod.case call
    by simp
  show ?thesis
  proof (cases "p = 0")
    case True
    then show ?thesis using run' s by (simp add: no_vectors_def)
  next
    case False
    have "no_vectors ?s1" using s by (simp add: no_vectors_def)
    from acquire_msix_vectors_outcome [OF this k, of n e s'] run' False show ?thesis by (auto simp: n_def)
  qed
qed

lemma reset_capability_tables:
  "q_vector_tab (snd (run_state (ixgbevf_reset_interrupt_capability E) s)) = q_vector_tab s"
  "tx_ring_tab (snd (run_state (ixgbevf_reset_interrupt_capability E) s)) = tx_ring_tab s"
  "xdp_ring_tab (snd (run_state (ixgbevf_reset_interrupt_capability E) s)) = xdp_ring_tab s"
  "rx_ring_tab (snd (run_state (ixgbevf_reset_interrupt_capability E) s)) = rx_ring_tab s"
  "counts (snd (run_state (ixgbevf_reset_interrupt_capability E) s)) = counts s"
  "msix_entries (snd (run_state (ixgbevf_reset_interrupt_capability E) s)) = None"
  by (simp_all add: ixgbevf_reset_interrupt_capability_def run_whenM run_qs_on_hw case_prod_beta)

lemma clear_interrupt_scheme_empties:
  assumes l: "linked s" and d: "dom (q_vector_tab s) = {..<num_q_vectors s}"
  shows "all_released (snd (run_state (ixgbevf_clear_interrupt_scheme E) s)) \<and>
    msix_entries (snd (run_state (ixgbevf_clear_interrupt_scheme E) s)) = None"
proof -
  define s1 where "s1 = s\<lparr>num_xdp_queues := 0, num_tx_queues := 0, num_rx_queues := 0, num_q_vectors := 0\<rparr>"
  define s2 where "s2 = snd (run_state (free_vectors_below (num_q_vectors s)) s1)"
  have "table k s1 = table k s" for k by (cases k) (simp_all add: table_simps s1_def)
  then have "linked s1 = linked s" by (intro linked_same) (simp_all add: s1_def)
  then have "linked s1" "dom (q_vector_tab s1) = {..<num_q_vectors s}" using l d by (simp_all add: s1_def)
  from free_vectors_below_empties [OF this] have s2: "no_vectors s2 \<and> counts s2 = (0, 0, 0, 0)" by (simp add: s2_def) (simp add: s1_def)
  have "snd (run_state (ixgbevf_clear_interrupt_scheme E) s) = snd (run_state (ixgbevf_reset_interrupt_capability E) s2)"
    by (simp add: ixgbevf_clear_interrupt_scheme_def ixgbevf_free_q_vectors_def case_prod_beta s2_def s1_def)
  then show ?thesis using s2 by (simp add: all_released_def no_vectors_def reset_capability_tables)
qed

lemma interrupt_scheme_outcome:
  assumes "no_vectors s" and "honest_msix E" and "run_state (ixgbevf_init_interrupt_scheme E cpus) s = (res, s')"
  shows "\<exists>e. res = Some e \<and>
    (e = 0 \<longrightarrow> spread (num_q_vectors s') (num_tx_queues s') (num_xdp_queues s') (num_rx_queues s') s' \<and>
       0 < num_q_vectors s' \<and> num_q_vectors s' \<le> max (num_rx_queues s') (num_tx_queues s')) \<and>
    (e \<noteq> 0 \<longrightarrow> e < 0 \<and> no_vectors s' \<and> msix_entries s' = None) \<and>
    (e = 0 \<longrightarrow> (let s'' = snd (run_state (ixgbevf_clear_interrupt_scheme E) s') in all_released s'' \<and> msix_entries s'' = None))"
proof -
  define s1 where "s1 = snd (run_state (ixgbevf_set_num_queues E cpus) s)"
  have n1: "no_vectors s1" using set_num_queues_tables [OF assms(1)] by (simp add: s1_def)
  obtain e2 s2 where r2: "run_state (ixgbevf_set_interrupt_capability E cpus) s1 = (e2, s2)" by fastforce
  note cap = set_interrupt_capability_outcome [OF n1 assms(2) r2]
  show ?thesis
  proof (cases "e2 = 0")
    case False
    then have "res = Some e2" "s' = s2" using assms(3) r2 by (auto simp: ixgbevf_init_interrupt_scheme_def s1_def case_prod_beta)
    then show ?thesis using cap False by auto
  next
    case True
    from cap True have n2: "no_vectors s2" "0 < num_q_vectors s2" by auto
    from alloc_q_vectors_done [OF this, of E] obtain e3 s3 where
      r3: "run_state (ixgbevf_alloc_q_vectors E) s2 = (Some e3, s3)" and
      d: "alloc_done (num_q_vectors s2) (num_tx_queues s2) (num_xdp_queues s2) (num_rx_queues s2) s2 e3 s3"
      by (metis prod.collapse)
    show ?thesis
    proof (cases "e3 = 0")
      case True
      let ?s = "s3\<lparr>qs_hw := (qs_hw s3)\<lparr>back_state := insert IXGBEVF_DOWN (back_state (qs_hw s3))\<rparr>\<rparr>"
      have r: "res = Some 0" "s' = ?s"
        using assms(3) r2 r3 True \<open>e2 = 0\<close> by (auto simp: ixgbevf_init_interrupt_scheme_def s1_def case_prod_beta)
      have sp: "spread (num_q_vectors s') (num_tx_queues s') (num_xdp_queues s') (num_rx_queues s') s'" and c: "counts s3 = counts s2"
        using d True r by (auto simp: alloc_done_def ENOMEM_def)
      from sp have "linked s'" "dom (q_vector_tab s') = {..<num_q_vectors s'}" by (simp_all add: spread_def)
      from clear_interrupt_scheme_empties [OF this, of E] sp c cap \<open>e2 = 0\<close> r show ?thesis by (auto simp: Let_def)
    next
      case err: False
      have r: "res = Some e3" "s' = snd (run_state (ixgbevf_reset_interrupt_capability E) s3)"
        using assms(3) r2 r3 err \<open>e2 = 0\<close> by (auto simp: ixgbevf_init_interrupt_scheme_def s1_def case_prod_beta)
      have "e3 = - ENOMEM" "no_vectors s3" using d err by (auto simp: alloc_done_def all_released_def)
      then show ?thesis using r by (simp add: reset_capability_tables no_vectors_def)
    qed
  qed
qed


definition sample_queues :: queues where
  "sample_queues = \<lparr>qs_hw = sample_hw, num_rx_queues = 0, num_tx_queues = 0, num_xdp_queues = 0, num_q_vectors = 0,
     tx_ring_tab = Map.empty, xdp_ring_tab = Map.empty, rx_ring_tab = Map.empty, q_vector_tab = Map.empty,
     msix_entries = None, qs_xdp_prog = False, tx_ring_count = 1024, rx_ring_count = 512\<rparr>"

definition msix_env :: env where
  "msix_env = sample_env\<lparr>kernel := (\<lambda>evs name args. if name = ''pci_enable_msix_range'' \<and> args ! 0 \<le> args ! 1 then args ! 1 else - 1)\<rparr>"


end
