(* ===== verification/Adapter.thy ===== *)
theory Adapter
  imports Poll Queue_Facts
begin

text \<open>
  \<open>struct ixgbevf_adapter\<close> as one state, with the network device it drives, and how the operations of its parts
  (queues, rings, shared hardware code) act on it. The transmit and receive rings are the states of \<open>Tx_Ring\<close> and
  \<open>Rx_Ring\<close>; the XDP ring of index \<open>i\<close> is a field of receive ring \<open>i\<close>.

  Kernel objects the driver acts on are fields too: which interrupt lines have a handler, which polling contexts
  are enabled, whether the timer is armed, whether transmit queues run.
\<close>

record ixgbevf_hw_stats =
  base_vfgprc :: u64
  base_vfgptc :: u64
  base_vfgorc :: u64
  base_vfgotc :: u64
  base_vfmprc :: u64
  last_vfgprc :: u64
  last_vfgptc :: u64
  last_vfgorc :: u64
  last_vfgotc :: u64
  last_vfmprc :: u64
  vfgprc :: u64
  vfgptc :: u64
  vfgorc :: u64
  vfgotc :: u64
  vfmprc :: u64
  saved_reset_vfgprc :: u64
  saved_reset_vfgptc :: u64
  saved_reset_vfgorc :: u64
  saved_reset_vfgotc :: u64
  saved_reset_vfmprc :: u64

text \<open>What probing takes from the kernel and removal gives back.\<close>

datatype probe_res = Pci_device | Pci_regions | Net_device_memory | Io_mapping | Net_registration

text \<open>The memory of a ring: buffer records, descriptor ring with its DMA address, registration of the receive queue with XDP.\<close>

record ring_mem =
  rm_info :: bool
  rm_desc :: bool
  rm_dma :: u64
  rm_size :: u32
  rm_xdp_reg :: bool

record adapter =
  ad_q :: queues
  tx_rings :: "nat \<Rightarrow> ixgbevf_ring"
  rx_rings :: "nat \<Rightarrow> rx_ring"
  ring_mems :: "ring_kind \<Rightarrow> nat \<Rightarrow> ring_mem"
  vecs :: "nat \<Rightarrow> ixgbevf_q_vector"    \<comment> \<open>throttling state of \<open>q_vector[i]\<close>\<close>
  napi_on :: "nat \<Rightarrow> bool"
  irq_lines :: "nat set"              \<comment> \<open>table entries whose interrupt has a handler\<close>
  tx_itr_setting :: u16
  ad_rx_itr_setting :: u16
  eims_enable_mask :: u32
  eims_other :: u32
  irqs_ready :: bool
  rss_key :: "u32 list option"
  rss_indir_tbl :: "u8 list"
  rss_field_ipv4_udp :: bool        \<comment> \<open>\<open>flags\<close>\<close>
  rss_field_ipv6_udp :: bool
  legacy_rx :: bool
  active_vlans :: "nat set"
  pf_features :: u32
  stats :: ixgbevf_hw_stats
  hw_csum_rx_error :: u64
  ad_alloc_rx_page_failed :: u64
  ad_alloc_rx_buff_failed :: u64
  ad_alloc_rx_page :: u64
  ad_restart_queue :: u64
  ad_tx_busy :: u64
  link_speed :: u32
  link_up :: bool
  link_state :: bool
  tx_timeout_count :: u32
  last_reset :: u64
  dev_closed :: bool
  timer_armed :: bool
  mtu :: u32
  dev_addr :: "u8 list"
  nd_flags :: u32
  nd_uc :: "u8 list list"
  nd_mc :: "u8 list list"
  carrier :: bool
  tx_started :: bool
  nd_running :: bool                \<comment> \<open>\<open>netif_running\<close>\<close>
  nd_present :: bool                \<comment> \<open>\<open>netif_device_present\<close>\<close>
  io_addr :: u64
  rx_csum_on :: bool
  rx_hwtstamp_on :: bool
  res_held :: "probe_res set"

type_synonym 'a adop = "(adapter, 'a) state"

definition on_q :: "'a qsop \<Rightarrow> 'a adop" where
  "on_q m = State (\<lambda>a. case run_state m (ad_q a) of (x, q) \<Rightarrow> (x, a\<lparr>ad_q := q\<rparr>))"

definition hw_op :: "'a hwop \<Rightarrow> 'a adop" where
  "hw_op m = on_q (qs_on_hw m)"

definition on_tx :: "nat \<Rightarrow> 'a ringop \<Rightarrow> 'a adop" where
  "on_tx i m = State (\<lambda>a. case run_state m (tx_rings a i) of (x, r) \<Rightarrow> (x, a\<lparr>tx_rings := (tx_rings a)(i := r)\<rparr>))"

definition on_rx :: "nat \<Rightarrow> 'a rxop \<Rightarrow> 'a adop" where
  "on_rx i m = State (\<lambda>a. case run_state m (rx_rings a i) of (x, r) \<Rightarrow> (x, a\<lparr>rx_rings := (rx_rings a)(i := r)\<rparr>))"

abbreviation ad_hw :: "adapter \<Rightarrow> ixgbe_hw" where "ad_hw a \<equiv> qs_hw (ad_q a)"
abbreviation ad_bits :: "adapter \<Rightarrow> ixgbevf_state_t set" where "ad_bits a \<equiv> back_state (ad_hw a)"

definition set_bits :: "(ixgbevf_state_t set \<Rightarrow> ixgbevf_state_t set) \<Rightarrow> unit adop" where
  "set_bits f = hw_op (modify (\<lambda>h. h\<lparr>back_state := f (back_state h)\<rparr>))"

definition wr :: "u32 \<Rightarrow> u32 \<Rightarrow> unit adop" where
  "wr reg v = hw_op (IXGBE_WRITE_REG reg v)"

definition rd :: "env \<Rightarrow> u32 \<Rightarrow> u32 adop" where
  "rd E reg = hw_op (ixgbe_read_reg E reg)"

definition kernel_call :: "string \<Rightarrow> int list \<Rightarrow> unit adop" where
  "kernel_call name args = hw_op (log_io (Kernel_call name args))"

lemma run_hw_op: "run_state (hw_op m) a = (fst (run_state m (ad_hw a)), a\<lparr>ad_q := (ad_q a)\<lparr>qs_hw := snd (run_state m (ad_hw a))\<rparr>\<rparr>)"
  by (simp add: hw_op_def on_q_def qs_on_hw_def case_prod_beta)

lemma run_on_q: "run_state (on_q m) a = (fst (run_state m (ad_q a)), a\<lparr>ad_q := snd (run_state m (ad_q a))\<rparr>)"
  by (simp add: on_q_def case_prod_beta)

text \<open>An operation that only touches the hardware structure.\<close>

definition beyond_hw :: "adapter \<Rightarrow> ixgbe_hw \<Rightarrow> adapter" where
  "beyond_hw a h = a\<lparr>ad_q := (ad_q a)\<lparr>qs_hw := h\<rparr>\<rparr>"

lemma keeps_hw_op [keeps_rules]: "keeps beyond_hw (hw_op m)" "keeps beyond_hw (wr r v)" "keeps beyond_hw (rd E r)"
  "keeps beyond_hw (kernel_call s as)" "keeps beyond_hw (set_bits f)"
  by (simp_all add: keeps_def run_hw_op beyond_hw_def wr_def rd_def kernel_call_def set_bits_def fun_eq_iff)

end
