(* ===== verification/Interrupts.thy ===== *)
theory Interrupts
  imports Adapter
begin

text \<open>
  Interrupts of \<open>ixgbevf_main.c\<close>: the vector table of the device (\<open>ixgbevf_set_ivar\<close>, \<open>ixgbevf_configure_msix\<close>),
  the handlers, requesting and freeing the interrupt lines, masking and unmasking.
\<close>

definition IXGBE_IVAR_ALLOC_VAL :: u8 where [simp]: "IXGBE_IVAR_ALLOC_VAL = 0x80"

definition ixgbevf_set_ivar :: "env \<Rightarrow> int \<Rightarrow> u8 \<Rightarrow> u8 \<Rightarrow> unit adop" where
  "ixgbevf_set_ivar E direction queue msix_vector = (
     if direction = - 1 then do {
       let msix_vector = msix_vector OR IXGBE_IVAR_ALLOC_VAL;
       ivar \<leftarrow> rd E IXGBE_VTIVAR_MISC;
       let ivar = ivar AND NOT 0xFF;
       let ivar = ivar OR ucast msix_vector;
       wr IXGBE_VTIVAR_MISC ivar
     } else do {
       let msix_vector = msix_vector OR IXGBE_IVAR_ALLOC_VAL;
       let index = nat (16 * uint (queue AND 1) + 8 * direction);
       ivar \<leftarrow> rd E (IXGBE_VTIVAR (ucast (drop_bit 1 queue)));
       let ivar = ivar AND NOT (push_bit index 0xFF);
       let ivar = ivar OR push_bit index (ucast msix_vector);
       wr (IXGBE_VTIVAR (ucast (drop_bit 1 queue))) ivar })"

definition set_itr_of :: "nat \<Rightarrow> u16 \<Rightarrow> unit adop" where
  "set_itr_of v itr = modify (\<lambda>a. a\<lparr>vecs := (vecs a)(v := (vecs a v)\<lparr>qv_itr := itr\<rparr>)\<rparr>)"

definition configure_vector :: "env \<Rightarrow> nat \<Rightarrow> unit adop" where
  "configure_vector E v = do {
     q \<leftarrow> gets (\<lambda>a. the (q_vector_tab (ad_q a) v));
     for_each (qvec_rx q) (\<lambda>ring. ixgbevf_set_ivar E 0 (of_nat (qr_reg_idx ring)) (of_nat v));
     for_each (qvec_tx q) (\<lambda>ring. ixgbevf_set_ivar E 1 (of_nat (qr_reg_idx ring)) (of_nat v));
     a \<leftarrow> gets id;
     (if qvec_tx q \<noteq> [] \<and> qvec_rx q = [] then
        set_itr_of v (if tx_itr_setting a = 1 then ucast IXGBE_12K_ITR else tx_itr_setting a)
      else
        set_itr_of v (if ad_rx_itr_setting a = 1 then ucast IXGBE_20K_ITR else ad_rx_itr_setting a));
     modify (\<lambda>a. a\<lparr>eims_enable_mask := eims_enable_mask a OR push_bit v 1\<rparr>);
     qv \<leftarrow> gets (\<lambda>a. vecs a v);
     hw_op (ixgbevf_write_eitr qv) }"

definition ixgbevf_configure_msix :: "env \<Rightarrow> unit adop" where
  "ixgbevf_configure_msix E = do {
     modify (\<lambda>a. a\<lparr>eims_enable_mask := 0\<rparr>);
     n \<leftarrow> gets (\<lambda>a. num_q_vectors (ad_q a));
     for_each [0..<n] (configure_vector E);
     ixgbevf_set_ivar E (- 1) 1 (of_nat n);
     modify (\<lambda>a. a\<lparr>eims_other := push_bit n 1\<rparr>);
     modify (\<lambda>a. a\<lparr>eims_enable_mask := eims_enable_mask a OR eims_other a\<rparr>) }"

subsection \<open>Handlers\<close>

definition ixgbevf_msix_other :: "unit adop" where
  "ixgbevf_msix_other = do {
     hw_op (modify (\<lambda>h. h\<lparr>mac := (mac h)\<lparr>get_link_status := True\<rparr>\<rparr>));
     hw_op ixgbevf_service_event_schedule;
     m \<leftarrow> gets eims_other;
     wr IXGBE_VTEIMS m }"

definition ixgbevf_msix_clean_rings :: "nat \<Rightarrow> unit adop" where
  "ixgbevf_msix_clean_rings v = do {
     q \<leftarrow> gets (\<lambda>a. the (q_vector_tab (ad_q a) v));
     whenM (qvec_rx q \<noteq> [] \<or> qvec_tx q \<noteq> []) (kernel_call ''napi_schedule_irqoff'' [int v]) }"

subsection \<open>Lines\<close>

definition request_line :: "env \<Rightarrow> nat \<Rightarrow> int adop" where
  "request_line E v = do {
     err \<leftarrow> hw_op (kcall E ''request_irq'' [int v]);
     whenM (err = 0) (modify (\<lambda>a. a\<lparr>irq_lines := insert v (irq_lines a)\<rparr>));
     ret err }"

definition free_line :: "nat \<Rightarrow> unit adop" where
  "free_line v = do {
     kernel_call ''free_irq'' [int v];
     modify (\<lambda>a. a\<lparr>irq_lines := irq_lines a - {v}\<rparr>) }"

definition vector_used :: "queues \<Rightarrow> nat \<Rightarrow> bool" where
  "vector_used s v = (let q = the (q_vector_tab s v) in qvec_rx q \<noteq> [] \<or> qvec_tx q \<noteq> [])"

text \<open>The loop over the queue vectors: the error and the vector at which it stopped.\<close>

primrec request_queue_lines :: "env \<Rightarrow> nat \<Rightarrow> nat \<Rightarrow> (int \<times> nat) adop" where
  "request_queue_lines E 0 vector = ret (0, vector)"
| "request_queue_lines E (Suc n) vector = do {
     used \<leftarrow> gets (\<lambda>a. vector_used (ad_q a) vector);
     if \<not> used then request_queue_lines E n (vector + 1)
     else do {
       err \<leftarrow> request_line E vector;
       if err \<noteq> 0 then ret (err, vector) else request_queue_lines E n (vector + 1) } }"

primrec free_lines_below :: "nat \<Rightarrow> unit adop" where
  "free_lines_below 0 = ret ()"
| "free_lines_below (Suc vector) = do { free_line vector; free_lines_below vector }"

definition free_queue_irqs :: "int \<Rightarrow> nat \<Rightarrow> int adop" where
  "free_queue_irqs err vector = do {
     free_lines_below vector;
     modify (\<lambda>a. a\<lparr>ad_q := (ad_q a)\<lparr>num_q_vectors := 0\<rparr>\<rparr>);
     ret err }"

definition ixgbevf_request_msix_irqs :: "env \<Rightarrow> int adop" where
  "ixgbevf_request_msix_irqs E = do {
     n \<leftarrow> gets (\<lambda>a. num_q_vectors (ad_q a));
     (err, vector) \<leftarrow> request_queue_lines E n 0;
     if err \<noteq> 0 then free_queue_irqs err vector
     else do {
       err \<leftarrow> request_line E vector;
       if err \<noteq> 0 then free_queue_irqs err vector
       else do { modify (\<lambda>a. a\<lparr>irqs_ready := True\<rparr>); ret 0 } } }"

definition ixgbevf_request_irq :: "env \<Rightarrow> int adop" where
  "ixgbevf_request_irq E = ixgbevf_request_msix_irqs E"

definition ixgbevf_free_irq :: "unit adop" where
  "ixgbevf_free_irq = do {
     a \<leftarrow> gets id;
     if msix_entries (ad_q a) = None then ret ()
     else if \<not> irqs_ready a then ret ()
     else do {
       modify (\<lambda>a. a\<lparr>irqs_ready := False\<rparr>);
       let n = num_q_vectors (ad_q a);
       for_each [0..<n] (\<lambda>vector. whenM (vector_used (ad_q a) vector) (free_line vector));
       free_line n } }"

subsection \<open>Masking\<close>

definition ixgbevf_irq_disable :: "env \<Rightarrow> unit adop" where
  "ixgbevf_irq_disable E = do {
     wr IXGBE_VTEIAM 0;
     wr IXGBE_VTEIMC (- 1);
     wr IXGBE_VTEIAC 0;
     hw_op (IXGBE_WRITE_FLUSH E);
     n \<leftarrow> gets (\<lambda>a. num_q_vectors (ad_q a));
     for_each [0..<n] (\<lambda>vector. kernel_call ''synchronize_irq'' [int vector]);
     kernel_call ''synchronize_irq'' [int n] }"

definition ixgbevf_irq_enable :: "unit adop" where
  "ixgbevf_irq_enable = do {
     m \<leftarrow> gets eims_enable_mask;
     wr IXGBE_VTEIAM m;
     wr IXGBE_VTEIAC m;
     wr IXGBE_VTEIMS m }"

end
