(* ===== verification/Irq_Props.thy ===== *)
theory Irq_Props
  imports Interrupts
begin

text \<open>
  The vector table of the device as an abstract map from causes to vectors, the refinement of
  \<open>ixgbevf_set_ivar\<close> to an update of that map, and what \<open>ixgbevf_configure_msix\<close> establishes; requesting and freeing
  the interrupt lines.
\<close>

subsection \<open>The registers\<close>

text \<open>A register that reads as what was written to it last.\<close>

definition register_backed :: "env \<Rightarrow> u32 \<Rightarrow> bool" where
  "register_backed E r \<longleftrightarrow> (\<forall>h e. mmio E (e # h) r = (case e of MMIO_Write r' v \<Rightarrow> if r' = r then v else mmio E h r | _ \<Rightarrow> mmio E h r))"

definition byte_at :: "nat \<Rightarrow> u32 \<Rightarrow> u32" where
  "byte_at p x = take_bit 8 (drop_bit p x)"

definition ivar_pos :: "nat \<Rightarrow> nat \<Rightarrow> nat" where
  "ivar_pos q d = 16 * (q mod 2) + 8 * d"

definition ivar_reg :: "nat \<Rightarrow> u32" where
  "ivar_reg q = IXGBE_VTIVAR (of_nat (q div 2))"

text \<open>The entry of cause \<open>d\<close> (0 receive, 1 transmit) of queue \<open>q\<close>.\<close>

definition ivar_entry :: "env \<Rightarrow> io_event list \<Rightarrow> nat \<times> nat \<Rightarrow> u32" where
  "ivar_entry E h = (\<lambda>(q, d). if q < 8 \<and> d < 2 then byte_at (ivar_pos q d) (mmio E h (ivar_reg q)) else 0)"

definition ivar_regs :: "u32 set" where
  "ivar_regs = {0x120, 0x124, 0x128, 0x12C}"

lemma ivar_reg_cases: "q < 8 \<Longrightarrow> ivar_reg q \<in> ivar_regs"
proof -
  assume "q < 8"
  then have "q div 2 = 0 \<or> q div 2 = 1 \<or> q div 2 = 2 \<or> q div 2 = 3" by linarith
  then show ?thesis by (auto simp: ivar_reg_def ivar_regs_def IXGBE_VTIVAR_def)
qed

lemma ivar_reg_inj: "q < 8 \<Longrightarrow> q' < 8 \<Longrightarrow> ivar_reg q = ivar_reg q' \<longleftrightarrow> q div 2 = q' div 2"
proof -
  assume "q < 8" "q' < 8"
  then have "q div 2 \<in> {0, 1, 2, 3}" "q' div 2 \<in> {0, 1, 2, 3}" by auto
  then show ?thesis by (auto simp: ivar_reg_def IXGBE_VTIVAR_def)
qed

definition bytes4 :: "nat set" where "bytes4 = {0, 8, 16, 24}"

lemma ivar_pos_bytes: "d < 2 \<Longrightarrow> ivar_pos q d \<in> bytes4"
  by (cases "q mod 2 = 0"; cases "d = 0") (auto simp: ivar_pos_def bytes4_def mod_2_eq_odd)

lemma ivar_pos_inj:
  assumes "d < 2" "d' < 2"
  shows "ivar_pos q d = ivar_pos q' d' \<longleftrightarrow> q mod 2 = q' mod 2 \<and> d = d'"
proof -
  have "d = 0 \<or> d = 1" "d' = 0 \<or> d' = 1" "q mod 2 = 0 \<or> q mod 2 = 1" "q' mod 2 = 0 \<or> q' mod 2 = 1" using assms by linarith+
  then show ?thesis by (auto simp: ivar_pos_def)
qed

lemma bit_byte_at: "bit (byte_at p x) n \<longleftrightarrow> n < 8 \<and> bit x (p + n)"
  by (simp add: byte_at_def bit_take_bit_iff bit_drop_bit_eq)

lemma bytes_apart: "p \<in> bytes4 \<Longrightarrow> p' \<in> bytes4 \<Longrightarrow> p' \<noteq> p \<Longrightarrow> n < 8 \<Longrightarrow> \<not> (p \<le> p' + n \<and> p' + n - p < 8)"
  by (auto simp: bytes4_def)

lemma byte_at_put:
  assumes p: "p \<in> bytes4" "p' \<in> bytes4" and b: "take_bit 8 b = b"
  shows "byte_at p' ((x AND NOT (push_bit p 0xFF)) OR push_bit p b) = (if p' = p then b else byte_at p' x)"
proof -
  have ff: "bit (0xFF :: u32) n \<longleftrightarrow> n < 8" for n
  proof -
    have m: "(0xFF :: u32) = mask 8" by (simp add: mask_eq_exp_minus_1)
    show ?thesis unfolding m by (auto simp: bit_mask_iff)
  qed
  have hi: "bit b n \<Longrightarrow> n < 8" for n using b by (metis bit_take_bit_iff)
  have put: "bit ((x AND NOT (push_bit p 0xFF)) OR push_bit p b) m \<longleftrightarrow>
      (if p \<le> m \<and> m - p < 8 then bit b (m - p) else bit x m)" if "m < 32" for m
    using that hi [of "m - p"] ff [of "m - p"] by (auto simp: bit_or_iff bit_and_iff bit_not_iff bit_push_bit_iff)
  have lt: "q + n < 32" if "q \<in> bytes4" "n < 8" for q n using that by (auto simp: bytes4_def)
  show ?thesis
  proof (rule bit_eqI)
    fix n
    show "bit (byte_at p' ((x AND NOT (push_bit p 0xFF)) OR push_bit p b)) n \<longleftrightarrow> bit (if p' = p then b else byte_at p' x) n"
    proof (cases "n < 8")
      case True
      then show ?thesis
        using put [OF lt [OF p(2) True]] bytes_apart [OF p _ True] by (cases "p' = p") (simp_all add: bit_byte_at)
    next
      case False
      then show ?thesis using hi [of n] by (auto simp: bit_byte_at)
    qed
  qed
qed

subsection \<open>One entry\<close>

text \<open>Enough of the device to program the table: present, table registers that keep their value and do not read as a fault.\<close>

definition ivar_ready :: "env \<Rightarrow> ixgbe_hw \<Rightarrow> bool" where
  "ivar_ready E hw \<longleftrightarrow> hw_addr hw \<noteq> 0 \<and> (\<forall>r \<in> ivar_regs. register_backed E r \<and>
     mmio E (io hw) r \<noteq> IXGBE_FAILED_READ_REG \<and> mmio E (io hw) r \<noteq> IXGBE_DEAD_READ_REG)"

lemma byte_pattern:
  assumes "p \<in> bytes4" and "v < 8"
  shows "byte_at p IXGBE_FAILED_READ_REG \<noteq> 0x80 OR of_nat v" "byte_at p IXGBE_DEAD_READ_REG \<noteq> 0x80 OR of_nat v"
proof -
  have "v = 0 \<or> v = 1 \<or> v = 2 \<or> v = 3 \<or> v = 4 \<or> v = 5 \<or> v = 6 \<or> v = 7" using assms(2) by linarith
  with assms(1) show "byte_at p IXGBE_FAILED_READ_REG \<noteq> 0x80 OR of_nat v" "byte_at p IXGBE_DEAD_READ_REG \<noteq> 0x80 OR of_nat v"
    by (auto simp: bytes4_def byte_at_def)
qed

lemma set_ivar_values:
  assumes "q < 8" and "v < 8"
  shows "IXGBE_VTIVAR (ucast (drop_bit 1 (of_nat q :: u8))) = ivar_reg q"
    and "d < 2 \<Longrightarrow> nat (16 * uint ((of_nat q :: u8) AND 1) + 8 * int d) = ivar_pos q d"
    and "(ucast ((of_nat v :: u8) OR 0x80) :: u32) = 0x80 OR of_nat v"
    and "take_bit 8 (0x80 OR of_nat v :: u32) = 0x80 OR of_nat v"
proof -
  have q: "q = 0 \<or> q = 1 \<or> q = 2 \<or> q = 3 \<or> q = 4 \<or> q = 5 \<or> q = 6 \<or> q = 7" using assms(1) by linarith
  have v: "v = 0 \<or> v = 1 \<or> v = 2 \<or> v = 3 \<or> v = 4 \<or> v = 5 \<or> v = 6 \<or> v = 7" using assms(2) by linarith
  show "IXGBE_VTIVAR (ucast (drop_bit 1 (of_nat q :: u8))) = ivar_reg q" using q by (auto simp: ivar_reg_def)
  show "d < 2 \<Longrightarrow> nat (16 * uint ((of_nat q :: u8) AND 1) + 8 * int d) = ivar_pos q d" using q by (auto simp: ivar_pos_def)
  show "(ucast ((of_nat v :: u8) OR 0x80) :: u32) = 0x80 OR of_nat v" using v by auto
  show "take_bit 8 (0x80 OR of_nat v :: u32) = 0x80 OR of_nat v" using v by auto
qed

lemma set_ivar_entry:
  assumes r: "ivar_ready E (ad_hw a)" and q: "q < 8" and d: "d < 2" and v: "v < 8"
    and run: "run_state (ixgbevf_set_ivar E (int d) (of_nat q) (of_nat v)) a = (x, a')"
  shows "ivar_ready E (ad_hw a') \<and> beyond_hw a' = beyond_hw a \<and>
    ivar_entry E (io (ad_hw a')) = (ivar_entry E (io (ad_hw a)))((q, d) := 0x80 OR of_nat v)"
proof -
  let ?r = "ivar_reg q" and ?p = "ivar_pos q d" and ?hw = "ad_hw a"
  let ?old = "mmio E (io ?hw) ?r" and ?b = "0x80 OR of_nat v :: u32"
  let ?new = "(?old AND NOT (push_bit ?p 0xFF)) OR push_bit ?p ?b"
  have reg: "?r \<in> ivar_regs" by (rule ivar_reg_cases [OF q])
  have live: "hw_addr ?hw \<noteq> 0" "?old \<noteq> IXGBE_FAILED_READ_REG" "?old \<noteq> IXGBE_DEAD_READ_REG" and bk: "\<And>r. r \<in> ivar_regs \<Longrightarrow> register_backed E r"
    using r reg by (auto simp: ivar_ready_def)
  let ?hw' = "?hw\<lparr>io := MMIO_Write ?r ?new # MMIO_Read ?r ?old # io ?hw\<rparr>"
  have a': "a' = a\<lparr>ad_q := (ad_q a)\<lparr>qs_hw := ?hw'\<rparr>\<rparr>"
    using run set_ivar_values(1) [OF q v] set_ivar_values(2) [OF q v d] set_ivar_values(3) [OF q v]
    by (simp add: ixgbevf_set_ivar_def Let_def rd_def wr_def run_hw_op read_reg_live [OF live(1) refl live(2,3)] write_reg_live live(1))
  have val: "mmio E (io ?hw') r = (if r = ?r then ?new else mmio E (io ?hw) r)" if "r \<in> ivar_regs" for r
    using bk [OF that] by (simp add: register_backed_def)
  have pb: "?p \<in> bytes4" by (rule ivar_pos_bytes [OF d])
  have fit: "take_bit 8 ?b = ?b" by (rule set_ivar_values(4) [OF q v])
  have "byte_at ?p ?new = ?b" using byte_at_put [OF pb pb fit, of ?old] by simp
  then have ok: "?new \<noteq> IXGBE_FAILED_READ_REG" "?new \<noteq> IXGBE_DEAD_READ_REG" using byte_pattern [OF pb v] by metis+
  have ready: "ivar_ready E ?hw'" using r val ok by (auto simp: ivar_ready_def)
  have "ivar_entry E (io ?hw') (q', d') = ((ivar_entry E (io ?hw))((q, d) := ?b)) (q', d')" for q' d'
  proof (cases "q' < 8 \<and> d' < 2")
    case True
    then have b': "ivar_pos q' d' \<in> bytes4" and r': "ivar_reg q' \<in> ivar_regs" by (simp_all add: ivar_pos_bytes ivar_reg_cases)
    have same: "q' = q \<longleftrightarrow> q' div 2 = q div 2 \<and> q' mod 2 = q mod 2" by (metis div_mult_mod_eq)
    show ?thesis
      using True q d val [OF r'] byte_at_put [OF pb b' fit, of ?old] ivar_reg_inj [of q' q] ivar_pos_inj [of d' d q' q] same
      by (auto simp: ivar_entry_def)
  next
    case False
    then show ?thesis using q d by (auto simp: ivar_entry_def)
  qed
  then show ?thesis using ready by (auto simp: a' beyond_hw_def)
qed

subsection \<open>The whole table\<close>

lemma backed_frame: "register_backed E r \<Longrightarrow> list_all (writes_within R) evs \<Longrightarrow> r \<notin> R \<Longrightarrow> mmio E (evs @ h) r = mmio E h r"
  by (induction evs) (auto simp: register_backed_def writes_within_def split: io_event.splits)

lemma entries_frame:
  assumes "\<forall>r \<in> ivar_regs. register_backed E r" and "emits (writes_within (- ivar_regs)) m"
  shows "ivar_entry E (io (snd (run_state m hw))) = ivar_entry E (io hw)"
proof -
  obtain evs where evs: "io (snd (run_state m hw)) = evs @ io hw" "list_all (writes_within (- ivar_regs)) evs"
    using assms(2) by (auto elim: emitsE [of _ m hw])
  have "mmio E (evs @ io hw) r = mmio E (io hw) r" if "r \<in> ivar_regs" for r
    using backed_frame [OF _ evs(2)] assms(1) that by auto
  then show ?thesis using ivar_reg_cases by (auto simp: evs ivar_entry_def fun_eq_iff)
qed

definition routed :: "env \<Rightarrow> adapter \<Rightarrow> ((nat \<times> nat) \<times> nat) set \<Rightarrow> adapter \<Rightarrow> bool" where
  "routed E a0 S a \<longleftrightarrow> ivar_ready E (ad_hw a) \<and> (\<forall>h. (ad_q a)\<lparr>qs_hw := h\<rparr> = (ad_q a0)\<lparr>qs_hw := h\<rparr>) \<and>
     (\<forall>(k, w) \<in> S. ivar_entry E (io (ad_hw a)) k = 0x80 OR of_nat w)"

definition one_vector :: "((nat \<times> nat) \<times> nat) set \<Rightarrow> bool" where
  "one_vector G \<longleftrightarrow> (\<forall>k w w'. (k, w) \<in> G \<longrightarrow> (k, w') \<in> G \<longrightarrow> w = w') \<and> (\<forall>((q, d), w) \<in> G. q < 8 \<and> d < 2 \<and> w < 8)"

lemma set_ivar_routes:
  assumes G: "one_vector G" "S \<subseteq> G" "((q, d), w) \<in> G" and a: "routed E a0 S a"
  shows "routed E a0 (insert ((q, d), w) S) (snd (run_state (ixgbevf_set_ivar E (int d) (of_nat q) (of_nat w)) a))"
proof -
  obtain x a' where run: "run_state (ixgbevf_set_ivar E (int d) (of_nat q) (of_nat w)) a = (x, a')" by (metis surj_pair)
  have lt: "q < 8" "d < 2" "w < 8" using G by (auto simp: one_vector_def)
  have r: "ivar_ready E (ad_hw a)" using a by (simp add: routed_def)
  note s = set_ivar_entry [OF r lt run]
  have q: "(ad_q a')\<lparr>qs_hw := h\<rparr> = (ad_q a)\<lparr>qs_hw := h\<rparr>" for h
  proof -
    have "ad_q (beyond_hw a' h) = ad_q (beyond_hw a h)" using s by simp
    then show ?thesis by (simp add: beyond_hw_def)
  qed
  have "ivar_entry E (io (ad_hw a')) k = 0x80 OR of_nat u" if "(k, u) \<in> insert ((q, d), w) S" for k u
  proof (cases "k = (q, d)")
    case True
    then have "((q, d), u) \<in> G" using that G(2,3) by auto
    then have "u = w" using G(1,3) unfolding one_vector_def by blast
    then show ?thesis using True s by simp
  next
    case False
    then have "(k, u) \<in> S" using that by auto
    then show ?thesis using a False s by (auto simp: routed_def)
  qed
  then show ?thesis using s a q run unfolding routed_def by auto
qed

lemma set_ivars_route:
  assumes G: "one_vector G"
  shows "\<forall>c \<in> set cs. ((qr_reg_idx c, d), w) \<in> G \<Longrightarrow> S \<subseteq> G \<Longrightarrow> routed E a0 S a \<Longrightarrow>
    routed E a0 (S \<union> (\<lambda>c. ((qr_reg_idx c, d), w)) ` set cs)
      (snd (run_state (for_each cs (\<lambda>c. ixgbevf_set_ivar E (int d) (of_nat (qr_reg_idx c)) (of_nat w))) a))"
proof (induction cs arbitrary: S a)
  case (Cons c cs)
  have "routed E a0 (insert ((qr_reg_idx c, d), w) S) (snd (run_state (ixgbevf_set_ivar E (int d) (of_nat (qr_reg_idx c)) (of_nat w)) a))"
    using Cons.prems by (intro set_ivar_routes [OF G]) auto
  from Cons.IH [OF _ _ this] Cons.prems show ?case by (simp add: case_prod_beta)
qed simp

lemma eitr_outside: "IXGBE_VTEITR (ucast (x :: u16)) \<notin> ivar_regs"
proof -
  have "unat x < 2 ^ LENGTH(16)" by (rule unsigned_less)
  then have "unat (IXGBE_VTEITR (ucast x)) = 0x820 + 4 * unat x"
    by (simp add: IXGBE_VTEITR_def unat_word_ariths)
  moreover have "r \<in> ivar_regs \<Longrightarrow> unat r \<le> 0x12C" for r by (auto simp: ivar_regs_def)
  ultimately show ?thesis by fastforce
qed

lemma write_eitr_outside: "emits (writes_within (- ivar_regs)) (ixgbevf_write_eitr q)"
  unfolding ixgbevf_write_eitr_def Let_def by (intro emits_rules) (use eitr_outside in auto)

lemma set_ivar_beyond [keeps_rules]: "keeps beyond_hw (ixgbevf_set_ivar E d q v)"
  unfolding ixgbevf_set_ivar_def Let_def by (intro keeps_rules)

lemma beyond_eims: "keeps beyond_hw m \<Longrightarrow> keeps eims_enable_mask m"
proof -
  assume k: "keeps beyond_hw m"
  have "eims_enable_mask (beyond_hw a h) = eims_enable_mask a" for a h by (simp add: beyond_hw_def)
  then show ?thesis using k unfolding keeps_def by metis
qed

lemma routed_tables: "routed E a0 S a \<Longrightarrow> q_vector_tab (ad_q a) = q_vector_tab (ad_q a0) \<and> num_q_vectors (ad_q a) = num_q_vectors (ad_q a0)"
proof -
  assume "routed E a0 S a"
  then have "(ad_q a)\<lparr>qs_hw := h\<rparr> = (ad_q a0)\<lparr>qs_hw := h\<rparr>" for h by (simp add: routed_def)
  then have "q_vector_tab ((ad_q a)\<lparr>qs_hw := h\<rparr>) = q_vector_tab ((ad_q a0)\<lparr>qs_hw := h\<rparr>)"
    "num_q_vectors ((ad_q a)\<lparr>qs_hw := h\<rparr>) = num_q_vectors ((ad_q a0)\<lparr>qs_hw := h\<rparr>)" for h by simp_all
  then show ?thesis by simp
qed

lemma routed_write:
  assumes a: "routed E a0 S a" and m: "emits (writes_within (- ivar_regs)) m" "keeps hw_addr m"
  shows "routed E a0 S (snd (run_state (hw_op m) a))"
proof -
  let ?h = "snd (run_state m (ad_hw a))"
  have bk: "\<forall>r \<in> ivar_regs. register_backed E r" using a by (simp add: routed_def ivar_ready_def)
  obtain evs where evs: "io ?h = evs @ io (ad_hw a)" "list_all (writes_within (- ivar_regs)) evs"
    using m(1) by (auto elim: emitsE [of _ m "ad_hw a"])
  have "mmio E (io ?h) r = mmio E (io (ad_hw a)) r" if "r \<in> ivar_regs" for r
    using backed_frame [OF _ evs(2)] bk that by (auto simp: evs(1))
  moreover have "hw_addr ?h = hw_addr (ad_hw a)" using m(2) by (simp add: keeps_def)
  moreover have "ivar_entry E (io ?h) = ivar_entry E (io (ad_hw a))" by (rule entries_frame [OF bk m(1)])
  ultimately show ?thesis using a by (auto simp: routed_def ivar_ready_def run_hw_op)
qed

lemma write_eitr_addr: "keeps hw_addr (ixgbevf_write_eitr q)"
  unfolding ixgbevf_write_eitr_def Let_def IXGBE_WRITE_REG_def writel_def log_io_def by (intro keeps_rules) simp_all

text \<open>The causes of a vector and their routes.\<close>

definition vector_routes :: "nat \<Rightarrow> qvec \<Rightarrow> ((nat \<times> nat) \<times> nat) set" where
  "vector_routes w q = (\<lambda>c. ((qr_reg_idx c, 0), w)) ` set (qvec_rx q) \<union> (\<lambda>c. ((qr_reg_idx c, 1), w)) ` set (qvec_tx q)"

lemma configure_vector_routes:
  assumes G: "one_vector G" "S \<subseteq> G" and q: "q_vector_tab (ad_q a0) w = Some q" "vector_routes w q \<subseteq> G" and a: "routed E a0 S a"
  shows "routed E a0 (S \<union> vector_routes w q) (snd (run_state (configure_vector E w) a)) \<and>
    eims_enable_mask (snd (run_state (configure_vector E w) a)) = eims_enable_mask a OR push_bit w 1"
proof -
  define m1 where "m1 = for_each (qvec_rx q) (\<lambda>c. ixgbevf_set_ivar E 0 (of_nat (qr_reg_idx c)) (of_nat w))"
  define m2 where "m2 = for_each (qvec_tx q) (\<lambda>c. ixgbevf_set_ivar E 1 (of_nat (qr_reg_idx c)) (of_nat w))"
  define a1 where "a1 = snd (run_state m1 a)"
  define a2 where "a2 = snd (run_state m2 a1)"
  let ?S1 = "S \<union> (\<lambda>c. ((qr_reg_idx c, 0), w)) ` set (qvec_rx q)"
  have r1: "routed E a0 ?S1 a1"
    using set_ivars_route [OF G(1), of "qvec_rx q" 0 w S E a0 a] G(2) q(2) a by (auto simp: a1_def m1_def vector_routes_def)
  have "\<forall>c \<in> set (qvec_tx q). ((qr_reg_idx c, 1), w) \<in> G" "?S1 \<subseteq> G" using q(2) G(2) by (auto simp: vector_routes_def)
  then have r2: "routed E a0 (S \<union> vector_routes w q) a2"
    using set_ivars_route [OF G(1) _ _ r1, of "qvec_tx q" 1 w] by (simp add: a2_def m2_def vector_routes_def Un_assoc)
  have e2: "eims_enable_mask a2 = eims_enable_mask a"
    unfolding a2_def a1_def m1_def m2_def by (simp add: keeps_snd [OF beyond_eims] keeps_for_each set_ivar_beyond)
  have tab: "q_vector_tab (ad_q a) w = Some q" using routed_tables [OF a] q(1) by simp
  obtain a3 where a3: "ad_q a3 = ad_q a2" "eims_enable_mask a3 = eims_enable_mask a OR push_bit w 1"
      "snd (run_state (configure_vector E w) a) = snd (run_state (hw_op (ixgbevf_write_eitr (vecs a3 w))) a3)"
  proof
    let ?i = "if qvec_tx q \<noteq> [] \<and> qvec_rx q = [] then (if tx_itr_setting a2 = 1 then ucast IXGBE_12K_ITR else tx_itr_setting a2)
      else (if ad_rx_itr_setting a2 = 1 then ucast IXGBE_20K_ITR else ad_rx_itr_setting a2)"
    let ?a3 = "a2\<lparr>vecs := (vecs a2)(w := (vecs a2 w)\<lparr>qv_itr := ?i\<rparr>), eims_enable_mask := eims_enable_mask a2 OR push_bit w 1\<rparr>"
    show "ad_q ?a3 = ad_q a2" "eims_enable_mask ?a3 = eims_enable_mask a OR push_bit w 1" by (simp_all add: e2)
    show "snd (run_state (configure_vector E w) a) = snd (run_state (hw_op (ixgbevf_write_eitr (vecs ?a3 w))) ?a3)"
    proof -
      have "run_state m1 a = ((), a1)" "run_state m2 a1 = ((), a2)" by (simp_all add: a1_def a2_def prod_eq_iff)
      then show ?thesis
        unfolding configure_vector_def run_bind run_gets prod.case tab option.sel m1_def [symmetric] m2_def [symmetric] id_apply
        by (simp add: set_itr_of_def if_distrib cong: if_cong)
    qed
  qed
  have "routed E a0 (S \<union> vector_routes w q) a3" using r2 a3(1) by (simp add: routed_def)
  from routed_write [OF this write_eitr_outside write_eitr_addr] show ?thesis
    by (simp add: a3 keeps_snd [OF beyond_eims [OF keeps_hw_op(1)]])
qed

lemma configure_vectors_route:
  assumes G: "one_vector G" and tab: "\<And>w. w < n \<Longrightarrow> \<exists>q. q_vector_tab (ad_q a0) w = Some q \<and> vector_routes w q \<subseteq> G"
    and a: "routed E a0 {} a" "eims_enable_mask a = 0"
  shows "m \<le> n \<Longrightarrow> routed E a0 (\<Union>w \<in> {..<m}. vector_routes w (the (q_vector_tab (ad_q a0) w))) (snd (run_state (for_each [0..<m] (configure_vector E)) a)) \<and>
    eims_enable_mask (snd (run_state (for_each [0..<m] (configure_vector E)) a)) = mask m"
proof (induction m)
  case 0
  then show ?case using a by simp
next
  case (Suc m)
  let ?a = "snd (run_state (for_each [0..<m] (configure_vector E)) a)"
  let ?S = "\<Union>w \<in> {..<m}. vector_routes w (the (q_vector_tab (ad_q a0) w))"
  from tab [of m] Suc.prems obtain q where q: "q_vector_tab (ad_q a0) m = Some q" "vector_routes m q \<subseteq> G" by auto
  have "?S \<subseteq> G"
  proof
    fix x assume "x \<in> ?S"
    then obtain w where "w < m" "x \<in> vector_routes w (the (q_vector_tab (ad_q a0) w))" by auto
    with tab [of w] Suc.prems show "x \<in> G" by auto
  qed
  with configure_vector_routes [OF G _ q, of ?S E ?a] Suc
  have "routed E a0 (?S \<union> vector_routes m q) (snd (run_state (configure_vector E m) ?a))"
    "eims_enable_mask (snd (run_state (configure_vector E m) ?a)) = mask m OR push_bit m 1" by simp_all
  moreover have "mask m OR push_bit m 1 = (mask (Suc m) :: u32)"
    by (rule bit_eqI) (auto simp: bit_or_iff bit_exp_iff bit_mask_iff less_Suc_eq)
  moreover have "(\<Union>w \<in> {..<Suc m}. vector_routes w (the (q_vector_tab (ad_q a0) w))) = ?S \<union> vector_routes m q"
    using q by (auto simp: lessThan_Suc)
  ultimately show ?case by (simp add: run_for_each_append case_prod_beta)
qed

text \<open>All routes of a distribution of rings.\<close>

definition ring_routes :: "queues \<Rightarrow> ((nat \<times> nat) \<times> nat) set" where
  "ring_routes s = {((qr_reg_idx c, if k = Rx_ring then 0 else 1), qr_vector c) | k i c. table k s i = Some c}"

lemma linked_vector: "linked s \<Longrightarrow> table k s i = Some c \<Longrightarrow> \<exists>q. q_vector_tab s (qr_vector c) = Some q \<and> c \<in> owned k q"
  unfolding linked_def by metis

lemma spread_one_vector:
  assumes s: "spread n t x r s" and lt: "t + x \<le> 8" "r \<le> 8" "n \<le> 8"
  shows "one_vector (ring_routes s)"
proof -
  have l: "linked s" and g: "regs_ok (t + x) s" using s by (simp_all add: spread_def)
  have rx: "qr_reg_idx c = i \<and> i < r" if "table Rx_ring s i = Some c" for i c
  proof -
    have e: "rx_ring_tab s i = Some c" using that by (simp add: table_simps)
    then have "i \<in> dom (rx_ring_tab s)" by blast
    then have "i < r" using s by (simp add: spread_def)
    moreover have "qr_reg_idx c = i" using g e unfolding regs_ok_def by blast
    ultimately show ?thesis by simp
  qed
  have tx: "qr_reg_idx c < t + x" if "k \<noteq> Rx_ring" "table k s i = Some c" for k i c
    using that g unfolding regs_ok_def by blast
  have vec: "qr_vector c < n" if c: "table k s i = Some c" for k i c
  proof -
    obtain q where "q_vector_tab s (qr_vector c) = Some q" using linked_vector [OF l c] by blast
    then have "qr_vector c \<in> dom (q_vector_tab s)" by blast
    then show ?thesis using s by (simp add: spread_def)
  qed
  have "c = d" if c: "table k s i = Some c" and d: "table m s j = Some d" and e: "qr_reg_idx c = qr_reg_idx d" "(k = Rx_ring) = (m = Rx_ring)" for k i c m j d
  proof (cases "k = Rx_ring")
    case True
    then show ?thesis using rx [of i c] rx [of j d] c d e by auto
  next
    case False
    then have "k = m \<and> i = j" using g c d e unfolding regs_ok_def by blast
    then show ?thesis using c d by simp
  qed
  then have "\<forall>k w w'. (k, w) \<in> ring_routes s \<longrightarrow> (k, w') \<in> ring_routes s \<longrightarrow> w = w'"
    by (fastforce simp: ring_routes_def split: if_splits)
  moreover have "q < 8 \<and> d < 2 \<and> w < 8" if "((q, d), w) \<in> ring_routes s" for q d w
  proof -
    from that obtain k i c where "q = qr_reg_idx c" "d = (if k = Rx_ring then 0 else 1)" "w = qr_vector c" "table k s i = Some c"
      by (auto simp: ring_routes_def)
    then show ?thesis using rx [of i c] tx [of k i c] vec [of k i c] lt by (cases "k = Rx_ring") auto
  qed
  ultimately show ?thesis unfolding one_vector_def by blast
qed

lemma vector_routes_within:
  assumes l: "linked s" and q: "q_vector_tab s w = Some q"
  shows "vector_routes w q \<subseteq> ring_routes s"
proof
  fix y assume "y \<in> vector_routes w q"
  then obtain c where c: "y = ((qr_reg_idx c, 0), w) \<and> c \<in> set (qvec_rx q) \<or> y = ((qr_reg_idx c, 1), w) \<and> c \<in> set (qvec_tx q)"
    by (auto simp: vector_routes_def)
  have k: "kinds_ok q" using l q unfolding linked_def by blast
  have "c \<in> owned (qr_kind c) q" using c k by (auto simp: owned_def kinds_ok_def)
  then have "qr_vector c = w" "table (qr_kind c) s (queue_index c) = Some c" using l q unfolding linked_def by blast+
  moreover have "(qr_kind c = Rx_ring) = (c \<in> set (qvec_rx q) \<and> y = ((qr_reg_idx c, 0), w))" using c k by (auto simp: kinds_ok_def)
  ultimately show "y \<in> ring_routes s" using c unfolding ring_routes_def by force
qed

text \<open>C12: The vector table routes every ring. On an adapter whose rings are spread over its vectors, with at most eight
  queues of a kind and a device whose table registers keep what is written, \<open>ixgbevf_configure_msix\<close> leaves in
  the table, for every receive ring and every transmit or XDP ring, a valid entry naming the vector that owns the ring,
  later entries never disturbing earlier ones; all vectors and the vector of the other causes are in the enable mask.\<close>

theorem configure_msix_routes_every_ring:
  assumes "spread n t x r (ad_q a)" and "n = num_q_vectors (ad_q a)" and "t + x \<le> 8" "r \<le> 8" "n \<le> 8"
    and "ivar_ready E (ad_hw a)" and "run_state (ixgbevf_configure_msix E) a = ((), a')"
  shows "(\<forall>k i c. table k (ad_q a) i = Some c \<longrightarrow>
      ivar_entry E (io (ad_hw a')) (qr_reg_idx c, if k = Rx_ring then 0 else 1) = 0x80 OR of_nat (qr_vector c)) \<and>
    eims_enable_mask a' = mask (Suc n) \<and> eims_other a' = push_bit n 1"
proof -
  let ?s = "ad_q a" and ?a0 = "a\<lparr>eims_enable_mask := 0\<rparr>"
  have l: "linked ?s" and d: "dom (q_vector_tab ?s) = {..<n}" using assms(1) by (simp_all add: spread_def)
  have G: "one_vector (ring_routes ?s)" using assms(1,3-5) by (rule spread_one_vector)
  have tab: "\<exists>q. q_vector_tab (ad_q ?a0) w = Some q \<and> vector_routes w q \<subseteq> ring_routes ?s" if "w < n" for w
  proof -
    from that d have "w \<in> dom (q_vector_tab ?s)" by simp
    then obtain q where "q_vector_tab ?s w = Some q" by blast
    then show ?thesis using vector_routes_within [OF l] by simp
  qed
  have start: "routed E ?a0 {} ?a0" using assms(6) by (simp add: routed_def)
  define a1 where "a1 = snd (run_state (for_each [0..<n] (configure_vector E)) ?a0)"
  have r1: "routed E ?a0 (\<Union>w \<in> {..<n}. vector_routes w (the (q_vector_tab ?s w))) a1" and e1: "eims_enable_mask a1 = mask n"
    using configure_vectors_route [OF G tab start, of n] by (simp_all add: a1_def)
  define a2 where "a2 = snd (run_state (ixgbevf_set_ivar E (- 1) 1 (of_nat n)) a1)"
  have "eims_enable_mask a2 = mask n" using keeps_snd [OF beyond_eims [OF set_ivar_beyond], of E "- 1" 1 "of_nat n" a1] e1 by (simp add: a2_def)
  moreover have run: "a' = a2\<lparr>eims_other := push_bit n 1, eims_enable_mask := eims_enable_mask a2 OR push_bit n 1\<rparr>"
    using assms(7) by (simp add: ixgbevf_configure_msix_def case_prod_beta a1_def a2_def assms(2) [symmetric])
  moreover have "mask n OR push_bit n 1 = (mask (Suc n) :: u32)"
    by (rule bit_eqI) (auto simp: bit_or_iff bit_exp_iff bit_mask_iff less_Suc_eq)
  ultimately have eims: "eims_enable_mask a' = mask (Suc n)" "eims_other a' = push_bit n 1" by simp_all
  have bk: "\<forall>r \<in> ivar_regs. register_backed E r" using assms(6) by (simp add: ivar_ready_def)
  have misc: "emits (writes_within (- ivar_regs)) (ixgbe_read_reg E IXGBE_VTIVAR_MISC)"
    using read_reg_reads(1) no_write_within by (rule emits_mono)
  have "ivar_entry E (io (ad_hw a2)) = ivar_entry E (io (ad_hw a1))"
  proof -
    define h where "h = snd (run_state (ixgbe_read_reg E IXGBE_VTIVAR_MISC) (ad_hw a1))"
    define y where "y = (fst (run_state (ixgbe_read_reg E IXGBE_VTIVAR_MISC) (ad_hw a1)) AND NOT 0xFF) OR ucast ((of_nat n :: u8) OR IXGBE_IVAR_ALLOC_VAL)"
    have "ad_hw a2 = snd (run_state (IXGBE_WRITE_REG IXGBE_VTIVAR_MISC y) h)"
      by (simp add: a2_def ixgbevf_set_ivar_def Let_def rd_def wr_def run_hw_op h_def y_def)
    moreover have "emits (writes_within (- ivar_regs)) (IXGBE_WRITE_REG IXGBE_VTIVAR_MISC y)"
      by (rule write_reg_emits) (simp add: ivar_regs_def IXGBE_VTIVAR_MISC_def)
    ultimately show ?thesis using entries_frame [OF bk, of "IXGBE_WRITE_REG IXGBE_VTIVAR_MISC y" h] entries_frame [OF bk misc, of "ad_hw a1"]
      by (simp add: h_def)
  qed
  then have entries: "ivar_entry E (io (ad_hw a')) = ivar_entry E (io (ad_hw a1))" by (simp add: run)
  have "ivar_entry E (io (ad_hw a')) (qr_reg_idx c, if k = Rx_ring then 0 else 1) = 0x80 OR of_nat (qr_vector c)"
    if c: "table k ?s i = Some c" for k i c
  proof -
    obtain q where q: "q_vector_tab ?s (qr_vector c) = Some q" "c \<in> owned k q" using linked_vector [OF l c] by blast
    have "qr_vector c \<in> dom (q_vector_tab ?s)" using q(1) by blast
    then have "qr_vector c < n" using d by simp
    moreover have "((qr_reg_idx c, if k = Rx_ring then 0 else 1), qr_vector c) \<in> vector_routes (qr_vector c) q"
      using q(2) by (cases k) (auto simp: owned_def vector_routes_def)
    ultimately show ?thesis using r1 q(1) unfolding routed_def entries by fastforce
  qed
  then show ?thesis using eims by blast
qed

subsection \<open>Interrupt lines\<close>

lemma request_queue_lines_outcome:
  "run_state (request_queue_lines E n v) a = ((e, w), a') \<Longrightarrow> irq_lines a \<subseteq> {..<v} \<Longrightarrow>
     v \<le> w \<and> (e = 0 \<longrightarrow> w = v + n) \<and> irq_lines a' = irq_lines a \<union> {u \<in> {v..<w}. vector_used (ad_q a) u} \<and>
     (\<exists>h. a' = a\<lparr>ad_q := (ad_q a)\<lparr>qs_hw := h\<rparr>, irq_lines := irq_lines a'\<rparr>)"
proof (induction n arbitrary: v a)
  case 0
  then show ?case by (auto intro!: exI [of _ "ad_hw a"])
next
  case (Suc n)
  show ?case
  proof (cases "vector_used (ad_q a) v")
    case False
    with Suc.prems have run: "run_state (request_queue_lines E n (Suc v)) a = ((e, w), a')" by simp
    have "irq_lines a \<subseteq> {..<Suc v}" using Suc.prems(2) by auto
    note ih = Suc.IH [OF run this]
    moreover have "{u \<in> {v..<w}. vector_used (ad_q a) u} = {u \<in> {Suc v..<w}. vector_used (ad_q a) u}"
    proof -
      have "vector_used (ad_q a) u \<Longrightarrow> v \<le> u \<Longrightarrow> Suc v \<le> u" for u using False by (cases "u = v") auto
      then show ?thesis by auto
    qed
    ultimately show ?thesis by auto
  next
    case used: True
    define h where "h = snd (run_state (kcall E ''request_irq'' [int v]) (ad_hw a))"
    define err where "err = fst (run_state (kcall E ''request_irq'' [int v]) (ad_hw a))"
    let ?a1 = "a\<lparr>ad_q := (ad_q a)\<lparr>qs_hw := h\<rparr>\<rparr>"
    have used': "vector_used ((ad_q a)\<lparr>qs_hw := h\<rparr>) u = vector_used (ad_q a) u" for u by (simp add: vector_used_def)
    show ?thesis
    proof (cases "err = 0")
      case True
      let ?a2 = "?a1\<lparr>irq_lines := insert v (irq_lines a)\<rparr>"
      have run: "run_state (request_queue_lines E n (Suc v)) ?a2 = ((e, w), a')"
        using Suc.prems(1) used True by (simp add: request_line_def run_hw_op h_def [symmetric] err_def [symmetric])
      have "irq_lines ?a2 \<subseteq> {..<Suc v}" using Suc.prems(2) by auto
      from Suc.IH [OF run this] obtain h' where ih: "Suc v \<le> w" "e = 0 \<longrightarrow> w = Suc v + n"
        "irq_lines a' = insert v (irq_lines a) \<union> {u \<in> {Suc v..<w}. vector_used (ad_q a) u}"
        "a' = ?a2\<lparr>ad_q := (ad_q ?a2)\<lparr>qs_hw := h'\<rparr>, irq_lines := irq_lines a'\<rparr>" by (auto simp: used')
      have "{u \<in> {v..<w}. vector_used (ad_q a) u} = insert v {u \<in> {Suc v..<w}. vector_used (ad_q a) u}" using used ih(1) by auto
      moreover have "a' = a\<lparr>ad_q := (ad_q a)\<lparr>qs_hw := h'\<rparr>, irq_lines := irq_lines a'\<rparr>" using ih(4) by simp
      ultimately show ?thesis using ih(1-3) by auto
    next
      case False
      then have "e = err" "w = v" "a' = ?a1"
        using Suc.prems(1) used by (simp_all add: request_line_def run_hw_op h_def [symmetric] err_def [symmetric])
      then show ?thesis using False by (auto intro!: exI [of _ h])
    qed
  qed
qed

lemma free_lines_below_lines:
  "irq_lines (snd (run_state (free_lines_below w) a)) = irq_lines a - {..<w} \<and>
     (\<exists>h. snd (run_state (free_lines_below w) a) = a\<lparr>ad_q := (ad_q a)\<lparr>qs_hw := h\<rparr>, irq_lines := irq_lines a - {..<w}\<rparr>)"
proof (induction w arbitrary: a)
  case 0
  then show ?case by (auto intro!: exI [of _ "ad_hw a"])
next
  case (Suc w)
  define h where "h = snd (run_state (log_io (Kernel_call ''free_irq'' [int w])) (ad_hw a))"
  let ?a = "a\<lparr>ad_q := (ad_q a)\<lparr>qs_hw := h\<rparr>, irq_lines := irq_lines a - {w}\<rparr>"
  have "snd (run_state (free_lines_below (Suc w)) a) = snd (run_state (free_lines_below w) ?a)"
    by (simp add: free_line_def kernel_call_def run_hw_op h_def)
  moreover have "irq_lines a - {w} - {..<w} = irq_lines a - {..<Suc w}" by (auto simp: less_Suc_eq)
  ultimately show ?case using Suc.IH [of ?a] by auto
qed

lemma free_used_lines:
  "\<forall>v. vector_used (ad_q a) v = vector_used q v \<Longrightarrow>
    irq_lines (snd (run_state (for_each vs (\<lambda>v. whenM (vector_used q v) (free_line v))) a)) = irq_lines a - {v \<in> set vs. vector_used q v} \<and>
    (\<exists>h. snd (run_state (for_each vs (\<lambda>v. whenM (vector_used q v) (free_line v))) a) =
      a\<lparr>ad_q := (ad_q a)\<lparr>qs_hw := h\<rparr>, irq_lines := irq_lines a - {v \<in> set vs. vector_used q v}\<rparr>)"
proof (induction vs arbitrary: a)
  case Nil
  then show ?case by (auto intro!: exI [of _ "ad_hw a"])
next
  case (Cons v vs)
  show ?case
  proof (cases "vector_used q v")
    case True
    define h where "h = snd (run_state (log_io (Kernel_call ''free_irq'' [int v])) (ad_hw a))"
    let ?a = "a\<lparr>ad_q := (ad_q a)\<lparr>qs_hw := h\<rparr>, irq_lines := irq_lines a - {v}\<rparr>"
    have "snd (run_state (for_each (v # vs) (\<lambda>v. whenM (vector_used q v) (free_line v))) a) =
        snd (run_state (for_each vs (\<lambda>v. whenM (vector_used q v) (free_line v))) ?a)"
      using True by (simp add: free_line_def kernel_call_def run_hw_op h_def case_prod_beta)
    moreover have "\<forall>u. vector_used (ad_q ?a) u = vector_used q u" using Cons.prems by (simp add: vector_used_def)
    moreover have "irq_lines a - {v} - {u \<in> set vs. vector_used q u} = irq_lines a - {u \<in> set (v # vs). vector_used q u}"
      using True by auto
    ultimately show ?thesis using Cons.IH [of ?a] by auto
  next
    case False
    have "{u \<in> set (v # vs). vector_used q u} = {u \<in> set vs. vector_used q u}" using False by auto
    then show ?thesis using False Cons.IH [OF Cons.prems] by (simp add: case_prod_beta)
  qed
qed

text \<open>Freeing gives back what requesting took.\<close>

lemma free_irq_releases:
  assumes "irqs_ready a" and "msix_entries (ad_q a) \<noteq> None"
    and "irq_lines a = insert (num_q_vectors (ad_q a)) {v. v < num_q_vectors (ad_q a) \<and> vector_used (ad_q a) v}"
  shows "irq_lines (snd (run_state ixgbevf_free_irq a)) = {} \<and> \<not> irqs_ready (snd (run_state ixgbevf_free_irq a))"
proof -
  define q where "q = ad_q a"
  let ?n = "num_q_vectors q"
  let ?b = "a\<lparr>irqs_ready := False\<rparr>"
  let ?m = "for_each [0..<?n] (\<lambda>v. whenM (vector_used q v) (free_line v))"
  have "snd (run_state ixgbevf_free_irq a) = snd (run_state (free_line ?n) (snd (run_state ?m ?b)))"
    using assms(1,2) by (auto simp: ixgbevf_free_irq_def case_prod_beta q_def Let_def)
  moreover have m: "irq_lines (snd (run_state ?m ?b)) = irq_lines ?b - {v \<in> set [0..<?n]. vector_used q v} \<and>
    (\<exists>h. snd (run_state ?m ?b) = ?b\<lparr>ad_q := (ad_q ?b)\<lparr>qs_hw := h\<rparr>, irq_lines := irq_lines ?b - {v \<in> set [0..<?n]. vector_used q v}\<rparr>)"
    by (rule free_used_lines) (simp add: q_def)
  moreover have "irq_lines ?b - {v \<in> set [0..<?n]. vector_used q v} = {?n}" using assms(3) by (auto simp: q_def)
  moreover have "irqs_ready (snd (run_state ?m ?b)) = False" using m by auto
  ultimately show ?thesis by (simp add: free_line_def kernel_call_def run_hw_op)
qed

lemma request_irq_outcome:
  assumes "irq_lines a = {}" and "msix_entries (ad_q a) \<noteq> None" and "run_state (ixgbevf_request_irq E) a = (e, a')"
  shows "if e = 0 then irq_lines a' = insert (num_q_vectors (ad_q a)) {v. v < num_q_vectors (ad_q a) \<and> vector_used (ad_q a) v} \<and>
      irqs_ready a' \<and> irq_lines (snd (run_state ixgbevf_free_irq a')) = {} \<and> \<not> irqs_ready (snd (run_state ixgbevf_free_irq a'))
    else irq_lines a' = {} \<and> num_q_vectors (ad_q a') = 0 \<and> irqs_ready a' = irqs_ready a"
proof -
  let ?n = "num_q_vectors (ad_q a)"
  obtain e1 w a1 where r1: "run_state (request_queue_lines E ?n 0) a = ((e1, w), a1)" by (metis surj_pair)
  from request_queue_lines_outcome [OF r1] assms(1) obtain h where o1: "e1 = 0 \<Longrightarrow> w = ?n"
    "irq_lines a1 = {u. u < w \<and> vector_used (ad_q a) u}" "a1 = a\<lparr>ad_q := (ad_q a)\<lparr>qs_hw := h\<rparr>, irq_lines := irq_lines a1\<rparr>" by auto
  have fail: "irq_lines (snd (run_state (free_queue_irqs x w) b)) = irq_lines b - {..<w} \<and> num_q_vectors (ad_q (snd (run_state (free_queue_irqs x w) b))) = 0 \<and>
      irqs_ready (snd (run_state (free_queue_irqs x w) b)) = irqs_ready b \<and> fst (run_state (free_queue_irqs x w) b) = x" for x b
    using free_lines_below_lines [of w b] by (auto simp: free_queue_irqs_def case_prod_beta)
  have below: "irq_lines a1 - {..<w} = {}" using o1(2) by auto
  have ready1: "irqs_ready a1 = irqs_ready a" "ad_q a1 = (ad_q a)\<lparr>qs_hw := h\<rparr>" using arg_cong [OF o1(3), of irqs_ready] arg_cong [OF o1(3), of ad_q] by simp_all
  show ?thesis
  proof (cases "e1 = 0")
    case False
    then have "(e, a') = run_state (free_queue_irqs e1 w) a1"
      using assms(3) r1 by (simp add: ixgbevf_request_irq_def ixgbevf_request_msix_irqs_def)
    then show ?thesis using fail [of e1 a1] below False ready1 by (metis fst_conv snd_conv)
  next
    case True
    define h2 where "h2 = snd (run_state (kcall E ''request_irq'' [int w]) (ad_hw a1))"
    define err where "err = fst (run_state (kcall E ''request_irq'' [int w]) (ad_hw a1))"
    let ?a2 = "a1\<lparr>ad_q := (ad_q a1)\<lparr>qs_hw := h2\<rparr>\<rparr>"
    show ?thesis
    proof (cases "err = 0")
      case False
      then have "(e, a') = run_state (free_queue_irqs err w) ?a2"
        using assms(3) r1 True
        by (simp add: ixgbevf_request_irq_def ixgbevf_request_msix_irqs_def request_line_def run_hw_op h2_def [symmetric] err_def [symmetric])
      then show ?thesis using fail [of err ?a2] below False ready1 by (simp add: prod_eq_iff)
    next
      case ok: True
      let ?L = "{v. v < ?n \<and> vector_used (ad_q a) v}"
      have a': "e = 0" "a' = ?a2\<lparr>irq_lines := insert w (irq_lines a1), irqs_ready := True\<rparr>"
        using assms(3) r1 True ok
        by (simp_all add: ixgbevf_request_irq_def ixgbevf_request_msix_irqs_def request_line_def run_hw_op h2_def [symmetric] err_def [symmetric])
      have w: "w = ?n" using o1(1) True by simp
      have lines: "irq_lines a' = insert ?n ?L" using a' o1(2) w by simp
      have q': "ad_q a' = (ad_q a)\<lparr>qs_hw := h2\<rparr>" using a' ready1 by simp
      have "vector_used (ad_q a') v = vector_used (ad_q a) v" for v by (simp add: q' vector_used_def)
      then have "irq_lines a' = insert (num_q_vectors (ad_q a')) {v. v < num_q_vectors (ad_q a') \<and> vector_used (ad_q a') v}"
        using lines q' by simp
      moreover have "irqs_ready a'" by (simp add: a'(2))
      moreover have "msix_entries (ad_q a') \<noteq> None" using assms(2) by (simp add: q')
      ultimately have "irq_lines (snd (run_state ixgbevf_free_irq a')) = {} \<and> \<not> irqs_ready (snd (run_state ixgbevf_free_irq a'))"
        by (intro free_irq_releases)
      then show ?thesis using a'(1) lines \<open>irqs_ready a'\<close> by simp
    qed
  qed
qed


subsection \<open>Samples\<close>

definition zero_stats :: ixgbevf_hw_stats where
  "zero_stats = \<lparr>base_vfgprc = 0, base_vfgptc = 0, base_vfgorc = 0, base_vfgotc = 0, base_vfmprc = 0,
     last_vfgprc = 0, last_vfgptc = 0, last_vfgorc = 0, last_vfgotc = 0, last_vfmprc = 0,
     vfgprc = 0, vfgptc = 0, vfgorc = 0, vfgotc = 0, vfmprc = 0,
     saved_reset_vfgprc = 0, saved_reset_vfgptc = 0, saved_reset_vfgorc = 0, saved_reset_vfgotc = 0, saved_reset_vfmprc = 0\<rparr>"

definition no_mem :: ring_mem where
  "no_mem = \<lparr>rm_info = False, rm_desc = False, rm_dma = 0, rm_size = 0, rm_xdp_reg = False\<rparr>"

text \<open>An adapter with one vector for one transmit and one receive ring.\<close>

definition one_vector_queues :: queues where
  "one_vector_queues = (snd (run_state (ixgbevf_alloc_q_vectors msix_env)
     (sample_queues\<lparr>num_rx_queues := 1, num_tx_queues := 1, num_q_vectors := 1, msix_entries := Some [0, 1]\<rparr>)))\<lparr>qs_hw := sample_hw\<rparr>"

definition sample_adapter :: adapter where
  "sample_adapter = \<lparr>ad_q = one_vector_queues, tx_rings = (\<lambda>i. sample_ring), rx_rings = (\<lambda>i. sample_rxring), ring_mems = (\<lambda>k i. no_mem),
     vecs = (\<lambda>i. sample_qv), napi_on = (\<lambda>i. False), irq_lines = {}, tx_itr_setting = 1, ad_rx_itr_setting = 1,
     eims_enable_mask = 0, eims_other = 0, irqs_ready = False, rss_key = None, rss_indir_tbl = replicate 64 0, rss_field_ipv4_udp = False, rss_field_ipv6_udp = False, legacy_rx = False,
     active_vlans = {}, pf_features = 0, stats = zero_stats, hw_csum_rx_error = 0, ad_alloc_rx_page_failed = 0,
     ad_alloc_rx_buff_failed = 0, ad_alloc_rx_page = 0, ad_restart_queue = 0, ad_tx_busy = 0, link_speed = 0, link_up = False,
     link_state = True, tx_timeout_count = 0, last_reset = 0, dev_closed = False, timer_armed = False, mtu = 1500,
     dev_addr = [2, 0, 0, 0, 0, 1], nd_flags = 0, nd_uc = [], nd_mc = [], carrier = False, tx_started = False, nd_running = False,
     nd_present = True, io_addr = 4096, rx_csum_on = True, rx_hwtstamp_on = False, res_held = {}\<rparr>"

text \<open>A device whose registers keep what is written.\<close>

primrec reg_file :: "io_event list \<Rightarrow> u32 \<Rightarrow> u32" where
  "reg_file [] r = 0"
| "reg_file (e # h) r = (case e of MMIO_Write r' v \<Rightarrow> if r' = r then v else reg_file h r | _ \<Rightarrow> reg_file h r)"

definition file_env :: env where
  "file_env = sample_env\<lparr>mmio := reg_file\<rparr>"

lemma file_env_mmio: "mmio file_env = reg_file"
  by (simp add: file_env_def)

lemma file_env_backed: "register_backed file_env r"
  unfolding register_backed_def file_env_mmio reg_file.simps(2) by blast

lemma one_vector_spread: "spread 1 1 0 1 one_vector_queues" "num_q_vectors one_vector_queues = 1"
proof -
  let ?s = "sample_queues\<lparr>num_rx_queues := 1, num_tx_queues := 1, num_q_vectors := 1, msix_entries := Some [0, 1]\<rparr>"
  let ?r = "run_state (ixgbevf_alloc_q_vectors msix_env) ?s"
  have "no_vectors ?s" by (simp add: sample_queues_def no_vectors_def)
  from alloc_q_vectors_done [OF this, of msix_env] have "\<exists>e. fst ?r = Some e \<and> alloc_done 1 1 0 1 ?s e (snd ?r)"
    by (simp add: sample_queues_def)
  moreover have "fst ?r = Some 0" by code_simp
  ultimately have "spread 1 1 0 1 (snd ?r) \<and> counts (snd ?r) = counts ?s" by (auto simp: alloc_done_def ENOMEM_def)
  then show "spread 1 1 0 1 one_vector_queues" "num_q_vectors one_vector_queues = 1" by (simp_all add: one_vector_queues_def)
qed

theorem configure_msix_routes_every_ring_witness:
  "\<exists>a'. run_state (ixgbevf_configure_msix file_env) sample_adapter = ((), a') \<and>
     ivar_entry file_env (io (ad_hw a')) (0, 0) = 0x80 \<and> ivar_entry file_env (io (ad_hw a')) (0, 1) = 0x80 \<and> eims_enable_mask a' = 3"
proof -
  obtain a' where run: "run_state (ixgbevf_configure_msix file_env) sample_adapter = ((), a')" by (metis old.unit.exhaust surj_pair)
  have s: "spread 1 1 0 1 (ad_q sample_adapter)" "num_q_vectors (ad_q sample_adapter) = 1" using one_vector_spread by (simp_all add: sample_adapter_def)
  have "ivar_ready file_env (ad_hw sample_adapter)"
    by (simp add: ivar_ready_def file_env_backed file_env_mmio sample_adapter_def one_vector_queues_def sample_hw_def ivar_regs_def)
  from configure_msix_routes_every_ring [OF s(1) s(2) [symmetric] _ _ _ this run]
  have routes: "table k one_vector_queues i = Some c \<Longrightarrow>
      ivar_entry file_env (io (ad_hw a')) (qr_reg_idx c, if k = Rx_ring then 0 else 1) = 0x80 OR of_nat (qr_vector c)"
    and eims: "eims_enable_mask a' = mask 2" for k i c by (simp_all add: sample_adapter_def eval_nat_numeral)
  have "map_option (\<lambda>c. (qr_reg_idx c, qr_vector c)) (tx_ring_tab one_vector_queues 0) = Some (0, 0)"
    "map_option (\<lambda>c. (qr_reg_idx c, qr_vector c)) (rx_ring_tab one_vector_queues 0) = Some (0, 0)" by code_simp+
  then show ?thesis using run eims routes [of Tx_ring 0] routes [of Rx_ring 0] by (auto simp: table_simps mask_eq_exp_minus_1)
qed


end
