(* ===== verification/Stats.thy ===== *)
theory Stats
  imports Irq_Props
begin

text \<open>
  Hardware statistics of \<open>ixgbevf_main.c\<close>: the 32-bit and 36-bit counters of the device extended to 64 bits
  (\<open>UPDATE_VF_COUNTER_32bit\<close>, \<open>UPDATE_VF_COUNTER_36bit\<close>), saving and restarting them around a reset, and
  \<open>ixgbevf_update_stats\<close>; with the proof that the extended counters count the true number of events.
\<close>

subsection \<open>The code\<close>

definition IXGBE_VFGPRC :: u32 where [simp]: "IXGBE_VFGPRC = 0x0101C"
definition IXGBE_VFGPTC :: u32 where [simp]: "IXGBE_VFGPTC = 0x0201C"
definition IXGBE_VFGORC_LSB :: u32 where [simp]: "IXGBE_VFGORC_LSB = 0x01020"
definition IXGBE_VFGORC_MSB :: u32 where [simp]: "IXGBE_VFGORC_MSB = 0x01024"
definition IXGBE_VFGOTC_LSB :: u32 where [simp]: "IXGBE_VFGOTC_LSB = 0x02020"
definition IXGBE_VFGOTC_MSB :: u32 where [simp]: "IXGBE_VFGOTC_MSB = 0x02024"
definition IXGBE_VFMPRC :: u32 where [simp]: "IXGBE_VFMPRC = 0x01034"

definition UPDATE_VF_COUNTER_32bit :: "u32 \<Rightarrow> u64 \<Rightarrow> u64 \<Rightarrow> u64 \<times> u64" where
  "UPDATE_VF_COUNTER_32bit current_counter last_counter counter = (
     let counter = (if ucast current_counter < last_counter then counter + 0x100000000 else counter);
         last_counter = ucast current_counter;
         counter = counter AND 0xFFFFFFFF00000000;
         counter = counter OR ucast current_counter
     in (last_counter, counter))"

definition UPDATE_VF_COUNTER_36bit :: "u32 \<Rightarrow> u32 \<Rightarrow> u64 \<Rightarrow> u64 \<Rightarrow> u64 \<times> u64" where
  "UPDATE_VF_COUNTER_36bit current_counter_lsb current_counter_msb last_counter counter = (
     let current_counter = push_bit 32 (ucast current_counter_msb) OR ucast current_counter_lsb;
         counter = (if current_counter < last_counter then counter + 0x1000000000 else counter);
         last_counter = current_counter;
         counter = counter AND 0xFFFFFFF000000000;
         counter = counter OR current_counter
     in (last_counter, counter))"

definition upd_stats :: "(ixgbevf_hw_stats \<Rightarrow> ixgbevf_hw_stats) \<Rightarrow> unit adop" where
  "upd_stats f = modify (\<lambda>a. a\<lparr>stats := f (stats a)\<rparr>)"

definition update_hw_counters :: "env \<Rightarrow> unit adop" where
  "update_hw_counters E = do {
     c \<leftarrow> rd E IXGBE_VFGPRC;
     upd_stats (\<lambda>s. case UPDATE_VF_COUNTER_32bit c (last_vfgprc s) (vfgprc s) of (l, n) \<Rightarrow> s\<lparr>last_vfgprc := l, vfgprc := n\<rparr>);
     c \<leftarrow> rd E IXGBE_VFGPTC;
     upd_stats (\<lambda>s. case UPDATE_VF_COUNTER_32bit c (last_vfgptc s) (vfgptc s) of (l, n) \<Rightarrow> s\<lparr>last_vfgptc := l, vfgptc := n\<rparr>);
     l \<leftarrow> rd E IXGBE_VFGORC_LSB; m \<leftarrow> rd E IXGBE_VFGORC_MSB;
     upd_stats (\<lambda>s. case UPDATE_VF_COUNTER_36bit l m (last_vfgorc s) (vfgorc s) of (l, n) \<Rightarrow> s\<lparr>last_vfgorc := l, vfgorc := n\<rparr>);
     l \<leftarrow> rd E IXGBE_VFGOTC_LSB; m \<leftarrow> rd E IXGBE_VFGOTC_MSB;
     upd_stats (\<lambda>s. case UPDATE_VF_COUNTER_36bit l m (last_vfgotc s) (vfgotc s) of (l, n) \<Rightarrow> s\<lparr>last_vfgotc := l, vfgotc := n\<rparr>);
     c \<leftarrow> rd E IXGBE_VFMPRC;
     upd_stats (\<lambda>s. case UPDATE_VF_COUNTER_32bit c (last_vfmprc s) (vfmprc s) of (l, n) \<Rightarrow> s\<lparr>last_vfmprc := l, vfmprc := n\<rparr>) }"

definition sum_rx :: "(rx_ring \<Rightarrow> u64) \<Rightarrow> adapter \<Rightarrow> nat \<Rightarrow> u64" where
  "sum_rx f a n = sum_list (map (\<lambda>i. f (rx_rings a i)) [0..<n])"

text \<open>
  The totals over the rings. The second loop of the code runs over \<open>adapter->rx_ring\<close>; in the union of
  \<open>struct ixgbevf_ring\<close> the words \<open>restart_queue\<close> and \<open>tx_busy\<close> of a receive ring are its
  \<open>alloc_rx_page_failed\<close> and \<open>alloc_rx_buff_failed\<close>.
\<close>

definition update_ring_totals :: "unit adop" where
  "update_ring_totals = modify (\<lambda>a. let nrx = num_rx_queues (ad_q a); ntx = num_tx_queues (ad_q a) in
     a\<lparr>hw_csum_rx_error := sum_rx csum_err a nrx,
       ad_alloc_rx_page_failed := sum_rx alloc_rx_page_failed a nrx,
       ad_alloc_rx_buff_failed := sum_rx alloc_rx_buff_failed a nrx,
       ad_alloc_rx_page := sum_rx alloc_rx_page a nrx,
       ad_restart_queue := sum_rx alloc_rx_page_failed a ntx,
       ad_tx_busy := sum_rx alloc_rx_buff_failed a ntx\<rparr>)"

definition ixgbevf_update_stats :: "env \<Rightarrow> unit adop" where
  "ixgbevf_update_stats E = do {
     st \<leftarrow> gets (\<lambda>a. ad_bits a);
     if IXGBEVF_DOWN \<in> st \<or> IXGBEVF_RESETTING \<in> st then ret ()
     else do { update_hw_counters E; update_ring_totals } }"

definition ixgbevf_save_reset_stats :: "unit adop" where
  "ixgbevf_save_reset_stats = upd_stats (\<lambda>s.
     if vfgprc s \<noteq> 0 \<or> vfgptc s \<noteq> 0 then
       s\<lparr>saved_reset_vfgprc := saved_reset_vfgprc s + (vfgprc s - base_vfgprc s),
         saved_reset_vfgptc := saved_reset_vfgptc s + (vfgptc s - base_vfgptc s),
         saved_reset_vfgorc := saved_reset_vfgorc s + (vfgorc s - base_vfgorc s),
         saved_reset_vfgotc := saved_reset_vfgotc s + (vfgotc s - base_vfgotc s),
         saved_reset_vfmprc := saved_reset_vfmprc s + (vfmprc s - base_vfmprc s)\<rparr>
     else s)"

definition ixgbevf_init_last_counter_stats :: "env \<Rightarrow> unit adop" where
  "ixgbevf_init_last_counter_stats E = do {
     c \<leftarrow> rd E IXGBE_VFGPRC; upd_stats (\<lambda>s. s\<lparr>last_vfgprc := ucast c\<rparr>);
     c \<leftarrow> rd E IXGBE_VFGORC_LSB; upd_stats (\<lambda>s. s\<lparr>last_vfgorc := ucast c\<rparr>);
     c \<leftarrow> rd E IXGBE_VFGORC_MSB; upd_stats (\<lambda>s. s\<lparr>last_vfgorc := last_vfgorc s OR push_bit 32 (ucast c)\<rparr>);
     c \<leftarrow> rd E IXGBE_VFGPTC; upd_stats (\<lambda>s. s\<lparr>last_vfgptc := ucast c\<rparr>);
     c \<leftarrow> rd E IXGBE_VFGOTC_LSB; upd_stats (\<lambda>s. s\<lparr>last_vfgotc := ucast c\<rparr>);
     c \<leftarrow> rd E IXGBE_VFGOTC_MSB; upd_stats (\<lambda>s. s\<lparr>last_vfgotc := last_vfgotc s OR push_bit 32 (ucast c)\<rparr>);
     c \<leftarrow> rd E IXGBE_VFMPRC; upd_stats (\<lambda>s. s\<lparr>last_vfmprc := ucast c\<rparr>);
     upd_stats (\<lambda>s. s\<lparr>base_vfgprc := last_vfgprc s, base_vfgorc := last_vfgorc s, base_vfgptc := last_vfgptc s,
       base_vfgotc := last_vfgotc s, base_vfmprc := last_vfmprc s\<rparr>) }"

subsection \<open>Extension to 64 bits\<close>

text \<open>Both macros for a register of \<open>b\<close> bits.\<close>

definition extend_counter :: "nat \<Rightarrow> u64 \<Rightarrow> u64 \<Rightarrow> u64 \<Rightarrow> u64" where
  "extend_counter b current prev counter = ((if current < prev then counter + 2 ^ b else counter) AND NOT (mask b)) OR current"

lemma high_masks: "(0xFFFFFFFF00000000 :: u64) = NOT (mask 32)" "(0xFFFFFFF000000000 :: u64) = NOT (mask 36)"
  by (simp_all add: mask_eq_exp_minus_1)

lemma extend_counter_32: "UPDATE_VF_COUNTER_32bit c l n = (ucast c, extend_counter 32 (ucast c) l n)"
  by (simp add: UPDATE_VF_COUNTER_32bit_def extend_counter_def Let_def high_masks)

lemma extend_counter_36: "UPDATE_VF_COUNTER_36bit c m l n = (push_bit 32 (ucast m) OR ucast c, extend_counter 36 (push_bit 32 (ucast m) OR ucast c) l n)"
  by (simp add: UPDATE_VF_COUNTER_36bit_def extend_counter_def Let_def high_masks)

text \<open>
  \<open>tracks b T0 T prev counter base\<close>: the device has counted \<open>T\<close> events, \<open>T0\<close> when the driver started
  counting; the register shows the count modulo \<open>2 ^ b\<close>.
\<close>

definition tracks :: "nat \<Rightarrow> nat \<Rightarrow> nat \<Rightarrow> u64 \<Rightarrow> u64 \<Rightarrow> u64 \<Rightarrow> bool" where
  "tracks b T0 T prev counter base \<longleftrightarrow> prev = of_nat (T mod 2 ^ b) \<and> base = of_nat (T0 mod 2 ^ b) \<and> T0 \<le> T \<and>
     counter AND NOT (mask b) = of_nat ((T div 2 ^ b - T0 div 2 ^ b) * 2 ^ b)"

lemma high_bits_clear: "c < 2 ^ b \<Longrightarrow> b \<le> n \<Longrightarrow> \<not> bit (of_nat c :: u64) n"
proof
  assume c: "c < 2 ^ b" "b \<le> n" and bit: "bit (of_nat c :: u64) n"
  have "c < 2 ^ n" using c by (meson less_le_trans one_le_numeral power_increasing)
  then have "\<not> bit c n" by (simp add: bit_iff_odd)
  moreover have "bit (unat (of_nat c :: u64)) n" using bit by (simp add: bit_unsigned_iff)
  ultimately show False by (simp add: unsigned_of_nat bit_take_bit_iff)
qed

lemma clear_low: "x AND NOT (mask b) = push_bit b (drop_bit b (x :: u64))"
  by (rule bit_eqI) (auto simp: bit_simps)

lemma high_part: "of_nat (k * 2 ^ b) AND NOT (mask b) = (of_nat (k * 2 ^ b) :: u64)"
proof -
  have "(of_nat (k * 2 ^ b) :: u64) = push_bit b (of_nat k)" by (simp add: push_bit_eq_mult)
  then show ?thesis by (simp add: clear_low) (rule bit_eqI, auto simp: bit_simps)
qed

lemma or_low:
  assumes "c < 2 ^ b" "b < 64"
  shows "(x AND NOT (mask b)) OR of_nat c = (x AND NOT (mask b)) + (of_nat c :: u64)"
proof -
  note lo = high_bits_clear [OF assms(1)]
  have "(x AND NOT (mask b)) + (of_nat c :: u64) = (x AND NOT (mask b)) OR of_nat c"
    by (rule disjunctive_add) (use lo in \<open>auto simp: bit_simps not_less\<close>)
  then show ?thesis by simp
qed

lemma split_word:
  fixes x :: u64
  assumes "x AND NOT (mask b) = of_nat (k * 2 ^ b)" "b < 64"
  obtains r where "r < 2 ^ b" "x = of_nat (k * 2 ^ b + r)"
proof
  have "(x AND NOT (mask b)) + take_bit b x = (x AND NOT (mask b)) OR take_bit b x"
    by (rule disjunctive_add) (auto simp: bit_simps)
  also have "\<dots> = x" by (rule bit_eqI) (auto simp: bit_simps)
  finally have e: "x = of_nat (k * 2 ^ b) + take_bit b x" using assms(1) by simp
  show "unat (take_bit b x) < 2 ^ b" by (simp add: unsigned_take_bit_eq)
  show "x = of_nat (k * 2 ^ b + unat (take_bit b x))" using e by simp
qed

lemma join_word:
  assumes "r < 2 ^ b" "b < 64"
  shows "(of_nat (k * 2 ^ b + r) :: u64) AND NOT (mask b) = of_nat (k * 2 ^ b)"
    and "(of_nat (k * 2 ^ b) :: u64) OR of_nat r = of_nat (k * 2 ^ b + r)"
proof -
  have o: "(of_nat (k * 2 ^ b) :: u64) OR of_nat r = of_nat (k * 2 ^ b + r)"
    using or_low [OF assms, of "of_nat (k * 2 ^ b)"] by (simp add: high_part del: of_nat_mult of_nat_add) (simp only: of_nat_add)
  then show "(of_nat (k * 2 ^ b) :: u64) OR of_nat r = of_nat (k * 2 ^ b + r)" .
  have lo: "(of_nat r :: u64) AND NOT (mask b) = 0"
    using high_bits_clear [OF assms(1)] by (intro bit_eqI) (fastforce simp: bit_simps not_less)
  have "((of_nat (k * 2 ^ b) :: u64) OR of_nat r) AND NOT (mask b) = of_nat (k * 2 ^ b)"
    by (simp only: bit.conj_disj_distrib2 high_part lo or.right_neutral)
  then show "(of_nat (k * 2 ^ b + r) :: u64) AND NOT (mask b) = of_nat (k * 2 ^ b)" using o by simp
qed

text \<open>One reading of the register, taken before the device counts another \<open>2 ^ b\<close> events.\<close>

lemma extend_counter_tracks:
  assumes t: "tracks b T0 T prev counter base" and le: "T \<le> T'" "T' < T + 2 ^ b" and b: "b < 64"
  shows "tracks b T0 T' (of_nat (T' mod 2 ^ b)) (extend_counter b (of_nat (T' mod 2 ^ b)) prev counter) base \<and>
    extend_counter b (of_nat (T' mod 2 ^ b)) prev counter - base = of_nat (T' - T0)"
proof -
  let ?N = "2 ^ b :: nat"
  let ?k = "T div ?N - T0 div ?N"
  have pos: "0 < ?N" by simp
  obtain r where r: "r < ?N" "counter = of_nat (?k * ?N + r)"
    using split_word [OF _ b] t unfolding tracks_def by metis
  have small: "c mod ?N < 2 ^ 64" for c :: nat
  proof -
    have "c mod ?N < ?N" by simp
    also have "\<dots> \<le> 2 ^ 64" using b by (intro power_increasing) simp_all
    finally show ?thesis .
  qed
  have less: "(of_nat (T' mod ?N) :: u64) < prev \<longleftrightarrow> T' mod ?N < T mod ?N"
    using t small [of T'] small [of T] by (simp add: tracks_def word_less_nat_alt unsigned_of_nat take_bit_nat_eq_self)
  have q: "T' div ?N = T div ?N + (if T' mod ?N < T mod ?N then 1 else 0)"
  proof -
    have "T' = T' div ?N * ?N + T' mod ?N" "T = T div ?N * ?N + T mod ?N" by (simp_all only: div_mult_mod_eq)
    then obtain u v x y where d: "T' = u * ?N + x" "T = v * ?N + y" "x < ?N" "y < ?N" "u = T' div ?N" "v = T div ?N" "x = T' mod ?N" "y = T mod ?N"
      using pos by (metis mod_less_divisor)
    have "v \<le> u" unfolding d(5,6) using le(1) by (rule div_le_mono)
    moreover have "u < Suc (Suc v)"
    proof (rule ccontr)
      assume "\<not> u < Suc (Suc v)"
      then have "(v + 2) * ?N \<le> u * ?N" by (intro mult_le_mono1) simp
      then show False using d(1-4) le(2) by (simp add: algebra_simps)
    qed
    ultimately have "u = v \<or> u = Suc v" by linarith
    then show ?thesis using d(1-4) le unfolding d(5-8) [symmetric] by (auto simp: not_less)
  qed
  have ge: "T0 div ?N \<le> T div ?N" using t by (auto simp: tracks_def intro: div_le_mono)
  let ?k' = "T' div ?N - T0 div ?N"
  have "(if (of_nat (T' mod ?N) :: u64) < prev then counter + 2 ^ b else counter) = of_nat (?k' * ?N + r)"
  proof (cases "T' mod ?N < T mod ?N")
    case True
    then have "?k' = Suc ?k" using q ge by simp
    then have "(of_nat (?k' * ?N + r) :: u64) = of_nat (?k * ?N + r) + of_nat ?N" by simp
    then show ?thesis using True less r by simp
  next
    case False
    then show ?thesis using q less r by simp
  qed
  then have e: "extend_counter b (of_nat (T' mod ?N)) prev counter = of_nat (?k' * ?N + T' mod ?N)"
    unfolding extend_counter_def using join_word(1) [OF r(1) b] join_word(2) [OF _ b, of "T' mod ?N"] by simp
  have hi: "extend_counter b (of_nat (T' mod ?N)) prev counter AND NOT (mask b) = of_nat (?k' * ?N)"
    unfolding e by (rule join_word(1)) (simp_all add: b)
  have "?k' * ?N + T' mod ?N = T' - T0 + T0 mod ?N"
  proof -
    have "T0 \<le> T'" using t le by (simp add: tracks_def)
    moreover have "?k' * ?N = T' div ?N * ?N - T0 div ?N * ?N" by (simp add: diff_mult_distrib)
    moreover have "T0 div ?N * ?N \<le> T' div ?N * ?N" using ge q by (intro mult_le_mono1) simp
    moreover have "T' = T' div ?N * ?N + T' mod ?N" "T0 = T0 div ?N * ?N + T0 mod ?N" by (simp_all only: div_mult_mod_eq)
    ultimately show ?thesis by linarith
  qed
  then have "extend_counter b (of_nat (T' mod ?N)) prev counter = of_nat (T' - T0) + of_nat (T0 mod ?N)"
    unfolding e by (metis of_nat_add)
  then show ?thesis using t le hi by (simp add: tracks_def)
qed

subsection \<open>Reading the counters\<close>

text \<open>A register that shows one value for the time of a call, on a device that is there.\<close>

lemma dead_loop_steady:
  "\<forall>h. mmio E h reg = IXGBE_DEAD_READ_REG \<Longrightarrow>
     \<exists>evs. run_state (dead_read_loop E reg n IXGBE_DEAD_READ_REG) hw = (IXGBE_DEAD_READ_REG, hw\<lparr>io := evs @ io hw\<rparr>)"
proof (induction n arbitrary: hw)
  case 0
  then show ?case by (auto intro!: exI [of _ "[]"])
next
  case (Suc n)
  from Suc.IH [OF Suc.prems, of "hw\<lparr>io := MMIO_Read reg IXGBE_DEAD_READ_REG # io hw\<rparr>"] obtain evs where
    "run_state (dead_read_loop E reg n IXGBE_DEAD_READ_REG) (hw\<lparr>io := MMIO_Read reg IXGBE_DEAD_READ_REG # io hw\<rparr>) =
      (IXGBE_DEAD_READ_REG, hw\<lparr>io := (evs @ [MMIO_Read reg IXGBE_DEAD_READ_REG]) @ io hw\<rparr>)" by auto
  then show ?case using Suc.prems by (auto simp: readl_def log_io_def simp del: append_assoc)
qed

definition present :: "env \<Rightarrow> bool" where
  "present E \<longleftrightarrow> (\<forall>h. mmio E h IXGBE_VFSTATUS \<noteq> IXGBE_FAILED_READ_REG \<and> mmio E h IXGBE_VFSTATUS \<noteq> IXGBE_DEAD_READ_REG)"

definition shows_value :: "env \<Rightarrow> u32 \<Rightarrow> u32 \<Rightarrow> bool" where
  "shows_value E reg v \<longleftrightarrow> (\<forall>h. mmio E h reg = v)"

lemma read_reg_steady:
  assumes hw: "hw_addr hw \<noteq> 0" and p: "present E" and v: "shows_value E reg v" and r: "reg \<noteq> IXGBE_VFSTATUS"
  shows "\<exists>evs. run_state (ixgbe_read_reg E reg) hw = (v, hw\<lparr>io := evs @ io hw\<rparr>)"
proof -
  have v: "\<And>h. mmio E h reg = v" using v by (simp add: shows_value_def)
  let ?h1 = "hw\<lparr>io := MMIO_Read reg v # io hw\<rparr>"
  have check: "run_state (ixgbevf_check_remove E reg) ?h1 = ((), ?h1\<lparr>io := MMIO_Read IXGBE_VFSTATUS (mmio E (io ?h1) IXGBE_VFSTATUS) # io ?h1\<rparr>)"
    using p hw r by (subst ixgbevf_check_remove.simps) (simp add: present_def read_reg_live [OF _ refl] run_whenM)
  consider "v = IXGBE_FAILED_READ_REG" | "v = IXGBE_DEAD_READ_REG" | "v \<noteq> IXGBE_FAILED_READ_REG" "v \<noteq> IXGBE_DEAD_READ_REG" by blast
  then show ?thesis
  proof cases
    case 1
    then have "run_state (ixgbe_read_reg E reg) hw = (v, ?h1\<lparr>io := MMIO_Read IXGBE_VFSTATUS (mmio E (io ?h1) IXGBE_VFSTATUS) # io ?h1\<rparr>)"
      using check hw v by (subst ixgbe_read_reg.simps) (simp add: readl_def log_io_def run_whenM)
    then show ?thesis by (auto intro!: exI [of _ "[MMIO_Read IXGBE_VFSTATUS (mmio E (io ?h1) IXGBE_VFSTATUS), MMIO_Read reg v]"])
  next
    case 2
    then have d: "\<forall>h. mmio E h reg = IXGBE_DEAD_READ_REG" using v by simp
    have "run_state (ixgbe_read_reg E reg) hw = run_state (ixgbevf_validate_register_read E reg) ?h1"
      using 2 hw v by (subst ixgbe_read_reg.simps) (simp add: readl_def log_io_def run_whenM)
    also have "\<dots> = run_state (dead_read_loop E reg 9 IXGBE_DEAD_READ_REG) (?h1\<lparr>io := MMIO_Read reg v # io ?h1\<rparr>)"
      using 2 hw d by (simp add: ixgbevf_validate_register_read_def eval_nat_numeral readl_def log_io_def)
    finally have run: "run_state (ixgbe_read_reg E reg) hw = run_state (dead_read_loop E reg 9 IXGBE_DEAD_READ_REG) (?h1\<lparr>io := MMIO_Read reg v # io ?h1\<rparr>)" .
    obtain evs where "run_state (dead_read_loop E reg 9 IXGBE_DEAD_READ_REG) (?h1\<lparr>io := MMIO_Read reg v # io ?h1\<rparr>) =
        (IXGBE_DEAD_READ_REG, ?h1\<lparr>io := evs @ (MMIO_Read reg v # io ?h1)\<rparr>)"
      using dead_loop_steady [OF d, of 9 "?h1\<lparr>io := MMIO_Read reg v # io ?h1\<rparr>"] by auto
    then show ?thesis using run 2 by (auto intro!: exI [of _ "evs @ [MMIO_Read reg v, MMIO_Read reg v]"])
  next
    case 3
    then show ?thesis using read_reg_live [OF hw v] by (auto intro!: exI [of _ "[MMIO_Read reg v]"])
  qed
qed

text \<open>The adapter with a longer history.\<close>

definition later :: "adapter \<Rightarrow> adapter \<Rightarrow> bool" where
  "later a b \<longleftrightarrow> (\<exists>evs. b = a\<lparr>ad_q := (ad_q a)\<lparr>qs_hw := (ad_hw a)\<lparr>io := evs @ io (ad_hw a)\<rparr>\<rparr>\<rparr>)"

lemma rd_steady:
  assumes "hw_addr (ad_hw a) \<noteq> 0" "present E" "shows_value E reg v" "reg \<noteq> IXGBE_VFSTATUS"
  obtains b where "run_state (rd E reg) a = (v, b)" "later a b"
proof -
  from read_reg_steady [OF assms] obtain evs where
    "run_state (ixgbe_read_reg E reg) (ad_hw a) = (v, (ad_hw a)\<lparr>io := evs @ io (ad_hw a)\<rparr>)" by blast
  then have "run_state (rd E reg) a = (v, a\<lparr>ad_q := (ad_q a)\<lparr>qs_hw := (ad_hw a)\<lparr>io := evs @ io (ad_hw a)\<rparr>\<rparr>\<rparr>)"
    by (simp add: rd_def run_hw_op)
  then show ?thesis using that by (auto simp: later_def)
qed

lemma laterD: "later a b \<Longrightarrow> stats b = stats a \<and> hw_addr (ad_hw b) = hw_addr (ad_hw a) \<and> back_state (ad_hw b) = back_state (ad_hw a) \<and> rx_rings b = rx_rings a"
  by (auto simp: later_def)

record totals =
  t_gprc :: nat
  t_gptc :: nat
  t_gorc :: nat
  t_gotc :: nat
  t_mprc :: nat

text \<open>What the device shows after counting \<open>T\<close>.\<close>

definition device_shows :: "env \<Rightarrow> totals \<Rightarrow> bool" where
  "device_shows E T \<longleftrightarrow> present E \<and>
     shows_value E IXGBE_VFGPRC (of_nat (t_gprc T mod 2 ^ 32)) \<and> shows_value E IXGBE_VFGPTC (of_nat (t_gptc T mod 2 ^ 32)) \<and>
     shows_value E IXGBE_VFGORC_LSB (of_nat (t_gorc T mod 2 ^ 36)) \<and> shows_value E IXGBE_VFGORC_MSB (of_nat (t_gorc T mod 2 ^ 36 div 2 ^ 32)) \<and>
     shows_value E IXGBE_VFGOTC_LSB (of_nat (t_gotc T mod 2 ^ 36)) \<and> shows_value E IXGBE_VFGOTC_MSB (of_nat (t_gotc T mod 2 ^ 36 div 2 ^ 32)) \<and>
     shows_value E IXGBE_VFMPRC (of_nat (t_mprc T mod 2 ^ 32))"

definition stats_track :: "totals \<Rightarrow> totals \<Rightarrow> ixgbevf_hw_stats \<Rightarrow> bool" where
  "stats_track T0 T s \<longleftrightarrow> tracks 32 (t_gprc T0) (t_gprc T) (last_vfgprc s) (vfgprc s) (base_vfgprc s) \<and>
     tracks 32 (t_gptc T0) (t_gptc T) (last_vfgptc s) (vfgptc s) (base_vfgptc s) \<and>
     tracks 36 (t_gorc T0) (t_gorc T) (last_vfgorc s) (vfgorc s) (base_vfgorc s) \<and>
     tracks 36 (t_gotc T0) (t_gotc T) (last_vfgotc s) (vfgotc s) (base_vfgotc s) \<and>
     tracks 32 (t_mprc T0) (t_mprc T) (last_vfmprc s) (vfmprc s) (base_vfmprc s)"

definition soon_after :: "totals \<Rightarrow> totals \<Rightarrow> bool" where
  "soon_after T T' \<longleftrightarrow> t_gprc T \<le> t_gprc T' \<and> t_gprc T' < t_gprc T + 2 ^ 32 \<and> t_gptc T \<le> t_gptc T' \<and> t_gptc T' < t_gptc T + 2 ^ 32 \<and>
     t_gorc T \<le> t_gorc T' \<and> t_gorc T' < t_gorc T + 2 ^ 36 \<and> t_gotc T \<le> t_gotc T' \<and> t_gotc T' < t_gotc T + 2 ^ 36 \<and>
     t_mprc T \<le> t_mprc T' \<and> t_mprc T' < t_mprc T + 2 ^ 32"

lemma ucast_low: "(ucast (of_nat (n mod 2 ^ 32) :: u32) :: u64) = of_nat (n mod 2 ^ 32)"
proof -
  have "unat (of_nat (n mod 2 ^ 32) :: u32) = n mod 2 ^ 32" by (simp add: unsigned_of_nat take_bit_nat_eq_self)
  then show ?thesis by (metis of_nat_unat)
qed

lemma join_halves: "push_bit 32 (ucast (of_nat (n mod 2 ^ 36 div 2 ^ 32) :: u32) :: u64) OR ucast (of_nat (n mod 2 ^ 36) :: u32) = of_nat (n mod 2 ^ 36)"
proof -
  define m where "m = n mod 2 ^ 36"
  have m: "m < 2 ^ 36" by (simp add: m_def)
  then have hi: "m div 2 ^ 32 < 2 ^ 32" by (simp add: less_mult_imp_div_less)
  have "(of_nat m :: u32) = of_nat (m mod 2 ^ 32)" by (rule word_of_nat_eq_iff [THEN iffD2]) (simp add: take_bit_eq_mod)
  then have lo: "(ucast (of_nat m :: u32) :: u64) = of_nat (m mod 2 ^ 32)" using ucast_low [of m] by simp
  have "(ucast (of_nat (m div 2 ^ 32) :: u32) :: u64) = of_nat (m div 2 ^ 32)" using ucast_low [of "m div 2 ^ 32"] hi by simp
  then have "push_bit 32 (ucast (of_nat (m div 2 ^ 32) :: u32) :: u64) = of_nat (m div 2 ^ 32 * 2 ^ 32)" by (simp add: push_bit_eq_mult)
  then show ?thesis
    using join_word(2) [of "m mod 2 ^ 32" 32 "m div 2 ^ 32"] lo unfolding m_def [symmetric] by (simp only:) simp
qed

lemma rd_upd:
  assumes "hw_addr (ad_hw a) \<noteq> 0" "present E" "shows_value E reg v" "reg \<noteq> IXGBE_VFSTATUS"
  obtains b where "hw_addr (ad_hw b) \<noteq> 0" "stats b = f v (stats a)" "run_state (rd E reg \<bind> (\<lambda>c. upd_stats (f c) \<bind> (\<lambda>_. m))) a = run_state m b"
proof -
  from rd_steady [OF assms] obtain b where b: "run_state (rd E reg) a = (v, b)" "later a b" .
  show ?thesis
    by (rule that [of "b\<lparr>stats := f v (stats a)\<rparr>"]) (use b laterD [OF b(2)] assms(1) in \<open>simp_all add: upd_stats_def\<close>)
qed

lemma rd_rd_upd:
  assumes "hw_addr (ad_hw a) \<noteq> 0" "present E" "shows_value E r1 v" "r1 \<noteq> IXGBE_VFSTATUS" "shows_value E r2 w" "r2 \<noteq> IXGBE_VFSTATUS"
  obtains b where "hw_addr (ad_hw b) \<noteq> 0" "stats b = f v w (stats a)"
    "run_state (rd E r1 \<bind> (\<lambda>c. rd E r2 \<bind> (\<lambda>d. upd_stats (f c d) \<bind> (\<lambda>_. m)))) a = run_state m b"
proof -
  from rd_steady [OF assms(1-4)] obtain b where b: "run_state (rd E r1) a = (v, b)" "later a b" .
  have "hw_addr (ad_hw b) \<noteq> 0" using laterD [OF b(2)] assms(1) by simp
  from rd_upd [OF this assms(2,5,6), of "f v" m] obtain d where "hw_addr (ad_hw d) \<noteq> 0" "stats d = f v w (stats b)"
    "run_state (rd E r2 \<bind> (\<lambda>d. upd_stats (f v d) \<bind> (\<lambda>_. m))) b = run_state m d" .
  then show ?thesis using b laterD [OF b(2)] by (intro that [of d]) simp_all
qed

text \<open>The statistics after the readings, in one term.\<close>

definition counted :: "totals \<Rightarrow> ixgbevf_hw_stats \<Rightarrow> ixgbevf_hw_stats" where
  "counted T s = s\<lparr>last_vfgprc := of_nat (t_gprc T mod 2 ^ 32), vfgprc := extend_counter 32 (of_nat (t_gprc T mod 2 ^ 32)) (last_vfgprc s) (vfgprc s),
     last_vfgptc := of_nat (t_gptc T mod 2 ^ 32), vfgptc := extend_counter 32 (of_nat (t_gptc T mod 2 ^ 32)) (last_vfgptc s) (vfgptc s),
     last_vfgorc := of_nat (t_gorc T mod 2 ^ 36), vfgorc := extend_counter 36 (of_nat (t_gorc T mod 2 ^ 36)) (last_vfgorc s) (vfgorc s),
     last_vfgotc := of_nat (t_gotc T mod 2 ^ 36), vfgotc := extend_counter 36 (of_nat (t_gotc T mod 2 ^ 36)) (last_vfgotc s) (vfgotc s),
     last_vfmprc := of_nat (t_mprc T mod 2 ^ 32), vfmprc := extend_counter 32 (of_nat (t_mprc T mod 2 ^ 32)) (last_vfmprc s) (vfmprc s)\<rparr>"

lemma update_hw_counters_counted:
  assumes hw: "hw_addr (ad_hw a) \<noteq> 0" and d: "device_shows E T"
  shows "stats (snd (run_state (update_hw_counters E) a)) = counted T (stats a)"
proof -
  let ?f1 = "\<lambda>c s. case UPDATE_VF_COUNTER_32bit c (last_vfgprc s) (vfgprc s) of (l, n) \<Rightarrow> s\<lparr>last_vfgprc := l, vfgprc := n\<rparr>"
  let ?f2 = "\<lambda>c s. case UPDATE_VF_COUNTER_32bit c (last_vfgptc s) (vfgptc s) of (l, n) \<Rightarrow> s\<lparr>last_vfgptc := l, vfgptc := n\<rparr>"
  let ?f3 = "\<lambda>l m s. case UPDATE_VF_COUNTER_36bit l m (last_vfgorc s) (vfgorc s) of (l, n) \<Rightarrow> s\<lparr>last_vfgorc := l, vfgorc := n\<rparr>"
  let ?f4 = "\<lambda>l m s. case UPDATE_VF_COUNTER_36bit l m (last_vfgotc s) (vfgotc s) of (l, n) \<Rightarrow> s\<lparr>last_vfgotc := l, vfgotc := n\<rparr>"
  let ?f5 = "\<lambda>c s. case UPDATE_VF_COUNTER_32bit c (last_vfmprc s) (vfmprc s) of (l, n) \<Rightarrow> s\<lparr>last_vfmprc := l, vfmprc := n\<rparr>"
  have p: "present E" using d by (simp add: device_shows_def)
  note ds = d [unfolded device_shows_def]
  define m5 where "m5 = rd E IXGBE_VFMPRC \<bind> (\<lambda>c. upd_stats (?f5 c))"
  define m4 where "m4 = rd E IXGBE_VFGOTC_LSB \<bind> (\<lambda>l. rd E IXGBE_VFGOTC_MSB \<bind> (\<lambda>m. upd_stats (?f4 l m) \<bind> (\<lambda>_. m5)))"
  define m3 where "m3 = rd E IXGBE_VFGORC_LSB \<bind> (\<lambda>l. rd E IXGBE_VFGORC_MSB \<bind> (\<lambda>m. upd_stats (?f3 l m) \<bind> (\<lambda>_. m4)))"
  define m2 where "m2 = rd E IXGBE_VFGPTC \<bind> (\<lambda>c. upd_stats (?f2 c) \<bind> (\<lambda>_. m3))"
  have m1: "update_hw_counters E = rd E IXGBE_VFGPRC \<bind> (\<lambda>c. upd_stats (?f1 c) \<bind> (\<lambda>_. m2))"
    by (simp add: update_hw_counters_def m2_def m3_def m4_def m5_def)
  obtain a1 where a1: "hw_addr (ad_hw a1) \<noteq> 0" "stats a1 = ?f1 (of_nat (t_gprc T mod 2 ^ 32)) (stats a)"
      "run_state (update_hw_counters E) a = run_state m2 a1"
    unfolding m1 by (rule rd_upd [OF hw p, of IXGBE_VFGPRC "of_nat (t_gprc T mod 2 ^ 32)" ?f1 m2]) (use ds in simp_all)
  obtain a2 where a2: "hw_addr (ad_hw a2) \<noteq> 0" "stats a2 = ?f2 (of_nat (t_gptc T mod 2 ^ 32)) (stats a1)" "run_state m2 a1 = run_state m3 a2"
    unfolding m2_def by (rule rd_upd [OF a1(1) p, of IXGBE_VFGPTC "of_nat (t_gptc T mod 2 ^ 32)" ?f2 m3]) (use ds in simp_all)
  obtain a3 where a3: "hw_addr (ad_hw a3) \<noteq> 0"
      "stats a3 = ?f3 (of_nat (t_gorc T mod 2 ^ 36)) (of_nat (t_gorc T mod 2 ^ 36 div 2 ^ 32)) (stats a2)" "run_state m3 a2 = run_state m4 a3"
    unfolding m3_def
    by (rule rd_rd_upd [OF a2(1) p, of IXGBE_VFGORC_LSB "of_nat (t_gorc T mod 2 ^ 36)" IXGBE_VFGORC_MSB
        "of_nat (t_gorc T mod 2 ^ 36 div 2 ^ 32)" ?f3 m4]) (use ds in simp_all)
  obtain a4 where a4: "hw_addr (ad_hw a4) \<noteq> 0"
      "stats a4 = ?f4 (of_nat (t_gotc T mod 2 ^ 36)) (of_nat (t_gotc T mod 2 ^ 36 div 2 ^ 32)) (stats a3)" "run_state m4 a3 = run_state m5 a4"
    unfolding m4_def
    by (rule rd_rd_upd [OF a3(1) p, of IXGBE_VFGOTC_LSB "of_nat (t_gotc T mod 2 ^ 36)" IXGBE_VFGOTC_MSB
        "of_nat (t_gotc T mod 2 ^ 36 div 2 ^ 32)" ?f4 m5]) (use ds in simp_all)
  obtain a5 where a5: "run_state (rd E IXGBE_VFMPRC) a4 = (of_nat (t_mprc T mod 2 ^ 32), a5)" "later a4 a5"
    by (rule rd_steady [OF a4(1) p, of IXGBE_VFMPRC "of_nat (t_mprc T mod 2 ^ 32)"]) (use ds in simp_all)
  have "stats (snd (run_state (update_hw_counters E) a)) = ?f5 (of_nat (t_mprc T mod 2 ^ 32)) (stats a4)"
    unfolding a1(3) a2(3) a3(3) a4(3) m5_def using a5(1) laterD [OF a5(2)] by (simp add: upd_stats_def)
  then show ?thesis unfolding a4(2) a3(2) a2(2) a1(2) extend_counter_32 extend_counter_36 ucast_low join_halves counted_def by simp
qed

lemma later_totals: "stats (snd (run_state update_ring_totals a)) = stats a"
  by (simp add: update_ring_totals_def Let_def)


subsection \<open>Around a reset\<close>

text \<open>
  What ethtool shows for received packets. After a reset \<open>ixgbevf_save_reset_stats\<close> adds the packets counted so far to
  \<open>saved_reset_vfgprc\<close> and \<open>ixgbevf_init_last_counter_stats\<close> takes the new base from the 32-bit register, but
  the upper half of \<open>vfgprc\<close> stays: once a counter has wrapped, its multiples of \<open>2 ^ 32\<close> are reported twice.
\<close>

definition shown_packets :: "ixgbevf_hw_stats \<Rightarrow> u64" where
  "shown_packets s = vfgprc s - base_vfgprc s + saved_reset_vfgprc s"

definition zero_env :: env where
  "zero_env = sample_env\<lparr>mmio := (\<lambda>h r. 0)\<rparr>"

lemma reset_counts_wraps_twice:
  "let a = sample_adapter\<lparr>ad_q := sample_queues, stats := zero_stats\<lparr>last_vfgprc := 5, vfgprc := 0x100000005\<rparr>\<rparr>;
       b = snd (run_state (do { ixgbevf_save_reset_stats; ixgbevf_init_last_counter_stats zero_env; ixgbevf_update_stats zero_env }) a)
   in shown_packets (stats a) = 0x100000005 \<and> shown_packets (stats b) = 0x200000005"
  by code_simp

subsection \<open>Samples\<close>

lemma run_unit: "run_state m s = ((), snd (run_state m s))"
  by (simp add: prod_eq_iff)

definition totals_of :: "nat \<Rightarrow> totals" where
  "totals_of n = \<lparr>t_gprc = n, t_gptc = n, t_gorc = n, t_gotc = n, t_mprc = n\<rparr>"

definition counting_env :: "nat \<Rightarrow> env" where
  "counting_env n = sample_env\<lparr>mmio := (\<lambda>h r. if r \<in> {IXGBE_VFGORC_MSB, IXGBE_VFGOTC_MSB} then of_nat (n mod 2 ^ 36 div 2 ^ 32)
     else if r = IXGBE_VFSTATUS then 0 else of_nat n)\<rparr>"

lemma word_low: "(of_nat (n mod 2 ^ 32) :: u32) = of_nat n" "(of_nat (n mod 2 ^ 36) :: u32) = of_nat n"
  by (simp_all add: word_of_nat_eq_iff take_bit_eq_mod mod_mod_cancel)

lemma counting_shows: "device_shows (counting_env n) (totals_of n)"
  unfolding device_shows_def shows_value_def present_def totals_of_def totals.simps word_low
  by (simp add: counting_env_def)


end
