(* ===== verification/Configure.thy ===== *)
theory Configure
  imports Stats
begin

text \<open>
  Programming the queues of the device: transmit and receive rings, receive buffer sizes, packet types, the
  receive-side-scaling key and redirection table (\<open>ixgbevf_configure_tx\<close> and \<open>ixgbevf_configure_rx\<close> of
  \<open>ixgbevf_main.c\<close>). The parameter \<open>R i\<close> is the environment of receive ring \<open>i\<close>; pages are smaller than 8192 bytes and
  the platform is not SPARC. Messages to the log are left out.
\<close>

definition IXGBE_VFRDBAL :: "u32 \<Rightarrow> u32" where [simp]: "IXGBE_VFRDBAL x = 0x01000 + (0x40 * x)"
definition IXGBE_VFRDBAH :: "u32 \<Rightarrow> u32" where [simp]: "IXGBE_VFRDBAH x = 0x01004 + (0x40 * x)"
definition IXGBE_VFRDLEN :: "u32 \<Rightarrow> u32" where [simp]: "IXGBE_VFRDLEN x = 0x01008 + (0x40 * x)"
definition IXGBE_VFTDBAL :: "u32 \<Rightarrow> u32" where [simp]: "IXGBE_VFTDBAL x = 0x02000 + (0x40 * x)"
definition IXGBE_VFTDBAH :: "u32 \<Rightarrow> u32" where [simp]: "IXGBE_VFTDBAH x = 0x02004 + (0x40 * x)"
definition IXGBE_VFTDLEN :: "u32 \<Rightarrow> u32" where [simp]: "IXGBE_VFTDLEN x = 0x02008 + (0x40 * x)"
definition IXGBE_VFMRQC :: u32 where [simp]: "IXGBE_VFMRQC = 0x3000"
definition IXGBE_VFRSSRK :: "u32 \<Rightarrow> u32" where [simp]: "IXGBE_VFRSSRK x = 0x3100 + (x * 4)"
definition IXGBE_VFRETA :: "u32 \<Rightarrow> u32" where [simp]: "IXGBE_VFRETA x = 0x3200 + (x * 4)"
definition IXGBE_SRRCTL_DROP_EN :: u32 where [simp]: "IXGBE_SRRCTL_DROP_EN = 0x10000000"
definition IXGBE_SRRCTL_DESCTYPE_ADV_ONEBUF :: u32 where [simp]: "IXGBE_SRRCTL_DESCTYPE_ADV_ONEBUF = 0x02000000"
definition IXGBE_PSRTYPE_TCPHDR :: u32 where [simp]: "IXGBE_PSRTYPE_TCPHDR = 0x00000010"
definition IXGBE_PSRTYPE_UDPHDR :: u32 where [simp]: "IXGBE_PSRTYPE_UDPHDR = 0x00000020"
definition IXGBE_PSRTYPE_IPV4HDR :: u32 where [simp]: "IXGBE_PSRTYPE_IPV4HDR = 0x00000100"
definition IXGBE_PSRTYPE_IPV6HDR :: u32 where [simp]: "IXGBE_PSRTYPE_IPV6HDR = 0x00000200"
definition IXGBE_PSRTYPE_L2HDR :: u32 where [simp]: "IXGBE_PSRTYPE_L2HDR = 0x00001000"
definition IXGBE_MRQC_RSSEN :: u32 where [simp]: "IXGBE_MRQC_RSSEN = 0x00000001"
definition IXGBE_MRQC_RSS_FIELD_IPV4_TCP :: u32 where [simp]: "IXGBE_MRQC_RSS_FIELD_IPV4_TCP = 0x00010000"
definition IXGBE_MRQC_RSS_FIELD_IPV4 :: u32 where [simp]: "IXGBE_MRQC_RSS_FIELD_IPV4 = 0x00020000"
definition IXGBE_MRQC_RSS_FIELD_IPV6 :: u32 where [simp]: "IXGBE_MRQC_RSS_FIELD_IPV6 = 0x00100000"
definition IXGBE_MRQC_RSS_FIELD_IPV6_TCP :: u32 where [simp]: "IXGBE_MRQC_RSS_FIELD_IPV6_TCP = 0x00200000"
definition IXGBEVF_X550_VFRETA_SIZE :: nat where [simp]: "IXGBEVF_X550_VFRETA_SIZE = 64"
definition IXGBEVF_VFRSSRK_REGS :: nat where [simp]: "IXGBEVF_VFRSSRK_REGS = 10"
definition IXGBEVF_MAX_RX_DESC_POLL :: nat where [simp]: "IXGBEVF_MAX_RX_DESC_POLL = 10"
definition ETH_FCS_LEN :: u32 where [simp]: "ETH_FCS_LEN = 4"

definition on_ring_of :: "ring_kind \<Rightarrow> nat \<Rightarrow> 'a ringop \<Rightarrow> 'a adop" where
  "on_ring_of k i m = (if k = Xdp_ring then on_rx i (on_xdp_ring m) else on_tx i m)"

definition the_ring :: "ring_kind \<Rightarrow> nat \<Rightarrow> adapter \<Rightarrow> qring" where
  "the_ring k i a = the (table k (ad_q a) i)"

definition reg_of :: "ring_kind \<Rightarrow> nat \<Rightarrow> adapter \<Rightarrow> u32" where
  "reg_of k i a = ucast (of_nat (qr_reg_idx (the_ring k i a)) :: u8)"

subsection \<open>Transmit\<close>

text \<open>\<open>do \<dots> while (--wait_loop && !(txdctl & ENABLE))\<close>\<close>

primrec wait_tx_enabled :: "env \<Rightarrow> u32 \<Rightarrow> nat \<Rightarrow> unit adop" where
  "wait_tx_enabled E reg 0 = ret ()"
| "wait_tx_enabled E reg (Suc wait_loop) = do {
     hw_op (msleep 1);
     txdctl \<leftarrow> rd E reg;
     if txdctl AND IXGBE_TXDCTL_ENABLE = 0 then wait_tx_enabled E reg wait_loop else ret () }"

definition ixgbevf_configure_tx_ring :: "env \<Rightarrow> ring_kind \<Rightarrow> nat \<Rightarrow> unit adop" where
  "ixgbevf_configure_tx_ring E k i = do {
     ring \<leftarrow> gets (the_ring k i);
     r \<leftarrow> gets (reg_of k i);
     tdba \<leftarrow> gets (\<lambda>a. rm_dma (ring_mems a k i));
     let txdctl = IXGBE_TXDCTL_ENABLE;
     wr (IXGBE_VFTXDCTL r) IXGBE_TXDCTL_SWFLSH;
     hw_op (IXGBE_WRITE_FLUSH E);
     wr (IXGBE_VFTDBAL r) (ucast tdba);
     wr (IXGBE_VFTDBAH r) (ucast (drop_bit 32 tdba));
     wr (IXGBE_VFTDLEN r) (ucast (qr_count ring) * 16);
     wr (IXGBE_VFTDWBAH r) 0;
     wr (IXGBE_VFTDWBAL r) 0;
     wr (IXGBE_VFDCA_TXCTRL r) (IXGBE_DCA_TXCTRL_DESC_RRO_EN OR IXGBE_DCA_TXCTRL_DATA_RRO_EN);
     wr (IXGBE_VFTDH r) 0;
     wr (IXGBE_VFTDT r) 0;
     itr \<leftarrow> gets (\<lambda>a. qv_itr (vecs a (qr_vector ring)));
     let txdctl = txdctl OR (if itr < 8 then push_bit 16 1 else push_bit 16 8);
     let txdctl = txdctl OR push_bit 8 1 OR 32;
     on_ring_of k i tx_ring_reinit;
     wr (IXGBE_VFTXDCTL r) txdctl;
     wait_tx_enabled E (IXGBE_VFTXDCTL r) 10 }"

definition ixgbevf_configure_tx :: "env \<Rightarrow> unit adop" where
  "ixgbevf_configure_tx E = do {
     q \<leftarrow> gets ad_q;
     for_each [0..<num_tx_queues q] (ixgbevf_configure_tx_ring E Tx_ring);
     for_each [0..<num_xdp_queues q] (ixgbevf_configure_tx_ring E Xdp_ring) }"

subsection \<open>Receive\<close>

definition ixgbevf_configure_srrctl :: "nat \<Rightarrow> u32 \<Rightarrow> unit adop" where
  "ixgbevf_configure_srrctl i index = do {
     st \<leftarrow> gets (\<lambda>a. rx_state (rx_rings a i));
     let srrctl = IXGBE_SRRCTL_DROP_EN;
     let srrctl = srrctl OR push_bit IXGBE_SRRCTL_BSIZEHDRSIZE_SHIFT IXGBEVF_RX_HDR_SIZE;
     let srrctl = srrctl OR (if ring_uses_large_buffer st then drop_bit IXGBE_SRRCTL_BSIZEPKT_SHIFT IXGBEVF_RXBUFFER_3072
       else drop_bit IXGBE_SRRCTL_BSIZEPKT_SHIFT IXGBEVF_RXBUFFER_2048);
     let srrctl = srrctl OR IXGBE_SRRCTL_DESCTYPE_ADV_ONEBUF;
     wr (IXGBE_VFSRRCTL index) srrctl }"

definition ixgbevf_setup_psrtype :: "unit adop" where
  "ixgbevf_setup_psrtype = do {
     n \<leftarrow> gets (\<lambda>a. num_rx_queues (ad_q a));
     let psrtype = IXGBE_PSRTYPE_TCPHDR OR IXGBE_PSRTYPE_UDPHDR OR IXGBE_PSRTYPE_IPV4HDR OR IXGBE_PSRTYPE_IPV6HDR OR IXGBE_PSRTYPE_L2HDR;
     let psrtype = (if n > 1 then psrtype OR push_bit 29 1 else psrtype);
     wr IXGBE_VFPSRTYPE psrtype }"

primrec wait_rx_disabled :: "env \<Rightarrow> u32 \<Rightarrow> nat \<Rightarrow> unit adop" where
  "wait_rx_disabled E reg 0 = ret ()"
| "wait_rx_disabled E reg (Suc wait_loop) = do {
     hw_op (udelay 10);
     rxdctl \<leftarrow> rd E reg;
     if rxdctl AND IXGBE_RXDCTL_ENABLE \<noteq> 0 then wait_rx_disabled E reg wait_loop else ret () }"

definition ixgbevf_disable_rx_queue :: "env \<Rightarrow> nat \<Rightarrow> unit adop" where
  "ixgbevf_disable_rx_queue E i = do {
     r \<leftarrow> gets (reg_of Rx_ring i);
     addr \<leftarrow> gets (\<lambda>a. hw_addr (ad_hw a));
     if addr = 0 then ret () else do {
       rxdctl \<leftarrow> rd E (IXGBE_VFRXDCTL r);
       let rxdctl = rxdctl AND NOT IXGBE_RXDCTL_ENABLE;
       wr (IXGBE_VFRXDCTL r) rxdctl;
       wait_rx_disabled E (IXGBE_VFRXDCTL r) IXGBEVF_MAX_RX_DESC_POLL } }"

primrec wait_rx_enabled :: "env \<Rightarrow> u32 \<Rightarrow> nat \<Rightarrow> unit adop" where
  "wait_rx_enabled E reg 0 = ret ()"
| "wait_rx_enabled E reg (Suc wait_loop) = do {
     kernel_call ''usleep_range'' [1000, 2000];
     rxdctl \<leftarrow> rd E reg;
     if rxdctl AND IXGBE_RXDCTL_ENABLE = 0 then wait_rx_enabled E reg wait_loop else ret () }"

definition ixgbevf_rx_desc_queue_enable :: "env \<Rightarrow> nat \<Rightarrow> unit adop" where
  "ixgbevf_rx_desc_queue_enable E i = do {
     r \<leftarrow> gets (reg_of Rx_ring i);
     addr \<leftarrow> gets (\<lambda>a. hw_addr (ad_hw a));
     if addr = 0 then ret () else wait_rx_enabled E (IXGBE_VFRXDCTL r) IXGBEVF_MAX_RX_DESC_POLL }"

text \<open>The random key comes from the kernel.\<close>

definition ixgbevf_init_rss_key :: "env \<Rightarrow> (nat \<Rightarrow> u32) \<Rightarrow> int adop" where
  "ixgbevf_init_rss_key E netdev_rss_key = do {
     k \<leftarrow> gets rss_key;
     if k \<noteq> None then ret 0
     else do {
       p \<leftarrow> hw_op (kcall E ''kzalloc rss_key'' []);
       if p = 0 then ret (- ENOMEM)
       else do { modify (\<lambda>a. a\<lparr>rss_key := Some (map netdev_rss_key [0..<IXGBEVF_VFRSSRK_REGS])\<rparr>); ret 0 } } }"

text \<open>The loop over the redirection table; \<open>i\<close>, \<open>j\<close> and the word under construction.\<close>

primrec fill_reta :: "u32 \<Rightarrow> nat \<Rightarrow> nat \<Rightarrow> u8 \<Rightarrow> u32 \<Rightarrow> unit adop" where
  "fill_reta rss_i 0 i j vfreta = ret ()"
| "fill_reta rss_i (Suc n) i j vfreta = do {
     let j = (if ucast j = rss_i then 0 else j);
     modify (\<lambda>a. a\<lparr>rss_indir_tbl := (rss_indir_tbl a)[i := j]\<rparr>);
     let vfreta = vfreta OR push_bit ((i mod 4) * 8) (ucast j);
     if i mod 4 = 3 then do {
       wr (IXGBE_VFRETA (of_nat (i div 4))) vfreta;
       fill_reta rss_i n (i + 1) (j + 1) 0
     } else fill_reta rss_i n (i + 1) (j + 1) vfreta }"

definition ixgbevf_setup_vfmrqc :: "unit adop" where
  "ixgbevf_setup_vfmrqc = do {
     a \<leftarrow> gets id;
     let rss_i = of_nat (num_rx_queues (ad_q a));
     for_each [0..<IXGBEVF_VFRSSRK_REGS] (\<lambda>i. wr (IXGBE_VFRSSRK (of_nat i)) (the (rss_key a) ! i));
     fill_reta rss_i IXGBEVF_X550_VFRETA_SIZE 0 0 0;
     let vfmrqc = IXGBE_MRQC_RSS_FIELD_IPV4 OR IXGBE_MRQC_RSS_FIELD_IPV4_TCP OR IXGBE_MRQC_RSS_FIELD_IPV6 OR IXGBE_MRQC_RSS_FIELD_IPV6_TCP;
     let vfmrqc = vfmrqc OR IXGBE_MRQC_RSSEN;
     wr IXGBE_VFMRQC vfmrqc }"

definition ixgbevf_configure_rx_ring :: "env \<Rightarrow> (nat \<Rightarrow> rxenv) \<Rightarrow> nat \<Rightarrow> unit adop" where
  "ixgbevf_configure_rx_ring E R i = do {
     ring \<leftarrow> gets (the_ring Rx_ring i);
     r \<leftarrow> gets (reg_of Rx_ring i);
     rdba \<leftarrow> gets (\<lambda>a. rm_dma (ring_mems a Rx_ring i));
     rxdctl \<leftarrow> rd E (IXGBE_VFRXDCTL r);
     ixgbevf_disable_rx_queue E i;
     wr (IXGBE_VFRDBAL r) (ucast rdba);
     wr (IXGBE_VFRDBAH r) (ucast (drop_bit 32 rdba));
     wr (IXGBE_VFRDLEN r) (ucast (qr_count ring) * 16);
     wr (IXGBE_VFDCA_RXCTRL r) IXGBE_DCA_RXCTRL_DESC_RRO_EN;
     wr (IXGBE_VFRDH r) 0;
     wr (IXGBE_VFRDT r) 0;
     on_rx i rx_ring_reinit;
     ixgbevf_configure_srrctl i r;
     a \<leftarrow> gets id;
     let st = rx_state (rx_rings a i);
     let rxdctl = (if mac_type (mac (ad_hw a)) \<noteq> Ixgbe_mac_82599_vf then
         let rlpml = mtu a + ucast ETH_HLEN + ETH_FCS_LEN;
             rxdctl = rxdctl AND NOT (IXGBE_RXDCTL_RLPMLMASK OR IXGBE_RXDCTL_RLPML_EN);
             rlpml = (if ring_uses_build_skb st \<and> \<not> ring_uses_large_buffer st then min rlpml (IXGBEVF_MAX_FRAME_BUILD_SKB (R i)) else rlpml)
         in rxdctl OR rlpml OR IXGBE_RXDCTL_RLPML_EN
       else rxdctl);
     let rxdctl = rxdctl OR IXGBE_RXDCTL_ENABLE OR IXGBE_RXDCTL_VME;
     wr (IXGBE_VFRXDCTL r) rxdctl;
     ixgbevf_rx_desc_queue_enable E i;
     n \<leftarrow> gets (\<lambda>a. rx_desc_unused (rx_rings a i));
     on_rx i (ixgbevf_alloc_rx_buffers (R i) n) }"

definition ixgbevf_set_rx_buffer_len :: "(nat \<Rightarrow> rxenv) \<Rightarrow> nat \<Rightarrow> unit adop" where
  "ixgbevf_set_rx_buffer_len R i = do {
     a \<leftarrow> gets id;
     let max_frame = mtu a + ucast ETH_HLEN + ETH_FCS_LEN;
     on_rx i (modify (\<lambda>r. r\<lparr>rx_state := rx_state r - {RX_BUILD_SKB_ENABLED, RX_3K_BUFFER}\<rparr>));
     if legacy_rx a then ret ()
     else do {
       on_rx i (modify (\<lambda>r. r\<lparr>rx_state := insert RX_BUILD_SKB_ENABLED (rx_state r)\<rparr>));
       if max_frame \<le> IXGBEVF_MAX_FRAME_BUILD_SKB (R i) then ret ()
       else on_rx i (modify (\<lambda>r. r\<lparr>rx_state := insert RX_3K_BUFFER (rx_state r)\<rparr>)) } }"

definition ixgbevf_configure_rx :: "env \<Rightarrow> (nat \<Rightarrow> rxenv) \<Rightarrow> unit adop" where
  "ixgbevf_configure_rx E R = do {
     ixgbevf_setup_psrtype;
     t \<leftarrow> gets (\<lambda>a. mac_type (mac (ad_hw a)));
     whenM (t \<ge> Ixgbe_mac_X550_vf) ixgbevf_setup_vfmrqc;
     m \<leftarrow> gets mtu;
     ret' \<leftarrow> hw_op (call_set_rlpml E (ucast (m + ucast ETH_HLEN + ETH_FCS_LEN)));
     n \<leftarrow> gets (\<lambda>a. num_rx_queues (ad_q a));
     for_each [0..<n] (\<lambda>i. do { ixgbevf_set_rx_buffer_len R i; ixgbevf_configure_rx_ring E R i }) }"

end
