(* ===== verification/Config_Props.thy ===== *)
theory Config_Props
  imports Configure
begin

text \<open>
  What programming the queues leaves in the device: the redirection table of receive-side scaling as the
  driver's table in packed form.
\<close>

definition logged :: "u32 \<Rightarrow> u32 \<Rightarrow> adapter \<Rightarrow> adapter" where
  "logged reg v a = a\<lparr>ad_q := (ad_q a)\<lparr>qs_hw := (ad_hw a)\<lparr>io := MMIO_Write reg v # io (ad_hw a)\<rparr>\<rparr>\<rparr>"

lemma wr_live: "hw_addr (ad_hw a) \<noteq> 0 \<Longrightarrow> run_state (wr reg v) a = ((), logged reg v a)"
  by (simp add: wr_def run_hw_op write_reg_live logged_def)

lemma logged_simps [simp]:
  "hw_addr (ad_hw (logged reg v a)) = hw_addr (ad_hw a)" "io (ad_hw (logged reg v a)) = MMIO_Write reg v # io (ad_hw a)"
  "rss_indir_tbl (logged reg v a) = rss_indir_tbl a" "rss_key (logged reg v a) = rss_key a"
  by (simp_all add: logged_def)

subsection \<open>Redirection table\<close>

text \<open>Word \<open>w\<close> of the table for \<open>n\<close> queues.\<close>

definition reta_word :: "nat \<Rightarrow> nat \<Rightarrow> u32" where
  "reta_word n w = of_nat ((4 * w) mod n) OR push_bit 8 (of_nat ((4 * w + 1) mod n)) OR push_bit 16 (of_nat ((4 * w + 2) mod n))
     OR push_bit 24 (of_nat ((4 * w + 3) mod n))"

lemma bit_small: "m < 256 \<Longrightarrow> 8 \<le> k \<Longrightarrow> \<not> bit (of_nat m :: u32) k"
proof
  assume m: "m < 256" "8 \<le> k" and bit: "bit (of_nat m :: u32) k"
  have "(256 :: nat) \<le> 2 ^ k" using power_increasing [OF m(2), of "2 :: nat"] by simp
  then have "\<not> bit m k" using m(1) by (simp add: bit_iff_odd)
  moreover have "bit (unat (of_nat m :: u32)) k" using bit by (simp add: bit_unsigned_iff)
  ultimately show False by (simp add: unsigned_of_nat bit_take_bit_iff)
qed

lemma reta_word_byte:
  assumes "0 < n" "n \<le> 256" "k < 4"
  shows "byte_at (8 * k) (reta_word n w) = of_nat ((4 * w + k) mod n)"
proof -
  have lt: "x mod n < 256" for x using assms(1,2) by (meson mod_less_divisor less_le_trans)
  have k: "k = 0 \<or> k = 1 \<or> k = 2 \<or> k = 3" using assms(3) by linarith
  show ?thesis
  proof (rule bit_eqI)
    fix m assume "possible_bit TYPE(u32) m"
    then have "m < 32" by simp
    show "bit (byte_at (8 * k) (reta_word n w)) m \<longleftrightarrow> bit (of_nat ((4 * w + k) mod n) :: u32) m"
      using k bit_small [OF lt, of _ "4 * w"] bit_small [OF lt, of _ "4 * w + 1"] bit_small [OF lt, of _ "4 * w + 2"] bit_small [OF lt, of _ "4 * w + 3"]
      by (cases "m < 8") (auto simp: bit_byte_at reta_word_def bit_or_iff bit_push_bit_iff not_less)
  qed
qed

text \<open>The counter of the loop on entry to index \<open>i\<close>: the previous entry plus one.\<close>

definition reta_count :: "nat \<Rightarrow> nat \<Rightarrow> u8" where
  "reta_count n i = (if i = 0 then 0 else of_nat ((i - 1) mod n + 1))"

lemma reta_entry:
  assumes "0 < n" "n < 256"
  shows "(if (ucast (reta_count n i) :: u32) = of_nat n then 0 else reta_count n i) = of_nat (i mod n)"
    and "of_nat (i mod n) + 1 = reta_count n (Suc i)"
proof -
  show "of_nat (i mod n) + 1 = reta_count n (Suc i)" by (simp add: reta_count_def)
  show "(if (ucast (reta_count n i) :: u32) = of_nat n then 0 else reta_count n i) = of_nat (i mod n)"
  proof (cases i)
    case 0
    then show ?thesis using assms by (simp add: reta_count_def word_of_nat_eq_0_iff)
  next
    case (Suc m)
    have lt: "m mod n < n" using assms(1) by simp
    then have "m mod n + 1 \<le> n" by simp
    then have u: "unat (of_nat (m mod n + 1) :: u8) = m mod n + 1" using assms(2) by (simp add: unsigned_of_nat take_bit_nat_eq_self del: of_nat_add of_nat_Suc)
    then have c: "(ucast (of_nat (m mod n + 1) :: u8) :: u32) = of_nat (m mod n + 1)" by (metis of_nat_unat)
    have eq: "(of_nat (m mod n + 1) :: u32) = of_nat n \<longleftrightarrow> m mod n + 1 = n"
      using assms(2) lt by (simp add: word_of_nat_eq_iff take_bit_nat_eq_self del: of_nat_add of_nat_Suc)
    show ?thesis using Suc c eq by (auto simp: reta_count_def mod_Suc simp del: of_nat_add of_nat_Suc)
  qed
qed

definition with_entry :: "nat \<Rightarrow> u8 \<Rightarrow> adapter \<Rightarrow> adapter" where
  "with_entry i j a = a\<lparr>rss_indir_tbl := (rss_indir_tbl a)[i := j]\<rparr>"

lemma with_entry_simps [simp]: "hw_addr (ad_hw (with_entry i j a)) = hw_addr (ad_hw a)" "io (ad_hw (with_entry i j a)) = io (ad_hw a)"
  "rss_indir_tbl (with_entry i j a) = (rss_indir_tbl a)[i := j]"
  by (simp_all add: with_entry_def)

lemma fill_reta_step:
  assumes "0 < n" "n < 256"
  shows "run_state (fill_reta (of_nat n) (Suc m) i (reta_count n i) v) a = (
    let v' = v OR push_bit ((i mod 4) * 8) (of_nat (i mod n)); a' = with_entry i (of_nat (i mod n)) a in
    if i mod 4 = 3 then run_state (do { wr (IXGBE_VFRETA (of_nat (i div 4))) v'; fill_reta (of_nat n) m (Suc i) (reta_count n (Suc i)) 0 }) a'
    else run_state (fill_reta (of_nat n) m (Suc i) (reta_count n (Suc i)) v') a')"
proof -
  have "i mod n < 256" using assms by (meson mod_less_divisor order_less_trans)
  then have u: "unat (of_nat (i mod n) :: u8) = i mod n" by (simp add: unsigned_of_nat take_bit_nat_eq_self)
  have "(ucast (of_nat (i mod n) :: u8) :: u32) = of_nat (i mod n)" by (metis of_nat_unat u)
  then show ?thesis
    unfolding fill_reta.simps Let_def reta_entry(1) [OF assms] reta_entry(2) [OF assms, symmetric] by (simp add: with_entry_def)
qed

lemma fill_reta_word:
  assumes n: "0 < n" "n < 256" and hw: "hw_addr (ad_hw a) \<noteq> 0"
  shows "run_state (fill_reta (of_nat n) (Suc (Suc (Suc (Suc m)))) (4 * w) (reta_count n (4 * w)) 0) a =
    run_state (fill_reta (of_nat n) m (4 * Suc w) (reta_count n (4 * Suc w)) 0)
      (logged (IXGBE_VFRETA (of_nat w)) (reta_word n w)
        (with_entry (4 * w + 3) (of_nat ((4 * w + 3) mod n)) (with_entry (4 * w + 2) (of_nat ((4 * w + 2) mod n))
        (with_entry (4 * w + 1) (of_nat ((4 * w + 1) mod n)) (with_entry (4 * w) (of_nat ((4 * w) mod n)) a)))))"
proof -
  have mods: "4 * w mod 4 = 0" "Suc (4 * w) mod 4 = 1" "Suc (Suc (4 * w)) mod 4 = 2" "Suc (Suc (Suc (4 * w))) mod 4 = 3"
    "Suc (Suc (Suc (4 * w))) div 4 = w" by presburger+
  have sums: "4 * w + 1 = Suc (4 * w)" "4 * w + 2 = Suc (Suc (4 * w))" "4 * w + 3 = Suc (Suc (Suc (4 * w)))" "4 * Suc w = Suc (Suc (Suc (Suc (4 * w))))"
    by simp_all
  show ?thesis
    unfolding fill_reta_step [OF n] Let_def mods sums reta_word_def
    by (simp add: wr_live hw or.assoc del: fill_reta.simps IXGBE_VFRETA_def of_nat_Suc)
qed

lemma fill_reta_words:
  assumes n: "0 < n" "n < 256"
  shows "hw_addr (ad_hw a) \<noteq> 0 \<Longrightarrow> \<exists>b. run_state (fill_reta (of_nat n) (4 * k) (4 * w) (reta_count n (4 * w)) 0) a = ((), b) \<and>
    hw_addr (ad_hw b) = hw_addr (ad_hw a) \<and> length (rss_indir_tbl b) = length (rss_indir_tbl a) \<and>
    (\<forall>i < length (rss_indir_tbl a). rss_indir_tbl b ! i = (if 4 * w \<le> i \<and> i < 4 * (w + k) then of_nat (i mod n) else rss_indir_tbl a ! i)) \<and>
    mmio_writes (io (ad_hw b)) = mmio_writes (io (ad_hw a)) @ map (\<lambda>u. (IXGBE_VFRETA (of_nat u), reta_word n u)) [w..<w + k]"
proof (induction k arbitrary: w a)
  case 0
  then show ?case by auto
next
  case (Suc k)
  let ?a = "logged (IXGBE_VFRETA (of_nat w)) (reta_word n w)
        (with_entry (4 * w + 3) (of_nat ((4 * w + 3) mod n)) (with_entry (4 * w + 2) (of_nat ((4 * w + 2) mod n))
        (with_entry (4 * w + 1) (of_nat ((4 * w + 1) mod n)) (with_entry (4 * w) (of_nat ((4 * w) mod n)) a))))"
  have "hw_addr (ad_hw ?a) \<noteq> 0" using Suc.prems by simp
  from Suc.IH [OF this, of "Suc w"] obtain b where b: "run_state (fill_reta (of_nat n) (4 * k) (4 * Suc w) (reta_count n (4 * Suc w)) 0) ?a = ((), b)"
    "hw_addr (ad_hw b) = hw_addr (ad_hw ?a)" "length (rss_indir_tbl b) = length (rss_indir_tbl ?a)"
    "\<forall>i < length (rss_indir_tbl ?a). rss_indir_tbl b ! i = (if 4 * Suc w \<le> i \<and> i < 4 * (Suc w + k) then of_nat (i mod n) else rss_indir_tbl ?a ! i)"
    "mmio_writes (io (ad_hw b)) = mmio_writes (io (ad_hw ?a)) @ map (\<lambda>u. (IXGBE_VFRETA (of_nat u), reta_word n u)) [Suc w..<Suc w + k]" by blast
  have four: "4 * Suc k = Suc (Suc (Suc (Suc (4 * k))))" by simp
  have run: "run_state (fill_reta (of_nat n) (4 * Suc k) (4 * w) (reta_count n (4 * w)) 0) a = ((), b)"
    unfolding four fill_reta_word [OF n Suc.prems] by (rule b(1))
  have tab: "rss_indir_tbl b ! i = (if 4 * w \<le> i \<and> i < 4 * (w + Suc k) then of_nat (i mod n) else rss_indir_tbl a ! i)"
    if i: "i < length (rss_indir_tbl a)" for i
  proof -
    have "i < 4 * w \<or> i = 4 * w \<or> i = 4 * w + 1 \<or> i = 4 * w + 2 \<or> i = 4 * w + 3 \<or> 4 * Suc w \<le> i" by presburger
    then show ?thesis using b(4) i by (elim disjE) (simp_all add: nth_list_update)
  qed
  have "mmio_writes (io (ad_hw b)) = mmio_writes (io (ad_hw a)) @ map (\<lambda>u. (IXGBE_VFRETA (of_nat u), reta_word n u)) [w..<w + Suc k]"
    using b(5) by (simp add: upt_conv_Cons del: upt_Suc)
  then show ?case using run b(2,3) tab by auto
qed

lemma wr_each:
  "hw_addr (ad_hw a) \<noteq> 0 \<Longrightarrow> \<exists>b. run_state (for_each is (\<lambda>i. wr (f i) (g i))) a = ((), b) \<and> hw_addr (ad_hw b) = hw_addr (ad_hw a) \<and>
     rss_indir_tbl b = rss_indir_tbl a \<and> mmio_writes (io (ad_hw b)) = mmio_writes (io (ad_hw a)) @ map (\<lambda>i. (f i, g i)) is"
proof (induction "is" arbitrary: a)
  case (Cons i "is")
  have "hw_addr (ad_hw (logged (f i) (g i) a)) \<noteq> 0" using Cons.prems by simp
  from Cons.IH [OF this] show ?case using Cons.prems by (auto simp: wr_live)
qed simp

text \<open>C14: The redirection table spreads the hash values evenly and is the driver's table. With \<open>n\<close> receive queues,
  \<open>ixgbevf_setup_vfmrqc\<close> fills entry \<open>i\<close> of the 64-entry table with queue \<open>i mod n\<close>, and writes, in this order, the
  ten words of the key, the sixteen words of the table, and the control word; entry \<open>i\<close> of the table is read
  back from byte \<open>i mod 4\<close> of word \<open>i div 4\<close>, so no hash value leads to a queue that does not exist.\<close>

theorem rss_table_programmed:
  assumes "hw_addr (ad_hw a) \<noteq> 0" and "0 < n" and "n < 256" and "num_rx_queues (ad_q a) = n" and "length (rss_indir_tbl a) = 64"
    and "run_state ixgbevf_setup_vfmrqc a = ((), a')"
  shows "(\<forall>i < 64. rss_indir_tbl a' ! i = of_nat (i mod n) \<and> i mod n < n \<and> byte_at (8 * (i mod 4)) (reta_word n (i div 4)) = of_nat (i mod n)) \<and>
    mmio_writes (io (ad_hw a')) = mmio_writes (io (ad_hw a)) @ map (\<lambda>i. (IXGBE_VFRSSRK (of_nat i), the (rss_key a) ! i)) [0..<10] @
      map (\<lambda>w. (IXGBE_VFRETA (of_nat w), reta_word n w)) [0..<16] @ [(IXGBE_VFMRQC, 0x00330001)]"
proof -
  obtain b where b: "run_state (for_each [0..<IXGBEVF_VFRSSRK_REGS] (\<lambda>i. wr (IXGBE_VFRSSRK (of_nat i)) (the (rss_key a) ! i))) a = ((), b)"
    "hw_addr (ad_hw b) = hw_addr (ad_hw a)" "rss_indir_tbl b = rss_indir_tbl a"
    "mmio_writes (io (ad_hw b)) = mmio_writes (io (ad_hw a)) @ map (\<lambda>i. (IXGBE_VFRSSRK (of_nat i), the (rss_key a) ! i)) [0..<10]"
    using wr_each [OF assms(1), of "[0..<10]" "\<lambda>i. IXGBE_VFRSSRK (of_nat i)" "\<lambda>i. the (rss_key a) ! i"] by (auto simp del: IXGBE_VFRSSRK_def)
  have "hw_addr (ad_hw b) \<noteq> 0" using b(2) assms(1) by simp
  from fill_reta_words [OF assms(2,3) this, of 16 0] obtain c where c: "run_state (fill_reta (of_nat n) 64 0 0 0) b = ((), c)"
    "hw_addr (ad_hw c) = hw_addr (ad_hw b)" "\<forall>i < 64. rss_indir_tbl c ! i = of_nat (i mod n)"
    "mmio_writes (io (ad_hw c)) = mmio_writes (io (ad_hw b)) @ map (\<lambda>u. (IXGBE_VFRETA (of_nat u), reta_word n u)) [0..<16]"
    using assms(5) b(3) by (auto simp: reta_count_def simp del: fill_reta.simps IXGBE_VFRETA_def)
  have "hw_addr (ad_hw c) \<noteq> 0" using c(2) b(2) assms(1) by simp
  moreover have "((), a') = run_state (wr IXGBE_VFMRQC 0x00330001) c"
    using assms(4,6) b(1) c(1) by (simp add: ixgbevf_setup_vfmrqc_def Let_def del: fill_reta.simps for_each.simps upt_Suc IXGBE_VFRSSRK_def)
  ultimately have a': "a' = logged IXGBE_VFMRQC 0x00330001 c" by (simp add: wr_live)
  have "byte_at (8 * (i mod 4)) (reta_word n (i div 4)) = of_nat (i mod n)" for i
    using reta_word_byte [of n "i mod 4" "i div 4"] assms(2,3) by simp
  moreover have "rss_indir_tbl a' ! i = of_nat (i mod n)" if "i < 64" for i using c(3) that by (simp add: a')
  moreover have "i mod n < n" for i using assms(2) by simp
  moreover have "mmio_writes (io (ad_hw a')) = mmio_writes (io (ad_hw c)) @ [(IXGBE_VFMRQC, 0x00330001)]" by (simp add: a')
  ultimately show ?thesis using c(4) b(4) by simp
qed

theorem rss_table_programmed_witness:
  "\<exists>a'. run_state ixgbevf_setup_vfmrqc (sample_adapter\<lparr>ad_q := sample_queues\<lparr>num_rx_queues := 2\<rparr>, rss_key := Some (replicate 10 0x1234)\<rparr>) = ((), a') \<and>
     rss_indir_tbl a' ! 0 = 0 \<and> rss_indir_tbl a' ! 63 = 1"
proof -
  let ?a = "sample_adapter\<lparr>ad_q := sample_queues\<lparr>num_rx_queues := 2\<rparr>, rss_key := Some (replicate 10 0x1234)\<rparr>"
  obtain a' where run: "run_state ixgbevf_setup_vfmrqc ?a = ((), a')" by (rule that, rule run_unit)
  have "hw_addr (ad_hw ?a) \<noteq> 0" "num_rx_queues (ad_q ?a) = 2" "length (rss_indir_tbl ?a) = 64"
    by (simp_all add: sample_queues_def sample_hw_def sample_adapter_def)
  from rss_table_programmed [OF this(1) _ _ this(2,3) run] have "\<forall>i < 64. rss_indir_tbl a' ! i = of_nat (i mod 2)" by simp
  then show ?thesis using run by simp
qed

end
