(* ===== verification/Filters.thy ===== *)
theory Filters
  imports Config_Props
begin

text \<open>
  Receive filters and the features agreed with the PF: VLAN identifiers, unicast and multicast addresses, the
  reception mode, traffic classes (\<open>ixgbevf_configure_dcb\<close>), the version of the mailbox API
  (\<open>ixgbevf_negotiate_api\<close>) and \<open>ixgbevf_configure\<close>, which brings all of it to the device before an interface
  goes up. The functions run under \<open>mbx_lock\<close>. \<open>stk\<close> is the content of the stack from which the multicast message is sent.
\<close>

definition VLAN_N_VID :: nat where [simp]: "VLAN_N_VID = 4096"
definition IFF_BROADCAST :: u32 where [simp]: "IFF_BROADCAST = 0x2"
definition IFF_PROMISC :: u32 where [simp]: "IFF_PROMISC = 0x100"
definition IFF_ALLMULTI :: u32 where [simp]: "IFF_ALLMULTI = 0x200"
definition IFF_MULTICAST :: u32 where [simp]: "IFF_MULTICAST = 0x1000"
definition IXGBEVF_PF_SUP_IPSEC :: u32 where [simp]: "IXGBEVF_PF_SUP_IPSEC = 0x1"
definition IXGBEVF_PF_SUP_ESX_MBX :: u32 where [simp]: "IXGBEVF_PF_SUP_ESX_MBX = 0x2"

subsection \<open>VLAN filter\<close>

definition ixgbevf_vlan_rx_add_vid :: "env \<Rightarrow> u16 \<Rightarrow> s32 adop" where
  "ixgbevf_vlan_rx_add_vid E vid = do {
     ret_val \<leftarrow> hw_op (call_set_vfta E (ucast vid) 0 True False);
     whenM (ret_val = 0 \<and> unat vid < VLAN_N_VID)
       (modify (\<lambda>a. a\<lparr>active_vlans := insert (unat vid) (active_vlans a)\<rparr>));
     ret ret_val }"

definition ixgbevf_vlan_rx_kill_vid :: "env \<Rightarrow> u16 \<Rightarrow> s32 adop" where
  "ixgbevf_vlan_rx_kill_vid E vid = do {
     hw_op (call_set_vfta E (ucast vid) 0 False False);
     modify (\<lambda>a. a\<lparr>active_vlans := active_vlans a - {unat vid}\<rparr>);
     ret 0 }"

text \<open>\<open>for_each_set_bit\<close> looks at the bitmap again for every bit.\<close>

definition ixgbevf_restore_vlan :: "env \<Rightarrow> unit adop" where
  "ixgbevf_restore_vlan E = for_each [0..<VLAN_N_VID] (\<lambda>vid. do {
     active \<leftarrow> gets (\<lambda>a. vid \<in> active_vlans a);
     whenM active (do { ixgbevf_vlan_rx_add_vid E (of_nat vid); ret () }) })"

subsection \<open>Addresses and reception mode\<close>

text \<open>The pointer into the address list is the rest of the list; past its end it is \<open>NULL\<close>.\<close>

definition ixgbevf_addr_list_itr :: "u8 list list \<Rightarrow> u8 list \<times> u8 list list" where
  "ixgbevf_addr_list_itr p = (case p of [] \<Rightarrow> ([], []) | addr # rest \<Rightarrow> (addr, rest))"

definition ixgbevf_write_uc_addr_list :: "env \<Rightarrow> nat adop" where
  "ixgbevf_write_uc_addr_list E = do {
     uc \<leftarrow> gets nd_uc;
     (if uc \<noteq> [] then
        for_each (enumerate 1 uc) (\<lambda>(n, ha). do { hw_op (call_set_uc_addr E (of_nat n) (Some ha)); hw_op (udelay 200) })
      else do { hw_op (call_set_uc_addr E 0 None); ret () });
     ret (length uc) }"

definition ixgbevf_set_rx_mode :: "env \<Rightarrow> (nat \<Rightarrow> u32) \<Rightarrow> unit adop" where
  "ixgbevf_set_rx_mode E stk = do {
     flags \<leftarrow> gets nd_flags;
     let xcast_mode =
       (if flags AND IFF_PROMISC \<noteq> 0 then IXGBEVF_XCAST_MODE_PROMISC
        else if flags AND IFF_ALLMULTI \<noteq> 0 then IXGBEVF_XCAST_MODE_ALLMULTI
        else if flags AND (IFF_BROADCAST OR IFF_MULTICAST) \<noteq> 0 then IXGBEVF_XCAST_MODE_MULTI
        else IXGBEVF_XCAST_MODE_NONE);
     addr_list \<leftarrow> gets nd_mc;
     hw_op (call_update_xcast_mode E xcast_mode);
     hw_op (call_update_mc_addr_list E stk addr_list (of_nat (length addr_list)) ixgbevf_addr_list_itr False);
     ixgbevf_write_uc_addr_list E;
     ret () }"

subsection \<open>Polling contexts\<close>

definition ixgbevf_napi_enable_all :: "unit adop" where
  "ixgbevf_napi_enable_all = do {
     n \<leftarrow> gets (\<lambda>a. num_q_vectors (ad_q a));
     for_each [0..<n] (\<lambda>q_idx. do {
       kernel_call ''napi_enable'' [int q_idx];
       modify (\<lambda>a. a\<lparr>napi_on := (napi_on a)(q_idx := True)\<rparr>) }) }"

definition ixgbevf_napi_disable_all :: "unit adop" where
  "ixgbevf_napi_disable_all = do {
     n \<leftarrow> gets (\<lambda>a. num_q_vectors (ad_q a));
     for_each [0..<n] (\<lambda>q_idx. do {
       kernel_call ''napi_disable'' [int q_idx];
       modify (\<lambda>a. a\<lparr>napi_on := (napi_on a)(q_idx := False)\<rparr>) }) }"

subsection \<open>Agreements with the PF\<close>

text \<open>The ring is one object; it is seen through the array and through the list of its vector.\<close>

definition set_tx0_reg :: "nat \<Rightarrow> queues \<Rightarrow> queues" where
  "set_tx0_reg reg s = (let upd = (\<lambda>r. if qr_kind r = Tx_ring \<and> queue_index r = 0 then r\<lparr>qr_reg_idx := reg\<rparr> else r) in
     s\<lparr>tx_ring_tab := (tx_ring_tab s)(0 := map_option upd (tx_ring_tab s 0)),
       q_vector_tab := (\<lambda>v. map_option (\<lambda>q. q\<lparr>qvec_tx := map upd (qvec_tx q)\<rparr>) (q_vector_tab s v))\<rparr>)"

definition ixgbevf_configure_dcb :: "env \<Rightarrow> s32 adop" where
  "ixgbevf_configure_dcb E = do {
     rxq \<leftarrow> gets (\<lambda>a. num_rx_queues (ad_q a));
     txq \<leftarrow> gets (\<lambda>a. num_tx_queues (ad_q a));
     (err, num_tcs, def_q) \<leftarrow> hw_op (ixgbevf_get_queues E 0 0);
     if err \<noteq> 0 then ret err else do {
       whenM (num_tcs > 1) (on_q (modify (set_tx0_reg (unat (ucast def_q :: u8)))));
       let num_tx_queues' = (if num_tcs > 1 then 1 else txq);
       let num_rx_queues' = (if num_tcs > 1 then unat num_tcs else rxq);
       whenM (rxq \<noteq> num_rx_queues' \<or> txq \<noteq> num_tx_queues') (do {
         hw_op (upd_mbx (\<lambda>m. m\<lparr>mbx_timeout := 0\<rparr>));
         set_bits (insert IXGBEVF_QUEUE_RESET_REQUESTED) });
       ret 0 } }"

definition ixgbevf_set_features :: "env \<Rightarrow> unit adop" where
  "ixgbevf_set_features E = do {
     f \<leftarrow> gets pf_features;
     (err, f) \<leftarrow> hw_op (call_negotiate_features E f);
     modify (\<lambda>a. a\<lparr>pf_features := f\<rparr>);
     api \<leftarrow> gets (\<lambda>a. api_version (ad_hw a));
     (if api = ixgbe_mbox_api_14 then modify (\<lambda>a. a\<lparr>pf_features := pf_features a OR IXGBEVF_PF_SUP_IPSEC\<rparr>)
      else if api = ixgbe_mbox_api_15 then modify (\<lambda>a. a\<lparr>pf_features := pf_features a OR IXGBEVF_PF_SUP_ESX_MBX\<rparr>)
      else ret ()) }"

primrec try_api_versions :: "env \<Rightarrow> int list \<Rightarrow> unit adop" where
  "try_api_versions E [] = ret ()"
| "try_api_versions E (api # rest) = do {
     err \<leftarrow> hw_op (call_negotiate_api_version E api);
     if err = 0 then ret () else try_api_versions E rest }"

definition ixgbevf_negotiate_api :: "env \<Rightarrow> unit adop" where
  "ixgbevf_negotiate_api E = do {
     try_api_versions E [ixgbe_mbox_api_17, ixgbe_mbox_api_16, ixgbe_mbox_api_15, ixgbe_mbox_api_13,
       ixgbe_mbox_api_12, ixgbe_mbox_api_11, ixgbe_mbox_api_10];
     ixgbevf_set_features E;
     f \<leftarrow> gets pf_features;
     whenM (f AND IXGBEVF_PF_SUP_ESX_MBX \<noteq> 0) (hw_op ixgbe_upgrade_mbx_params_vf) }"

definition ixgbevf_configure :: "env \<Rightarrow> (nat \<Rightarrow> u32) \<Rightarrow> (nat \<Rightarrow> rxenv) \<Rightarrow> unit adop" where
  "ixgbevf_configure E stk R = do {
     ixgbevf_configure_dcb E;
     ixgbevf_set_rx_mode E stk;
     ixgbevf_restore_vlan E;
     ixgbevf_configure_tx E;
     ixgbevf_configure_rx E R }"

end
