(* ===== verification/Resources.thy ===== *)
theory Resources
  imports Filters
begin

text \<open>
  The memory of the rings: \<open>ixgbevf_setup_tx_resources\<close>, \<open>ixgbevf_setup_rx_resources\<close>, their counterparts that free,
  and the loops over all rings with their unwinding. \<open>rm_info\<close> and \<open>rm_desc\<close> say that the pointers
  \<open>tx_buffer_info\<close> (or \<open>rx_buffer_info\<close>) and \<open>desc\<close> are not \<open>NULL\<close>. \<open>vmalloc\<close> fails with 0,
  \<open>dma_alloc_coherent\<close> with a negative number and otherwise returns the DMA address.
\<close>

definition upd_mem :: "ring_kind \<Rightarrow> nat \<Rightarrow> (ring_mem \<Rightarrow> ring_mem) \<Rightarrow> unit adop" where
  "upd_mem k i f = modify (\<lambda>a. a\<lparr>ring_mems := (ring_mems a)(k := (ring_mems a k)(i := f (ring_mems a k i)))\<rparr>)"

definition has_desc :: "ring_kind \<Rightarrow> nat \<Rightarrow> adapter \<Rightarrow> bool" where
  "has_desc k i a = rm_desc (ring_mems a k i)"

text \<open>\<open>ALIGN(x, 4096)\<close>\<close>

definition align_4k :: "u32 \<Rightarrow> u32" where
  "align_4k x = (x + 4095) AND NOT 4095"

subsection \<open>Transmit\<close>

definition ixgbevf_free_tx_resources :: "ring_kind \<Rightarrow> nat \<Rightarrow> unit adop" where
  "ixgbevf_free_tx_resources k i = do {
     on_ring_of k i ixgbevf_clean_tx_ring;
     kernel_call ''vfree'' [int i];
     upd_mem k i (\<lambda>m. m\<lparr>rm_info := False\<rparr>);
     m \<leftarrow> gets (\<lambda>a. ring_mems a k i);
     if \<not> rm_desc m then ret () else do {
       kernel_call ''dma_free_coherent'' [uint (rm_size m), uint (rm_dma m)];
       upd_mem k i (\<lambda>m. m\<lparr>rm_desc := False\<rparr>) } }"

definition free_if_desc :: "ring_kind \<Rightarrow> unit adop \<Rightarrow> nat \<Rightarrow> unit adop" where
  "free_if_desc k free i = do { d \<leftarrow> gets (has_desc k i); whenM d free }"

definition ixgbevf_free_all_tx_resources :: "unit adop" where
  "ixgbevf_free_all_tx_resources = do {
     n \<leftarrow> gets (\<lambda>a. num_tx_queues (ad_q a));
     for_each [0..<n] (\<lambda>i. free_if_desc Tx_ring (ixgbevf_free_tx_resources Tx_ring i) i);
     n \<leftarrow> gets (\<lambda>a. num_xdp_queues (ad_q a));
     for_each [0..<n] (\<lambda>i. free_if_desc Xdp_ring (ixgbevf_free_tx_resources Xdp_ring i) i) }"

definition setup_failed :: "ring_kind \<Rightarrow> nat \<Rightarrow> int adop" where
  "setup_failed k i = do {
     kernel_call ''vfree'' [int i];
     upd_mem k i (\<lambda>m. m\<lparr>rm_info := False\<rparr>);
     ret (- ENOMEM) }"

definition ixgbevf_setup_tx_resources :: "env \<Rightarrow> ring_kind \<Rightarrow> nat \<Rightarrow> int adop" where
  "ixgbevf_setup_tx_resources E k i = do {
     ring \<leftarrow> gets (the_ring k i);
     p \<leftarrow> hw_op (kcall E ''vmalloc'' [uint (qr_count ring)]);
     upd_mem k i (\<lambda>m. m\<lparr>rm_info := (p \<noteq> 0)\<rparr>);
     if p = 0 then setup_failed k i else do {
       let size = align_4k (ucast (qr_count ring) * 16);
       upd_mem k i (\<lambda>m. m\<lparr>rm_size := size\<rparr>);
       d \<leftarrow> hw_op (kcall E ''dma_alloc_coherent'' [uint size]);
       upd_mem k i (\<lambda>m. m\<lparr>rm_desc := (d \<ge> 0), rm_dma := (if d \<ge> 0 then word_of_int d else rm_dma m)\<rparr>);
       if d < 0 then setup_failed k i else ret 0 } }"

text \<open>The loops stop at the first failure: the error and the index.\<close>

primrec setup_each :: "(nat \<Rightarrow> int adop) \<Rightarrow> nat \<Rightarrow> nat \<Rightarrow> (int \<times> nat) adop" where
  "setup_each alloc 0 i = ret (0, i)"
| "setup_each alloc (Suc n) i = do {
     err \<leftarrow> alloc i;
     if err = 0 then setup_each alloc n (i + 1) else ret (err, i) }"

text \<open>\<open>while (i--)\<close>\<close>

primrec free_rings_below :: "(nat \<Rightarrow> unit adop) \<Rightarrow> nat \<Rightarrow> unit adop" where
  "free_rings_below free 0 = ret ()"
| "free_rings_below free (Suc i) = do { free i; free_rings_below free i }"

definition ixgbevf_setup_all_tx_resources :: "env \<Rightarrow> int adop" where
  "ixgbevf_setup_all_tx_resources E = do {
     n \<leftarrow> gets (\<lambda>a. num_tx_queues (ad_q a));
     (err, i) \<leftarrow> setup_each (ixgbevf_setup_tx_resources E Tx_ring) n 0;
     if err \<noteq> 0 then do { free_rings_below (ixgbevf_free_tx_resources Tx_ring) i; ret err }
     else do {
       n \<leftarrow> gets (\<lambda>a. num_xdp_queues (ad_q a));
       (err, j) \<leftarrow> setup_each (ixgbevf_setup_tx_resources E Xdp_ring) n 0;
       if err \<noteq> 0 then do {
         free_rings_below (ixgbevf_free_tx_resources Xdp_ring) j;
         free_rings_below (ixgbevf_free_tx_resources Tx_ring) i;
         ret err }
       else ret 0 } }"

subsection \<open>Receive\<close>

definition ixgbevf_free_rx_resources :: "(nat \<Rightarrow> rxenv) \<Rightarrow> nat \<Rightarrow> unit adop" where
  "ixgbevf_free_rx_resources R i = do {
     on_rx i (ixgbevf_clean_rx_ring (R i));
     on_rx i (modify (\<lambda>r. r\<lparr>xdp_prog := False\<rparr>));
     kernel_call ''xdp_rxq_info_unreg'' [int i];
     upd_mem Rx_ring i (\<lambda>m. m\<lparr>rm_xdp_reg := False\<rparr>);
     kernel_call ''vfree'' [int i];
     upd_mem Rx_ring i (\<lambda>m. m\<lparr>rm_info := False\<rparr>);
     m \<leftarrow> gets (\<lambda>a. ring_mems a Rx_ring i);
     kernel_call ''dma_free_coherent'' [uint (rm_size m), uint (rm_dma m)];
     upd_mem Rx_ring i (\<lambda>m. m\<lparr>rm_desc := False\<rparr>) }"

definition ixgbevf_free_all_rx_resources :: "(nat \<Rightarrow> rxenv) \<Rightarrow> unit adop" where
  "ixgbevf_free_all_rx_resources R = do {
     n \<leftarrow> gets (\<lambda>a. num_rx_queues (ad_q a));
     for_each [0..<n] (\<lambda>i. free_if_desc Rx_ring (ixgbevf_free_rx_resources R i) i) }"

definition ixgbevf_setup_rx_resources :: "env \<Rightarrow> nat \<Rightarrow> int adop" where
  "ixgbevf_setup_rx_resources E i = do {
     ring \<leftarrow> gets (the_ring Rx_ring i);
     p \<leftarrow> hw_op (kcall E ''vmalloc'' [uint (qr_count ring)]);
     upd_mem Rx_ring i (\<lambda>m. m\<lparr>rm_info := (p \<noteq> 0)\<rparr>);
     if p = 0 then setup_failed Rx_ring i else do {
       let size = align_4k (ucast (qr_count ring) * 16);
       upd_mem Rx_ring i (\<lambda>m. m\<lparr>rm_size := size\<rparr>);
       d \<leftarrow> hw_op (kcall E ''dma_alloc_coherent'' [uint size]);
       upd_mem Rx_ring i (\<lambda>m. m\<lparr>rm_desc := (d \<ge> 0), rm_dma := (if d \<ge> 0 then word_of_int d else rm_dma m)\<rparr>);
       if d < 0 then setup_failed Rx_ring i else do {
         x \<leftarrow> hw_op (kcall E ''xdp_rxq_info_reg'' [int (queue_index ring)]);
         if x < 0 then setup_failed Rx_ring i else do {
           upd_mem Rx_ring i (\<lambda>m. m\<lparr>rm_xdp_reg := True\<rparr>);
           prog \<leftarrow> gets (\<lambda>a. qs_xdp_prog (ad_q a));
           on_rx i (modify (\<lambda>r. r\<lparr>xdp_prog := prog\<rparr>));
           ret 0 } } } }"

definition ixgbevf_setup_all_rx_resources :: "env \<Rightarrow> (nat \<Rightarrow> rxenv) \<Rightarrow> int adop" where
  "ixgbevf_setup_all_rx_resources E R = do {
     n \<leftarrow> gets (\<lambda>a. num_rx_queues (ad_q a));
     (err, i) \<leftarrow> setup_each (ixgbevf_setup_rx_resources E) n 0;
     if err \<noteq> 0 then do { free_rings_below (ixgbevf_free_rx_resources R) i; ret err } else ret 0 }"

end
