(* ===== verification/Lifecycle.thy ===== *)
theory Lifecycle
  imports Resources
begin

text \<open>
  The life of an interface: bringing it up and down, reset, open and close, the service task with its subtasks, and
  the entry points that change an address or the frame size. The world outside is one record \<open>host\<close>: the device and the
  kernel, whether configuration space is memory mapped, what uninitialised stack variables of a function
  hold, and the environments of the receive rings.

  The code runs under the locks it takes; a wait for a bit that another thread holds does not return in this
  sequential model and is the value \<open>None\<close>. Messages to the log are left out.
\<close>

record host =
  host_env :: env
  host_mmconfig :: bool
  host_stack :: "string \<Rightarrow> nat \<Rightarrow> u32"
  host_rx :: "nat \<Rightarrow> rxenv"
  host_cpus :: nat

definition IXGBE_RAH_AV :: u32 where [simp]: "IXGBE_RAH_AV = 0x80000000"
definition EIO :: int where [simp]: "EIO = 5"
definition EPERM :: int where [simp]: "EPERM = 1"
definition EINVAL :: int where [simp]: "EINVAL = 22"
definition EADDRNOTAVAIL :: int where [simp]: "EADDRNOTAVAIL = 99"

definition jiffies_now :: "env \<Rightarrow> adapter \<Rightarrow> u64" where
  "jiffies_now E a = jiffies_at E (io (ad_hw a))"

definition is_zero_ether_addr :: "u8 list \<Rightarrow> bool" where
  "is_zero_ether_addr addr \<longleftrightarrow> (\<forall>b \<in> set (take 6 addr). b = 0)"

text \<open>Not a multicast address and not zero.\<close>

definition is_valid_ether_addr :: "u8 list \<Rightarrow> bool" where
  "is_valid_ether_addr addr \<longleftrightarrow> (addr ! 0) AND 1 = 0 \<and> \<not> is_zero_ether_addr addr"

subsection \<open>Reset\<close>

definition ixgbevf_reset :: "host \<Rightarrow> unit adop" where
  "ixgbevf_reset X = do {
     a \<leftarrow> gets id;
     if hw_addr (ad_hw a) = 0 \<or> IXGBEVF_REMOVING \<in> ad_bits a then ret ()
     else do {
       err \<leftarrow> hw_op (call_reset_hw (host_env X) (host_mmconfig X) (host_stack X ''ixgbe_reset_hw_vf''));
       whenM (err = 0) (do { hw_op call_init_hw; ixgbevf_negotiate_api (host_env X) });
       addr \<leftarrow> gets (\<lambda>a. mac_addr (mac (ad_hw a)));
       whenM (is_valid_ether_addr addr) (modify (\<lambda>a. a\<lparr>dev_addr := addr\<rparr>));
       modify (\<lambda>a. a\<lparr>last_reset := jiffies_now (host_env X) a\<rparr>) } }"

subsection \<open>Up and down\<close>

definition set_carrier :: "bool \<Rightarrow> unit adop" where
  "set_carrier on = do {
     kernel_call (if on then ''netif_carrier_on'' else ''netif_carrier_off'') [];
     modify (\<lambda>a. a\<lparr>carrier := on\<rparr>) }"

definition set_timer :: "bool \<Rightarrow> unit adop" where
  "set_timer on = do {
     kernel_call (if on then ''mod_timer'' else ''timer_delete_sync'') [];
     modify (\<lambda>a. a\<lparr>timer_armed := on\<rparr>) }"

definition set_tx_started :: "bool \<Rightarrow> unit adop" where
  "set_tx_started on = do {
     kernel_call (if on then ''netif_tx_start_all_queues'' else ''netif_tx_stop_all_queues'') [];
     modify (\<lambda>a. a\<lparr>tx_started := on\<rparr>) }"

definition ixgbevf_up_complete :: "env \<Rightarrow> unit adop" where
  "ixgbevf_up_complete E = do {
     ixgbevf_configure_msix E;
     m \<leftarrow> gets (\<lambda>a. mac (ad_hw a));
     hw_op (call_set_rar E 0 (if is_valid_ether_addr (mac_addr m) then mac_addr m else perm_addr m) 0 IXGBE_RAH_AV);
     st \<leftarrow> gets link_state;
     (err, st') \<leftarrow> hw_op (call_get_link_state E st);
     modify (\<lambda>a. a\<lparr>link_state := st'\<rparr>);
     set_bits (\<lambda>s. s - {IXGBEVF_DOWN});
     ixgbevf_napi_enable_all;
     rd E IXGBE_VTEICR;
     ixgbevf_irq_enable;
     set_tx_started True;
     ixgbevf_save_reset_stats;
     ixgbevf_init_last_counter_stats E;
     hw_op (modify (\<lambda>h. h\<lparr>mac := (mac h)\<lparr>get_link_status := True\<rparr>\<rparr>));
     set_timer True }"

definition ixgbevf_up :: "host \<Rightarrow> unit adop" where
  "ixgbevf_up X = do {
     ixgbevf_configure (host_env X) (host_stack X ''ixgbe_update_mc_addr_list_vf'') (host_rx X);
     ixgbevf_up_complete (host_env X) }"

definition ixgbevf_clean_all_rx_rings :: "(nat \<Rightarrow> rxenv) \<Rightarrow> unit adop" where
  "ixgbevf_clean_all_rx_rings R = do {
     n \<leftarrow> gets (\<lambda>a. num_rx_queues (ad_q a));
     for_each [0..<n] (\<lambda>i. on_rx i (ixgbevf_clean_rx_ring (R i))) }"

definition ixgbevf_clean_all_tx_rings :: "unit adop" where
  "ixgbevf_clean_all_tx_rings = do {
     n \<leftarrow> gets (\<lambda>a. num_tx_queues (ad_q a));
     for_each [0..<n] (\<lambda>i. on_ring_of Tx_ring i ixgbevf_clean_tx_ring);
     n \<leftarrow> gets (\<lambda>a. num_xdp_queues (ad_q a));
     for_each [0..<n] (\<lambda>i. on_ring_of Xdp_ring i ixgbevf_clean_tx_ring) }"

text \<open>Switching the transmit queues off in the device.\<close>

definition flush_tx_queues :: "ring_kind \<Rightarrow> nat \<Rightarrow> unit adop" where
  "flush_tx_queues k n = for_each [0..<n] (\<lambda>i. do {
     r \<leftarrow> gets (reg_of k i);
     wr (IXGBE_VFTXDCTL r) IXGBE_TXDCTL_SWFLSH })"

definition ixgbevf_down :: "host \<Rightarrow> unit adop" where
  "ixgbevf_down X = do {
     st \<leftarrow> gets ad_bits;
     set_bits (insert IXGBEVF_DOWN);
     if IXGBEVF_DOWN \<in> st then ret ()
     else do {
       n \<leftarrow> gets (\<lambda>a. num_rx_queues (ad_q a));
       for_each [0..<n] (ixgbevf_disable_rx_queue (host_env X));
       kernel_call ''usleep_range'' [10000, 20000];
       set_tx_started False;
       set_carrier False;
       kernel_call ''netif_tx_disable'' [];
       ixgbevf_irq_disable (host_env X);
       ixgbevf_napi_disable_all;
       set_timer False;
       n \<leftarrow> gets (\<lambda>a. num_tx_queues (ad_q a));
       flush_tx_queues Tx_ring n;
       n \<leftarrow> gets (\<lambda>a. num_xdp_queues (ad_q a));
       flush_tx_queues Xdp_ring n;
       offline \<leftarrow> hw_op (kcall (host_env X) ''pci_channel_offline'' []);
       whenM (offline = 0) (ixgbevf_reset X);
       ixgbevf_clean_all_tx_rings;
       ixgbevf_clean_all_rx_rings (host_rx X) } }"

definition ixgbevf_reinit_locked :: "host \<Rightarrow> unit option adop" where
  "ixgbevf_reinit_locked X = do {
     st \<leftarrow> gets ad_bits;
     if IXGBEVF_RESETTING \<in> st then ret None
     else do {
       set_bits (insert IXGBEVF_RESETTING);
       ixgbevf_down X;
       kernel_call ''pci_set_master'' [];
       ixgbevf_up X;
       set_bits (\<lambda>s. s - {IXGBEVF_RESETTING});
       ret (Some ()) } }"
subsection \<open>Open and close\<close>

definition open_failed :: "host \<Rightarrow> bool \<Rightarrow> bool \<Rightarrow> bool \<Rightarrow> int \<Rightarrow> int adop" where
  "open_failed X irqs rx tx err = do {
     whenM irqs ixgbevf_free_irq;
     whenM rx (ixgbevf_free_all_rx_resources (host_rx X));
     whenM tx ixgbevf_free_all_tx_resources;
     ixgbevf_reset X;
     ret err }"

text \<open>From the allocation of the rings on; each error jumps to the label that undoes what has been done.\<close>

definition open_rings :: "host \<Rightarrow> int adop" where
  "open_rings X = do {
     let E = host_env X;
     set_carrier False;
     err \<leftarrow> ixgbevf_setup_all_tx_resources E;
     if err \<noteq> 0 then open_failed X False False False err
     else do {
       err \<leftarrow> ixgbevf_setup_all_rx_resources E (host_rx X);
       if err \<noteq> 0 then open_failed X False False True err
       else do {
         ixgbevf_configure E (host_stack X ''ixgbe_update_mc_addr_list_vf'') (host_rx X);
         err \<leftarrow> ixgbevf_request_irq E;
         if err \<noteq> 0 then open_failed X False True True err
         else do {
           n \<leftarrow> gets (\<lambda>a. num_tx_queues (ad_q a));
           err \<leftarrow> hw_op (kcall E ''netif_set_real_num_tx_queues'' [int n]);
           if err \<noteq> 0 then open_failed X True True True err
           else do {
             n \<leftarrow> gets (\<lambda>a. num_rx_queues (ad_q a));
             err \<leftarrow> hw_op (kcall E ''netif_set_real_num_rx_queues'' [int n]);
             if err \<noteq> 0 then open_failed X True True True err
             else do { ixgbevf_up_complete E; ret 0 } } } } } }"

definition ixgbevf_open :: "host \<Rightarrow> int adop" where
  "ixgbevf_open X = do {
     n \<leftarrow> gets (\<lambda>a. num_q_vectors (ad_q a));
     if n = 0 then ret (- ENOMEM)
     else do {
       stopped \<leftarrow> gets (\<lambda>a. adapter_stopped (ad_hw a));
       whenM stopped (ixgbevf_reset X);
       stopped \<leftarrow> gets (\<lambda>a. adapter_stopped (ad_hw a));
       if stopped then ret IXGBE_ERR_MBX
       else do {
         st \<leftarrow> gets ad_bits;
         if IXGBEVF_TESTING \<in> st then ret (- EBUSY) else open_rings X } } }"

definition ixgbevf_close_suspend :: "host \<Rightarrow> unit adop" where
  "ixgbevf_close_suspend X = do {
     ixgbevf_down X;
     ixgbevf_free_irq;
     ixgbevf_free_all_tx_resources;
     ixgbevf_free_all_rx_resources (host_rx X) }"

definition ixgbevf_close :: "host \<Rightarrow> int adop" where
  "ixgbevf_close X = do {
     present \<leftarrow> gets nd_present;
     whenM present (ixgbevf_close_suspend X);
     ret 0 }"

text \<open>The interrupt scheme again: queues, vectors, rings; after \<open>ixgbevf_clear_interrupt_scheme\<close>.\<close>

definition rebuild_queues :: "host \<Rightarrow> unit adop" where
  "rebuild_queues X = do {
     running \<leftarrow> gets nd_running;
     whenM running (do { ixgbevf_close X; ret () });
     on_q (ixgbevf_clear_interrupt_scheme (host_env X));
     on_q (ixgbevf_init_interrupt_scheme (host_env X) (host_cpus X));
     running \<leftarrow> gets nd_running;
     whenM running (do { ixgbevf_open X; ret () }) }"

subsection \<open>The service task\<close>

definition ixgbevf_service_timer :: "unit adop" where
  "ixgbevf_service_timer = do { set_timer True; hw_op ixgbevf_service_event_schedule }"

text \<open>\<open>BUG_ON\<close> stops the machine when the task runs without having been scheduled: \<open>None\<close>.\<close>

definition ixgbevf_service_event_complete :: "unit option adop" where
  "ixgbevf_service_event_complete = do {
     st \<leftarrow> gets ad_bits;
     if IXGBEVF_SERVICE_SCHED \<notin> st then ret None
     else do { set_bits (\<lambda>s. s - {IXGBEVF_SERVICE_SCHED}); ret (Some ()) } }"

definition ixgbevf_queue_reset_subtask :: "host \<Rightarrow> unit adop" where
  "ixgbevf_queue_reset_subtask X = do {
     st \<leftarrow> gets ad_bits;
     set_bits (\<lambda>s. s - {IXGBEVF_QUEUE_RESET_REQUESTED});
     whenM (IXGBEVF_QUEUE_RESET_REQUESTED \<in> st \<and> IXGBEVF_DOWN \<notin> st \<and> IXGBEVF_RESETTING \<notin> st) (rebuild_queues X) }"

definition ixgbevf_reset_subtask :: "host \<Rightarrow> unit option adop" where
  "ixgbevf_reset_subtask X = do {
     st \<leftarrow> gets ad_bits;
     set_bits (\<lambda>s. s - {IXGBEVF_RESET_REQUESTED});
     if IXGBEVF_RESET_REQUESTED \<notin> st then ret (Some ())
     else if IXGBEVF_DOWN \<in> st \<or> IXGBEVF_REMOVING \<in> st \<or> IXGBEVF_RESETTING \<in> st then ret (Some ())
     else do {
       modify (\<lambda>a. a\<lparr>tx_timeout_count := tx_timeout_count a + 1\<rparr>);
       ixgbevf_reinit_locked X } }"

definition set_check_for_tx_hang :: "unit ringop" where
  "set_check_for_tx_hang = modify (\<lambda>r. r\<lparr>ring_state := insert TX_DETECT_HANG (ring_state r)\<rparr>)"

definition ixgbevf_check_hang_subtask :: "unit adop" where
  "ixgbevf_check_hang_subtask = do {
     st \<leftarrow> gets ad_bits;
     if IXGBEVF_DOWN \<in> st \<or> IXGBEVF_RESETTING \<in> st then ret ()
     else do {
       a \<leftarrow> gets id;
       whenM (carrier a) (do {
         for_each [0..<num_tx_queues (ad_q a)] (\<lambda>i. on_ring_of Tx_ring i set_check_for_tx_hang);
         for_each [0..<num_xdp_queues (ad_q a)] (\<lambda>i. on_ring_of Xdp_ring i set_check_for_tx_hang) });
       let eics = fold (\<lambda>i eics. if vector_used (ad_q a) i then eics OR push_bit i 1 else eics) [0..<num_q_vectors (ad_q a)] 0;
       wr IXGBE_VTEICS eics } }"

definition ixgbevf_watchdog_update_link :: "host \<Rightarrow> unit adop" where
  "ixgbevf_watchdog_update_link X = do {
     a \<leftarrow> gets id;
     (err, speed, up) \<leftarrow> hw_op (call_check_link (host_env X) (host_mmconfig X) (link_speed a) (link_up a) False);
     now \<leftarrow> gets (jiffies_now (host_env X));
     let late = (err \<noteq> 0 \<and> time_before (last_reset a + 10 * ucast (HZ (host_env X))) now);
     whenM late (set_bits (insert IXGBEVF_RESET_REQUESTED));
     modify (\<lambda>a. a\<lparr>link_up := (up \<and> \<not> late), link_speed := speed\<rparr>) }"

definition ixgbevf_watchdog_link_is_up :: "unit adop" where
  "ixgbevf_watchdog_link_is_up = do { c \<leftarrow> gets carrier; whenM (\<not> c) (set_carrier True) }"

definition ixgbevf_watchdog_link_is_down :: "unit adop" where
  "ixgbevf_watchdog_link_is_down = do {
     modify (\<lambda>a. a\<lparr>link_speed := 0\<rparr>);
     c \<leftarrow> gets carrier;
     whenM c (set_carrier False) }"

definition ixgbevf_watchdog_subtask :: "host \<Rightarrow> unit adop" where
  "ixgbevf_watchdog_subtask X = do {
     st \<leftarrow> gets ad_bits;
     if IXGBEVF_DOWN \<in> st \<or> IXGBEVF_RESETTING \<in> st then ret ()
     else do {
       ixgbevf_watchdog_update_link X;
       a \<leftarrow> gets id;
       (if link_up a \<and> link_state a then ixgbevf_watchdog_link_is_up else ixgbevf_watchdog_link_is_down);
       ixgbevf_update_stats (host_env X) } }"

definition ixgbevf_service_task :: "host \<Rightarrow> unit option adop" where
  "ixgbevf_service_task X = do {
     a \<leftarrow> gets id;
     if hw_addr (ad_hw a) = 0 then do {
       whenM (IXGBEVF_DOWN \<notin> ad_bits a) (ixgbevf_down X);
       ixgbevf_service_event_complete
     } else do {
       ixgbevf_queue_reset_subtask X;
       r \<leftarrow> ixgbevf_reset_subtask X;
       case r of None \<Rightarrow> ret None
       | Some _ \<Rightarrow> do {
           ixgbevf_watchdog_subtask X;
           ixgbevf_check_hang_subtask;
           ixgbevf_service_event_complete } } }"

subsection \<open>Requests of the network stack\<close>

definition ixgbevf_tx_timeout_reset :: "unit adop" where
  "ixgbevf_tx_timeout_reset = do {
     st \<leftarrow> gets ad_bits;
     whenM (IXGBEVF_DOWN \<notin> st) (do {
       set_bits (insert IXGBEVF_RESET_REQUESTED);
       hw_op ixgbevf_service_event_schedule }) }"

definition ixgbevf_tx_timeout :: "unit adop" where
  "ixgbevf_tx_timeout = ixgbevf_tx_timeout_reset"

definition ixgbevf_set_mac :: "env \<Rightarrow> u8 list \<Rightarrow> int adop" where
  "ixgbevf_set_mac E sa_data = (
     if \<not> is_valid_ether_addr sa_data then ret (- EADDRNOTAVAIL)
     else do {
       err \<leftarrow> hw_op (call_set_rar E 0 sa_data 0 IXGBE_RAH_AV);
       if err \<noteq> 0 then ret (- EPERM)
       else do {
         hw_op (upd_mac (\<lambda>m. m\<lparr>mac_addr := take 6 sa_data, perm_addr := take 6 sa_data\<rparr>));
         modify (\<lambda>a. a\<lparr>dev_addr := take 6 sa_data\<rparr>);
         ret 0 } })"

definition ixgbevf_change_mtu :: "host \<Rightarrow> u32 \<Rightarrow> int option adop" where
  "ixgbevf_change_mtu X new_mtu = do {
     prog \<leftarrow> gets (\<lambda>a. qs_xdp_prog (ad_q a));
     if prog then ret (Some (- EPERM))
     else do {
       r \<leftarrow> hw_op (call_set_rlpml (host_env X) (ucast (new_mtu + ucast ETH_HLEN + ETH_FCS_LEN)));
       if r \<noteq> 0 then ret (Some (- EINVAL))
       else do {
         modify (\<lambda>a. a\<lparr>mtu := new_mtu\<rparr>);
         running \<leftarrow> gets nd_running;
         if \<not> running then ret (Some 0)
         else do {
           r \<leftarrow> ixgbevf_reinit_locked X;
           ret (map_option (\<lambda>_. 0) r) } } } }"

definition ixgbevf_netpoll :: "unit adop" where
  "ixgbevf_netpoll = do {
     st \<leftarrow> gets ad_bits;
     if IXGBEVF_DOWN \<in> st then ret ()
     else do {
       n \<leftarrow> gets (\<lambda>a. num_q_vectors (ad_q a));
       for_each [0..<n] (\<lambda>v. do {
         q \<leftarrow> gets (\<lambda>a. the (q_vector_tab (ad_q a) v));
         for_each (qvec_rx q) (\<lambda>ring. on_rx (queue_index ring) (modify (\<lambda>r. r\<lparr>netpoll_rx := True\<rparr>)));
         ixgbevf_msix_clean_rings v }) } }"

end
