(* ===== verification/Mode_Facts.thy ===== *)
theory Mode_Facts
  imports Mac_HV
begin

text \<open>
  The life-cycle bits of the adapter belong to \<open>ixgbevf_main.c\<close>: whatever the shared hardware code does (registers,
  mailbox, MAC operations, native or Hyper-V), it changes \<open>adapter->state\<close> at most by scheduling the service task.
\<close>

definition mode :: "ixgbe_hw \<Rightarrow> ixgbevf_state_t set" where
  "mode hw = back_state hw - {IXGBEVF_SERVICE_SCHED}"

lemma mode_simps [simp]:
  "mode (hw\<lparr>io := l\<rparr>) = mode hw" "mode (hw\<lparr>hw_addr := a\<rparr>) = mode hw" "mode (hw\<lparr>mac := m\<rparr>) = mode hw"
  "mode (hw\<lparr>mbx := b\<rparr>) = mode hw" "mode (hw\<lparr>api_version := v\<rparr>) = mode hw" "mode (hw\<lparr>adapter_stopped := s\<rparr>) = mode hw"
  "mode (hw\<lparr>back_state := insert IXGBEVF_SERVICE_SCHED st\<rparr>) = st - {IXGBEVF_SERVICE_SCHED}"
  by (simp_all add: mode_def)

lemma down_mode: "mode hw' = mode hw \<Longrightarrow> s \<noteq> IXGBEVF_SERVICE_SCHED \<Longrightarrow> s \<in> back_state hw' \<longleftrightarrow> s \<in> back_state hw"
  by (auto simp: mode_def)

text \<open>\<open>calm m\<close>: \<open>m\<close> changes no life-cycle bit and does not forget that the service task is scheduled. One rule per combinator.\<close>

named_theorems calm_rules

definition calm :: "'a hwop \<Rightarrow> bool" where
  "calm m \<longleftrightarrow> (\<forall>hw. mode (snd (run_state m hw)) = mode hw \<and>
     (IXGBEVF_SERVICE_SCHED \<in> back_state hw \<longrightarrow> IXGBEVF_SERVICE_SCHED \<in> back_state (snd (run_state m hw))))"

lemma calm_mode: "calm m \<Longrightarrow> keeps mode m"
  by (simp add: calm_def keeps_def)

lemma calm_ret [keeps_rules, calm_rules]: "calm (ret x)"
  by (simp add: calm_def)

lemma calm_gets [keeps_rules, calm_rules]: "calm (gets g)"
  by (simp add: calm_def)

lemma calm_modify [keeps_rules, calm_rules]: "(\<And>hw. back_state (g hw) = back_state hw) \<Longrightarrow> calm (modify g)"
  by (simp add: calm_def mode_def)

lemma calm_bind [keeps_rules, calm_rules]: "calm m \<Longrightarrow> (\<And>a. calm (g a)) \<Longrightarrow> calm (State_Monad.bind m g)"
  unfolding calm_def by (simp add: case_prod_beta)

lemma calm_if [keeps_rules, calm_rules]: "(c \<Longrightarrow> calm a) \<Longrightarrow> (\<not> c \<Longrightarrow> calm b) \<Longrightarrow> calm (if c then a else b)"
  by simp

lemma calm_whenM [keeps_rules, calm_rules]: "(c \<Longrightarrow> calm m) \<Longrightarrow> calm (whenM c m)"
  by (simp add: whenM_def calm_ret)

lemma calm_Let [keeps_rules, calm_rules]: "(\<And>x. calm (g x)) \<Longrightarrow> calm (let x = v in g x)"
  by simp

lemma calm_case_prod [keeps_rules, calm_rules]: "(\<And>x y. calm (g x y)) \<Longrightarrow> calm (case p of (x, y) \<Rightarrow> g x y)"
  by (simp split: prod.splits)

lemma calm_case_option [keeps_rules, calm_rules]: "calm a \<Longrightarrow> (\<And>x. calm (g x)) \<Longrightarrow> calm (case v of None \<Rightarrow> a | Some x \<Rightarrow> g x)"
  by (simp split: option.splits)

lemma calm_for_each [keeps_rules, calm_rules]: "(\<And>x. calm (g x)) \<Longrightarrow> calm (for_each xs g)"
  by (induction xs) (auto intro: calm_rules)

lemma calm_mapM [keeps_rules, calm_rules]: "(\<And>x. calm (g x)) \<Longrightarrow> calm (mapM xs g)"
  by (induction xs) (auto intro!: calm_rules)

subsection \<open>Registers\<close>

lemma mode_raw [keeps_rules, calm_rules]:
  "calm (log_io ev)" "calm (readl E reg)" "calm (writel v reg)" "calm (udelay n)"
  "calm (msleep k)" "calm (kcall E s as)" "calm (null_call x)"
proof -
  show l: "calm (log_io ev)" for ev unfolding log_io_def by (intro calm_rules) simp
  show "calm (readl E reg)" "calm (writel v reg)" "calm (udelay n)"
    "calm (msleep k)" "calm (kcall E s as)" "calm (null_call x)"
    unfolding readl_def writel_def udelay_def msleep_def kcall_def null_call_def by (intro calm_rules l)+
qed

lemma mode_schedule [keeps_rules, calm_rules]: "calm ixgbevf_service_event_schedule"
  unfolding ixgbevf_service_event_schedule_def calm_def by (auto simp: mode_def whenM_def log_io_def)

lemma mode_remove [keeps_rules, calm_rules]: "calm ixgbevf_remove_adapter"
  unfolding ixgbevf_remove_adapter_def by (intro calm_rules) simp

lemma mode_dead_read [keeps_rules, calm_rules]: "calm (dead_read_loop E reg n v)"
  by (induction n arbitrary: v) (auto intro!: calm_rules)

lemma mode_validate [keeps_rules, calm_rules]: "calm (ixgbevf_validate_register_read E reg)"
  unfolding ixgbevf_validate_register_read_def by (intro calm_rules)

lemma mode_read_reg [keeps_rules, calm_rules]: "calm (ixgbe_read_reg E reg)" "calm (ixgbevf_check_remove E reg)"
proof (induction E reg and E reg rule: ixgbe_read_reg_ixgbevf_check_remove.induct)
  case (1 E reg)
  then show ?case by (subst ixgbe_read_reg.simps) (intro calm_rules, auto)
next
  case (2 E reg)
  then show ?case by (subst ixgbevf_check_remove.simps) (intro calm_rules, auto)
qed

lemma mode_write_reg [keeps_rules, calm_rules]:
  "calm (IXGBE_WRITE_REG reg v)" "calm (IXGBE_WRITE_REG_ARRAY reg i v)"
  "calm (IXGBE_READ_REG_ARRAY E reg i)" "calm (IXGBE_WRITE_FLUSH E)"
  unfolding IXGBE_WRITE_REG_def IXGBE_WRITE_REG_ARRAY_def IXGBE_READ_REG_ARRAY_def IXGBE_WRITE_FLUSH_def
  by (intro calm_rules)+

subsection \<open>Mailbox\<close>

lemma mode_upd [keeps_rules, calm_rules]:
  "calm (upd_mbx f)" "calm (upd_stats g)" "calm (set_ops i h)" "calm (upd_mac k)" "calm (set_get_link_status b)"
  unfolding upd_stats_def upd_mbx_def set_ops_def upd_mac_def set_get_link_status_def by (intro calm_rules; simp)+

lemma mode_inc [keeps_rules, calm_rules]:
  "calm inc_reqs" "calm inc_acks" "calm inc_rsts" "calm inc_msgs_tx" "calm inc_msgs_rx"
  "calm (clear_cached b)"
  unfolding inc_reqs_def inc_acks_def inc_rsts_def inc_msgs_tx_def inc_msgs_rx_def clear_cached_def by (intro calm_rules)+

lemma mode_read_mailbox_vf [keeps_rules, calm_rules]: "calm (ixgbe_read_mailbox_vf E)"
  unfolding ixgbe_read_mailbox_vf_def by (intro calm_rules)

lemma mode_clear [keeps_rules, calm_rules]:
  "calm (ixgbe_clear_msg_vf E)" "calm (ixgbe_clear_ack_vf E)" "calm (ixgbe_clear_rst_vf E)"
  "calm (ixgbe_clear_msg_pf E i)" "calm (ixgbe_clear_ack_pf E i)"
  unfolding ixgbe_clear_msg_vf_def ixgbe_clear_ack_vf_def ixgbe_clear_rst_vf_def ixgbe_clear_msg_pf_def ixgbe_clear_ack_pf_def
  by (intro calm_rules)+

lemma mode_check [keeps_rules, calm_rules]:
  "calm (ixgbe_check_for_bit_vf E b)" "calm (ixgbe_check_for_msg_vf E i)"
  "calm (ixgbe_check_for_ack_vf E i)" "calm (ixgbe_check_for_rst_vf E i)"
  "calm (ixgbe_check_for_bit_pf E b n)" "calm (ixgbe_check_for_msg_pf E i)"
  "calm (ixgbe_check_for_ack_pf E i)" "calm (ixgbe_check_for_rst_pf E i)"
  unfolding ixgbe_check_for_bit_vf_def ixgbe_check_for_msg_vf_def ixgbe_check_for_ack_vf_def ixgbe_check_for_rst_vf_def
    ixgbe_check_for_bit_pf_def ixgbe_check_for_msg_pf_def ixgbe_check_for_ack_pf_def ixgbe_check_for_rst_pf_def
  by (intro calm_rules)+

lemma mode_call_check [keeps_rules, calm_rules]:
  "calm (call_check_for_msg E f i)" "calm (call_check_for_ack E f i)" "calm (call_check_for_rst E f i)"
  "calm (call_ops0_check_for_rst E)"
proof -
  show "calm (call_check_for_msg E f i)" "calm (call_check_for_ack E f i)" and
    r: "calm (call_check_for_rst E f i)" for f i
    unfolding call_check_for_msg_def call_check_for_ack_def call_check_for_rst_def by (cases f; simp add: calm_rules)+
  show "calm (call_ops0_check_for_rst E)" unfolding call_ops0_check_for_rst_def by (intro calm_rules r)
qed

lemma mode_lock [keeps_rules, calm_rules]:
  "calm (ixgbe_obtain_mbx_lock_vf E)" "calm (ixgbe_obtain_mbx_lock_pf E i)"
  "calm (ixgbe_release_mbx_lock_dummy i)" "calm (ixgbe_release_mbx_lock_vf E i)"
  "calm (ixgbe_release_mbx_lock_pf E i)"
proof -
  have [keeps_rules, calm_rules]: "calm (obtain_lock_loop_vf E n)" "calm (obtain_lock_loop_pf E i n)" for n
    by (induction n) (auto intro!: calm_rules)
  show "calm (ixgbe_obtain_mbx_lock_vf E)" "calm (ixgbe_obtain_mbx_lock_pf E i)"
    "calm (ixgbe_release_mbx_lock_dummy i)" "calm (ixgbe_release_mbx_lock_vf E i)"
    "calm (ixgbe_release_mbx_lock_pf E i)"
    unfolding ixgbe_obtain_mbx_lock_vf_def ixgbe_obtain_mbx_lock_pf_def ixgbe_release_mbx_lock_dummy_def
      ixgbe_release_mbx_lock_vf_def ixgbe_release_mbx_lock_pf_def
    by (intro calm_rules)+
qed

lemma mode_poll [keeps_rules, calm_rules]:
  "calm (ixgbe_mbx_log_timeout E i)" "calm ixgbe_mbx_reset_timeout"
  "calm (ixgbe_poll_for_msg E i)" "calm (ixgbe_poll_for_ack E i)"
proof -
  have p: "calm chk \<Longrightarrow> calm (poll_loop chk n)" for chk n
    by (induction n) (auto intro!: calm_rules)
  show "calm (ixgbe_mbx_log_timeout E i)" "calm ixgbe_mbx_reset_timeout"
    "calm (ixgbe_poll_for_msg E i)" "calm (ixgbe_poll_for_ack E i)"
    unfolding ixgbe_mbx_log_timeout_def ixgbe_mbx_reset_timeout_def ixgbe_poll_for_msg_def ixgbe_poll_for_ack_def
    by (intro calm_rules p)+
qed

lemma mode_copy [keeps_rules, calm_rules]: "calm (copy_to_mailbox mem msg sz)" "calm (copy_from_mailbox E mem msg sz)"
  unfolding copy_to_mailbox_def copy_from_mailbox_def by (intro calm_rules)+

lemma mode_transfer [keeps_rules, calm_rules]:
  "calm (ixgbe_write_mbx_vf_legacy E msg sz i)" "calm (ixgbe_write_mbx_vf E msg sz i)"
  "calm (ixgbe_write_mbx_pf_legacy E msg sz i)" "calm (ixgbe_write_mbx_pf E msg sz i)"
  "calm (ixgbe_read_mbx_vf_legacy E msg sz i)" "calm (ixgbe_read_mbx_vf E msg sz i)"
  "calm (ixgbe_read_mbx_pf_legacy E msg sz i)" "calm (ixgbe_read_mbx_pf E msg sz i)"
  unfolding ixgbe_write_mbx_vf_legacy_def ixgbe_write_mbx_vf_def ixgbe_write_mbx_pf_legacy_def ixgbe_write_mbx_pf_def
    ixgbe_read_mbx_vf_legacy_def ixgbe_read_mbx_vf_def ixgbe_read_mbx_pf_legacy_def ixgbe_read_mbx_pf_def
  by (intro calm_rules)+

lemma mode_entry [keeps_rules, calm_rules]:
  "calm (ixgbe_read_mbx E msg sz i)" "calm (ixgbe_poll_mbx E msg sz i)" "calm (ixgbe_write_mbx E msg sz i)"
  "calm (ixgbevf_write_msg_read_ack E msg retmsg sz)"
proof -
  have [keeps_rules, calm_rules]: "calm (call_read E rf msg sz i)" "calm (call_write E w msg sz i)" for rf w msg sz i
    unfolding call_read_def call_write_def by (cases rf; cases w; simp add: calm_rules)+
  have e: "calm (ixgbe_read_mbx E msg sz i)" "calm (ixgbe_poll_mbx E msg sz i)" "calm (ixgbe_write_mbx E msg sz i)"
    for msg sz i unfolding ixgbe_read_mbx_def ixgbe_poll_mbx_def ixgbe_write_mbx_def by (intro calm_rules)+
  then show "calm (ixgbe_read_mbx E msg sz i)" "calm (ixgbe_poll_mbx E msg sz i)" "calm (ixgbe_write_mbx E msg sz i)" by -
  show "calm (ixgbevf_write_msg_read_ack E msg retmsg sz)"
    unfolding ixgbevf_write_msg_read_ack_def by (intro calm_rules e)
qed

lemma mode_params [keeps_rules, calm_rules]: "calm ixgbe_init_mbx_params_vf" "calm ixgbe_upgrade_mbx_params_vf"
  unfolding ixgbe_init_mbx_params_vf_def ixgbe_upgrade_mbx_params_vf_def by (intro calm_rules)+

subsection \<open>MAC operations\<close>

lemma mode_requests [keeps_rules, calm_rules]:
  "calm (ixgbe_set_rar_vf E index addr vmdq enable)" "calm (ixgbe_update_mc_addr_list_vf E stk p n next clear)"
  "calm (ixgbevf_update_xcast_mode E xm)" "calm (ixgbe_get_link_state_vf E st)"
  "calm (ixgbevf_get_pf_link_state E speed up)" "calm (ixgbevf_negotiate_features_vf E f)"
  "calm (ixgbe_set_vfta_vf E vlan vind on bypass)" "calm (ixgbevf_set_uc_addr_vf E index ha)"
  "calm (ixgbevf_rlpml_set_vf E sz)" "calm (ixgbevf_negotiate_api_version E api)"
  "calm (ixgbevf_get_queues E tcs def)"
  unfolding ixgbe_set_rar_vf_def ixgbe_update_mc_addr_list_vf_def ixgbevf_update_xcast_mode_def ixgbe_get_link_state_vf_def
    ixgbevf_get_pf_link_state_def ixgbevf_negotiate_features_vf_def ixgbe_set_vfta_vf_def ixgbevf_set_uc_addr_vf_def
    ixgbevf_rlpml_set_vf_def ixgbevf_negotiate_api_version_def ixgbevf_get_queues_def ixgbe_get_mac_addr_vf_def
  by (intro calm_rules; simp)+

lemma mode_link [keeps_rules, calm_rules]:
  "calm (ixgbe_check_mac_link_vf E speed up wait)" "calm (ixgbevf_hv_check_mac_link_vf E speed b wait)"
  "calm (ixgbevf_hv_check_mac_link_e6xx E mm speed b wait)"
proof -
  have s [keeps_rules, calm_rules]: "calm (vflinks_settle E n l)" for n l
    by (induction n arbitrary: l) (auto intro!: calm_rules)
  have [keeps_rules, calm_rules]: "calm (ixgbe_read_vflinks E speed b)" "calm (check_link_mailbox E r)"
    "calm (link_up_out r speed)" "calm (hv_link_up_out speed)" for speed b r
    unfolding ixgbe_read_vflinks_def check_link_mailbox_def link_up_out_def hv_link_up_out_def by (intro calm_rules)+
  have c [keeps_rules, calm_rules]: "calm (pci_read_config_byte E w)" for w
    unfolding pci_read_config_byte_def by (intro calm_rules)
  have [keeps_rules, calm_rules]: "calm (hv_read_links E is l)" for "is" l
    by (induction "is" arbitrary: l) (auto intro!: calm_rules)
  have sum: "(\<And>e. calm (f e)) \<Longrightarrow> (\<And>v. calm (g v)) \<Longrightarrow> calm (case x of Inl e \<Rightarrow> f e | Inr v \<Rightarrow> g v)" for x f g
    by (cases x) simp_all
  show "calm (ixgbe_check_mac_link_vf E speed up wait)" "calm (ixgbevf_hv_check_mac_link_vf E speed b wait)"
    "calm (ixgbevf_hv_check_mac_link_e6xx E mm speed b wait)"
    unfolding ixgbe_check_mac_link_vf_def ixgbevf_hv_check_mac_link_vf_def ixgbevf_hv_check_mac_link_e6xx_def
    by (intro calm_rules sum)+
qed

lemma mode_reset [keeps_rules, calm_rules]:
  "calm (ixgbe_stop_adapter_vf E)" "calm (ixgbe_reset_hw_vf E stk)" "calm (ixgbevf_hv_reset_hw_vf E mm)"
  "calm ixgbe_init_hw_vf"
proof -
  show s: "calm (ixgbe_stop_adapter_vf E)"
    unfolding ixgbe_stop_adapter_vf_def by (intro calm_rules) simp
  have [keeps_rules, calm_rules]: "calm (wait_rst_loop E n)" for n by (induction n) (auto intro!: calm_rules)
  have [keeps_rules, calm_rules]: "calm (ixgbe_virt_clr_reg E)"
    unfolding ixgbe_virt_clr_reg_def virt_clr_queue_def by (intro calm_rules)
  show "calm (ixgbe_reset_hw_vf E stk)"
    unfolding ixgbe_reset_hw_vf_def by (intro calm_rules s) simp
  show "calm (ixgbevf_hv_reset_hw_vf E mm)"
    unfolding ixgbevf_hv_reset_hw_vf_def pci_read_config_byte_def by (intro calm_rules)
  show "calm ixgbe_init_hw_vf"
    unfolding ixgbe_init_hw_vf_def ixgbe_start_hw_vf_def ixgbe_get_mac_addr_vf_def by (intro calm_rules) simp
qed

lemma mode_case_reset [keeps_rules, calm_rules]:
  "calm a \<Longrightarrow> calm b \<Longrightarrow> calm (case x of Reset_hw_vf \<Rightarrow> a | Hv_reset_hw_vf \<Rightarrow> b)"
  by (cases x) simp_all

lemma mode_case_link [keeps_rules, calm_rules]:
  "calm a \<Longrightarrow> calm b \<Longrightarrow> calm c \<Longrightarrow>
     calm (case x of Check_mac_link_vf \<Rightarrow> a | Hv_check_mac_link_vf \<Rightarrow> b | Hv_check_mac_link_e6xx \<Rightarrow> c)"
  by (cases x) simp_all

lemma mode_case_variant [keeps_rules, calm_rules]:
  "calm a \<Longrightarrow> calm b \<Longrightarrow> calm (case x of Native_fn \<Rightarrow> a | Hyperv_fn \<Rightarrow> b)"
  by (cases x) simp_all

lemma mode_calls [keeps_rules, calm_rules]:
  "calm call_init_hw" "calm (call_reset_hw E mm stk)" "calm (call_stop_adapter E)"
  "calm (call_negotiate_api_version E api)" "calm (call_negotiate_features E f)"
  "calm (call_check_link E mm speed up wait)" "calm (call_set_rar E index addr vmdq enable)"
  "calm (call_set_uc_addr E index ha)" "calm (call_update_mc_addr_list E stk p n next clear)"
  "calm (call_update_xcast_mode E xm)" "calm (call_get_link_state E st)"
  "calm (call_set_vfta E vlan vind on bypass)" "calm (call_set_rlpml E sz)"
  unfolding call_init_hw_def call_reset_hw_def call_stop_adapter_def call_negotiate_api_version_def call_negotiate_features_def
    call_check_link_def call_set_rar_def call_set_uc_addr_def call_update_mc_addr_list_def call_update_xcast_mode_def
    call_get_link_state_def call_set_vfta_def call_set_rlpml_def ixgbevf_hv_negotiate_api_version_vf_def ixgbevf_hv_set_rar_vf_def
    ixgbevf_hv_set_uc_addr_vf_def ixgbevf_hv_update_mc_addr_list_vf_def ixgbevf_hv_update_xcast_mode_def
    ixgbevf_hv_set_vfta_vf_def ixgbevf_hv_set_rlpml_vf_def
  by (intro calm_rules)+

end
