(* ===== verification/Life_Facts.thy ===== *)
theory Life_Facts
  imports Lifecycle Mode_Facts
begin

text \<open>
  What the operations on the adapter leave alone. The \<open>assets\<close> are what opening takes and closing gives back: ring memory and
  interrupt lines, with the counts that say how many there are and how long the rings are. The \<open>surface\<close> is what the rest of the kernel sees: polling
  contexts, timer, transmit queues, carrier, and the life-cycle bits. The locale \<open>ring_memory\<close> is the contract between the
  loops over all rings and the functions that set up or free one ring; it is interpreted for transmit, XDP and receive rings.
\<close>

definition rest_assets :: "adapter \<Rightarrow> nat set \<times> bool \<times> nat \<times> nat \<times> nat \<times> nat \<times> nat list option \<times> (nat \<Rightarrow> bool) \<times> u16 \<times> u16" where
  "rest_assets a = (irq_lines a, irqs_ready a, num_tx_queues (ad_q a), num_rx_queues (ad_q a), num_xdp_queues (ad_q a),
     num_q_vectors (ad_q a), msix_entries (ad_q a), vector_used (ad_q a), tx_ring_count (ad_q a), rx_ring_count (ad_q a))"

definition assets :: "adapter \<Rightarrow> (ring_kind \<Rightarrow> nat \<Rightarrow> ring_mem) \<times> nat set \<times> bool \<times> nat \<times> nat \<times> nat \<times> nat \<times> nat list option \<times> (nat \<Rightarrow> bool) \<times> u16 \<times> u16" where
  "assets a = (ring_mems a, rest_assets a)"

definition surface :: "adapter \<Rightarrow> (nat \<Rightarrow> bool) \<times> bool \<times> bool \<times> bool \<times> ixgbevf_state_t set" where
  "surface a = (napi_on a, timer_armed a, tx_started a, carrier a, mode (ad_hw a))"

lemma vector_used_hw [simp]: "vector_used (q\<lparr>qs_hw := h\<rparr>) = vector_used q"
  by (simp add: fun_eq_iff vector_used_def)

lemma vector_used_reg [simp]: "vector_used (set_tx0_reg r q) = vector_used q"
proof
  fix v
  show "vector_used (set_tx0_reg r q) v = vector_used q v"
    by (cases "q_vector_tab q v") (simp_all add: vector_used_def set_tx0_reg_def Let_def)
qed

lemma set_tx0_reg_counts [simp]:
  "num_tx_queues (set_tx0_reg r q) = num_tx_queues q" "num_rx_queues (set_tx0_reg r q) = num_rx_queues q"
  "num_xdp_queues (set_tx0_reg r q) = num_xdp_queues q" "num_q_vectors (set_tx0_reg r q) = num_q_vectors q"
  "msix_entries (set_tx0_reg r q) = msix_entries q" "qs_hw (set_tx0_reg r q) = qs_hw q"
  "tx_ring_count (set_tx0_reg r q) = tx_ring_count q" "rx_ring_count (set_tx0_reg r q) = rx_ring_count q"
  by (simp_all add: set_tx0_reg_def Let_def)

named_theorems life_frames

lemmas asset_defs = assets_def rest_assets_def

subsection \<open>Leaves\<close>

lemma life_hw_op [keeps_rules, life_frames]: "keeps assets (hw_op m)"
  by (simp add: keeps_def run_hw_op asset_defs)

lemma surface_hw_op [keeps_rules]: "calm m \<Longrightarrow> keeps surface (hw_op m)"
  using calm_mode [of m] by (simp add: keeps_def run_hw_op surface_def)

lemma life_io [keeps_rules, life_frames]:
  "keeps assets (wr r v)" "keeps assets (rd E r)" "keeps assets (kernel_call s as)" "keeps assets (set_bits f)"
  "keeps surface (wr r v)" "keeps surface (rd E r)" "keeps surface (kernel_call s as)"
  unfolding wr_def rd_def kernel_call_def set_bits_def by (intro keeps_rules)+

lemma life_rings [keeps_rules, life_frames]:
  "keeps assets (on_tx i m)" "keeps surface (on_tx i m)" "keeps assets (on_rx i m')" "keeps surface (on_rx i m')"
  "keeps assets (on_ring_of k i m)" "keeps surface (on_ring_of k i m)"
  unfolding on_ring_of_def on_tx_def on_rx_def keeps_def by (auto simp: asset_defs surface_def split: prod.splits)

lemma life_stats [keeps_rules, life_frames]: "keeps assets (upd_stats f)" "keeps surface (upd_stats f)"
  unfolding upd_stats_def by (intro keeps_rules; simp add: asset_defs surface_def)+

lemma life_reg [keeps_rules, life_frames]:
  "keeps assets (on_q (modify (set_tx0_reg r)))" "keeps surface (on_q (modify (set_tx0_reg r)))"
  by (simp_all add: keeps_def run_on_q asset_defs surface_def)

subsection \<open>Configuration\<close>

lemma life_vlan [keeps_rules, life_frames]:
  "keeps assets (ixgbevf_vlan_rx_add_vid E vid)" "keeps surface (ixgbevf_vlan_rx_add_vid E vid)"
  "keeps assets (ixgbevf_restore_vlan E)" "keeps surface (ixgbevf_restore_vlan E)"
proof -
  show a: "keeps assets (ixgbevf_vlan_rx_add_vid E vid)" "keeps surface (ixgbevf_vlan_rx_add_vid E vid)" for vid
    unfolding ixgbevf_vlan_rx_add_vid_def by (intro keeps_rules; simp add: asset_defs surface_def)+
  show "keeps assets (ixgbevf_restore_vlan E)" "keeps surface (ixgbevf_restore_vlan E)"
    unfolding ixgbevf_restore_vlan_def by (intro keeps_rules a)+
qed

lemma life_rx_mode [keeps_rules, life_frames]:
  "keeps assets (ixgbevf_set_rx_mode E stk)" "keeps surface (ixgbevf_set_rx_mode E stk)"
  unfolding ixgbevf_set_rx_mode_def ixgbevf_write_uc_addr_list_def by (intro keeps_rules; simp add: asset_defs surface_def)+

lemma life_dcb [keeps_rules, life_frames]: "keeps assets (ixgbevf_configure_dcb E)"
  unfolding ixgbevf_configure_dcb_def by (intro keeps_rules)

lemma life_negotiate [keeps_rules, life_frames]:
  "keeps assets (ixgbevf_negotiate_api E)" "keeps surface (ixgbevf_negotiate_api E)"
proof -
  have [keeps_rules]: "keeps assets (try_api_versions E l)" "keeps surface (try_api_versions E l)" for l
    by (induction l) (auto intro!: keeps_rules)
  show "keeps assets (ixgbevf_negotiate_api E)" "keeps surface (ixgbevf_negotiate_api E)"
    unfolding ixgbevf_negotiate_api_def ixgbevf_set_features_def by (intro keeps_rules; simp add: asset_defs surface_def)+
qed

lemma life_configure_tx [keeps_rules, life_frames]: "keeps assets (ixgbevf_configure_tx E)" "keeps surface (ixgbevf_configure_tx E)"
proof -
  have [keeps_rules]: "keeps assets (wait_tx_enabled E r n)" "keeps surface (wait_tx_enabled E r n)" for r n
    by (induction n) (auto intro!: keeps_rules)
  show "keeps assets (ixgbevf_configure_tx E)" "keeps surface (ixgbevf_configure_tx E)"
    unfolding ixgbevf_configure_tx_def ixgbevf_configure_tx_ring_def by (intro keeps_rules)+
qed

lemma life_disable_rx [keeps_rules, life_frames]:
  "keeps assets (ixgbevf_disable_rx_queue E i)" "keeps surface (ixgbevf_disable_rx_queue E i)"
proof -
  have [keeps_rules]: "keeps assets (wait_rx_disabled E r n)" "keeps surface (wait_rx_disabled E r n)" for r n
    by (induction n) (auto intro!: keeps_rules)
  show "keeps assets (ixgbevf_disable_rx_queue E i)" "keeps surface (ixgbevf_disable_rx_queue E i)"
    unfolding ixgbevf_disable_rx_queue_def by (intro keeps_rules)+
qed

lemma life_configure_rx [keeps_rules, life_frames]: "keeps assets (ixgbevf_configure_rx E R)" "keeps surface (ixgbevf_configure_rx E R)"
proof -
  have [keeps_rules]: "keeps assets (wait_rx_enabled E r n)" "keeps surface (wait_rx_enabled E r n)" for r n
    by (induction n) (auto intro!: keeps_rules)
  have [keeps_rules]: "keeps assets (fill_reta s n i j v)" "keeps surface (fill_reta s n i j v)" for s n i j v
    by (induction n arbitrary: i j v) (auto simp: Let_def intro!: keeps_rules simp: asset_defs surface_def)
  have [keeps_rules]: "keeps assets (ixgbevf_configure_rx_ring E R i)" "keeps surface (ixgbevf_configure_rx_ring E R i)" for i
    unfolding ixgbevf_configure_rx_ring_def ixgbevf_configure_srrctl_def ixgbevf_rx_desc_queue_enable_def by (intro keeps_rules)+
  show "keeps assets (ixgbevf_configure_rx E R)" "keeps surface (ixgbevf_configure_rx E R)"
    unfolding ixgbevf_configure_rx_def ixgbevf_setup_psrtype_def ixgbevf_setup_vfmrqc_def ixgbevf_set_rx_buffer_len_def
    by (intro keeps_rules)+
qed

lemma life_configure [keeps_rules, life_frames]: "keeps assets (ixgbevf_configure E stk R)"
  unfolding ixgbevf_configure_def by (intro keeps_rules)

lemma life_configure_msix [keeps_rules, life_frames]: "keeps assets (ixgbevf_configure_msix E)" "keeps surface (ixgbevf_configure_msix E)"
  unfolding ixgbevf_configure_msix_def configure_vector_def ixgbevf_set_ivar_def set_itr_of_def ixgbevf_write_eitr_def
  by (intro keeps_rules; simp add: asset_defs surface_def)+

lemma life_irq_mask [keeps_rules, life_frames]:
  "keeps assets ixgbevf_irq_enable" "keeps surface ixgbevf_irq_enable"
  "keeps assets (ixgbevf_irq_disable E)" "keeps surface (ixgbevf_irq_disable E)"
  unfolding ixgbevf_irq_enable_def ixgbevf_irq_disable_def by (intro keeps_rules)+

lemma life_counters [keeps_rules, life_frames]:
  "keeps assets (ixgbevf_save_reset_stats)" "keeps surface ixgbevf_save_reset_stats"
  "keeps assets (ixgbevf_init_last_counter_stats E)" "keeps surface (ixgbevf_init_last_counter_stats E)"
  unfolding ixgbevf_save_reset_stats_def ixgbevf_init_last_counter_stats_def by (intro keeps_rules)+
subsection \<open>Reset, up and down\<close>

lemma life_reset [keeps_rules, life_frames]: "keeps assets (ixgbevf_reset X)" "keeps surface (ixgbevf_reset X)"
  unfolding ixgbevf_reset_def by (intro keeps_rules; simp add: asset_defs surface_def)+

lemma life_clean_all [keeps_rules, life_frames]:
  "keeps assets (ixgbevf_clean_all_rx_rings R)" "keeps surface (ixgbevf_clean_all_rx_rings R)"
  "keeps assets ixgbevf_clean_all_tx_rings" "keeps surface ixgbevf_clean_all_tx_rings"
  "keeps assets (flush_tx_queues k n)" "keeps surface (flush_tx_queues k n)"
  unfolding ixgbevf_clean_all_rx_rings_def ixgbevf_clean_all_tx_rings_def flush_tx_queues_def by (intro keeps_rules)+

lemma life_switches [keeps_rules, life_frames]:
  "keeps assets (set_carrier b)" "keeps assets (set_timer b)" "keeps assets (set_tx_started b)"
  "keeps assets ixgbevf_napi_enable_all" "keeps assets ixgbevf_napi_disable_all"
  unfolding set_carrier_def set_timer_def set_tx_started_def ixgbevf_napi_enable_all_def ixgbevf_napi_disable_all_def
  by (intro keeps_rules; simp add: asset_defs)+

lemma life_up_complete [keeps_rules, life_frames]: "keeps assets (ixgbevf_up_complete E)"
  unfolding ixgbevf_up_complete_def by (intro keeps_rules) (simp_all add: asset_defs)

lemma life_down [keeps_rules, life_frames]: "keeps assets (ixgbevf_down X)"
  unfolding ixgbevf_down_def by (intro keeps_rules)

text \<open>Components of the frames, as rewrite rules for the state after a step.\<close>

lemma assets_after:
  assumes "keeps assets m"
  shows "ring_mems (snd (run_state m a)) = ring_mems a" "irq_lines (snd (run_state m a)) = irq_lines a"
    "irqs_ready (snd (run_state m a)) = irqs_ready a" "num_tx_queues (ad_q (snd (run_state m a))) = num_tx_queues (ad_q a)"
    "num_rx_queues (ad_q (snd (run_state m a))) = num_rx_queues (ad_q a)"
    "num_xdp_queues (ad_q (snd (run_state m a))) = num_xdp_queues (ad_q a)"
    "num_q_vectors (ad_q (snd (run_state m a))) = num_q_vectors (ad_q a)"
    "msix_entries (ad_q (snd (run_state m a))) = msix_entries (ad_q a)"
    "vector_used (ad_q (snd (run_state m a))) = vector_used (ad_q a)"
    "tx_ring_count (ad_q (snd (run_state m a))) = tx_ring_count (ad_q a)"
    "rx_ring_count (ad_q (snd (run_state m a))) = rx_ring_count (ad_q a)"
  using keeps_snd [OF assms, of a] by (simp_all add: asset_defs)

lemma surface_after:
  assumes "keeps surface m"
  shows "napi_on (snd (run_state m a)) = napi_on a" "timer_armed (snd (run_state m a)) = timer_armed a"
    "tx_started (snd (run_state m a)) = tx_started a" "carrier (snd (run_state m a)) = carrier a"
    "mode (ad_hw (snd (run_state m a))) = mode (ad_hw a)"
  using keeps_snd [OF assms, of a] by (simp_all add: surface_def)

lemma run_set_bits: "snd (run_state (set_bits f) a) = a\<lparr>ad_q := (ad_q a)\<lparr>qs_hw := (ad_hw a)\<lparr>back_state := f (ad_bits a)\<rparr>\<rparr>\<rparr>"
  by (simp add: set_bits_def run_hw_op)

lemma napi_loop:
  "surface (snd (run_state (for_each qs (\<lambda>q. do { kernel_call s [int q]; modify (\<lambda>a. a\<lparr>napi_on := (napi_on a)(q := b)\<rparr>) })) a)) =
     ((\<lambda>q. if q \<in> set qs then b else napi_on a q), timer_armed a, tx_started a, carrier a, mode (ad_hw a))"
proof (induction qs arbitrary: a)
  case Nil
  then show ?case by (simp add: surface_def)
next
  case (Cons q qs)
  note k = surface_after [OF life_io(7)]
  show ?case using Cons.IH by (simp add: case_prod_beta k fun_eq_iff)
qed

lemma napi_all:
  "napi_on (snd (run_state ixgbevf_napi_enable_all a)) = (\<lambda>q. q < num_q_vectors (ad_q a) \<or> napi_on a q)"
  "napi_on (snd (run_state ixgbevf_napi_disable_all a)) = (\<lambda>q. \<not> q < num_q_vectors (ad_q a) \<and> napi_on a q)"
  "timer_armed (snd (run_state ixgbevf_napi_enable_all a)) = timer_armed a"
  "timer_armed (snd (run_state ixgbevf_napi_disable_all a)) = timer_armed a"
  "tx_started (snd (run_state ixgbevf_napi_enable_all a)) = tx_started a"
  "tx_started (snd (run_state ixgbevf_napi_disable_all a)) = tx_started a"
  "carrier (snd (run_state ixgbevf_napi_enable_all a)) = carrier a"
  "carrier (snd (run_state ixgbevf_napi_disable_all a)) = carrier a"
  "mode (ad_hw (snd (run_state ixgbevf_napi_enable_all a))) = mode (ad_hw a)"
  "mode (ad_hw (snd (run_state ixgbevf_napi_disable_all a))) = mode (ad_hw a)"
  using napi_loop [of "[0..<num_q_vectors (ad_q a)]" "''napi_enable''" True a] napi_loop [of "[0..<num_q_vectors (ad_q a)]" "''napi_disable''" False a]
  by (auto simp: ixgbevf_napi_enable_all_def ixgbevf_napi_disable_all_def surface_def fun_eq_iff)
lemma switches:
  "surface (snd (run_state (set_carrier b) a)) = (napi_on a, timer_armed a, tx_started a, b, mode (ad_hw a))"
  "surface (snd (run_state (set_timer b) a)) = (napi_on a, b, tx_started a, carrier a, mode (ad_hw a))"
  "surface (snd (run_state (set_tx_started b) a)) = (napi_on a, timer_armed a, b, carrier a, mode (ad_hw a))"
proof -
  have "surface (snd (run_state (kernel_call s l) a)) = surface a" for s l using keeps_snd [OF life_io(7)] .
  then show "surface (snd (run_state (set_carrier b) a)) = (napi_on a, timer_armed a, tx_started a, b, mode (ad_hw a))"
    "surface (snd (run_state (set_timer b) a)) = (napi_on a, b, tx_started a, carrier a, mode (ad_hw a))"
    "surface (snd (run_state (set_tx_started b) a)) = (napi_on a, timer_armed a, b, carrier a, mode (ad_hw a))"
    by (simp_all add: set_carrier_def set_timer_def set_tx_started_def case_prod_beta surface_def)
qed

lemma surface_steps:
  "surface (snd (run_state ixgbevf_napi_enable_all a)) =
     ((\<lambda>q. q < num_q_vectors (ad_q a) \<or> napi_on a q), timer_armed a, tx_started a, carrier a, mode (ad_hw a))"
  "surface (snd (run_state ixgbevf_napi_disable_all a)) =
     ((\<lambda>q. \<not> q < num_q_vectors (ad_q a) \<and> napi_on a q), timer_armed a, tx_started a, carrier a, mode (ad_hw a))"
  "surface (snd (run_state (set_bits f) a)) =
     (napi_on a, timer_armed a, tx_started a, carrier a, f (ad_bits a) - {IXGBEVF_SERVICE_SCHED})"
  by (simp_all add: surface_def napi_all run_set_bits) (simp add: mode_def)

lemma surface_cong: "surface a = (p, t, x, c, m) \<longleftrightarrow> napi_on a = p \<and> timer_armed a = t \<and> tx_started a = x \<and> carrier a = c \<and> mode (ad_hw a) = m"
  by (auto simp: surface_def)

lemma up_complete_surface:
  "surface (snd (run_state (ixgbevf_up_complete E) a)) =
     ((\<lambda>q. q < num_q_vectors (ad_q a) \<or> napi_on a q), True, True, carrier a, mode (ad_hw a) - {IXGBEVF_DOWN})"
proof -
  define prep where "prep = do {
     ixgbevf_configure_msix E;
     m \<leftarrow> gets (\<lambda>a. mac (ad_hw a));
     hw_op (call_set_rar E 0 (if is_valid_ether_addr (mac_addr m) then mac_addr m else perm_addr m) 0 IXGBE_RAH_AV);
     st \<leftarrow> gets link_state;
     (err, st') \<leftarrow> hw_op (call_get_link_state E st);
     modify (\<lambda>a. a\<lparr>link_state := st'\<rparr>) }"
  define fin where "fin = do {
     ixgbevf_save_reset_stats;
     ixgbevf_init_last_counter_stats E;
     hw_op (modify (\<lambda>h. h\<lparr>mac := (mac h)\<lparr>get_link_status := True\<rparr>\<rparr>)) }"
  define mid where "mid = do { rd E IXGBE_VTEICR; ixgbevf_irq_enable }"
  have split: "ixgbevf_up_complete E = do {
     prep; set_bits (\<lambda>s. s - {IXGBEVF_DOWN}); ixgbevf_napi_enable_all; mid; set_tx_started True; fin; set_timer True }"
    unfolding ixgbevf_up_complete_def prep_def fin_def mid_def by (simp add: State_Monad.bind_def fun_eq_iff case_prod_beta split_def)
  have k: "keeps surface prep" "keeps surface fin" "keeps surface mid" "keeps assets prep"
    unfolding prep_def fin_def mid_def by (intro keeps_rules; simp add: surface_def asset_defs)+
  have b: "ad_bits s - {IXGBEVF_DOWN} - {IXGBEVF_SERVICE_SCHED} = mode (ad_hw s) - {IXGBEVF_DOWN}" for s by (auto simp: mode_def)
  show ?thesis
    unfolding split
    by (simp add: b assets_after [OF life_io(4)] case_prod_beta switches surface_steps surface_after [OF k(1)] surface_after [OF k(2)] surface_after [OF k(3)]
        assets_after [OF k(4)] switches [unfolded surface_cong] surface_steps [unfolded surface_cong])
qed
text \<open>Going down: the interface disappears from the kernel. A second call does nothing.\<close>

lemma down_surface:
  assumes "IXGBEVF_DOWN \<notin> ad_bits a"
  shows "surface (snd (run_state (ixgbevf_down X) a)) =
     ((\<lambda>q. \<not> q < num_q_vectors (ad_q a) \<and> napi_on a q), False, False, False, insert IXGBEVF_DOWN (mode (ad_hw a)))"
proof -
  define quiesce where "quiesce = do {
     n \<leftarrow> gets (\<lambda>a. num_rx_queues (ad_q a));
     for_each [0..<n] (ixgbevf_disable_rx_queue (host_env X));
     kernel_call ''usleep_range'' [10000, 20000] }"
  define masked where "masked = do { kernel_call ''netif_tx_disable'' []; ixgbevf_irq_disable (host_env X) }"
  define fin where "fin = do {
     n \<leftarrow> gets (\<lambda>a. num_tx_queues (ad_q a));
     flush_tx_queues Tx_ring n;
     n \<leftarrow> gets (\<lambda>a. num_xdp_queues (ad_q a));
     flush_tx_queues Xdp_ring n;
     offline \<leftarrow> hw_op (kcall (host_env X) ''pci_channel_offline'' []);
     whenM (offline = 0) (ixgbevf_reset X);
     ixgbevf_clean_all_tx_rings;
     ixgbevf_clean_all_rx_rings (host_rx X) }"
  define steps where "steps = do {
     set_bits (insert IXGBEVF_DOWN); quiesce; set_tx_started False; set_carrier False; masked; ixgbevf_napi_disable_all; set_timer False; fin }"
  have split: "run_state (ixgbevf_down X) a = run_state steps a"
    using assms unfolding ixgbevf_down_def steps_def quiesce_def masked_def fin_def
    by (simp add: State_Monad.bind_def case_prod_beta split_def)
  have k: "keeps surface quiesce" "keeps surface masked" "keeps surface fin" "keeps assets quiesce" "keeps assets masked"
    unfolding quiesce_def masked_def fin_def by (intro keeps_rules)+
  have b: "insert IXGBEVF_DOWN (ad_bits s) - {IXGBEVF_SERVICE_SCHED} = insert IXGBEVF_DOWN (mode (ad_hw s))" for s by (auto simp: mode_def)
  show ?thesis
    unfolding split
    by (simp add: steps_def b assets_after [OF life_io(4)] assets_after [OF life_switches(1)] assets_after [OF life_switches(3)]
        case_prod_beta switches surface_steps surface_after [OF k(1)] surface_after [OF k(2)] keeps_snd [OF k(3)]
        assets_after [OF k(4)] assets_after [OF k(5)] switches [unfolded surface_cong] surface_steps [unfolded surface_cong])
qed

end
