(* ===== verification/Ring_Memory.thy ===== *)
theory Ring_Memory
  imports Life_Facts
begin

text \<open>
  The contract between the loops over all rings and the functions that set up or release the memory of one ring, as the
  locale \<open>ring_memory\<close>, and its interpretations for transmit, XDP and receive rings. A set-up either fills a vacant ring or
  leaves its buffer records and registration released; \<open>reliable\<close> says when the descriptor memory is released, too.
\<close>

definition full :: "ring_kind \<Rightarrow> ring_mem \<Rightarrow> bool" where
  "full k m \<longleftrightarrow> rm_info m \<and> rm_desc m \<and> (rm_xdp_reg m \<longleftrightarrow> k = Rx_ring)"

definition vacant :: "ring_mem \<Rightarrow> bool" where
  "vacant m \<longleftrightarrow> \<not> rm_info m \<and> \<not> rm_desc m \<and> \<not> rm_xdp_reg m"

definition left_over :: "bool \<Rightarrow> ring_mem \<Rightarrow> bool" where
  "left_over reliable m \<longleftrightarrow> \<not> rm_info m \<and> \<not> rm_xdp_reg m \<and> (reliable \<longrightarrow> \<not> rm_desc m)"

lemma vacant_left_over: "vacant m \<Longrightarrow> left_over r m"
  by (simp add: vacant_def left_over_def)

text \<open>All but the memory of the rings \<open>I\<close> of one kind.\<close>

definition others :: "ring_kind \<Rightarrow> nat set \<Rightarrow> adapter \<Rightarrow> _" where
  "others k I a = (rest_assets a, surface a, \<lambda>k' j. if k' = k \<and> j \<in> I then None else Some (ring_mems a k' j))"

lemma others_mono: "keeps (others k I) m \<Longrightarrow> I \<subseteq> J \<Longrightarrow> keeps (others k J) m"
  by (auto simp: keeps_def others_def fun_eq_iff split: if_splits)

lemma others_mem:
  assumes "keeps (others k I) m" and "\<not> (k' = k \<and> j \<in> I)"
  shows "ring_mems (snd (run_state m a)) k' j = ring_mems a k' j"
proof -
  have "others k I (snd (run_state m a)) = others k I a" using keeps_snd [OF assms(1)] .
  then have "(if k' = k \<and> j \<in> I then None else Some (ring_mems (snd (run_state m a)) k' j)) =
      (if k' = k \<and> j \<in> I then None else Some (ring_mems a k' j))" by (simp add: others_def fun_eq_iff)
  then show ?thesis unfolding if_not_P [OF assms(2)] by simp
qed

lemma others_rest:
  assumes "keeps (others k I) m"
  shows "rest_assets (snd (run_state m a)) = rest_assets a" "surface (snd (run_state m a)) = surface a"
  using keeps_snd [OF assms, of a] by (simp_all add: others_def)

lemma keeps_others: "keeps assets m \<Longrightarrow> keeps surface m \<Longrightarrow> keeps (others k I) m"
  by (auto simp: keeps_def others_def assets_def fun_eq_iff)

lemma others_upd_mem [keeps_rules]: "i \<in> I \<Longrightarrow> keeps (others k I) (upd_mem k i f)"
  by (auto simp: keeps_def upd_mem_def others_def rest_assets_def surface_def fun_eq_iff)

lemma others_leaves [keeps_rules]:
  "keeps (others k I) (kernel_call s l)" "keeps (others k I) (on_ring_of k' i m)" "keeps (others k I) (on_rx i m')"
  "calm p \<Longrightarrow> keeps (others k I) (hw_op p)"
  by (intro keeps_others keeps_rules; assumption)+

locale ring_memory =
  fixes k :: ring_kind and alloc :: "nat \<Rightarrow> int adop" and release :: "nat \<Rightarrow> unit adop" and reliable :: bool
  assumes setup_others: "keeps (others k {i}) (alloc i)"
    and free_others: "keeps (others k {i}) (release i)"
    and setup_outcome: "vacant (ring_mems a k i) \<Longrightarrow> run_state (alloc i) a = (e, a') \<Longrightarrow>
      if e = 0 then full k (ring_mems a' k i) else left_over reliable (ring_mems a' k i)"
    and free_full: "full k (ring_mems a k i) \<Longrightarrow> vacant (ring_mems (snd (run_state (release i) a)) k i)"
begin

lemma setup_each_others: "keeps (others k {i..<i + n}) (setup_each alloc n i)"
proof (induction n arbitrary: i)
  case 0
  show ?case by (simp add: keeps_ret)
next
  case (Suc n)
  have "keeps (others k {i..<i + Suc n}) (alloc i)" by (rule others_mono [OF setup_others]) simp
  moreover have "keeps (others k {i..<i + Suc n}) (setup_each alloc n (i + 1))" by (rule others_mono [OF Suc.IH]) auto
  ultimately show ?case by (auto intro!: keeps_rules)
qed

lemma setup_each_outcome:
  "run_state (setup_each alloc n i) a = ((e, s), a') \<Longrightarrow> \<forall>j \<in> {i..<i + n}. vacant (ring_mems a k j) \<Longrightarrow>
    (if e = 0 then s = i + n \<and> (\<forall>j \<in> {i..<i + n}. full k (ring_mems a' k j))
     else s \<in> {i..<i + n} \<and> (\<forall>j \<in> {i..<s}. full k (ring_mems a' k j)) \<and> (\<forall>j \<in> {s..<i + n}. left_over reliable (ring_mems a' k j)))"
proof (induction n arbitrary: i a)
  case 0
  then show ?case by auto
next
  case (Suc n)
  obtain e1 a1 where s1: "run_state (alloc i) a = (e1, a1)" by fastforce
  have m1: "ring_mems a1 k j = ring_mems a k j" if "j \<noteq> i" for j
    using others_mem [OF setup_others, of k j i a] that s1 by simp
  have o1: "if e1 = 0 then full k (ring_mems a1 k i) else left_over reliable (ring_mems a1 k i)"
    using setup_outcome [OF _ s1] Suc.prems(2) by simp
  show ?case
  proof (cases "e1 = 0")
    case False
    then have "e = e1" "s = i" "a' = a1" using Suc.prems(1) s1 by auto
    then show ?thesis using False o1 m1 Suc.prems(2) by (auto simp: vacant_left_over) (metis atLeastLessThan_iff le_neq_implies_less less_imp_le_nat vacant_left_over)
  next
    case True
    then have run: "run_state (setup_each alloc n (i + 1)) a1 = ((e, s), a')" using Suc.prems(1) s1 by simp
    have "\<forall>j \<in> {i + 1..<i + 1 + n}. vacant (ring_mems a1 k j)" using m1 Suc.prems(2) by auto
    note ih = Suc.IH [OF run this]
    have "ring_mems a' k i = ring_mems a1 k i"
      using others_mem [OF setup_each_others, of k i "i + 1" n a1] run by simp
    then have fi: "full k (ring_mems a' k i)" using o1 True by simp
    then have "full k (ring_mems a' k j)" if "j \<in> {i..<t}" "\<forall>j \<in> {i + 1..<t}. full k (ring_mems a' k j)" for j t
      using that by (cases "j = i") auto
    then show ?thesis using ih by (auto split: if_splits)
  qed
qed

lemma free_below_others: "keeps (others k {..<s}) (free_rings_below release s)"
proof (induction s)
  case 0
  show ?case by (simp add: keeps_ret)
next
  case (Suc s)
  have "keeps (others k {..<Suc s}) (release s)" by (rule others_mono [OF free_others]) simp
  moreover have "keeps (others k {..<Suc s}) (free_rings_below release s)" by (rule others_mono [OF Suc.IH]) auto
  ultimately show ?case by (auto intro!: keeps_rules)
qed

lemma free_below_vacant:
  "\<forall>j < s. full k (ring_mems a k j) \<Longrightarrow> j < s \<Longrightarrow> vacant (ring_mems (snd (run_state (free_rings_below release s) a)) k j)"
proof (induction s arbitrary: a)
  case 0
  then show ?case by simp
next
  case (Suc s)
  define a1 where "a1 = snd (run_state (release s) a)"
  have m1: "ring_mems a1 k j = ring_mems a k j" if "j \<noteq> s" for j
    using others_mem [OF free_others, of k j s a] that by (simp add: a1_def)
  have run: "snd (run_state (free_rings_below release (Suc s)) a) = snd (run_state (free_rings_below release s) a1)"
    by (simp add: case_prod_beta a1_def)
  show ?case
  proof (cases "j = s")
    case True
    have "ring_mems (snd (run_state (free_rings_below release s) a1)) k s = ring_mems a1 k s"
      using others_mem [OF free_below_others] by simp
    then show ?thesis using free_full [of a s] Suc.prems(1) True run by (simp add: a1_def)
  next
    case False
    then show ?thesis unfolding run using Suc.prems m1 by (intro Suc.IH) auto
  qed
qed

text \<open>A failure in the middle, undone.\<close>

lemma undo:
  assumes run: "run_state (setup_each alloc n 0) a = ((e, s), a1)" and "e \<noteq> 0"
    and v: "\<forall>j < n. vacant (ring_mems a k j)" and "j < n"
  shows "left_over reliable (ring_mems (snd (run_state (free_rings_below release s) a1)) k j)"
proof -
  let ?b = "snd (run_state (free_rings_below release s) a1)"
  have o: "s < n" "\<forall>j < s. full k (ring_mems a1 k j)" "\<forall>j. s \<le> j \<and> j < n \<longrightarrow> left_over reliable (ring_mems a1 k j)"
    using setup_each_outcome [OF run] v assms(2) by auto
  show ?thesis
  proof (cases "j < s")
    case True
    then show ?thesis using free_below_vacant [OF o(2)] by (simp add: vacant_left_over)
  next
    case False
    then have "ring_mems ?b k j = ring_mems a1 k j" using others_mem [OF free_below_others] by simp
    then show ?thesis using o(3) False \<open>j < n\<close> by simp
  qed
qed

lemma free_all_others: "keeps (others k {i..<j}) (for_each [i..<j] (\<lambda>i. free_if_desc k (release i) i))"
proof (induction "j - i" arbitrary: i)
  case 0
  then show ?case by (simp add: keeps_ret)
next
  case (Suc n)
  then have "[i..<j] = i # [i + 1..<j]" by (simp add: upt_conv_Cons)
  moreover have "keeps (others k {i..<j}) (free_if_desc k (release i) i)"
    unfolding free_if_desc_def using Suc.hyps(2) by (intro keeps_rules others_mono [OF free_others]) auto
  moreover have "keeps (others k {i..<j}) (for_each [i + 1..<j] (\<lambda>i. free_if_desc k (release i) i))"
    using Suc.hyps by (intro others_mono [OF Suc.hyps(1)]) auto
  ultimately show ?case by (auto intro!: keeps_rules)
qed

lemma free_all_vacant:
  "\<forall>l \<in> {i..<j}. full k (ring_mems a k l) \<Longrightarrow> l \<in> {i..<j} \<Longrightarrow>
     vacant (ring_mems (snd (run_state (for_each [i..<j] (\<lambda>i. free_if_desc k (release i) i)) a)) k l)"
proof (induction "j - i" arbitrary: i a)
  case 0
  then show ?case by simp
next
  case (Suc n)
  define a1 where "a1 = snd (run_state (release i) a)"
  have u: "[i..<j] = i # [i + 1..<j]" using Suc.hyps(2) by (simp add: upt_conv_Cons)
  have "rm_desc (ring_mems a k i)" using Suc.prems Suc.hyps(2) by (simp add: full_def)
  then have run: "snd (run_state (for_each [i..<j] (\<lambda>i. free_if_desc k (release i) i)) a) =
      snd (run_state (for_each [i + 1..<j] (\<lambda>i. free_if_desc k (release i) i)) a1)"
    unfolding u by (simp add: free_if_desc_def has_desc_def case_prod_beta a1_def)
  have m1: "ring_mems a1 k l = ring_mems a k l" if "l \<noteq> i" for l
    using others_mem [OF free_others, of k l i a] that by (simp add: a1_def)
  show ?case
  proof (cases "l = i")
    case True
    have "ring_mems (snd (run_state (for_each [i + 1..<j] (\<lambda>i. free_if_desc k (release i) i)) a1)) k i = ring_mems a1 k i"
      using others_mem [OF free_all_others, of k i "i + 1" j] by simp
    then show ?thesis using free_full [of a i] Suc.prems True Suc.hyps(2) run by (simp add: a1_def)
  next
    case False
    then show ?thesis unfolding run using Suc.prems Suc.hyps m1 by (intro Suc.hyps(1)) auto
  qed
qed

end
subsection \<open>The three kinds of rings\<close>

text \<open>Registering a receive queue with XDP does not fail.\<close>

definition reg_reliable :: "env \<Rightarrow> bool" where
  "reg_reliable E \<longleftrightarrow> (\<forall>h l. kernel E h ''xdp_rxq_info_reg'' l \<ge> 0)"

lemma run_upd_mem: "run_state (upd_mem k i f) a = ((), a\<lparr>ring_mems := (ring_mems a)(k := (ring_mems a k)(i := f (ring_mems a k i)))\<rparr>)"
  by (simp add: upd_mem_def)

lemma ring_mems_hw [simp]: "ring_mems (snd (run_state (hw_op m) a)) = ring_mems a" "ring_mems (snd (run_state (kernel_call s l) a)) = ring_mems a"
  "ring_mems (snd (run_state (on_ring_of k i p) a)) = ring_mems a" "ring_mems (snd (run_state (on_rx i q) a)) = ring_mems a"
  by (rule assets_after(1) [OF life_hw_op] assets_after(1) [OF life_io(3)] assets_after(1) [OF life_rings(5)] assets_after(1) [OF life_rings(3)])+

lemma tx_memory_laws:
  "keeps (others k {i}) (ixgbevf_setup_tx_resources E k i)" "keeps (others k {i}) (ixgbevf_free_tx_resources k i)"
  unfolding ixgbevf_setup_tx_resources_def ixgbevf_free_tx_resources_def setup_failed_def by (intro keeps_rules; simp)+

lemma setup_tx_outcome:
  assumes "vacant (ring_mems a k i)" and "run_state (ixgbevf_setup_tx_resources E k i) a = (e, a')" and "k \<noteq> Rx_ring"
  shows "if e = 0 then full k (ring_mems a' k i) else left_over True (ring_mems a' k i)"
  using assms
  by (auto simp: ixgbevf_setup_tx_resources_def setup_failed_def Let_def run_upd_mem run_hw_op kernel_call_def vacant_def full_def
      left_over_def split: if_splits)

lemma free_tx_full: "k \<noteq> Rx_ring \<Longrightarrow> full k (ring_mems a k i) \<Longrightarrow> vacant (ring_mems (snd (run_state (ixgbevf_free_tx_resources k i) a)) k i)"
  by (simp add: ixgbevf_free_tx_resources_def case_prod_beta run_upd_mem full_def vacant_def)

interpretation tx_mem: ring_memory Tx_ring "ixgbevf_setup_tx_resources E Tx_ring" "ixgbevf_free_tx_resources Tx_ring" True for E
  by unfold_locales (auto intro: tx_memory_laws free_tx_full dest: setup_tx_outcome)

interpretation xdp_mem: ring_memory Xdp_ring "ixgbevf_setup_tx_resources E Xdp_ring" "ixgbevf_free_tx_resources Xdp_ring" True for E
  by unfold_locales (auto intro: tx_memory_laws free_tx_full dest: setup_tx_outcome)

lemma rx_memory_laws:
  "keeps (others Rx_ring {i}) (ixgbevf_setup_rx_resources E i)" "keeps (others Rx_ring {i}) (ixgbevf_free_rx_resources R i)"
  unfolding ixgbevf_setup_rx_resources_def ixgbevf_free_rx_resources_def setup_failed_def by (intro keeps_rules; simp)+

lemma setup_rx_outcome:
  assumes "vacant (ring_mems a Rx_ring i)" and "run_state (ixgbevf_setup_rx_resources E i) a = (e, a')"
  shows "if e = 0 then full Rx_ring (ring_mems a' Rx_ring i) else left_over (reg_reliable E) (ring_mems a' Rx_ring i)"
proof -
  have reg: "fst (run_state (kcall E ''xdp_rxq_info_reg'' l) h) \<ge> 0" if "reg_reliable E" for l h
    using that by (simp add: reg_reliable_def kcall_def log_io_def)
  show ?thesis
    using assms reg
    by (auto simp: ixgbevf_setup_rx_resources_def setup_failed_def Let_def run_upd_mem run_hw_op kernel_call_def vacant_def full_def
        left_over_def on_rx_def split: if_splits) (metis leD)+
qed

lemma free_rx_full: "full Rx_ring (ring_mems a Rx_ring i) \<Longrightarrow> vacant (ring_mems (snd (run_state (ixgbevf_free_rx_resources R i) a)) Rx_ring i)"
  by (simp add: ixgbevf_free_rx_resources_def case_prod_beta run_upd_mem vacant_def)

interpretation rx_mem: ring_memory Rx_ring "ixgbevf_setup_rx_resources E" "ixgbevf_free_rx_resources R" "reg_reliable E" for E R
  by unfold_locales (auto intro: rx_memory_laws free_rx_full dest: setup_rx_outcome)

end
