(* ===== verification/Life_Props.thy ===== *)
theory Life_Props
  imports Ring_Memory
begin

text \<open>
  Opening and closing an interface: all or nothing, and everything given back.
\<close>

definition ring_number :: "ring_kind \<Rightarrow> queues \<Rightarrow> nat" where
  "ring_number k q = (case k of Tx_ring \<Rightarrow> num_tx_queues q | Xdp_ring \<Rightarrow> num_xdp_queues q | Rx_ring \<Rightarrow> num_rx_queues q)"

definition every_ring :: "(ring_kind \<Rightarrow> ring_mem \<Rightarrow> bool) \<Rightarrow> adapter \<Rightarrow> bool" where
  "every_ring P a \<longleftrightarrow> (\<forall>k. \<forall>i < ring_number k (ad_q a). P k (ring_mems a k i))"

lemma every_ringI:
  assumes "\<And>i. i < num_tx_queues (ad_q a) \<Longrightarrow> P Tx_ring (ring_mems a Tx_ring i)"
    and "\<And>i. i < num_xdp_queues (ad_q a) \<Longrightarrow> P Xdp_ring (ring_mems a Xdp_ring i)"
    and "\<And>i. i < num_rx_queues (ad_q a) \<Longrightarrow> P Rx_ring (ring_mems a Rx_ring i)"
  shows "every_ring P a"
  unfolding every_ring_def using assms by (auto simp: ring_number_def split: ring_kind.splits)

lemma every_ringD:
  assumes "every_ring P a"
  shows "i < num_tx_queues (ad_q a) \<Longrightarrow> P Tx_ring (ring_mems a Tx_ring i)"
    "i < num_xdp_queues (ad_q a) \<Longrightarrow> P Xdp_ring (ring_mems a Xdp_ring i)"
    "i < num_rx_queues (ad_q a) \<Longrightarrow> P Rx_ring (ring_mems a Rx_ring i)"
  using assms unfolding every_ring_def by (metis ring_kind.simps(7-9) ring_number_def)+

text \<open>What remains of the assets when the interrupt lines are not looked at.\<close>

definition holdings :: "adapter \<Rightarrow> _" where
  "holdings a = (ring_mems a, surface a, num_tx_queues (ad_q a), num_rx_queues (ad_q a), num_xdp_queues (ad_q a))"

lemma holdings_after:
  assumes "keeps holdings m"
  shows "ring_mems (snd (run_state m a)) = ring_mems a" "surface (snd (run_state m a)) = surface a"
    "num_tx_queues (ad_q (snd (run_state m a))) = num_tx_queues (ad_q a)"
    "num_rx_queues (ad_q (snd (run_state m a))) = num_rx_queues (ad_q a)"
    "num_xdp_queues (ad_q (snd (run_state m a))) = num_xdp_queues (ad_q a)"
  using keeps_snd [OF assms, of a] by (simp_all add: holdings_def)

lemma every_ring_after:
  assumes "keeps holdings m"
  shows "every_ring P (snd (run_state m a)) = every_ring P a"
  unfolding every_ring_def ring_number_def holdings_after [OF assms] by simp

lemma holdings_leaves [keeps_rules]: "calm p \<Longrightarrow> keeps holdings (hw_op p)" "keeps holdings (kernel_call s l)"
  unfolding keeps_def holdings_def
  by (auto simp: run_hw_op kernel_call_def surface_def log_io_def mode_def [symmetric] dest: calm_mode [unfolded keeps_def])

lemma holdings_irq [keeps_rules]: "keeps holdings (ixgbevf_request_irq E)" "keeps holdings ixgbevf_free_irq"
proof -
  have [keeps_rules]: "keeps holdings (request_line E v)" "keeps holdings (free_line v)" for v
    unfolding request_line_def free_line_def by (intro keeps_rules; simp add: holdings_def surface_def)+
  have [keeps_rules]: "keeps holdings (request_queue_lines E n v)" for n v
    by (induction n arbitrary: v) (auto intro!: keeps_rules)
  have [keeps_rules]: "keeps holdings (free_lines_below n)" for n
    by (induction n) (auto intro!: keeps_rules)
  show "keeps holdings (ixgbevf_request_irq E)" "keeps holdings ixgbevf_free_irq"
    unfolding ixgbevf_request_irq_def ixgbevf_request_msix_irqs_def free_queue_irqs_def ixgbevf_free_irq_def
    by (intro keeps_rules; simp add: holdings_def surface_def)+
qed

subsection \<open>Memory of all rings\<close>

text \<open>Nothing but ring memory of the kinds \<open>K\<close> changes.\<close>

definition but_kinds :: "ring_kind set \<Rightarrow> adapter \<Rightarrow> _" where
  "but_kinds K a = (rest_assets a, surface a, \<lambda>k. if k \<in> K then None else Some (ring_mems a k))"

lemma but_kinds_others: "keeps (others k I) m \<Longrightarrow> k \<in> K \<Longrightarrow> keeps (but_kinds K) m"
  unfolding keeps_def
proof (intro allI)
  fix s assume o: "\<forall>s. others k I (snd (run_state m s)) = others k I s" and k: "k \<in> K"
  have mem: "ring_mems (snd (run_state m s)) k' j = ring_mems s k' j" if "k' \<noteq> k" for k' j
    using others_mem [of k I m k' j s] o that by (simp add: keeps_def)
  have "ring_mems (snd (run_state m s)) k' = ring_mems s k'" if "k' \<notin> K" for k'
  proof -
    from that k have "k' \<noteq> k" by auto
    with mem show ?thesis by (simp add: fun_eq_iff)
  qed
  then show "but_kinds K (snd (run_state m s)) = but_kinds K s"
    using others_rest [of k I m s] o k by (auto simp: but_kinds_def keeps_def fun_eq_iff)
qed

lemma but_kinds_after:
  assumes "keeps (but_kinds K) m"
  shows "k \<notin> K \<Longrightarrow> ring_mems (snd (run_state m a)) k = ring_mems a k"
    "rest_assets (snd (run_state m a)) = rest_assets a" "surface (snd (run_state m a)) = surface a"
  using keeps_snd [OF assms, of a] by (auto simp: but_kinds_def fun_eq_iff split: if_splits)
lemma free_all_frames:
  "keeps (but_kinds {Rx_ring}) (ixgbevf_free_all_rx_resources R)"
  "keeps (but_kinds {Tx_ring, Xdp_ring}) ixgbevf_free_all_tx_resources"
  "keeps (but_kinds {Rx_ring}) (ixgbevf_setup_all_rx_resources E R)"
  "keeps (but_kinds {Tx_ring, Xdp_ring}) (ixgbevf_setup_all_tx_resources E)"
  unfolding ixgbevf_free_all_rx_resources_def ixgbevf_free_all_tx_resources_def ixgbevf_setup_all_rx_resources_def
    ixgbevf_setup_all_tx_resources_def
  by (intro keeps_bind keeps_gets keeps_ret keeps_if keeps_case_prod
      but_kinds_others [OF rx_mem.free_all_others] but_kinds_others [OF tx_mem.free_all_others] but_kinds_others [OF xdp_mem.free_all_others]
      but_kinds_others [OF rx_mem.setup_each_others] but_kinds_others [OF tx_mem.setup_each_others] but_kinds_others [OF xdp_mem.setup_each_others]
      but_kinds_others [OF rx_mem.free_below_others] but_kinds_others [OF tx_mem.free_below_others] but_kinds_others [OF xdp_mem.free_below_others];
      simp)+

lemma free_all_rx:
  "\<forall>i < num_rx_queues (ad_q a). full Rx_ring (ring_mems a Rx_ring i) \<Longrightarrow> i < num_rx_queues (ad_q a) \<Longrightarrow>
     vacant (ring_mems (snd (run_state (ixgbevf_free_all_rx_resources R) a)) Rx_ring i)"
  unfolding ixgbevf_free_all_rx_resources_def
  using rx_mem.free_all_vacant [of 0 "num_rx_queues (ad_q a)" a i R] by simp

lemma rest_counts:
  assumes "rest_assets a' = rest_assets a"
  shows "num_tx_queues (ad_q a') = num_tx_queues (ad_q a)" "num_rx_queues (ad_q a') = num_rx_queues (ad_q a)"
    "num_xdp_queues (ad_q a') = num_xdp_queues (ad_q a)" "num_q_vectors (ad_q a') = num_q_vectors (ad_q a)"
    "msix_entries (ad_q a') = msix_entries (ad_q a)" "vector_used (ad_q a') = vector_used (ad_q a)"
    "irq_lines a' = irq_lines a" "irqs_ready a' = irqs_ready a"
  using assms by (simp_all add: rest_assets_def)

lemma free_all_tx:
  assumes "\<forall>i < num_tx_queues (ad_q a). full Tx_ring (ring_mems a Tx_ring i)"
    and "\<forall>i < num_xdp_queues (ad_q a). full Xdp_ring (ring_mems a Xdp_ring i)"
  shows "i < num_tx_queues (ad_q a) \<Longrightarrow> vacant (ring_mems (snd (run_state ixgbevf_free_all_tx_resources a)) Tx_ring i)"
    "i < num_xdp_queues (ad_q a) \<Longrightarrow> vacant (ring_mems (snd (run_state ixgbevf_free_all_tx_resources a)) Xdp_ring i)"
proof -
  let ?tx = "\<lambda>n. for_each [0..<n] (\<lambda>i. free_if_desc Tx_ring (ixgbevf_free_tx_resources Tx_ring i) i)"
  let ?xdp = "\<lambda>n. for_each [0..<n] (\<lambda>i. free_if_desc Xdp_ring (ixgbevf_free_tx_resources Xdp_ring i) i)"
  define n where "n = num_tx_queues (ad_q a)"
  define m where "m = num_xdp_queues (ad_q a)"
  define a1 where "a1 = snd (run_state (?tx n) a)"
  have k1: "keeps (but_kinds {Tx_ring}) (?tx n)" by (rule but_kinds_others [OF tx_mem.free_all_others]) simp
  have k2: "keeps (but_kinds {Xdp_ring}) (?xdp m)" by (rule but_kinds_others [OF xdp_mem.free_all_others]) simp
  note b1 = but_kinds_after [OF k1, where a = a, folded a1_def] and b2 = but_kinds_after [OF k2, where a = a1]
  have run: "snd (run_state ixgbevf_free_all_tx_resources a) = snd (run_state (?xdp m) a1)"
    by (simp add: ixgbevf_free_all_tx_resources_def case_prod_beta n_def [symmetric] a1_def [symmetric] rest_counts(3) [OF b1(2)] m_def [symmetric])
  have v1: "vacant (ring_mems a1 Tx_ring i)" if "i < n"
    using tx_mem.free_all_vacant [of 0 n a i] assms(1) that by (simp add: a1_def n_def)
  have "\<forall>i < m. full Xdp_ring (ring_mems a1 Xdp_ring i)" using assms(2) b1(1) [of Xdp_ring] by (simp add: m_def)
  then have v2: "vacant (ring_mems (snd (run_state (?xdp m) a1)) Xdp_ring i)" if "i < m"
    using xdp_mem.free_all_vacant [of 0 m a1 i] that by simp
  show "i < num_tx_queues (ad_q a) \<Longrightarrow> vacant (ring_mems (snd (run_state ixgbevf_free_all_tx_resources a)) Tx_ring i)"
    using v1 b2(1) [of Tx_ring] unfolding run n_def by simp
  show "i < num_xdp_queues (ad_q a) \<Longrightarrow> vacant (ring_mems (snd (run_state ixgbevf_free_all_tx_resources a)) Xdp_ring i)"
    using v2 unfolding run m_def by simp
qed

lemma setup_all_rx:
  assumes run: "run_state (ixgbevf_setup_all_rx_resources E R) a = (e, a')"
    and v: "\<forall>i < num_rx_queues (ad_q a). vacant (ring_mems a Rx_ring i)" and "i < num_rx_queues (ad_q a)"
  shows "if e = 0 then full Rx_ring (ring_mems a' Rx_ring i) else left_over (reg_reliable E) (ring_mems a' Rx_ring i)"
proof -
  define n where "n = num_rx_queues (ad_q a)"
  obtain e1 s a1 where r1: "run_state (setup_each (ixgbevf_setup_rx_resources E) n 0) a = ((e1, s), a1)" by (metis surj_pair)
  have a': "(e, a') = (if e1 = 0 then (0, a1) else (e1, snd (run_state (free_rings_below (ixgbevf_free_rx_resources R) s) a1)))"
    using run r1 by (auto simp: ixgbevf_setup_all_rx_resources_def n_def [symmetric] case_prod_beta)
  show ?thesis
    using rx_mem.setup_each_outcome [OF r1] rx_mem.undo [OF r1] v assms(3) a' unfolding n_def [symmetric]
    by (cases "e1 = 0") auto
qed

lemma setup_all_tx:
  assumes run: "run_state (ixgbevf_setup_all_tx_resources E) a = (e, a')"
    and tx: "\<forall>i < num_tx_queues (ad_q a). vacant (ring_mems a Tx_ring i)"
    and xdp: "\<forall>i < num_xdp_queues (ad_q a). vacant (ring_mems a Xdp_ring i)"
  shows "i < num_tx_queues (ad_q a) \<Longrightarrow> if e = 0 then full Tx_ring (ring_mems a' Tx_ring i) else left_over True (ring_mems a' Tx_ring i)"
    "i < num_xdp_queues (ad_q a) \<Longrightarrow> if e = 0 then full Xdp_ring (ring_mems a' Xdp_ring i) else left_over True (ring_mems a' Xdp_ring i)"
proof -
  define n where "n = num_tx_queues (ad_q a)"
  define m where "m = num_xdp_queues (ad_q a)"
  let ?tx = "ixgbevf_setup_tx_resources E Tx_ring" and ?xdp = "ixgbevf_setup_tx_resources E Xdp_ring"
  let ?ftx = "ixgbevf_free_tx_resources Tx_ring" and ?fxdp = "ixgbevf_free_tx_resources Xdp_ring"
  obtain e1 s a1 where r1: "run_state (setup_each ?tx n 0) a = ((e1, s), a1)" by (metis surj_pair)
  obtain e2 j a2 where r2: "run_state (setup_each ?xdp m 0) a1 = ((e2, j), a2)" by (metis surj_pair)
  have mem1: "ring_mems a1 Xdp_ring l = ring_mems a Xdp_ring l" for l
    using others_mem [OF tx_mem.setup_each_others [of 0 n E], of Xdp_ring l a] r1 by simp
  have "rest_assets a1 = rest_assets a" using others_rest(1) [OF tx_mem.setup_each_others [of 0 n E], of a] r1 by simp
  note rest1 = rest_counts [OF this]
  have mem2: "ring_mems a2 Tx_ring l = ring_mems a1 Tx_ring l" for l
    using others_mem [OF xdp_mem.setup_each_others [of 0 m E], of Tx_ring l a1] r2 by simp
  have xdp1: "\<forall>l < m. vacant (ring_mems a1 Xdp_ring l)" using xdp mem1 by (simp add: m_def)
  note o1 = tx_mem.setup_each_outcome [OF r1] and o2 = xdp_mem.setup_each_outcome [OF r2]
  let ?b1 = "snd (run_state (free_rings_below ?ftx s) a1)"
  let ?b2 = "snd (run_state (free_rings_below ?fxdp j) a2)"
  let ?b3 = "snd (run_state (free_rings_below ?ftx s) ?b2)"
  have a': "(e, a') = (if e1 \<noteq> 0 then (e1, ?b1) else if e2 \<noteq> 0 then (e2, ?b3) else (0, a2))"
    using run r1 r2 by (auto simp: ixgbevf_setup_all_tx_resources_def n_def [symmetric] rest1 m_def [symmetric] case_prod_beta)
  have b1: "ring_mems ?b1 Xdp_ring l = ring_mems a1 Xdp_ring l" for l using others_mem [OF tx_mem.free_below_others] by simp
  have b2: "ring_mems ?b2 Tx_ring l = ring_mems a2 Tx_ring l" for l using others_mem [OF xdp_mem.free_below_others] by simp
  have b3: "ring_mems ?b3 Xdp_ring l = ring_mems ?b2 Xdp_ring l" for l using others_mem [OF tx_mem.free_below_others] by simp
  show "if e = 0 then full Tx_ring (ring_mems a' Tx_ring i) else left_over True (ring_mems a' Tx_ring i)" if "i < num_tx_queues (ad_q a)"
  proof -
    have tx_full: "s = n \<and> (\<forall>l < n. full Tx_ring (ring_mems a1 Tx_ring l))" if "e1 = 0" using o1 tx that by (auto simp: n_def)
    then have "vacant (ring_mems ?b3 Tx_ring i)" if "e1 = 0"
      using tx_mem.free_below_vacant [of s ?b2 i] that \<open>i < num_tx_queues (ad_q a)\<close> b2 mem2 by (simp add: n_def)
    then show ?thesis using a' tx_mem.undo [OF r1] tx that tx_full mem2 by (auto simp: n_def vacant_left_over split: if_splits)
  qed
  show "if e = 0 then full Xdp_ring (ring_mems a' Xdp_ring i) else left_over True (ring_mems a' Xdp_ring i)" if "i < num_xdp_queues (ad_q a)"
    using a' xdp_mem.undo [OF r2] xdp1 o2 that b1 b3 by (auto simp: m_def vacant_left_over split: if_splits)
qed
subsection \<open>Opening\<close>

text \<open>What the kernel sees of an interface, without the carrier.\<close>

definition outward :: "adapter \<Rightarrow> (nat \<Rightarrow> bool) \<times> bool \<times> bool \<times> bool" where
  "outward a = (napi_on a, timer_armed a, tx_started a, IXGBEVF_DOWN \<in> ad_bits a)"

lemma outward_surface: "surface a' = surface a \<Longrightarrow> outward a' = outward a"
  using down_mode [of "ad_hw a'" "ad_hw a" IXGBEVF_DOWN] by (simp add: surface_def outward_def)

lemma outward_keeps: "keeps surface m \<Longrightarrow> keeps outward m"
  unfolding keeps_def by (blast intro: outward_surface)

lemma configure_outward: "keeps outward (ixgbevf_configure E stk R)"
proof -
  have bit: "keeps outward (set_bits (insert IXGBEVF_QUEUE_RESET_REQUESTED))"
    by (simp add: keeps_def set_bits_def run_hw_op outward_def)
  have "keeps outward (ixgbevf_configure_dcb E)"
    unfolding ixgbevf_configure_dcb_def
    by (intro keeps_bind keeps_gets keeps_ret keeps_if keeps_whenM keeps_Let keeps_case_prod bit
        outward_keeps [OF surface_hw_op] outward_keeps [OF life_reg(2)] mode_requests mode_upd)
  then show ?thesis
    unfolding ixgbevf_configure_def
    by (intro keeps_bind outward_keeps [OF life_rx_mode(2)] outward_keeps [OF life_vlan(4)]
        outward_keeps [OF life_configure_tx(2)] outward_keeps [OF life_configure_rx(2)])
qed

lemma outward_carrier: "keeps outward (set_carrier b)"
proof (unfold keeps_def, intro allI)
  fix a
  let ?a = "snd (run_state (set_carrier b) a)"
  have s: "napi_on ?a = napi_on a" "timer_armed ?a = timer_armed a" "tx_started ?a = tx_started a" "mode (ad_hw ?a) = mode (ad_hw a)"
    using switches(1) [of b a] by (simp_all only: surface_cong)
  show "outward ?a = outward a" using s(1-3) down_mode [OF s(4), of IXGBEVF_DOWN] by (simp add: outward_def)
qed

definition taken_lines :: "adapter \<Rightarrow> nat set" where
  "taken_lines a = insert (num_q_vectors (ad_q a)) {v. v < num_q_vectors (ad_q a) \<and> vector_used (ad_q a) v}"

definition at_most_left :: "env \<Rightarrow> ring_kind \<Rightarrow> ring_mem \<Rightarrow> bool" where
  "at_most_left E k = left_over (k = Rx_ring \<longrightarrow> reg_reliable E)"

lemma vacant_at_most: "vacant m \<Longrightarrow> at_most_left E k m"
  by (simp add: at_most_left_def vacant_left_over)

text \<open>The error labels of \<open>ixgbevf_open\<close>: what has been taken is given back.\<close>

lemma open_failed_outcome:
  assumes run: "run_state (open_failed X irqs rx tx err) a = (e, a')"
    and irq: "if irqs then irqs_ready a \<and> msix_entries (ad_q a) \<noteq> None \<and> irq_lines a = taken_lines a else irq_lines a = {}"
    and mem: "every_ring (\<lambda>k m. if (if k = Rx_ring then rx else tx) then full k m else at_most_left (host_env X) k m) a"
  shows "e = err \<and> irq_lines a' = {} \<and> every_ring (at_most_left (host_env X)) a' \<and> outward a' = outward a"
proof -
  define a1 where "a1 = snd (run_state (whenM irqs ixgbevf_free_irq) a)"
  define a2 where "a2 = snd (run_state (whenM rx (ixgbevf_free_all_rx_resources (host_rx X))) a1)"
  define a3 where "a3 = snd (run_state (whenM tx ixgbevf_free_all_tx_resources) a2)"
  have a': "e = err" "a' = snd (run_state (ixgbevf_reset X) a3)"
    using run by (auto simp: open_failed_def a1_def a2_def a3_def case_prod_beta)
  have l1: "irq_lines a1 = {}"
    using irq free_irq_releases [of a] by (cases irqs) (simp_all add: a1_def taken_lines_def)
  have k1: "keeps holdings (whenM irqs ixgbevf_free_irq)" by (intro keeps_rules)
  have k2: "keeps (but_kinds {Rx_ring}) (whenM rx (ixgbevf_free_all_rx_resources (host_rx X)))"
    by (intro keeps_whenM free_all_frames)
  have k3: "keeps (but_kinds {Tx_ring, Xdp_ring}) (whenM tx ixgbevf_free_all_tx_resources)"
    by (intro keeps_whenM free_all_frames)
  note h1 = holdings_after [OF k1, where a = a, folded a1_def] and b2 = but_kinds_after [OF k2, where a = a1, folded a2_def]
    and b3 = but_kinds_after [OF k3, where a = a2, folded a3_def]
  note r2 = rest_counts [OF b2(2)] and r3 = rest_counts [OF b3(2)] and r4 = assets_after [OF life_reset(1) [of X], where a = a3, folded a'(2)]
  have nums: "num_tx_queues (ad_q a') = num_tx_queues (ad_q a)" "num_rx_queues (ad_q a') = num_rx_queues (ad_q a)"
    "num_xdp_queues (ad_q a') = num_xdp_queues (ad_q a)" by (simp_all add: r4 r3 r2 h1)
  have rxm: "at_most_left (host_env X) Rx_ring (ring_mems a2 Rx_ring i)" if "i < num_rx_queues (ad_q a)" for i
    using every_ringD(3) [OF mem that] every_ringD(3) [OF mem] free_all_rx [of a1 i "host_rx X"] that
    by (cases rx) (simp_all add: a2_def h1 vacant_at_most)
  have m2: "ring_mems a2 Tx_ring = ring_mems a Tx_ring" "ring_mems a2 Xdp_ring = ring_mems a Xdp_ring" by (simp_all add: b2(1) h1)
  have txm: "at_most_left (host_env X) Tx_ring (ring_mems a3 Tx_ring i)" if "i < num_tx_queues (ad_q a)" for i
    using every_ringD(1) [OF mem that] every_ringD(1,2) [OF mem] free_all_tx(1) [of a2 i] that
    by (cases tx) (simp_all add: a3_def m2 r2 h1 vacant_at_most)
  have xdpm: "at_most_left (host_env X) Xdp_ring (ring_mems a3 Xdp_ring i)" if "i < num_xdp_queues (ad_q a)" for i
    using every_ringD(2) [OF mem that] every_ringD(1,2) [OF mem] free_all_tx(2) [of a2 i] that
    by (cases tx) (simp_all add: a3_def m2 r2 h1 vacant_at_most)
  have "every_ring (at_most_left (host_env X)) a'"
    using rxm txm xdpm by (intro every_ringI) (simp_all add: nums r4(1) b3(1))
  moreover have "irq_lines a' = {}" using l1 by (simp add: r4 r3 r2)
  moreover have "surface a' = surface a"
    using keeps_snd [OF life_reset(2) [of X], of a3] by (simp add: a'(2) b3(3) b2(3) h1(2))
  ultimately show ?thesis using a'(1) outward_surface by blast
qed
text \<open>An open interface: every ring has its memory, every line its handler, and the kernel sees the device up.\<close>

definition in_service :: "adapter \<Rightarrow> bool" where
  "in_service a \<longleftrightarrow> every_ring full a \<and> irq_lines a = taken_lines a \<and> irqs_ready a \<and> IXGBEVF_DOWN \<notin> ad_bits a \<and>
     (\<forall>v < num_q_vectors (ad_q a). napi_on a v) \<and> timer_armed a \<and> tx_started a"

definition out_of_service :: "env \<Rightarrow> adapter \<Rightarrow> adapter \<Rightarrow> bool" where
  "out_of_service E a a' \<longleftrightarrow> every_ring (at_most_left E) a' \<and> irq_lines a' = {} \<and> outward a' = outward a"

text \<open>Both set-up loops: full rings, or nothing in the way of the error labels.\<close>

lemma rings_set_up:
  assumes vac: "every_ring (\<lambda>k. vacant) a"
    and tx: "run_state (ixgbevf_setup_all_tx_resources E) a = (e1, a1)"
    and rx: "run_state (ixgbevf_setup_all_rx_resources E R) a1 = (e2, a2)"
  shows "e1 \<noteq> 0 \<Longrightarrow> every_ring (at_most_left E) a1"
    and "e1 = 0 \<Longrightarrow> e2 \<noteq> 0 \<Longrightarrow> every_ring (\<lambda>k m. if k = Rx_ring then at_most_left E k m else full k m) a2"
    and "e1 = 0 \<Longrightarrow> e2 = 0 \<Longrightarrow> every_ring full a2"
    and "rest_assets a1 = rest_assets a" "surface a1 = surface a" "rest_assets a2 = rest_assets a" "surface a2 = surface a"
proof -
  note b1 = but_kinds_after [OF free_all_frames(4) [of E], where a = a, unfolded tx snd_conv]
  note b2 = but_kinds_after [OF free_all_frames(3) [of E R], where a = a1, unfolded rx snd_conv]
  show r: "rest_assets a1 = rest_assets a" "surface a1 = surface a" "rest_assets a2 = rest_assets a" "surface a2 = surface a"
    using b1 b2 by simp_all
  note n1 = rest_counts(1-3) [OF r(1)] and n2 = rest_counts(1-3) [OF r(3)]
  have m: "ring_mems a1 Rx_ring = ring_mems a Rx_ring" "ring_mems a2 Tx_ring = ring_mems a1 Tx_ring" "ring_mems a2 Xdp_ring = ring_mems a1 Xdp_ring"
    using b1(1) b2(1) by simp_all
  have t: "if e1 = 0 then full Tx_ring (ring_mems a1 Tx_ring i) else left_over True (ring_mems a1 Tx_ring i)" if "i < num_tx_queues (ad_q a)" for i
    using setup_all_tx(1) [OF tx _ _ that] every_ringD [OF vac] by simp
  have x: "if e1 = 0 then full Xdp_ring (ring_mems a1 Xdp_ring i) else left_over True (ring_mems a1 Xdp_ring i)" if "i < num_xdp_queues (ad_q a)" for i
    using setup_all_tx(2) [OF tx _ _ that] every_ringD [OF vac] by simp
  have v: "vacant (ring_mems a1 Rx_ring i)" if "i < num_rx_queues (ad_q a)" for i using every_ringD(3) [OF vac that] m by simp
  have y: "if e2 = 0 then full Rx_ring (ring_mems a2 Rx_ring i) else left_over (reg_reliable E) (ring_mems a2 Rx_ring i)" if "i < num_rx_queues (ad_q a)" for i
    using setup_all_rx [OF rx, of i] v that n1 by simp
  show "e1 \<noteq> 0 \<Longrightarrow> every_ring (at_most_left E) a1"
    using t x v by (intro every_ringI) (auto simp: n1 at_most_left_def vacant_left_over)
  show "e1 = 0 \<Longrightarrow> e2 \<noteq> 0 \<Longrightarrow> every_ring (\<lambda>k m. if k = Rx_ring then at_most_left E k m else full k m) a2"
    using t x y by (intro every_ringI) (auto simp: n2 m at_most_left_def)
  show "e1 = 0 \<Longrightarrow> e2 = 0 \<Longrightarrow> every_ring full a2"
    using t x y by (intro every_ringI) (auto simp: n2 m)
qed

lemma every_ring_cong:
  assumes "ring_mems a' = ring_mems a" and "num_tx_queues (ad_q a') = num_tx_queues (ad_q a)"
    and "num_rx_queues (ad_q a') = num_rx_queues (ad_q a)" and "num_xdp_queues (ad_q a') = num_xdp_queues (ad_q a)"
  shows "every_ring P a' = every_ring P a"
  unfolding every_ring_def ring_number_def assms ..

lemma every_ring_mono: "every_ring P a \<Longrightarrow> (\<And>k m. P k m \<Longrightarrow> Q k m) \<Longrightarrow> every_ring Q a"
  by (simp add: every_ring_def)

lemma holdings_rest: "rest_assets a' = rest_assets a \<Longrightarrow> ring_mems a' = ring_mems a \<Longrightarrow> every_ring P a' = every_ring P a"
  by (rule every_ring_cong) (simp_all add: rest_assets_def)

lemma taken_rest: "rest_assets a' = rest_assets a \<Longrightarrow> taken_lines a' = taken_lines a"
  by (simp add: rest_assets_def taken_lines_def)

text \<open>Requesting the lines and telling the stack the queue counts.\<close>

definition take_lines :: "env \<Rightarrow> (int \<times> bool) adop" where
  "take_lines E = do {
     err \<leftarrow> ixgbevf_request_irq E;
     if err \<noteq> 0 then ret (err, False)
     else do {
       n \<leftarrow> gets (\<lambda>a. num_tx_queues (ad_q a));
       err \<leftarrow> hw_op (kcall E ''netif_set_real_num_tx_queues'' [int n]);
       if err \<noteq> 0 then ret (err, True)
       else do {
         n \<leftarrow> gets (\<lambda>a. num_rx_queues (ad_q a));
         err \<leftarrow> hw_op (kcall E ''netif_set_real_num_rx_queues'' [int n]);
         ret (err, True) } } }"

lemma request_irq_success:
  assumes "run_state (ixgbevf_request_irq E) a = (0, a')"
  shows "num_q_vectors (ad_q a') = num_q_vectors (ad_q a)" "vector_used (ad_q a') = vector_used (ad_q a)"
    "msix_entries (ad_q a') = msix_entries (ad_q a)"
proof -
  define plan where "plan = (\<lambda>a :: adapter. (num_q_vectors (ad_q a), vector_used (ad_q a), msix_entries (ad_q a)))"
  have hw [keeps_rules]: "keeps plan (hw_op p)" for p :: "int hwop" by (simp add: keeps_def run_hw_op plan_def)
  have line [keeps_rules]: "keeps plan (request_line E v)" for v
    unfolding request_line_def by (intro keeps_rules) (simp add: plan_def)
  have queue: "keeps plan (request_queue_lines E n v)" for n v
    by (induction n arbitrary: v) (auto intro!: keeps_rules)
  have fail: "fst (run_state (free_queue_irqs x w) b) = x" for x w b by (simp add: free_queue_irqs_def case_prod_beta)
  obtain e1 w a1 where r1: "run_state (request_queue_lines E (num_q_vectors (ad_q a)) 0) a = ((e1, w), a1)" by (metis surj_pair)
  obtain e2 a2 where r2: "run_state (request_line E w) a1 = (e2, a2)" by fastforce
  have "e1 = 0" "e2 = 0" "a' = a2\<lparr>irqs_ready := True\<rparr>"
    using assms r1 r2 fail by (auto simp: ixgbevf_request_irq_def ixgbevf_request_msix_irqs_def split: if_splits) (metis fst_conv)+
  moreover have "plan a2 = plan a" using keeps_snd [OF queue, of _ 0 a] keeps_snd [OF line, of w a1] r1 r2 by (metis snd_conv)
  ultimately show "num_q_vectors (ad_q a') = num_q_vectors (ad_q a)" "vector_used (ad_q a') = vector_used (ad_q a)"
    "msix_entries (ad_q a') = msix_entries (ad_q a)" by (simp_all add: plan_def)
qed

lemma take_lines_outcome:
  assumes run: "run_state (take_lines E) a = ((e, irqs), a')" and l: "irq_lines a = {}" and m: "msix_entries (ad_q a) \<noteq> None"
  shows "(if irqs then irqs_ready a' \<and> msix_entries (ad_q a') \<noteq> None \<and> irq_lines a' = taken_lines a' else irq_lines a' = {}) \<and>
    (\<not> irqs \<longrightarrow> e \<noteq> 0)"
proof -
  obtain e1 a1 where r1: "run_state (ixgbevf_request_irq E) a = (e1, a1)" by fastforce
  note o = request_irq_outcome [OF l m r1]
  show ?thesis
  proof (cases "e1 = 0")
    case False
    then have "irqs = False" "e = e1" "a' = a1" using run r1 by (auto simp: take_lines_def)
    then show ?thesis using o False by simp
  next
    case True
    have keep: "rest_assets (snd (run_state (hw_op p) s)) = rest_assets s" for p :: "int hwop" and s
      using keeps_snd [OF life_hw_op, of p s] by (simp add: assets_def)
    have "irqs" "rest_assets a' = rest_assets a1"
      using run r1 True keep by (auto simp: take_lines_def case_prod_beta split: if_splits)
    moreover have "num_q_vectors (ad_q a1) = num_q_vectors (ad_q a)" "vector_used (ad_q a1) = vector_used (ad_q a)" "msix_entries (ad_q a1) = msix_entries (ad_q a)"
      using request_irq_success [of E a a1] r1 True by simp_all
    ultimately show ?thesis using o True m by (auto simp: rest_assets_def taken_lines_def)
  qed
qed

lemma open_rings_split:
  "run_state (open_rings X) a = run_state (do {
     set_carrier False;
     err \<leftarrow> ixgbevf_setup_all_tx_resources (host_env X);
     if err \<noteq> 0 then open_failed X False False False err
     else do {
       err \<leftarrow> ixgbevf_setup_all_rx_resources (host_env X) (host_rx X);
       if err \<noteq> 0 then open_failed X False False True err
       else do {
         ixgbevf_configure (host_env X) (host_stack X ''ixgbe_update_mc_addr_list_vf'') (host_rx X);
         (err, irqs) \<leftarrow> take_lines (host_env X);
         if err \<noteq> 0 then open_failed X irqs True True err
         else do { ixgbevf_up_complete (host_env X); ret 0 } } } }) a"
  by (simp add: open_rings_def take_lines_def Let_def case_prod_beta)

lemma holdings_take_lines: "keeps holdings (take_lines E)"
  unfolding take_lines_def by (intro keeps_rules)

lemma open_rings_outcome:
  assumes run: "run_state (open_rings X) a = (e, a')" and vac: "every_ring (\<lambda>k. vacant) a"
    and l: "irq_lines a = {}" and m: "msix_entries (ad_q a) \<noteq> None"
  shows "if e = 0 then in_service a' else out_of_service (host_env X) a a'"
proof -
  let ?E = "host_env X"
  define stk where "stk = host_stack X ''ixgbe_update_mc_addr_list_vf''"
  let ?conf = "ixgbevf_configure ?E stk (host_rx X)"
  define a0 where "a0 = snd (run_state (set_carrier False) a)"
  obtain e1 a1 where r1: "run_state (ixgbevf_setup_all_tx_resources ?E) a0 = (e1, a1)" by fastforce
  obtain e2 a2 where r2: "run_state (ixgbevf_setup_all_rx_resources ?E (host_rx X)) a1 = (e2, a2)" by fastforce
  define a3 where "a3 = snd (run_state ?conf a2)"
  obtain e4 irqs a4 where r4: "run_state (take_lines ?E) a3 = ((e4, irqs), a4)" by (metis surj_pair)
  have as0: "assets a0 = assets a" using keeps_snd [OF life_switches(1)] by (simp add: a0_def)
  have as3: "assets a3 = assets a2" using keeps_snd [OF life_configure] by (simp add: a3_def)
  have vac0: "every_ring (\<lambda>k. vacant) a0" using vac holdings_rest [of a0 a] as0 by (simp add: assets_def)
  note up = rings_set_up [OF vac0 r1 r2]
  have rest: "rest_assets a0 = rest_assets a" "rest_assets a3 = rest_assets a" using as0 as3 up(6) by (simp_all add: assets_def)
  have rest12: "rest_assets a1 = rest_assets a" "rest_assets a2 = rest_assets a" using up(4,6) rest by simp_all
  have out: "outward a0 = outward a" "outward a1 = outward a" "outward a2 = outward a" "outward a3 = outward a" "outward a4 = outward a"
  proof -
    show o0: "outward a0 = outward a" using keeps_snd [OF outward_carrier] by (simp add: a0_def)
    show o1: "outward a1 = outward a" "outward a2 = outward a" using outward_surface [OF up(5)] outward_surface [OF up(7)] o0 by simp_all
    show o3: "outward a3 = outward a" using keeps_snd [OF configure_outward] o1 by (simp add: a3_def)
    show "outward a4 = outward a"
      using outward_surface [OF holdings_after(2) [OF holdings_take_lines [of ?E], where a = a3, unfolded r4 snd_conv]] o3 by simp
  qed
  have c: "run_state (set_carrier False) a = ((), a0)" "run_state ?conf a2 = ((), a3)" by (simp_all add: prod_eq_iff a0_def a3_def)
  have split: "(e, a') = (if e1 \<noteq> 0 then run_state (open_failed X False False False e1) a1
      else if e2 \<noteq> 0 then run_state (open_failed X False False True e2) a2
      else if e4 \<noteq> 0 then run_state (open_failed X irqs True True e4) a4
      else (0, snd (run_state (ixgbevf_up_complete ?E) a4)))"
    using run unfolding open_rings_split stk_def [symmetric]
    by (cases "e1 = 0"; cases "e2 = 0"; cases "e4 = 0") (simp_all add: c r1 r2 r4 case_prod_beta)
  show ?thesis
  proof (cases "e1 = 0")
    case False
    then have "run_state (open_failed X False False False e1) a1 = (e, a')" using split by simp
    from open_failed_outcome [OF this] have "e = e1 \<and> out_of_service ?E a1 a'"
      using l rest_counts(7) [OF rest12(1)] up(1) False by (simp add: out_of_service_def if_distrib cong: if_cong)
    then show ?thesis using False out by (simp add: out_of_service_def)
  next
    case e1: True
    show ?thesis
    proof (cases "e2 = 0")
      case False
      then have "run_state (open_failed X False False True e2) a2 = (e, a')" using split e1 by simp
      have mixed: "every_ring (\<lambda>k m. if (if k = Rx_ring then False else True) then full k m else at_most_left ?E k m) a2"
        using up(2) [OF e1 False] by (rule every_ring_mono) (auto split: if_splits)
      from open_failed_outcome [OF \<open>run_state (open_failed X False False True e2) a2 = (e, a')\<close>] have "e = e2 \<and> out_of_service ?E a2 a'"
        using l rest_counts(7) [OF rest12(2)] mixed by (simp add: out_of_service_def)
      then show ?thesis using False out by (simp add: out_of_service_def)
    next
      case e2: True
      have lm: "irq_lines a3 = {}" "msix_entries (ad_q a3) \<noteq> None" using l m rest_counts(5,7) [OF rest(2)] by simp_all
      note lines = take_lines_outcome [OF r4 lm]
      have "every_ring full a3" using up(3) [OF e1 e2] holdings_rest [of a3 a2] as3 by (simp add: assets_def)
      then have full: "every_ring full a4" using every_ring_after [OF holdings_take_lines, of full ?E a3] r4 by simp
      show ?thesis
      proof (cases "e4 = 0")
        case False
        then have "run_state (open_failed X irqs True True e4) a4 = (e, a')" using split e1 e2 by simp
        from open_failed_outcome [OF this] have "e = e4 \<and> out_of_service ?E a4 a'"
          using lines full by (simp add: out_of_service_def split: if_splits)
        then show ?thesis using False out by (simp add: out_of_service_def)
      next
        case True
        then have fin: "e = 0" "a' = snd (run_state (ixgbevf_up_complete ?E) a4)" using split e1 e2 by simp_all
        have as5: "assets a' = assets a4" using keeps_snd [OF life_up_complete] by (simp add: fin)
        then have rest5: "rest_assets a' = rest_assets a4" "ring_mems a' = ring_mems a4" by (simp_all add: assets_def)
        have s: "surface a' = ((\<lambda>q. q < num_q_vectors (ad_q a4) \<or> napi_on a4 q), True, True, carrier a4, mode (ad_hw a4) - {IXGBEVF_DOWN})"
          using up_complete_surface by (simp add: fin)
        have "IXGBEVF_DOWN \<notin> ad_bits a'" using s by (auto simp: surface_cong mode_def)
        then have "in_service a'"
          using lines True full s rest_counts [OF rest5(1)] holdings_rest [OF rest5] taken_rest [OF rest5(1)]
          by (cases irqs) (simp_all add: in_service_def surface_cong)
        then show ?thesis using fin by simp
      qed
    qed
  qed
qed

text \<open>Closing and suspending share \<open>ixgbevf_close_suspend\<close>.\<close>

lemma close_suspend_outcome:
  assumes "in_service a" and "msix_entries (ad_q a) \<noteq> None"
    and a'_def: "a' = snd (run_state (ixgbevf_close_suspend X) a)"
  shows "every_ring (\<lambda>k. vacant) a' \<and> irq_lines a' = {} \<and> \<not> irqs_ready a' \<and> IXGBEVF_DOWN \<in> ad_bits a' \<and>
    (\<forall>v < num_q_vectors (ad_q a). \<not> napi_on a' v) \<and> \<not> timer_armed a' \<and> \<not> tx_started a' \<and> \<not> carrier a'"
proof -
  define a1 where "a1 = snd (run_state (ixgbevf_down X) a)"
  define a2 where "a2 = snd (run_state ixgbevf_free_irq a1)"
  define a3 where "a3 = snd (run_state ixgbevf_free_all_tx_resources a2)"
  have a': "a' = snd (run_state (ixgbevf_free_all_rx_resources (host_rx X)) a3)"
    by (simp add: a'_def ixgbevf_close_suspend_def a1_def a2_def a3_def case_prod_beta)
  note in_s = assms(1) [unfolded in_service_def]
  have as1: "assets a1 = assets a" using keeps_snd [OF life_down] by (simp add: a1_def)
  then have r1: "rest_assets a1 = rest_assets a" "ring_mems a1 = ring_mems a" by (simp_all add: assets_def)
  note c1 = rest_counts [OF r1(1)]
  have "IXGBEVF_DOWN \<notin> ad_bits a" using in_s by simp
  note s1 = down_surface [OF this, of X, folded a1_def]
  have lines2: "irq_lines a2 = {} \<and> \<not> irqs_ready a2"
    unfolding a2_def using in_s assms(2) by (intro free_irq_releases) (simp_all add: c1 taken_lines_def)
  note h2 = holdings_after [OF holdings_irq(2), where a = a1, folded a2_def]
  have full2: "every_ring full a2" using in_s holdings_rest [OF r1] every_ring_after [OF holdings_irq(2), of full a1] by (simp add: a2_def)
  note b3 = but_kinds_after [OF free_all_frames(2), where a = a2, folded a3_def] and b4 = but_kinds_after [OF free_all_frames(1) [of "host_rx X"], where a = a3, folded a']
  note c3 = rest_counts [OF b3(2)] and c4 = rest_counts [OF b4(2)]
  have "every_ring (\<lambda>k. vacant) a'"
  proof (rule every_ringI)
    show "vacant (ring_mems a' Rx_ring i)" if "i < num_rx_queues (ad_q a')" for i
      using free_all_rx [of a3 i "host_rx X"] every_ringD(3) [OF full2] b3(1) [of Rx_ring] that c3 c4 by (simp add: a')
    show "vacant (ring_mems a' Tx_ring i)" if "i < num_tx_queues (ad_q a')" for i
      using free_all_tx(1) [of a2 i] every_ringD(1,2) [OF full2] b4(1) [of Tx_ring] that c3 c4 by (simp add: a3_def)
    show "vacant (ring_mems a' Xdp_ring i)" if "i < num_xdp_queues (ad_q a')" for i
      using free_all_tx(2) [of a2 i] every_ringD(1,2) [OF full2] b4(1) [of Xdp_ring] that c3 c4 by (simp add: a3_def)
  qed
  moreover have "surface a' = surface a1"
    using b4(3) b3(3) h2(2) by simp
  then have "surface a' = ((\<lambda>q. \<not> q < num_q_vectors (ad_q a) \<and> napi_on a q), False, False, False, insert IXGBEVF_DOWN (mode (ad_hw a)))"
    using s1 by simp
  then have "IXGBEVF_DOWN \<in> mode (ad_hw a')" "\<forall>v < num_q_vectors (ad_q a). \<not> napi_on a' v" "\<not> timer_armed a'" "\<not> tx_started a'" "\<not> carrier a'"
    by (auto simp: surface_cong)
  ultimately show ?thesis using lines2 c3 c4 by (simp add: mode_def)
qed


subsection \<open>Samples\<close>

text \<open>A host whose kernel has no memory, and an interface in service on a host.\<close>

definition sample_host :: host where
  "sample_host = \<lparr>host_env = sample_env, host_mmconfig = False, host_stack = (\<lambda>_ _. 0), host_rx = (\<lambda>_. sample_rxenv), host_cpus = 1\<rparr>"

definition running_adapter :: adapter where
  "running_adapter = sample_adapter\<lparr>ring_mems := (\<lambda>k i. \<lparr>rm_info = True, rm_desc = True, rm_dma = 4096, rm_size = 4096, rm_xdp_reg = (k = Rx_ring)\<rparr>),
     irq_lines := {0, 1}, irqs_ready := True, napi_on := (\<lambda>v. v = 0), timer_armed := True, tx_started := True, carrier := True\<rparr>"

lemma sample_queue_facts:
  "num_q_vectors (ad_q sample_adapter) = 1" "num_tx_queues (ad_q sample_adapter) = 1" "msix_entries (ad_q sample_adapter) \<noteq> None"
  "vector_used (ad_q sample_adapter) 0" "adapter_stopped (ad_hw sample_adapter) = False" "ad_bits sample_adapter = {IXGBEVF_SERVICE_INITED}"
  by code_simp+

lemma no_memory_setup:
  assumes "num_tx_queues (ad_q a) = 1"
  shows "fst (run_state (ixgbevf_setup_all_tx_resources sample_env) a) = - ENOMEM"
  using assms
  by (simp add: ixgbevf_setup_all_tx_resources_def ixgbevf_setup_tx_resources_def setup_failed_def case_prod_beta run_hw_op kcall_def
      log_io_def kernel_call_def upd_mem_def eval_nat_numeral sample_env_def)



end
