(* ===== verification/Service_Props.thy ===== *)
theory Service_Props
  imports Life_Props
begin

text \<open>
  The service task completes: no operation it runs forgets that the task is scheduled, so that the \<open>BUG_ON\<close> of
  \<open>ixgbevf_service_event_complete\<close> never fires, and no reset is left in progress.
\<close>

text \<open>The task is scheduled, and a reset is in progress exactly when \<open>z\<close>.\<close>

definition staged_hw :: "bool \<Rightarrow> ixgbe_hw \<Rightarrow> bool" where
  "staged_hw z hw \<longleftrightarrow> IXGBEVF_SERVICE_SCHED \<in> back_state hw \<and> (IXGBEVF_RESETTING \<in> back_state hw \<longleftrightarrow> z)"

abbreviation staged :: "bool \<Rightarrow> adapter \<Rightarrow> bool" where "staged z a \<equiv> staged_hw z (ad_hw a)"
abbreviation staged_q :: "bool \<Rightarrow> queues \<Rightarrow> bool" where "staged_q z q \<equiv> staged_hw z (qs_hw q)"

lemma staged_hw_simps [simp]:
  "staged_hw z (h\<lparr>io := l\<rparr>) = staged_hw z h" "staged_hw z (h\<lparr>mac := m\<rparr>) = staged_hw z h"
  by (simp_all add: staged_hw_def)

lemma staged_calm: "calm m \<Longrightarrow> preserves (staged_hw z) m"
proof (rule preservesI)
  fix hw assume "calm m" "staged_hw z hw"
  then show "staged_hw z (snd (run_state m hw))"
    using down_mode [of "snd (run_state m hw)" hw IXGBEVF_RESETTING] by (auto simp: staged_hw_def calm_def)
qed

lemma staged_on_q [preserves_rules]: "preserves (staged_q z) m \<Longrightarrow> preserves (staged z) (on_q m)"
  by (rule preservesI) (simp add: run_on_q preserves_snd [where P = "\<lambda>q. staged_q z q"])

lemma staged_qs_on_hw [preserves_rules]: "calm m \<Longrightarrow> preserves (staged_q z) (qs_on_hw m)"
  by (rule preservesI) (simp add: qs_on_hw_def case_prod_beta preserves_snd [OF staged_calm])

lemma staged_hw_op [preserves_rules]: "calm m \<Longrightarrow> preserves (staged z) (hw_op m)"
  unfolding hw_op_def by (intro preserves_rules)

lemma staged_io [preserves_rules]:
  "preserves (staged z) (wr r v)" "preserves (staged z) (rd E r)" "preserves (staged z) (kernel_call s as)"
  unfolding wr_def rd_def kernel_call_def by (intro preserves_rules calm_rules)+

lemma staged_bits [preserves_rules]:
  "s \<noteq> IXGBEVF_RESETTING \<Longrightarrow> preserves (staged z) (set_bits (insert s))"
  "s \<noteq> IXGBEVF_SERVICE_SCHED \<Longrightarrow> s \<noteq> IXGBEVF_RESETTING \<Longrightarrow> preserves (staged z) (set_bits (\<lambda>b. b - {s}))"
  by (rule preservesI, simp add: run_set_bits staged_hw_def)+

lemma staged_rings [preserves_rules]:
  "preserves (staged z) (on_tx i m)" "preserves (staged z) (on_rx i m')" "preserves (staged z) (on_ring_of k i m)"
  unfolding on_ring_of_def on_tx_def on_rx_def by (rule preservesI, simp split: prod.splits if_splits)+

lemma staged_mem [preserves_rules]: "preserves (staged z) (upd_mem k i f)" "preserves (staged z) (upd_stats g)"
  unfolding upd_mem_def upd_stats_def by (intro preserves_rules; simp)+

subsection \<open>Queues and vectors\<close>

text \<open>What building and taking down the interrupt scheme leaves of the life-cycle bits: everything but the down bit.\<close>

definition life_hw :: "bool \<Rightarrow> ixgbevf_state_t set \<Rightarrow> ixgbe_hw \<Rightarrow> bool" where
  "life_hw s M hw \<longleftrightarrow> (s \<longrightarrow> IXGBEVF_SERVICE_SCHED \<in> back_state hw) \<and> mode hw - {IXGBEVF_DOWN} = M"

abbreviation life_q :: "bool \<Rightarrow> ixgbevf_state_t set \<Rightarrow> queues \<Rightarrow> bool" where "life_q s M q \<equiv> life_hw s M (qs_hw q)"

lemma life_hw_down [simp]: "life_hw s M (h\<lparr>back_state := insert IXGBEVF_DOWN (back_state h)\<rparr>) = life_hw s M h"
  by (auto simp: life_hw_def mode_def)

lemma life_qs_on_hw [preserves_rules]: "calm m \<Longrightarrow> preserves (life_q s M) (qs_on_hw m)"
  by (rule preservesI) (simp add: qs_on_hw_def case_prod_beta calm_def life_hw_def)

lemma life_hw_bit: "life_hw s M hw \<Longrightarrow> b \<noteq> IXGBEVF_SERVICE_SCHED \<Longrightarrow> b \<noteq> IXGBEVF_DOWN \<Longrightarrow> b \<in> back_state hw \<longleftrightarrow> b \<in> M"
  by (auto simp: life_hw_def mode_def)

lemma life_bits:
  assumes m: "\<And>s M. preserves (life_q s M) m"
  shows "b \<noteq> IXGBEVF_SERVICE_SCHED \<Longrightarrow> b \<noteq> IXGBEVF_DOWN \<Longrightarrow> b \<in> back_state (qs_hw (snd (run_state m q))) \<longleftrightarrow> b \<in> back_state (qs_hw q)"
    and "IXGBEVF_SERVICE_SCHED \<in> back_state (qs_hw q) \<Longrightarrow> IXGBEVF_SERVICE_SCHED \<in> back_state (qs_hw (snd (run_state m q)))"
proof -
  define s where "s = (IXGBEVF_SERVICE_SCHED \<in> back_state (qs_hw q))"
  define M where "M = mode (qs_hw q) - {IXGBEVF_DOWN}"
  have "life_q s M q" by (simp add: s_def M_def life_hw_def)
  moreover from this have "life_q s M (snd (run_state m q))" by (rule preserves_snd [OF m])
  ultimately show "b \<noteq> IXGBEVF_SERVICE_SCHED \<Longrightarrow> b \<noteq> IXGBEVF_DOWN \<Longrightarrow> b \<in> back_state (qs_hw (snd (run_state m q))) \<longleftrightarrow> b \<in> back_state (qs_hw q)"
    and "IXGBEVF_SERVICE_SCHED \<in> back_state (qs_hw q) \<Longrightarrow> IXGBEVF_SERVICE_SCHED \<in> back_state (qs_hw (snd (run_state m q)))"
    by (simp_all add: life_hw_bit) (simp add: life_hw_def s_def)
qed

lemma life_staged: "(\<And>s M. preserves (life_q s M) m) \<Longrightarrow> preserves (staged_q z) m"
  by (rule preservesI) (simp add: staged_hw_def life_bits)

lemma life_free_vectors [preserves_rules]: "preserves (life_q s M) (free_vectors_below n)"
proof -
  have "preserves (life_q s M) (ixgbevf_free_q_vector v)" for v
    unfolding ixgbevf_free_q_vector_def by (intro preserves_rules calm_rules) simp_all
  then show ?thesis by (induction n) (auto intro!: preserves_rules)
qed

lemma life_scheme [preserves_rules]:
  "preserves (life_q s M) (ixgbevf_clear_interrupt_scheme E)" "preserves (life_q s M) (ixgbevf_init_interrupt_scheme E n)"
proof -
  have cap [preserves_rules]: "preserves (life_q s M) (ixgbevf_reset_interrupt_capability E)"
    unfolding ixgbevf_reset_interrupt_capability_def by (intro preserves_rules calm_rules) simp
  show "preserves (life_q s M) (ixgbevf_clear_interrupt_scheme E)"
    unfolding ixgbevf_clear_interrupt_scheme_def ixgbevf_free_q_vectors_def by (intro preserves_rules) simp_all
  have [preserves_rules]: "preserves (life_q s M) (add_tx_rings v n i r)" "preserves (life_q s M) (add_xdp_rings v n i r)"
    "preserves (life_q s M) (add_rx_rings v n i)" for v n i r
    by (induction n arbitrary: i r) (auto simp: Let_def intro!: preserves_rules)
  have [preserves_rules]: "preserves (life_q s M) (ixgbevf_alloc_q_vector E v a b c d e f)" for v a b c d e f
    unfolding ixgbevf_alloc_q_vector_def by (intro preserves_rules calm_rules) simp
  have [preserves_rules]: "preserves (life_q s M) (alloc_err_out v)" for v
    unfolding alloc_err_out_def by (intro preserves_rules) simp
  have [preserves_rules]: "preserves (life_q s M) (alloc_shared_vectors E k v p)" for k v p
    by (induction k arbitrary: v p) (auto simp: Let_def intro!: preserves_rules)
  have [preserves_rules]: "preserves (life_q s M) (alloc_rx_vectors E k v p)" for k v p
    by (induction k arbitrary: v p) (auto simp: Let_def intro!: preserves_rules)
  show "preserves (life_q s M) (ixgbevf_init_interrupt_scheme E n)"
    unfolding ixgbevf_init_interrupt_scheme_def ixgbevf_set_num_queues_def ixgbevf_set_interrupt_capability_def
      ixgbevf_acquire_msix_vectors_def ixgbevf_alloc_q_vectors_def
    by (intro preserves_rules calm_rules; simp add: Let_def life_hw_down)
qed
lemma staged_scheme [preserves_rules]:
  "preserves (staged_q z) (ixgbevf_clear_interrupt_scheme E)" "preserves (staged_q z) (ixgbevf_init_interrupt_scheme E n)"
  by (rule life_staged, rule life_scheme)+

subsection \<open>Configuration, up and down\<close>

lemma staged_vlan [preserves_rules]: "preserves (staged z) (ixgbevf_restore_vlan E)"
  unfolding ixgbevf_restore_vlan_def ixgbevf_vlan_rx_add_vid_def by (intro preserves_rules calm_rules) simp

lemma staged_rx_mode [preserves_rules]: "preserves (staged z) (ixgbevf_set_rx_mode E stk)" "preserves (staged z) (ixgbevf_configure_dcb E)"
  unfolding ixgbevf_set_rx_mode_def ixgbevf_write_uc_addr_list_def ixgbevf_configure_dcb_def
  by (intro preserves_rules calm_rules; simp)+

lemma staged_negotiate [preserves_rules]: "preserves (staged z) (ixgbevf_negotiate_api E)"
proof -
  have [preserves_rules]: "preserves (staged z) (try_api_versions E l)" for l
    by (induction l) (auto intro!: preserves_rules calm_rules)
  show ?thesis unfolding ixgbevf_negotiate_api_def ixgbevf_set_features_def by (intro preserves_rules calm_rules; simp)
qed

lemma staged_configure [preserves_rules]: "preserves (staged z) (ixgbevf_configure E stk R)"
proof -
  have [preserves_rules]: "preserves (staged z) (wait_tx_enabled E r n)" "preserves (staged z) (wait_rx_enabled E r n)"
    "preserves (staged z) (wait_rx_disabled E r n)" for r n
    by (induction n) (auto intro!: preserves_rules calm_rules)
  have [preserves_rules]: "preserves (staged z) (fill_reta s n i j v)" for s n i j v
    by (induction n arbitrary: i j v) (auto simp: Let_def intro!: preserves_rules)
  have [preserves_rules]: "preserves (staged z) (ixgbevf_configure_rx_ring E R i)" for i
    unfolding ixgbevf_configure_rx_ring_def ixgbevf_configure_srrctl_def ixgbevf_rx_desc_queue_enable_def
      ixgbevf_disable_rx_queue_def by (intro preserves_rules calm_rules)
  have "preserves (staged z) (ixgbevf_configure_tx E)"
    unfolding ixgbevf_configure_tx_def ixgbevf_configure_tx_ring_def by (intro preserves_rules calm_rules)
  moreover have "preserves (staged z) (ixgbevf_configure_rx E R)"
    unfolding ixgbevf_configure_rx_def ixgbevf_setup_psrtype_def ixgbevf_setup_vfmrqc_def ixgbevf_set_rx_buffer_len_def
    by (intro preserves_rules calm_rules)
  ultimately show ?thesis unfolding ixgbevf_configure_def by (intro preserves_rules)
qed

lemma staged_irq [preserves_rules]:
  "preserves (staged z) (ixgbevf_configure_msix E)" "preserves (staged z) ixgbevf_irq_enable" "preserves (staged z) (ixgbevf_irq_disable E)"
  unfolding ixgbevf_configure_msix_def configure_vector_def ixgbevf_set_ivar_def set_itr_of_def ixgbevf_write_eitr_def
    ixgbevf_irq_enable_def ixgbevf_irq_disable_def
  by (intro preserves_rules calm_rules; simp)+

lemma staged_switches [preserves_rules]:
  "preserves (staged z) (set_carrier b)" "preserves (staged z) (set_timer b)" "preserves (staged z) (set_tx_started b)"
  "preserves (staged z) ixgbevf_napi_enable_all" "preserves (staged z) ixgbevf_napi_disable_all"
  unfolding set_carrier_def set_timer_def set_tx_started_def ixgbevf_napi_enable_all_def ixgbevf_napi_disable_all_def
  by (intro preserves_rules; simp)+

lemma staged_reset [preserves_rules]: "preserves (staged z) (ixgbevf_reset X)"
  unfolding ixgbevf_reset_def by (intro preserves_rules calm_rules; simp)

lemma staged_up [preserves_rules]: "preserves (staged z) (ixgbevf_up_complete E)" "preserves (staged z) (ixgbevf_up X)"
proof -
  show u: "preserves (staged z) (ixgbevf_up_complete E)" for E
    unfolding ixgbevf_up_complete_def ixgbevf_save_reset_stats_def ixgbevf_init_last_counter_stats_def
    by (intro preserves_rules calm_rules; simp)
  show "preserves (staged z) (ixgbevf_up X)" unfolding ixgbevf_up_def by (intro preserves_rules u)
qed

lemma staged_down [preserves_rules]: "preserves (staged z) (ixgbevf_down X)"
proof -
  have [preserves_rules]: "preserves (staged z) (wait_rx_disabled E r n)" for E r n
    by (induction n) (auto intro!: preserves_rules calm_rules)
  show ?thesis
    unfolding ixgbevf_down_def ixgbevf_disable_rx_queue_def flush_tx_queues_def ixgbevf_clean_all_tx_rings_def ixgbevf_clean_all_rx_rings_def
    by (intro preserves_rules calm_rules; simp)
qed

subsection \<open>Open and close\<close>

lemma staged_lines [preserves_rules]: "preserves (staged z) (ixgbevf_request_irq E)" "preserves (staged z) ixgbevf_free_irq"
proof -
  have [preserves_rules]: "preserves (staged z) (request_line E v)" "preserves (staged z) (free_line v)" for v
    unfolding request_line_def free_line_def by (intro preserves_rules calm_rules; simp)+
  have [preserves_rules]: "preserves (staged z) (request_queue_lines E n v)" for n v
    by (induction n arbitrary: v) (auto intro!: preserves_rules)
  have [preserves_rules]: "preserves (staged z) (free_lines_below n)" for n
    by (induction n) (auto intro!: preserves_rules)
  show "preserves (staged z) (ixgbevf_request_irq E)" "preserves (staged z) ixgbevf_free_irq"
    unfolding ixgbevf_request_irq_def ixgbevf_request_msix_irqs_def free_queue_irqs_def ixgbevf_free_irq_def
    by (intro preserves_rules; simp)+
qed

lemma staged_memory [preserves_rules]:
  "preserves (staged z) (ixgbevf_setup_all_tx_resources E)" "preserves (staged z) (ixgbevf_setup_all_rx_resources E R)"
  "preserves (staged z) ixgbevf_free_all_tx_resources" "preserves (staged z) (ixgbevf_free_all_rx_resources R)"
proof -
  have one [preserves_rules]: "preserves (staged z) (ixgbevf_setup_tx_resources E k i)" "preserves (staged z) (ixgbevf_setup_rx_resources E i)"
    "preserves (staged z) (ixgbevf_free_tx_resources k i)" "preserves (staged z) (ixgbevf_free_rx_resources R i)" for k i
    unfolding ixgbevf_setup_tx_resources_def ixgbevf_setup_rx_resources_def ixgbevf_free_tx_resources_def
      ixgbevf_free_rx_resources_def setup_failed_def
    by (intro preserves_rules calm_rules)+
  have [preserves_rules]: "preserves (staged z) (setup_each f n i)" if "\<And>i. preserves (staged z) (f i)" for f n i
    using that by (induction n arbitrary: i) (auto intro!: preserves_rules)
  have [preserves_rules]: "preserves (staged z) (free_rings_below f n)" if "\<And>i. preserves (staged z) (f i)" for f n
    using that by (induction n) (auto intro!: preserves_rules)
  show "preserves (staged z) (ixgbevf_setup_all_tx_resources E)" "preserves (staged z) (ixgbevf_setup_all_rx_resources E R)"
    "preserves (staged z) ixgbevf_free_all_tx_resources" "preserves (staged z) (ixgbevf_free_all_rx_resources R)"
    unfolding ixgbevf_setup_all_tx_resources_def ixgbevf_setup_all_rx_resources_def ixgbevf_free_all_tx_resources_def
      ixgbevf_free_all_rx_resources_def free_if_desc_def
    by (intro preserves_rules)+
qed

lemma staged_open [preserves_rules]: "preserves (staged z) (ixgbevf_open X)" "preserves (staged z) (ixgbevf_close X)"
proof -
  have [preserves_rules]: "preserves (staged z) (open_failed X i r t e)" for i r t e
    unfolding open_failed_def by (intro preserves_rules)
  have [preserves_rules]: "preserves (staged z) (open_rings X)"
    unfolding open_rings_def by (intro preserves_rules calm_rules)
  show "preserves (staged z) (ixgbevf_open X)" "preserves (staged z) (ixgbevf_close X)"
    unfolding ixgbevf_open_def ixgbevf_close_def ixgbevf_close_suspend_def by (intro preserves_rules)+
qed
subsection \<open>The subtasks\<close>

lemma staged_rebuild [preserves_rules]: "preserves (staged z) (ixgbevf_queue_reset_subtask X)"
  unfolding ixgbevf_queue_reset_subtask_def rebuild_queues_def by (intro preserves_rules; simp)

lemma staged_watchdog [preserves_rules]: "preserves (staged z) (ixgbevf_watchdog_subtask X)" "preserves (staged z) ixgbevf_check_hang_subtask"
proof -
  have [preserves_rules]: "preserves (staged z) (ixgbevf_update_stats E)" for E
    unfolding ixgbevf_update_stats_def update_hw_counters_def update_ring_totals_def by (intro preserves_rules calm_rules; simp add: Let_def)
  show "preserves (staged z) (ixgbevf_watchdog_subtask X)" "preserves (staged z) ixgbevf_check_hang_subtask"
    unfolding ixgbevf_watchdog_subtask_def ixgbevf_watchdog_update_link_def ixgbevf_watchdog_link_is_up_def
      ixgbevf_watchdog_link_is_down_def ixgbevf_check_hang_subtask_def
    by (intro preserves_rules calm_rules; simp)+
qed

lemma set_bits_run: "run_state (set_bits f) a = ((), a\<lparr>ad_q := (ad_q a)\<lparr>qs_hw := (ad_hw a)\<lparr>back_state := f (ad_bits a)\<rparr>\<rparr>\<rparr>)"
  by (rule prod_eqI) (simp_all add: run_set_bits)

text \<open>A reset that finds none in progress marks one, goes down and up, and withdraws the mark.\<close>

lemma staged_reinit:
  assumes "staged False a"
  shows "\<exists>a'. run_state (ixgbevf_reinit_locked X) a = (Some (), a') \<and> staged False a'"
proof -
  define body where "body = do { ixgbevf_down X; kernel_call ''pci_set_master'' []; ixgbevf_up X }"
  have keep: "preserves (staged True) body" unfolding body_def by (intro preserves_rules)
  obtain b where b: "run_state (set_bits (insert IXGBEVF_RESETTING)) a = ((), b)" "staged True b"
    using assms by (simp add: set_bits_run staged_hw_def)
  obtain c where c: "run_state body b = ((), c)" by (cases "run_state body b") simp
  then have "staged True c" using preserves_snd [where P = "\<lambda>a. staged True a", OF keep b(2)] by simp
  then have d: "\<exists>a'. run_state (set_bits (\<lambda>s. s - {IXGBEVF_RESETTING})) c = ((), a') \<and> staged False a'"
    by (simp add: set_bits_run staged_hw_def)
  have "run_state (ixgbevf_reinit_locked X) a =
      (let c = snd (run_state body (snd (run_state (set_bits (insert IXGBEVF_RESETTING)) a)));
           d = snd (run_state (set_bits (\<lambda>s. s - {IXGBEVF_RESETTING})) c) in (Some (), d))"
    using assms unfolding ixgbevf_reinit_locked_def body_def
    by (simp add: State_Monad.bind_def case_prod_beta split_def staged_hw_def)
  with b c d show ?thesis by auto
qed

lemma staged_reset_subtask:
  assumes "staged False a"
  shows "\<exists>a'. run_state (ixgbevf_reset_subtask X) a = (Some (), a') \<and> staged False a'"
proof -
  define b where "b = snd (run_state (set_bits (\<lambda>s. s - {IXGBEVF_RESET_REQUESTED})) a)"
  have "staged False b" "staged False (b\<lparr>tx_timeout_count := tx_timeout_count b + 1\<rparr>)"
    using assms by (simp_all add: b_def run_set_bits staged_hw_def)
  then show ?thesis
    using staged_reinit [of "b\<lparr>tx_timeout_count := tx_timeout_count b + 1\<rparr>" X]
    by (simp add: ixgbevf_reset_subtask_def b_def case_prod_beta)
qed

lemma service_complete:
  "staged False a \<Longrightarrow> \<exists>a'. run_state ixgbevf_service_event_complete a = (Some (), a') \<and>
     ad_bits a' = ad_bits a - {IXGBEVF_SERVICE_SCHED}"
  by (simp add: ixgbevf_service_event_complete_def staged_hw_def set_bits_run)

text \<open>The body of the task, once the hardware address has been looked at.\<close>

lemma staged_task:
  assumes "staged False a"
  shows "\<exists>b. run_state (ixgbevf_service_task X) a = run_state ixgbevf_service_event_complete b \<and> staged False b \<and>
    (hw_addr (ad_hw a) = 0 \<longrightarrow> IXGBEVF_DOWN \<in> ad_bits b)"
proof (cases "hw_addr (ad_hw a) = 0")
  case True
  define b where "b = (if IXGBEVF_DOWN \<in> ad_bits a then a else snd (run_state (ixgbevf_down X) a))"
  have "preserves (staged False) (ixgbevf_down X)" by (intro preserves_rules)
  from preserves_snd [where P = "\<lambda>a. staged False a", OF this assms] assms have "staged False b" by (simp add: b_def)
  moreover have "IXGBEVF_DOWN \<in> ad_bits b"
    using down_surface [of a X] by (auto simp: b_def surface_def mode_def)
  moreover have "run_state (ixgbevf_service_task X) a = run_state ixgbevf_service_event_complete b"
    using True by (simp add: ixgbevf_service_task_def b_def whenM_def case_prod_beta)
  ultimately show ?thesis by blast
next
  case False
  define b where "b = snd (run_state (ixgbevf_queue_reset_subtask X) a)"
  have "preserves (staged False) (ixgbevf_queue_reset_subtask X)" by (intro preserves_rules)
  from preserves_snd [where P = "\<lambda>a. staged False a", OF this assms] have "staged False b" by (simp add: b_def)
  then obtain c where c: "run_state (ixgbevf_reset_subtask X) b = (Some (), c)" "staged False c"
    using staged_reset_subtask by blast
  define rest where "rest = do { ixgbevf_watchdog_subtask X; ixgbevf_check_hang_subtask }"
  define d where "d = snd (run_state rest c)"
  have "preserves (staged False) rest" unfolding rest_def by (intro preserves_rules)
  from preserves_snd [where P = "\<lambda>a. staged False a", OF this c(2)] have "staged False d" by (simp add: d_def)
  moreover have "run_state (ixgbevf_service_task X) a = run_state ixgbevf_service_event_complete d"
    using False c(1) by (simp add: ixgbevf_service_task_def b_def d_def rest_def case_prod_beta)
  ultimately show ?thesis using False by blast
qed

subsection \<open>The property\<close>

text \<open>C17: The service task completes. Run when it has been scheduled and no reset is in progress, it reaches its end whatever
  the device answers and whichever of its subtasks have work (the \<open>BUG_ON\<close> of \<open>ixgbevf_service_event_complete\<close> does not
  fire, \<open>ixgbevf_reinit_locked\<close> does not wait for another reset), it leaves no reset in progress, and the task can be scheduled
  again; on a removed device it has taken the interface down.\<close>

theorem service_task_completes:
  assumes "IXGBEVF_SERVICE_SCHED \<in> ad_bits a" and "IXGBEVF_RESETTING \<notin> ad_bits a"
  shows "\<exists>a'. run_state (ixgbevf_service_task X) a = (Some (), a') \<and> IXGBEVF_SERVICE_SCHED \<notin> ad_bits a' \<and>
     IXGBEVF_RESETTING \<notin> ad_bits a' \<and> (hw_addr (ad_hw a) = 0 \<longrightarrow> IXGBEVF_DOWN \<in> ad_bits a')"
proof -
  obtain b where b: "run_state (ixgbevf_service_task X) a = run_state ixgbevf_service_event_complete b" "staged False b"
    "hw_addr (ad_hw a) = 0 \<longrightarrow> IXGBEVF_DOWN \<in> ad_bits b"
    using staged_task [of a X] assms by (auto simp: staged_hw_def)
  obtain a' where "run_state ixgbevf_service_event_complete b = (Some (), a')" "ad_bits a' = ad_bits b - {IXGBEVF_SERVICE_SCHED}"
    using service_complete b(2) by blast
  with b show ?thesis by (auto simp: staged_hw_def)
qed

definition scheduled_adapter :: adapter where
  "scheduled_adapter = snd (run_state (set_bits (\<lambda>_. {IXGBEVF_SERVICE_SCHED, IXGBEVF_RESET_REQUESTED})) sample_adapter)"

theorem service_task_completes_witness:
  "\<exists>a'. run_state (ixgbevf_service_task sample_host) scheduled_adapter = (Some (), a') \<and> ad_bits scheduled_adapter \<noteq> {} \<and>
     IXGBEVF_SERVICE_SCHED \<notin> ad_bits a' \<and> IXGBEVF_RESETTING \<notin> ad_bits a'"
proof -
  have s: "ad_bits scheduled_adapter = {IXGBEVF_SERVICE_SCHED, IXGBEVF_RESET_REQUESTED}"
    by (simp add: scheduled_adapter_def set_bits_run)
  then show ?thesis using service_task_completes [of scheduled_adapter sample_host] by auto
qed

end
