(* ===== verification/Probe.thy ===== *)
theory Probe
  imports Service_Props
begin

text \<open>
  The life of a device in \<open>ixgbevf_main.c\<close>: probing and removal, suspend and resume, and the three callbacks of PCI error recovery.
  What the kernel hands out while probing (the enabled device, its regions, the memory of the network device, the mapping of
  the registers, the registration) is the set \<open>res_held\<close>.
\<close>

subsection \<open>Devices\<close>

datatype ixgbevf_boards = Board_82599_vf | Board_X540_vf | Board_X550_vf | Board_X550EM_x_vf | Board_X550EM_a_vf | Board_E610_vf

fun ixgbevf_info_tbl :: "ixgbevf_boards \<Rightarrow> ixgbe_mac_type" where
  "ixgbevf_info_tbl Board_82599_vf = Ixgbe_mac_82599_vf"
| "ixgbevf_info_tbl Board_X540_vf = Ixgbe_mac_X540_vf"
| "ixgbevf_info_tbl Board_X550_vf = Ixgbe_mac_X550_vf"
| "ixgbevf_info_tbl Board_X550EM_x_vf = Ixgbe_mac_X550EM_x_vf"
| "ixgbevf_info_tbl Board_X550EM_a_vf = Ixgbe_mac_X550EM_a_vf"
| "ixgbevf_info_tbl Board_E610_vf = Ixgbe_mac_E610_vf"

definition IXGBE_DEV_ID_82599_VF :: u16 where [simp]: "IXGBE_DEV_ID_82599_VF = 0x10ED"
definition IXGBE_DEV_ID_82599_VF_HV :: u16 where [simp]: "IXGBE_DEV_ID_82599_VF_HV = 0x152E"
definition IXGBE_DEV_ID_X540_VF :: u16 where [simp]: "IXGBE_DEV_ID_X540_VF = 0x1515"
definition IXGBE_DEV_ID_X540_VF_HV :: u16 where [simp]: "IXGBE_DEV_ID_X540_VF_HV = 0x1530"
definition IXGBE_DEV_ID_X550_VF_HV :: u16 where [simp]: "IXGBE_DEV_ID_X550_VF_HV = 0x1564"
definition IXGBE_DEV_ID_X550_VF :: u16 where [simp]: "IXGBE_DEV_ID_X550_VF = 0x1565"
definition IXGBE_DEV_ID_X550EM_A_VF :: u16 where [simp]: "IXGBE_DEV_ID_X550EM_A_VF = 0x15C5"
definition IXGBE_DEV_ID_X550EM_A_VF_HV :: u16 where [simp]: "IXGBE_DEV_ID_X550EM_A_VF_HV = 0x15B4"
definition IXGBE_DEV_ID_X550EM_X_VF :: u16 where [simp]: "IXGBE_DEV_ID_X550EM_X_VF = 0x15A8"
definition IXGBE_DEV_ID_X550EM_X_VF_HV :: u16 where [simp]: "IXGBE_DEV_ID_X550EM_X_VF_HV = 0x15A9"
definition IXGBE_DEV_ID_E610_VF :: u16 where [simp]: "IXGBE_DEV_ID_E610_VF = 0x57AD"
definition IXGBE_SUBDEV_ID_E610_VF_HV :: u16 where [simp]: "IXGBE_SUBDEV_ID_E610_VF_HV = 0x00FF"

text \<open>The table in a kernel with Hyper-V support (\<open>CONFIG_PCI_HYPERV\<close>) or without.\<close>

definition ixgbevf_pci_tbl :: "bool \<Rightarrow> (u16 \<times> ixgbevf_boards) list" where
  "ixgbevf_pci_tbl hyperv = concat (map (\<lambda>(vf, hv, board). (vf, board) # (if hyperv then [(hv, board)] else []))
     [(IXGBE_DEV_ID_82599_VF, IXGBE_DEV_ID_82599_VF_HV, Board_82599_vf), (IXGBE_DEV_ID_X540_VF, IXGBE_DEV_ID_X540_VF_HV, Board_X540_vf),
      (IXGBE_DEV_ID_X550_VF, IXGBE_DEV_ID_X550_VF_HV, Board_X550_vf),
      (IXGBE_DEV_ID_X550EM_X_VF, IXGBE_DEV_ID_X550EM_X_VF_HV, Board_X550EM_x_vf),
      (IXGBE_DEV_ID_X550EM_A_VF, IXGBE_DEV_ID_X550EM_A_VF_HV, Board_X550EM_a_vf)]) @ [(IXGBE_DEV_ID_E610_VF, Board_E610_vf)]"

text \<open>
  What the driver is told of the device and what it draws from the kernel: its identifiers, whether the kernel has Hyper-V
  support, the address \<open>eth_hw_addr_random\<close> would assign, the words of \<open>netdev_rss_key_fill\<close>, and what
  \<open>unregister_netdev\<close> does to the driver (it stops an interface that is up).
\<close>

record pci_dev =
  pd_device :: u16
  pd_subsystem_device :: u16
  pd_board :: ixgbevf_boards
  pd_hyperv :: bool
  pd_random_addr :: "u8 list"
  pd_rss_key :: "nat \<Rightarrow> u32"
  pd_unregister :: "unit adop"

subsection \<open>Initialising the private structure\<close>

definition init_ops :: "pci_dev \<Rightarrow> unit hwop" where
  "init_ops P = (
     if pd_hyperv P \<and> pd_device P \<in> {IXGBE_DEV_ID_82599_VF_HV, IXGBE_DEV_ID_X540_VF_HV, IXGBE_DEV_ID_X550_VF_HV,
          IXGBE_DEV_ID_X550EM_X_VF_HV, IXGBE_DEV_ID_X550EM_A_VF_HV} then do { ixgbevf_hv_init_ops_vf; ret () }
     else if pd_hyperv P \<and> pd_device P = IXGBE_DEV_ID_E610_VF \<and> pd_subsystem_device P = IXGBE_SUBDEV_ID_E610_VF_HV
     then ixgbevf_hv_init_ops_e6xx_vf
     else do { ixgbe_init_ops_vf; ret () })"

definition call_get_mac_addr :: "(s32 \<times> u8 list) hwop" where
  "call_get_mac_addr = do {
     op \<leftarrow> gets (\<lambda>hw. op_get_mac_addr (mac_ops (mac hw)));
     case op of None \<Rightarrow> null_call (0, []) | Some _ \<Rightarrow> ixgbe_get_mac_addr_vf }"

text \<open>Resetting the device for the first time; an error of the reset itself is not one of the caller.\<close>

definition first_reset :: "host \<Rightarrow> int adop" where
  "first_reset X = do {
     err \<leftarrow> hw_op (call_reset_hw (host_env X) (host_mmconfig X) (host_stack X ''ixgbe_reset_hw_vf''));
     if err \<noteq> 0 then ret 0
     else do {
       err \<leftarrow> hw_op call_init_hw;
       if err \<noteq> 0 then ret err
       else do {
         ixgbevf_negotiate_api (host_env X);
         (err, addr) \<leftarrow> hw_op call_get_mac_addr;
         hw_op (upd_mac (\<lambda>m. m\<lparr>mac_addr := addr\<rparr>));
         modify (\<lambda>a. a\<lparr>dev_addr := mac_addr (mac (ad_hw a))\<rparr>);
         ret 0 } } }"

definition IXGBEVF_DEFAULT_TXD :: u16 where [simp]: "IXGBEVF_DEFAULT_TXD = 1024"
definition IXGBEVF_DEFAULT_RXD :: u16 where [simp]: "IXGBEVF_DEFAULT_RXD = 512"

definition ixgbevf_sw_init :: "host \<Rightarrow> pci_dev \<Rightarrow> int adop" where
  "ixgbevf_sw_init X P = do {
     hw_op (init_ops P);
     hw_op ixgbe_init_mbx_params_vf;
     m \<leftarrow> gets (\<lambda>a. mac_type (mac (ad_hw a)));
     err \<leftarrow> (if m \<ge> Ixgbe_mac_X550_vf then ixgbevf_init_rss_key (host_env X) (pd_rss_key P) else ret 0);
     if err \<noteq> 0 then ret err
     else do {
       hw_op (upd_mac (\<lambda>m. m\<lparr>max_tx_queues := 2, max_rx_queues := 2\<rparr>));
       err \<leftarrow> first_reset X;
       if err \<noteq> 0 then ret err
       else do {
         addr \<leftarrow> gets dev_addr;
         whenM (\<not> is_valid_ether_addr addr) (do {
           modify (\<lambda>a. a\<lparr>dev_addr := pd_random_addr P\<rparr>);
           hw_op (upd_mac (\<lambda>m. m\<lparr>mac_addr := pd_random_addr P, perm_addr := pd_random_addr P\<rparr>)) });
         modify (\<lambda>a. a\<lparr>ad_rx_itr_setting := 1, tx_itr_setting := 1\<rparr>);
         on_q (modify (\<lambda>q. q\<lparr>tx_ring_count := IXGBEVF_DEFAULT_TXD, rx_ring_count := IXGBEVF_DEFAULT_RXD\<rparr>));
         modify (\<lambda>a. a\<lparr>rx_csum_on := True\<rparr>);
         whenM (m \<ge> Ixgbe_mac_X550_vf) (modify (\<lambda>a. a\<lparr>rx_hwtstamp_on := True\<rparr>));
         modify (\<lambda>a. a\<lparr>irqs_ready := False, link_state := True\<rparr>);
         set_bits (insert IXGBEVF_DOWN);
         ret 0 } } }"
subsection \<open>Probe and remove\<close>

text \<open>Taking something from the kernel, and giving it back.\<close>

definition hold :: "probe_res \<Rightarrow> unit adop" where
  "hold r = modify (\<lambda>a. a\<lparr>res_held := insert r (res_held a)\<rparr>)"

definition give_back :: "probe_res \<Rightarrow> string \<Rightarrow> unit adop" where
  "give_back r name = do { kernel_call name []; modify (\<lambda>a. a\<lparr>res_held := res_held a - {r}\<rparr>) }"

text \<open>
  \<open>alloc_etherdev_mq\<close> hands out zeroed memory: nothing of an earlier life of the adapter is left. (There are no vectors and
  no rings yet, so the states of their parts are not looked at; the mailbox structure is filled in by \<open>ixgbevf_sw_init\<close>.)
\<close>

definition zeroed_hw :: "ixgbe_hw \<Rightarrow> ixgbe_hw" where
  "zeroed_hw hw = \<lparr>hw_addr = 0, back_state = {},
     mac = \<lparr>mac_ops = no_mac_ops, mac_addr = replicate 6 0, perm_addr = replicate 6 0, mac_type = Ixgbe_mac_unknown,
       mc_filter_type = 0, get_link_status = False, max_tx_queues = 0, max_rx_queues = 0\<rparr>,
     mbx = \<lparr>mbx_ops = (\<lambda>_. no_ops), mbx_stats = Mailbox.zero_stats, mbx_timeout = 0, mbx_udelay = 0, mbx_vf_mailbox = 0,
       mbx_size = 0, msg_timeout_count = 0, msg_exp = 0, msg_window_end = 0\<rparr>,
     adapter_stopped = False, api_version = 0, io = io hw\<rparr>"

definition zeroed_queues :: "queues \<Rightarrow> queues" where
  "zeroed_queues q = \<lparr>qs_hw = zeroed_hw (qs_hw q), num_rx_queues = 0, num_tx_queues = 0, num_xdp_queues = 0, num_q_vectors = 0,
     tx_ring_tab = Map.empty, xdp_ring_tab = Map.empty, rx_ring_tab = Map.empty, q_vector_tab = Map.empty, msix_entries = None,
     qs_xdp_prog = False, tx_ring_count = 0, rx_ring_count = 0\<rparr>"

definition zeroed :: "adapter \<Rightarrow> adapter" where
  "zeroed a = \<lparr>ad_q = zeroed_queues (ad_q a), tx_rings = tx_rings a, rx_rings = rx_rings a, ring_mems = (\<lambda>k i. no_mem),
     vecs = vecs a, napi_on = (\<lambda>i. False), irq_lines = {}, tx_itr_setting = 0, ad_rx_itr_setting = 0,
     eims_enable_mask = 0, eims_other = 0, irqs_ready = False, rss_key = None, rss_indir_tbl = replicate 64 0, rss_field_ipv4_udp = False, rss_field_ipv6_udp = False, legacy_rx = False,
     active_vlans = {}, pf_features = 0, stats = zero_stats, hw_csum_rx_error = 0, ad_alloc_rx_page_failed = 0,
     ad_alloc_rx_buff_failed = 0, ad_alloc_rx_page = 0, ad_restart_queue = 0, ad_tx_busy = 0, link_speed = 0, link_up = False,
     link_state = False, tx_timeout_count = 0, last_reset = 0, dev_closed = False, timer_armed = False, mtu = 1500,
     dev_addr = replicate 6 0, nd_flags = 0, nd_uc = [], nd_mc = [], carrier = True, tx_started = False, nd_running = False,
     nd_present = False, io_addr = 0, rx_csum_on = False, rx_hwtstamp_on = False, res_held = res_held a\<rparr>"

text \<open>The error labels from \<open>err_ioremap\<close> on.\<close>

definition probe_unwind :: "int \<Rightarrow> int option adop" where
  "probe_unwind err = do {
     st \<leftarrow> gets ad_bits;
     set_bits (insert IXGBEVF_DISABLED);
     give_back Net_device_memory ''free_netdev'';
     give_back Pci_regions ''pci_release_regions'';
     whenM (IXGBEVF_DISABLED \<notin> st) (give_back Pci_device ''pci_disable_device'');
     ret (Some err) }"

definition err_sw_init :: "host \<Rightarrow> int \<Rightarrow> int option adop" where
  "err_sw_init X err = do {
     on_q (ixgbevf_reset_interrupt_capability (host_env X));
     give_back Io_mapping ''iounmap'';
     modify (\<lambda>a. a\<lparr>rss_key := None\<rparr>);
     probe_unwind err }"

text \<open>From the successful mapping of the registers on. \<open>None\<close>: the interrupt scheme did not return.\<close>

definition probe_device :: "host \<Rightarrow> pci_dev \<Rightarrow> int option adop" where
  "probe_device X P = do {
     let E = host_env X;
     err \<leftarrow> ixgbevf_sw_init X P;
     if err \<noteq> 0 then err_sw_init X err
     else do {
       modify (\<lambda>a. a\<lparr>dev_addr := mac_addr (mac (ad_hw a))\<rparr>);
       addr \<leftarrow> gets dev_addr;
       if \<not> is_valid_ether_addr addr then err_sw_init X (- EIO)
       else do {
         hwa \<leftarrow> gets (\<lambda>a. hw_addr (ad_hw a));
         if hwa = 0 then err_sw_init X (- EIO)
         else do {
           set_bits (insert IXGBEVF_SERVICE_INITED);
           set_bits (\<lambda>s. s - {IXGBEVF_SERVICE_SCHED});
           err \<leftarrow> on_q (ixgbevf_init_interrupt_scheme E (host_cpus X));
           case err of None \<Rightarrow> ret None
           | Some err \<Rightarrow>
             if err \<noteq> 0 then err_sw_init X err
             else do {
               err \<leftarrow> hw_op (kcall E ''register_netdev'' []);
               if err \<noteq> 0 then do { on_q (ixgbevf_clear_interrupt_scheme E); err_sw_init X err }
               else do {
                 hold Net_registration;
                 modify (\<lambda>a. a\<lparr>nd_present := True\<rparr>);
                 set_carrier False;
                 set_tx_started False;
                 ixgbevf_init_last_counter_stats E;
                 ret (Some 0) } } } } } }"

definition ixgbevf_probe :: "host \<Rightarrow> pci_dev \<Rightarrow> int option adop" where
  "ixgbevf_probe X P = do {
     let E = host_env X;
     err \<leftarrow> hw_op (kcall E ''pci_enable_device'' []);
     if err \<noteq> 0 then ret (Some err)
     else do {
       hold Pci_device;
       err \<leftarrow> hw_op (kcall E ''dma_set_mask_and_coherent'' [64]);
       err \<leftarrow> (if err \<noteq> 0 then hw_op (kcall E ''dma_set_mask_and_coherent'' [32]) else ret 0);
       if err \<noteq> 0 then do { give_back Pci_device ''pci_disable_device''; ret (Some err) }
       else do {
         err \<leftarrow> hw_op (kcall E ''pci_request_regions'' []);
         if err \<noteq> 0 then do { give_back Pci_device ''pci_disable_device''; ret (Some err) }
         else do {
           hold Pci_regions;
           kernel_call ''pci_set_master'' [];
           netdev \<leftarrow> hw_op (kcall E ''alloc_etherdev_mq'' []);
           if netdev = 0 then do {
             give_back Pci_regions ''pci_release_regions'';
             give_back Pci_device ''pci_disable_device'';
             ret (Some (- ENOMEM))
           } else do {
             hold Net_device_memory;
             modify zeroed;
             hw_op (upd_mac (\<lambda>m. m\<lparr>mac_type := ixgbevf_info_tbl (pd_board P)\<rparr>));
             kernel_call ''pci_save_state'' [];
             p \<leftarrow> hw_op (kcall E ''ioremap'' []);
             hw_op (modify (\<lambda>h. h\<lparr>hw_addr := word_of_int p\<rparr>));
             modify (\<lambda>a. a\<lparr>io_addr := hw_addr (ad_hw a)\<rparr>);
             hwa \<leftarrow> gets (\<lambda>a. hw_addr (ad_hw a));
             if hwa = 0 then probe_unwind (- EIO)
             else do { hold Io_mapping; probe_device X P } } } } } }"

definition ixgbevf_remove :: "host \<Rightarrow> pci_dev \<Rightarrow> unit adop" where
  "ixgbevf_remove X P = do {
     set_bits (insert IXGBEVF_REMOVING);
     kernel_call ''cancel_work_sync'' [];
     reg \<leftarrow> gets (\<lambda>a. Net_registration \<in> res_held a);
     whenM reg (do { pd_unregister P; give_back Net_registration ''unregister_netdev'' });
     on_q (ixgbevf_clear_interrupt_scheme (host_env X));
     give_back Io_mapping ''iounmap'';
     give_back Pci_regions ''pci_release_regions'';
     modify (\<lambda>a. a\<lparr>rss_key := None\<rparr>);
     st \<leftarrow> gets ad_bits;
     set_bits (insert IXGBEVF_DISABLED);
     give_back Net_device_memory ''free_netdev'';
     whenM (IXGBEVF_DISABLED \<notin> st) (give_back Pci_device ''pci_disable_device'') }"

subsection \<open>Suspend, resume, error recovery\<close>

definition ixgbevf_suspend :: "host \<Rightarrow> int adop" where
  "ixgbevf_suspend X = do {
     modify (\<lambda>a. a\<lparr>nd_present := False\<rparr>);
     running \<leftarrow> gets nd_running;
     whenM running (ixgbevf_close_suspend X);
     on_q (ixgbevf_clear_interrupt_scheme (host_env X));
     retval \<leftarrow> hw_op (kcall (host_env X) ''pci_save_state'' []);
     if retval \<noteq> 0 then ret retval
     else do {
       st \<leftarrow> gets ad_bits;
       set_bits (insert IXGBEVF_DISABLED);
       whenM (IXGBEVF_DISABLED \<notin> st) (give_back Pci_device ''pci_disable_device'');
       ret 0 } }"

definition ixgbevf_shutdown :: "host \<Rightarrow> unit adop" where
  "ixgbevf_shutdown X = do { ixgbevf_suspend X; ret () }"

text \<open>What resuming and the reset of the slot have in common, once the device is enabled again.\<close>

definition device_back :: "host \<Rightarrow> unit adop" where
  "device_back X = do {
     hold Pci_device;
     modify (\<lambda>a. a\<lparr>ad_q := (ad_q a)\<lparr>qs_hw := (ad_hw a)\<lparr>hw_addr := io_addr a\<rparr>\<rparr>\<rparr>);
     set_bits (\<lambda>s. s - {IXGBEVF_DISABLED});
     kernel_call ''pci_set_master'' [];
     ixgbevf_reset X }"

definition ixgbevf_resume :: "host \<Rightarrow> int option adop" where
  "ixgbevf_resume X = do {
     let E = host_env X;
     kernel_call ''pci_restore_state'' [];
     kernel_call ''pci_save_state'' [];
     err \<leftarrow> hw_op (kcall E ''pci_enable_device_mem'' []);
     if err \<noteq> 0 then ret (Some err)
     else do {
       device_back X;
       err \<leftarrow> on_q (ixgbevf_init_interrupt_scheme E (host_cpus X));
       case err of None \<Rightarrow> ret None
       | Some err \<Rightarrow> do {
           running \<leftarrow> gets nd_running;
           err \<leftarrow> (if err = 0 \<and> running then ixgbevf_open X else ret err);
           if err \<noteq> 0 then ret (Some err)
           else do { modify (\<lambda>a. a\<lparr>nd_present := True\<rparr>); ret (Some err) } } } }"

datatype pci_ers_result = PCI_ERS_RESULT_DISCONNECT | PCI_ERS_RESULT_NEED_RESET | PCI_ERS_RESULT_RECOVERED

definition ixgbevf_io_error_detected :: "host \<Rightarrow> bool \<Rightarrow> pci_ers_result adop" where
  "ixgbevf_io_error_detected X perm_failure = do {
     st \<leftarrow> gets ad_bits;
     if IXGBEVF_SERVICE_INITED \<notin> st then ret PCI_ERS_RESULT_DISCONNECT
     else do {
       modify (\<lambda>a. a\<lparr>nd_present := False\<rparr>);
       running \<leftarrow> gets nd_running;
       whenM running (ixgbevf_close_suspend X);
       if perm_failure then ret PCI_ERS_RESULT_DISCONNECT
       else do {
         st \<leftarrow> gets ad_bits;
         set_bits (insert IXGBEVF_DISABLED);
         whenM (IXGBEVF_DISABLED \<notin> st) (give_back Pci_device ''pci_disable_device'');
         ret PCI_ERS_RESULT_NEED_RESET } } }"

definition ixgbevf_io_slot_reset :: "host \<Rightarrow> pci_ers_result adop" where
  "ixgbevf_io_slot_reset X = do {
     err \<leftarrow> hw_op (kcall (host_env X) ''pci_enable_device_mem'' []);
     if err \<noteq> 0 then ret PCI_ERS_RESULT_DISCONNECT
     else do { device_back X; ret PCI_ERS_RESULT_RECOVERED } }"

definition ixgbevf_io_resume :: "host \<Rightarrow> unit adop" where
  "ixgbevf_io_resume X = do {
     running \<leftarrow> gets nd_running;
     whenM running (do { ixgbevf_open X; ret () });
     modify (\<lambda>a. a\<lparr>nd_present := True\<rparr>) }"

end
