(* ===== verification/Probe_Props.thy ===== *)
theory Probe_Props
  imports Probe
begin

text \<open>
  Probing is all or nothing, and removal and suspension give back what a device holds. The \<open>fixtures\<close> of an adapter are the
  vectors and rings it has, what it holds of the kernel, and whether the device is disabled: most operations leave them alone.
\<close>

definition fixtures :: "adapter \<Rightarrow> _" where
  "fixtures a = (IXGBEVF_DISABLED \<in> ad_bits a, (q_vector_tab (ad_q a), tx_ring_tab (ad_q a), xdp_ring_tab (ad_q a), rx_ring_tab (ad_q a)),
     (num_tx_queues (ad_q a), num_rx_queues (ad_q a), num_xdp_queues (ad_q a), num_q_vectors (ad_q a)), msix_entries (ad_q a), res_held a, nd_present a, nd_running a)"

lemma fixtures_hw [keeps_rules]:
  assumes "calm m"
  shows "keeps fixtures (hw_op m)"
proof -
  have "IXGBEVF_DISABLED \<in> back_state (snd (run_state m h)) \<longleftrightarrow> IXGBEVF_DISABLED \<in> back_state h" for h
    using assms by (intro down_mode) (simp_all add: calm_def)
  then show ?thesis by (simp add: keeps_def run_hw_op fixtures_def)
qed

lemma fixtures_io [keeps_rules]:
  "keeps fixtures (wr r v)" "keeps fixtures (rd E r)" "keeps fixtures (kernel_call s as)"
  unfolding wr_def rd_def kernel_call_def by (intro keeps_rules)+

lemma fixtures_bits [keeps_rules]:
  "b \<noteq> IXGBEVF_DISABLED \<Longrightarrow> keeps fixtures (set_bits (insert b))"
  "b \<noteq> IXGBEVF_DISABLED \<Longrightarrow> keeps fixtures (set_bits (\<lambda>s. s - {b}))"
  by (simp_all add: keeps_def run_set_bits fixtures_def)

lemma fixtures_rings [keeps_rules]:
  "keeps fixtures (on_tx i m)" "keeps fixtures (on_rx i m')" "keeps fixtures (on_ring_of k i m)" "keeps fixtures (upd_mem k i f)"
  unfolding on_ring_of_def on_tx_def on_rx_def upd_mem_def keeps_def by (auto simp: fixtures_def split: prod.splits)

lemma fixtures_negotiate [keeps_rules]: "keeps fixtures (ixgbevf_negotiate_api E)"
proof -
  have [keeps_rules]: "keeps fixtures (try_api_versions E l)" for l by (induction l) (auto intro!: keeps_rules)
  show ?thesis unfolding ixgbevf_negotiate_api_def ixgbevf_set_features_def by (intro keeps_rules; simp add: fixtures_def)
qed

lemma fixtures_reset [keeps_rules]: "keeps fixtures (ixgbevf_reset X)"
  unfolding ixgbevf_reset_def by (intro keeps_rules; simp add: fixtures_def)

lemma fixtures_sw_init [keeps_rules]: "keeps fixtures (ixgbevf_sw_init X P)"
proof -
  have [keeps_rules]: "calm (init_ops P)" "calm call_get_mac_addr"
    unfolding init_ops_def ixgbevf_hv_init_ops_vf_def ixgbevf_hv_init_ops_e6xx_vf_def ixgbe_init_ops_vf_def set_ops_def
      call_get_mac_addr_def ixgbe_get_mac_addr_vf_def
    by (intro keeps_rules; simp)+
  have [keeps_rules]: "keeps fixtures (ixgbevf_init_rss_key E k)" for E k
    unfolding ixgbevf_init_rss_key_def by (intro keeps_rules; simp add: fixtures_def)
  have [keeps_rules]: "keeps fixtures (first_reset X)"
    unfolding first_reset_def by (intro keeps_rules; simp add: fixtures_def)
  have [keeps_rules]: "keeps fixtures (on_q (modify (\<lambda>q. q\<lparr>tx_ring_count := t, rx_ring_count := r\<rparr>)))" for t r
    by (simp add: keeps_def run_on_q fixtures_def)
  show ?thesis unfolding ixgbevf_sw_init_def by (intro keeps_rules; simp add: fixtures_def)
qed

lemma fixtures_down [keeps_rules]: "keeps fixtures (ixgbevf_down X)"
proof -
  have [keeps_rules]: "keeps fixtures (wait_rx_disabled E r n)" for E r n by (induction n) (auto intro!: keeps_rules)
  have [keeps_rules]: "keeps fixtures (set_carrier b)" "keeps fixtures (set_timer b)" "keeps fixtures (set_tx_started b)" for b
    unfolding set_carrier_def set_timer_def set_tx_started_def by (intro keeps_rules; simp add: fixtures_def)+
  show ?thesis
    unfolding ixgbevf_down_def ixgbevf_disable_rx_queue_def flush_tx_queues_def ixgbevf_clean_all_tx_rings_def
      ixgbevf_clean_all_rx_rings_def ixgbevf_irq_disable_def ixgbevf_napi_disable_all_def
    by (intro keeps_rules; simp add: fixtures_def)
qed

lemma fixtures_close [keeps_rules]: "keeps fixtures (ixgbevf_close_suspend X)"
proof -
  have [keeps_rules]: "keeps fixtures (free_line v)" for v
    unfolding free_line_def by (intro keeps_rules; simp add: fixtures_def)
  have [keeps_rules]: "keeps fixtures (free_lines_below n)" for n by (induction n) (auto intro!: keeps_rules)
  have [keeps_rules]: "keeps fixtures (ixgbevf_free_tx_resources k i)" "keeps fixtures (ixgbevf_free_rx_resources R i)" for k i R
    unfolding ixgbevf_free_tx_resources_def ixgbevf_free_rx_resources_def by (intro keeps_rules)+
  show ?thesis
    unfolding ixgbevf_close_suspend_def ixgbevf_free_irq_def ixgbevf_free_all_tx_resources_def ixgbevf_free_all_rx_resources_def free_if_desc_def
    by (intro keeps_rules; simp add: fixtures_def)
qed
subsection \<open>Undoing a probe\<close>

lemma run_give_back:
  "snd (run_state (give_back r s) a) = (snd (run_state (kernel_call s []) a))\<lparr>res_held := res_held a - {r}\<rparr>"
  by (simp add: give_back_def kernel_call_def run_hw_op)

lemma fixtures_parts:
  assumes "fixtures a' = fixtures a"
  shows "no_vectors (ad_q a') = no_vectors (ad_q a)" "res_held a' = res_held a" "num_q_vectors (ad_q a') = num_q_vectors (ad_q a)"
    "msix_entries (ad_q a') = msix_entries (ad_q a)" "IXGBEVF_DISABLED \<in> ad_bits a' \<longleftrightarrow> IXGBEVF_DISABLED \<in> ad_bits a"
    "nd_running a' = nd_running a" "linked (ad_q a') = linked (ad_q a)" "q_vector_tab (ad_q a') = q_vector_tab (ad_q a)"
proof -
  have t: "table k (ad_q a') = table k (ad_q a)" for k using assms by (cases k) (simp_all add: fixtures_def table_simps)
  show "linked (ad_q a') = linked (ad_q a)" using assms by (intro linked_same) (simp_all add: t fixtures_def)
qed (use assms in \<open>simp_all add: fixtures_def no_vectors_def\<close>)

lemma reset_capability_run:
  "snd (run_state (on_q (ixgbevf_reset_interrupt_capability E)) a) =
     a\<lparr>ad_q := snd (run_state (ixgbevf_reset_interrupt_capability E) (ad_q a))\<rparr>"
  "msix_entries (snd (run_state (ixgbevf_reset_interrupt_capability E) q)) = None"
  "no_vectors (snd (run_state (ixgbevf_reset_interrupt_capability E) q)) = no_vectors q"
  "back_state (qs_hw (snd (run_state (ixgbevf_reset_interrupt_capability E) q))) = back_state (qs_hw q)"
  by (simp_all add: run_on_q ixgbevf_reset_interrupt_capability_def no_vectors_def run_qs_on_hw run_whenM log_io_def)

lemma kernel_call_run: "snd (run_state (kernel_call s as) a) = a\<lparr>ad_q := (ad_q a)\<lparr>qs_hw := (ad_hw a)\<lparr>io := Kernel_call s as # io (ad_hw a)\<rparr>\<rparr>\<rparr>"
  by (simp add: kernel_call_def run_hw_op log_io_def)

lemma probe_unwind_outcome:
  assumes "IXGBEVF_DISABLED \<notin> ad_bits a"
  shows "\<exists>a'. run_state (probe_unwind e) a = (Some e, a') \<and> res_held a' = res_held a - {Net_device_memory, Pci_regions, Pci_device} \<and>
    no_vectors (ad_q a') = no_vectors (ad_q a) \<and> msix_entries (ad_q a') = msix_entries (ad_q a) \<and> rss_key a' = rss_key a"
  using assms by (auto simp: probe_unwind_def run_set_bits run_give_back kernel_call_run whenM_def no_vectors_def case_prod_beta)

lemma err_sw_init_outcome:
  assumes "IXGBEVF_DISABLED \<notin> ad_bits a" and "no_vectors (ad_q a)"
  shows "\<exists>a'. run_state (err_sw_init X e) a = (Some e, a') \<and>
    res_held a' = res_held a - {Io_mapping, Net_device_memory, Pci_regions, Pci_device} \<and>
    no_vectors (ad_q a') \<and> msix_entries (ad_q a') = None \<and> rss_key a' = None"
proof -
  define b where "b = snd (run_state (do { on_q (ixgbevf_reset_interrupt_capability (host_env X)); give_back Io_mapping ''iounmap'';
    modify (\<lambda>a. a\<lparr>rss_key := None\<rparr>) }) a)"
  have "res_held b = res_held a - {Io_mapping}" "IXGBEVF_DISABLED \<notin> ad_bits b" "no_vectors (ad_q b)"
    "msix_entries (ad_q b) = None" "rss_key b = None"
    using assms by (simp_all add: b_def case_prod_beta run_give_back kernel_call_run reset_capability_run no_vectors_def)
       (simp_all add: no_vectors_def [symmetric] reset_capability_run)
  moreover have "run_state (err_sw_init X e) a = run_state (probe_unwind e) b"
    by (simp add: err_sw_init_def b_def case_prod_beta)
  ultimately show ?thesis using probe_unwind_outcome [of b e] by auto
qed
subsection \<open>Probing\<close>

text \<open>A probed device: its queues have memory for nothing yet, its vectors own its rings, and everything is held.\<close>

definition probed :: "adapter \<Rightarrow> bool" where
  "probed a \<longleftrightarrow> res_held a = {Pci_device, Pci_regions, Net_device_memory, Io_mapping, Net_registration} \<and>
     IXGBEVF_DISABLED \<notin> ad_bits a \<and> 0 < num_q_vectors (ad_q a) \<and>
     spread (num_q_vectors (ad_q a)) (num_tx_queues (ad_q a)) (num_xdp_queues (ad_q a)) (num_rx_queues (ad_q a)) (ad_q a)"

definition nothing_held :: "adapter \<Rightarrow> bool" where
  "nothing_held a \<longleftrightarrow> res_held a = {} \<and> no_vectors (ad_q a) \<and> msix_entries (ad_q a) = None \<and> rss_key a = None"

text \<open>After the registration nothing fails.\<close>

definition probe_end :: "host \<Rightarrow> unit adop" where
  "probe_end X = do {
     modify (\<lambda>a. a\<lparr>nd_present := True\<rparr>); set_carrier False; set_tx_started False; ixgbevf_init_last_counter_stats (host_env X) }"

definition queue_parts :: "adapter \<Rightarrow> _" where
  "queue_parts a = ((num_tx_queues (ad_q a), num_xdp_queues (ad_q a), num_rx_queues (ad_q a), num_q_vectors (ad_q a)),
     (q_vector_tab (ad_q a), tx_ring_tab (ad_q a), xdp_ring_tab (ad_q a), rx_ring_tab (ad_q a)), res_held a, IXGBEVF_DISABLED \<in> ad_bits a)"

lemma queue_parts_hw [keeps_rules]:
  assumes "calm m"
  shows "keeps queue_parts (hw_op m)"
proof -
  have "IXGBEVF_DISABLED \<in> back_state (snd (run_state m h)) \<longleftrightarrow> IXGBEVF_DISABLED \<in> back_state h" for h
    using assms by (intro down_mode) (simp_all add: calm_def)
  then show ?thesis by (simp add: keeps_def run_hw_op queue_parts_def)
qed

lemma queue_parts_end: "keeps queue_parts (probe_end X)"
  unfolding probe_end_def set_carrier_def set_tx_started_def ixgbevf_init_last_counter_stats_def kernel_call_def rd_def upd_stats_def
  by (intro keeps_rules; simp add: queue_parts_def)

lemma queue_parts_table: "queue_parts a' = queue_parts a \<Longrightarrow> table k (ad_q a') = table k (ad_q a)"
  by (cases k) (simp_all add: queue_parts_def table_simps)

lemma queue_parts_linked: "queue_parts a' = queue_parts a \<Longrightarrow> linked (ad_q a') = linked (ad_q a)"
  by (intro linked_same queue_parts_table) (simp_all add: queue_parts_def)

lemma queue_parts_spread:
  assumes "queue_parts a' = queue_parts a"
  shows "spread v t x r (ad_q a') = spread v t x r (ad_q a)"
  using assms queue_parts_table [OF assms] queue_parts_linked [OF assms]
  by (simp add: spread_def regs_ok_def) (simp add: queue_parts_def)

lemma probed_parts:
  assumes "queue_parts a' = queue_parts a"
  shows "probed a' = probed a"
  using assms queue_parts_spread [OF assms] by (simp add: probed_def) (simp add: queue_parts_def)

lemma probe_device_outcome:
  assumes n: "no_vectors (ad_q a)" and d: "IXGBEVF_DISABLED \<notin> ad_bits a" and E: "honest_msix (host_env X)"
    and h: "res_held a = {Pci_device, Pci_regions, Net_device_memory, Io_mapping}"
    and run: "run_state (probe_device X P) a = (res, a')"
  shows "\<exists>e. res = Some e \<and> (if e = 0 then probed a' else nothing_held a')"
proof -
  have fail: "\<exists>e. res = Some e \<and> (if e = 0 then probed a' else nothing_held a')"
    if "run_state (err_sw_init X e) b = (res, a')" "e \<noteq> 0" "IXGBEVF_DISABLED \<notin> ad_bits b" "no_vectors (ad_q b)"
      "res_held b = res_held a" for b e
    using err_sw_init_outcome [OF that(3,4), of X e] that h by (auto simp: nothing_held_def)
  obtain e1 b where r1: "run_state (ixgbevf_sw_init X P) a = (e1, b)" by fastforce
  define b' where "b' = b\<lparr>dev_addr := mac_addr (mac (ad_hw b))\<rparr>"
  have "fixtures b' = fixtures a"
    using keeps_snd [OF fixtures_sw_init, of X P a] r1 by (simp add: b'_def fixtures_def)
  note fb = fixtures_parts [OF this]
  define m where "m = do { set_bits (insert IXGBEVF_SERVICE_INITED); set_bits (\<lambda>s. s - {IXGBEVF_SERVICE_SCHED}) }"
  define c where "c = snd (run_state m b')"
  have "keeps fixtures m" unfolding m_def by (intro keeps_rules) simp_all
  then have "fixtures c = fixtures b'" by (simp add: c_def keeps_snd)
  note fc = fixtures_parts [OF this]
  obtain e2 q2 where r2: "run_state (ixgbevf_init_interrupt_scheme (host_env X) (host_cpus X)) (ad_q c) = (e2, q2)" by fastforce
  define f where "f = c\<lparr>ad_q := q2\<rparr>"
  have nc: "no_vectors (ad_q c)" using n fb(1) fc(1) by simp
  from interrupt_scheme_outcome [OF this E r2] obtain e3 where e3: "e2 = Some e3"
    "e3 = 0 \<Longrightarrow> spread (num_q_vectors q2) (num_tx_queues q2) (num_xdp_queues q2) (num_rx_queues q2) q2 \<and> 0 < num_q_vectors q2"
    "e3 \<noteq> 0 \<Longrightarrow> no_vectors q2" by auto
  have df: "IXGBEVF_DISABLED \<notin> ad_bits f" "res_held f = res_held a"
    using life_bits(1) [OF life_scheme(2), of IXGBEVF_DISABLED "host_env X" "host_cpus X" "ad_q c"] r2 d fb fc by (simp_all add: f_def)
  define reg where "reg = run_state (hw_op (kcall (host_env X) ''register_netdev'' [])) f"
  define g where "g = snd reg"
  have g: "queue_parts g = queue_parts f"
    using keeps_snd [OF queue_parts_hw, of "kcall (host_env X) ''register_netdev'' []" f] by (simp add: g_def reg_def calm_rules)
  define u where "u = snd (run_state (on_q (ixgbevf_clear_interrupt_scheme (host_env X))) g)"
  define v where "v = snd (run_state (probe_end X) (g\<lparr>res_held := insert Net_registration (res_held g)\<rparr>))"
  have cases: "run_state (probe_device X P) a = (
      if e1 \<noteq> 0 then run_state (err_sw_init X e1) b
      else if \<not> is_valid_ether_addr (mac_addr (mac (ad_hw b))) \<or> hw_addr (ad_hw b) = 0 then run_state (err_sw_init X (- EIO)) b'
      else if e3 \<noteq> 0 then run_state (err_sw_init X e3) f
      else if fst reg \<noteq> 0 then run_state (err_sw_init X (fst reg)) u else (Some 0, v))"
    using r1 r2 by (simp add: probe_device_def Let_def case_prod_beta e3(1) b'_def c_def m_def f_def run_on_q reg_def g_def u_def v_def
      probe_end_def hold_def)
  consider "e1 \<noteq> 0" | "e1 = 0" "run_state (probe_device X P) a = run_state (err_sw_init X (- EIO)) b'"
    | "e3 \<noteq> 0" "run_state (probe_device X P) a = run_state (err_sw_init X e3) f"
    | "e3 = 0" "fst reg \<noteq> 0" "run_state (probe_device X P) a = run_state (err_sw_init X (fst reg)) u"
    | "e3 = 0" "run_state (probe_device X P) a = (Some 0, v)"
    unfolding cases by argo
  then show ?thesis
  proof cases
    case 1
    then have "run_state (err_sw_init X e1) b = (res, a')" using run cases by simp
    moreover have "fixtures b = fixtures a" using keeps_snd [OF fixtures_sw_init, of X P a] r1 by simp
    ultimately show ?thesis using fail 1 n d fixtures_parts(1,2,5) by metis
  next
    case 2
    then have "run_state (err_sw_init X (- EIO)) b' = (res, a')" using run by simp
    then show ?thesis using fail n d fb by (simp add: EIO_def)
  next
    case 3
    then have "run_state (err_sw_init X e3) f = (res, a')" using run by simp
    then show ?thesis using fail 3 df e3(3) by (simp add: f_def)
  next
    case 4
    from e3(2) [OF 4(1)] have "linked (ad_q f)" "dom (q_vector_tab (ad_q f)) = {..<num_q_vectors (ad_q f)}"
      by (simp_all add: f_def spread_def)
    moreover have "linked (ad_q g) = linked (ad_q f)" "q_vector_tab (ad_q g) = q_vector_tab (ad_q f)"
      "num_q_vectors (ad_q g) = num_q_vectors (ad_q f)" "res_held g = res_held f" "IXGBEVF_DISABLED \<notin> ad_bits g"
      using queue_parts_linked [OF g] g df by (simp_all add: queue_parts_def)
    moreover from this have "all_released (ad_q u)"
      using clear_interrupt_scheme_empties [of "ad_q g" "host_env X"] calculation(1,2) by (simp add: u_def run_on_q)
    moreover have "IXGBEVF_DISABLED \<notin> ad_bits u" "res_held u = res_held g"
      using life_bits(1) [OF life_scheme(1), of IXGBEVF_DISABLED "host_env X" "ad_q g"] calculation(7) by (simp_all add: u_def run_on_q)
    moreover have "run_state (err_sw_init X (fst reg)) u = (res, a')" using run 4 by simp
    ultimately show ?thesis using fail 4(2) df by (simp add: all_released_def)
  next
    case 5
    define k where "k = g\<lparr>res_held := insert Net_registration (res_held g)\<rparr>"
    have "probed k" using e3(2) [OF 5(1)] df h g queue_parts_spread [OF g] by (simp add: probed_def k_def queue_parts_def f_def insert_commute)
    moreover have "queue_parts v = queue_parts k" using keeps_snd [OF queue_parts_end, of X k] by (simp add: v_def k_def)
    ultimately have "probed v" using probed_parts [of v k] by blast
    moreover have "res = Some 0" "a' = v" using run 5(2) by simp_all
    ultimately show ?thesis by simp
  qed
qed

lemma zeroed_simps:
  "no_vectors (ad_q (zeroed a))" "ad_bits (zeroed a) = {}" "res_held (zeroed a) = res_held a"
  "msix_entries (ad_q (zeroed a)) = None" "rss_key (zeroed a) = None"
  by (simp_all add: zeroed_def zeroed_queues_def zeroed_hw_def no_vectors_def)

text \<open>The calls before the registers are mapped, as a chain of decisions.\<close>

definition map_registers :: "host \<Rightarrow> pci_dev \<Rightarrow> unit adop" where
  "map_registers X P = do {
     hold Net_device_memory;
     modify zeroed;
     hw_op (upd_mac (\<lambda>m. m\<lparr>mac_type := ixgbevf_info_tbl (pd_board P)\<rparr>));
     kernel_call ''pci_save_state'' [];
     p \<leftarrow> hw_op (kcall (host_env X) ''ioremap'' []);
     hw_op (modify (\<lambda>h. h\<lparr>hw_addr := word_of_int p\<rparr>));
     modify (\<lambda>a. a\<lparr>io_addr := hw_addr (ad_hw a)\<rparr>) }"

lemma map_registers_outcome:
  fixes a X P
  defines "b \<equiv> snd (run_state (map_registers X P) a)"
  shows "no_vectors (ad_q b) \<and> ad_bits b = {} \<and> res_held b = insert Net_device_memory (res_held a) \<and> msix_entries (ad_q b) = None \<and> rss_key b = None"
  by (simp add: b_def map_registers_def hold_def upd_mac_def run_hw_op kernel_call_run kcall_def log_io_def case_prod_beta zeroed_simps no_vectors_def)
     (simp add: zeroed_def zeroed_queues_def zeroed_hw_def)

definition enable_device :: "host \<Rightarrow> int adop" where
  "enable_device X = do {
     err \<leftarrow> hw_op (kcall (host_env X) ''dma_set_mask_and_coherent'' [64]);
     if err \<noteq> 0 then hw_op (kcall (host_env X) ''dma_set_mask_and_coherent'' [32]) else ret 0 }"

text \<open>Before the registers are mapped there are no queues, and \<open>R\<close> is held.\<close>

definition holds :: "probe_res set \<Rightarrow> adapter \<Rightarrow> bool" where
  "holds R a \<longleftrightarrow> res_held a = R \<and> no_vectors (ad_q a) \<and> msix_entries (ad_q a) = None \<and> rss_key a = None"

lemma holds_keeps [preserves_rules]:
  "preserves (holds R) (hw_op m)" "preserves (holds R) (kernel_call s l)" "preserves (holds R) (enable_device X)"
proof -
  show h: "preserves (holds R) (hw_op m)" for m :: "'b hwop"
    by (rule preservesI) (simp add: run_hw_op holds_def no_vectors_def)
  show "preserves (holds R) (kernel_call s l)" unfolding kernel_call_def by (rule h)
  show "preserves (holds R) (enable_device X)" unfolding enable_device_def by (intro preserves_rules h)
qed

lemmas holds_step = preserves_snd [where P = "holds R" for R, OF holds_keeps(1)] preserves_snd [where P = "holds R" for R, OF holds_keeps(2)]
  preserves_snd [where P = "holds R" for R, OF holds_keeps(3)]

lemma holds_hold: "holds R a \<Longrightarrow> holds (insert r R) (snd (run_state (hold r) a))"
  by (simp add: hold_def holds_def)

lemma holds_give_back: "holds R a \<Longrightarrow> holds (R - {r}) (snd (run_state (give_back r s) a))"
  by (simp add: run_give_back kernel_call_run holds_def no_vectors_def)

subsection \<open>Suspending and removing\<close>

text \<open>No interrupt handler and no ring memory; the vectors may still be there.\<close>

definition at_rest :: "adapter \<Rightarrow> bool" where
  "at_rest a \<longleftrightarrow> irq_lines a = {} \<and> every_ring (\<lambda>k. vacant) a"

definition vectors_sound :: "adapter \<Rightarrow> bool" where
  "vectors_sound a \<longleftrightarrow> linked (ad_q a) \<and> dom (q_vector_tab (ad_q a)) = {..<num_q_vectors (ad_q a)}"

lemma vectors_sound_same: "fixtures a' = fixtures a \<Longrightarrow> vectors_sound a' = vectors_sound a"
  using fixtures_parts [of a' a] by (simp add: vectors_sound_def)

lemma close_suspend_rest:
  assumes "in_service a" and "msix_entries (ad_q a) \<noteq> None"
  shows "at_rest (snd (run_state (ixgbevf_close_suspend X) a))" "fixtures (snd (run_state (ixgbevf_close_suspend X) a)) = fixtures a"
  using close_suspend_outcome [OF assms refl, of X] keeps_snd [OF fixtures_close, of X a] by (simp_all add: at_rest_def)

lemma rings_fixed: "fixtures a' = fixtures a \<Longrightarrow> ring_number k (ad_q a') = ring_number k (ad_q a)"
  by (cases k) (simp_all add: fixtures_def ring_number_def)

text \<open>The interrupt scheme is cleared on an adapter at rest.\<close>

definition cleared :: "adapter \<Rightarrow> adapter \<Rightarrow> bool" where
  "cleared a a' \<longleftrightarrow> all_released (ad_q a') \<and> msix_entries (ad_q a') = None \<and> irq_lines a' = {} \<and>
     (\<forall>k. \<forall>i < ring_number k (ad_q a). vacant (ring_mems a' k i))"

lemma clear_scheme_rest:
  fixes a E
  defines "b \<equiv> snd (run_state (on_q (ixgbevf_clear_interrupt_scheme E)) a)"
  assumes "at_rest a" and "vectors_sound a"
  shows "cleared a b" and "res_held b = res_held a" "nd_present b = nd_present a" "rss_key b = rss_key a"
    and "IXGBEVF_DISABLED \<in> ad_bits b \<longleftrightarrow> IXGBEVF_DISABLED \<in> ad_bits a"
    and "IXGBEVF_REMOVING \<in> ad_bits b \<longleftrightarrow> IXGBEVF_REMOVING \<in> ad_bits a"
proof -
  have l: "linked (ad_q a)" "dom (q_vector_tab (ad_q a)) = {..<num_q_vectors (ad_q a)}"
    using assms(3) by (simp_all add: vectors_sound_def)
  show "cleared a b" using clear_interrupt_scheme_empties [OF l, of E] assms(2)
    by (simp add: cleared_def b_def run_on_q at_rest_def every_ring_def)
  show "res_held b = res_held a" "nd_present b = nd_present a" "rss_key b = rss_key a" by (simp_all add: b_def run_on_q)
  show "IXGBEVF_DISABLED \<in> ad_bits b \<longleftrightarrow> IXGBEVF_DISABLED \<in> ad_bits a"
    and "IXGBEVF_REMOVING \<in> ad_bits b \<longleftrightarrow> IXGBEVF_REMOVING \<in> ad_bits a"
    by (simp_all add: b_def run_on_q life_bits(1) [OF life_scheme(1)])
qed

lemma cleared_queues:
  "ad_q c = q\<lparr>qs_hw := h\<rparr> \<Longrightarrow> q = ad_q b \<Longrightarrow> irq_lines c = irq_lines b \<Longrightarrow> ring_mems c = ring_mems b \<Longrightarrow> cleared a c = cleared a b"
  by (simp add: cleared_def all_released_def no_vectors_def)

lemma cleared_same:
  "cleared a b \<Longrightarrow> ad_q c = (ad_q b)\<lparr>qs_hw := ad_hw c\<rparr> \<Longrightarrow> irq_lines c = irq_lines b \<Longrightarrow> ring_mems c = ring_mems b \<Longrightarrow> cleared a c"
  by (rule iffD2 [OF cleared_queues]) (assumption | rule refl)+

text \<open>What \<open>unregister_netdev\<close> does to the driver: it stops an interface that is up, through \<open>ndo_stop\<close>.\<close>

definition stops_when_up :: "host \<Rightarrow> unit adop \<Rightarrow> bool" where
  "stops_when_up X u \<longleftrightarrow> (\<forall>a. snd (run_state u a) = (if nd_running a then (snd (run_state (ixgbevf_close X) a))\<lparr>nd_running := False\<rparr> else a))"

lemma ring_number_qs: "ring_number k (q\<lparr>qs_hw := h\<rparr>) = ring_number k q"
  by (cases k) (simp_all add: ring_number_def)

lemma linked_qs: "linked (q\<lparr>qs_hw := h\<rparr>) = linked q"
proof (rule linked_same)
  show "table k (q\<lparr>qs_hw := h\<rparr>) = table k q" for k by (cases k) (simp_all add: table_simps)
qed simp

lemma all_res: "R - {Net_registration} - {Io_mapping} - {Pci_regions} - {Net_device_memory} \<subseteq> {Pci_device}"
proof
  fix r assume "r \<in> R - {Net_registration} - {Io_mapping} - {Pci_regions} - {Net_device_memory}"
  then show "r \<in> {Pci_device}" by (cases r) simp_all
qed

lemma unregister_rest:
  assumes u: "stops_when_up X m"
    and s: "if nd_running a \<and> nd_present a then in_service a \<and> msix_entries (ad_q a) \<noteq> None else at_rest a"
    and "vectors_sound a" "res_held a = R" "IXGBEVF_DISABLED \<in> ad_bits a \<longleftrightarrow> d" "\<forall>k. ring_number k (ad_q a) = n k"
  shows "at_rest (snd (run_state m a)) \<and> vectors_sound (snd (run_state m a)) \<and> res_held (snd (run_state m a)) = R \<and>
     (IXGBEVF_DISABLED \<in> ad_bits (snd (run_state m a)) \<longleftrightarrow> d) \<and> (\<forall>k. ring_number k (ad_q (snd (run_state m a))) = n k)"
proof -
  define b where "b = (if nd_running a \<and> nd_present a then snd (run_state (ixgbevf_close_suspend X) a) else a)"
  have b: "at_rest b" "fixtures b = fixtures a"
    using close_suspend_rest [of a X] s by (auto simp: b_def split: if_splits)
  note fb = fixtures_parts [OF b(2)]
  have "snd (run_state m a) = b \<or> snd (run_state m a) = b\<lparr>nd_running := False\<rparr>"
    using u by (auto simp: stops_when_up_def b_def ixgbevf_close_def whenM_def case_prod_beta)
  moreover have "at_rest (b\<lparr>nd_running := x\<rparr>) = at_rest b" "vectors_sound (b\<lparr>nd_running := x\<rparr>) = vectors_sound b" for x
    by (simp_all add: at_rest_def every_ring_def vectors_sound_def)
  ultimately show ?thesis using b(1) fb assms(3-6) vectors_sound_same [OF b(2)] rings_fixed [OF b(2)] by auto
qed

subsection \<open>Samples\<close>

text \<open>A kernel in which every call succeeds.\<close>

definition willing_env :: env where
  "willing_env = sample_env\<lparr>kernel := (\<lambda>evs name args.
     if name = ''pci_enable_msix_range'' then (if args ! 0 \<le> args ! 1 then args ! 1 else - 1)
     else if name \<in> {''pci_enable_device'', ''dma_set_mask_and_coherent'', ''pci_request_regions'', ''register_netdev'', ''pci_save_state''} then 0 else 1)\<rparr>"

definition willing_host :: host where
  "willing_host = sample_host\<lparr>host_env := willing_env\<rparr>"

definition sample_pdev :: pci_dev where
  "sample_pdev = \<lparr>pd_device = IXGBE_DEV_ID_82599_VF, pd_subsystem_device = 0, pd_board = Board_82599_vf, pd_hyperv = False,
     pd_random_addr = [2, 0, 0, 0, 0, 1], pd_rss_key = of_nat,
     pd_unregister = do { up \<leftarrow> gets nd_running; whenM up (do { ixgbevf_close willing_host; modify (\<lambda>a. a\<lparr>nd_running := False\<rparr>) }) }\<rparr>"

lemma willing_msix: "honest_msix (host_env willing_host)"
  by (simp add: honest_msix_def willing_host_def willing_env_def)


definition device_in_use :: adapter where
  "device_in_use = running_adapter\<lparr>nd_running := True,
     res_held := {Pci_device, Pci_regions, Net_device_memory, Io_mapping, Net_registration}\<rparr>"

lemma sample_sound: "vectors_sound sample_adapter"
proof -
  let ?s = "sample_queues\<lparr>num_rx_queues := 1, num_tx_queues := 1, num_q_vectors := 1, msix_entries := Some [0, 1]\<rparr>"
  have n: "no_vectors ?s" by (simp add: no_vectors_def sample_queues_def)
  have e: "fst (run_state (ixgbevf_alloc_q_vectors msix_env) ?s) = Some 0" by code_simp
  obtain e' where d: "fst (run_state (ixgbevf_alloc_q_vectors msix_env) ?s) = Some e'"
      "alloc_done 1 1 (num_xdp_queues ?s) 1 ?s e' (snd (run_state (ixgbevf_alloc_q_vectors msix_env) ?s))"
    using alloc_q_vectors_done [OF n, of msix_env] by auto
  then have "e' = 0" using e by simp
  with d(2) have "spread 1 1 (num_xdp_queues ?s) 1 (snd (run_state (ixgbevf_alloc_q_vectors msix_env) ?s))"
    by (auto simp: alloc_done_def ENOMEM_def)
  then have "linked one_vector_queues" "dom (q_vector_tab one_vector_queues) = {..<1}"
    by (simp_all add: one_vector_queues_def spread_def linked_qs)
  moreover have "ad_q sample_adapter = one_vector_queues" by (simp add: sample_adapter_def)
  ultimately show ?thesis using sample_queue_facts(1) by (simp add: vectors_sound_def)
qed

lemma device_in_use_facts:
  "in_service device_in_use" "msix_entries (ad_q device_in_use) \<noteq> None" "vectors_sound device_in_use"
  "Pci_device \<in> res_held device_in_use \<longleftrightarrow> IXGBEVF_DISABLED \<notin> ad_bits device_in_use"
  "nd_running device_in_use" "nd_present device_in_use" "Net_registration \<in> res_held device_in_use"
proof -
  have q: "ad_q device_in_use = ad_q sample_adapter" by (simp add: device_in_use_def running_adapter_def)
  have "taken_lines device_in_use = {0, 1}" using sample_queue_facts by (auto simp: taken_lines_def q)
  then show "in_service device_in_use"
    using sample_queue_facts by (simp add: in_service_def q every_ring_def full_def) (simp add: device_in_use_def running_adapter_def)
  show "vectors_sound device_in_use" using sample_sound by (simp add: vectors_sound_def q)
  show "msix_entries (ad_q device_in_use) \<noteq> None"
    "Pci_device \<in> res_held device_in_use \<longleftrightarrow> IXGBEVF_DISABLED \<notin> ad_bits device_in_use"
    using sample_queue_facts by (simp_all add: q) (simp add: device_in_use_def)
qed (simp_all add: device_in_use_def running_adapter_def sample_adapter_def)



end
