(* ===== verification/Net_Ops.thy ===== *)
theory Net_Ops
  imports Probe_Props
begin

text \<open>
  Entry points of the network stack in \<open>ixgbevf_main.c\<close>: handing over a frame (\<open>ixgbevf_xmit_frame\<close>), the features a
  frame may use (\<open>ixgbevf_features_check\<close>), reading the statistics and attaching an XDP program.
\<close>

subsection \<open>Frames\<close>

text \<open>
  \<open>skb_put_padto\<close> of the kernel pads a frame to a minimal length, or frees it and fails: the parameter \<open>padto\<close>.
  The ring is chosen by the queue mapping of the frame.
\<close>

definition ixgbevf_xmit_frame :: "(sk_buff \<Rightarrow> nat \<Rightarrow> sk_buff option) \<Rightarrow> txenv \<Rightarrow> sk_buff \<Rightarrow> nat \<Rightarrow> int adop" where
  "ixgbevf_xmit_frame padto E skb queue_mapping = (
     if sk_len skb = 0 then do { on_tx queue_mapping (tx_ev (Free_skb (Some (sk_id skb)))); ret NETDEV_TX_OK }
     else case padto skb 17 of
       None \<Rightarrow> ret NETDEV_TX_OK
     | Some skb \<Rightarrow> on_tx queue_mapping (ixgbevf_xmit_frame_ring E skb))"

text \<open>The features of the kernel the check looks at; the others are numbered.\<close>

datatype netdev_feature = NETIF_F_HW_CSUM | NETIF_F_SCTP_CRC | NETIF_F_HW_VLAN_CTAG_TX | NETIF_F_TSO | NETIF_F_TSO6
  | NETIF_F_TSO_MANGLEID | NETIF_F_other nat

definition IXGBEVF_MAX_MAC_HDR_LEN :: u32 where [simp]: "IXGBEVF_MAX_MAC_HDR_LEN = 127"
definition IXGBEVF_MAX_NETWORK_HDR_LEN :: u32 where [simp]: "IXGBEVF_MAX_NETWORK_HDR_LEN = 511"

text \<open>\<open>encapsulation\<close> is a field of the frame that the transmit path does not read.\<close>

definition ixgbevf_features_check :: "sk_buff \<Rightarrow> bool \<Rightarrow> netdev_feature set \<Rightarrow> netdev_feature set" where
  "ixgbevf_features_check skb encapsulation features = (
     let mac_hdr_len = sk_network_offset skb in
     if mac_hdr_len > IXGBEVF_MAX_MAC_HDR_LEN
     then features - {NETIF_F_HW_CSUM, NETIF_F_SCTP_CRC, NETIF_F_HW_VLAN_CTAG_TX, NETIF_F_TSO, NETIF_F_TSO6}
     else
       let network_hdr_len = sk_csum_start_offset skb - sk_network_offset skb in
       if network_hdr_len > IXGBEVF_MAX_NETWORK_HDR_LEN
       then features - {NETIF_F_HW_CSUM, NETIF_F_SCTP_CRC, NETIF_F_TSO, NETIF_F_TSO6}
       else if encapsulation \<and> NETIF_F_TSO_MANGLEID \<notin> features then features - {NETIF_F_TSO}
       else features)"

subsection \<open>Statistics\<close>

record rtnl_link_stats64 =
  s_rx_packets :: u64
  s_tx_packets :: u64
  s_rx_bytes :: u64
  s_tx_bytes :: u64
  s_multicast :: u64

text \<open>A pointer to a ring is \<open>NULL\<close> when its table has no entry.\<close>

definition ixgbevf_get_tx_ring_stats :: "ixgbevf_ring option \<Rightarrow> rtnl_link_stats64 \<Rightarrow> rtnl_link_stats64" where
  "ixgbevf_get_tx_ring_stats ring st = (case ring of None \<Rightarrow> st
     | Some ring \<Rightarrow> st\<lparr>s_tx_bytes := s_tx_bytes st + st_bytes ring, s_tx_packets := s_tx_packets st + st_packets ring\<rparr>)"

definition get_rx_ring_stats :: "rx_ring option \<Rightarrow> rtnl_link_stats64 \<Rightarrow> rtnl_link_stats64" where
  "get_rx_ring_stats ring st = (case ring of None \<Rightarrow> st
     | Some ring \<Rightarrow> st\<lparr>s_rx_bytes := s_rx_bytes st + rx_bytes ring, s_rx_packets := s_rx_packets st + rx_packets ring\<rparr>)"

definition ixgbevf_get_stats64 :: "adapter \<Rightarrow> rtnl_link_stats64 \<Rightarrow> rtnl_link_stats64" where
  "ixgbevf_get_stats64 a st = (
     let st = st\<lparr>s_multicast := vfmprc (stats a) - base_vfmprc (stats a)\<rparr>;
         st = fold (\<lambda>i. get_rx_ring_stats (map_option (\<lambda>_. rx_rings a i) (rx_ring_tab (ad_q a) i))) [0..<num_rx_queues (ad_q a)] st;
         st = fold (\<lambda>i. ixgbevf_get_tx_ring_stats (map_option (\<lambda>_. tx_rings a i) (tx_ring_tab (ad_q a) i))) [0..<num_tx_queues (ad_q a)] st
     in fold (\<lambda>i. ixgbevf_get_tx_ring_stats (map_option (\<lambda>_. xdp_ring (rx_rings a i)) (xdp_ring_tab (ad_q a) i)))
          [0..<num_xdp_queues (ad_q a)] st)"

subsection \<open>XDP programs\<close>

definition VLAN_HLEN :: u32 where [simp]: "VLAN_HLEN = 4"

definition ixgbevf_xdp_setup :: "host \<Rightarrow> bool \<Rightarrow> int adop" where
  "ixgbevf_xdp_setup X prog = do {
     a \<leftarrow> gets id;
     let frame_size = mtu a + ucast ETH_HLEN + ETH_FCS_LEN + VLAN_HLEN;
     if \<exists>i \<in> set [0..<num_rx_queues (ad_q a)]. frame_size > ixgbevf_rx_bufsz (host_rx X i) (rx_state (rx_rings a i))
     then ret (- EINVAL)
     else do {
       let old_prog = qs_xdp_prog (ad_q a);
       on_q (modify (\<lambda>q. q\<lparr>qs_xdp_prog := prog\<rparr>));
       (if prog \<noteq> old_prog then rebuild_queues X
        else for_each [0..<num_rx_queues (ad_q a)] (\<lambda>i. on_rx i (modify (\<lambda>r. r\<lparr>xdp_prog := prog\<rparr>))));
       whenM old_prog (kernel_call ''bpf_prog_put'' []);
       ret 0 } }"

text \<open>A command of the kernel: set up a program, or one the driver does not know.\<close>

definition ixgbevf_xdp :: "host \<Rightarrow> bool option \<Rightarrow> int adop" where
  "ixgbevf_xdp X cmd = (case cmd of Some prog \<Rightarrow> ixgbevf_xdp_setup X prog | None \<Rightarrow> ret (- EINVAL))"

end
