(* ===== verification/Net_Props.thy ===== *)
theory Net_Props
  imports Net_Ops
begin

text \<open>
  The features check and the context descriptor it protects; the statistics as sums over the rings; what refusing an XDP
  program leaves.
\<close>

subsection \<open>Fields of a context descriptor\<close>

lemma bounded_bits:
  fixes x :: u32
  assumes "x < 2 ^ k" and "k < 32" and "bit x n"
  shows "n < k"
proof -
  have "x AND mask k = x" using assms(1,2) by (intro less_mask_eq) auto
  with assms(3) show ?thesis by (metis bit_and_iff bit_mask_iff)
qed

lemma fields_decode:
  fixes l m v :: u32
  assumes "l \<le> 511" and "m \<le> 127"
  defines "w \<equiv> l OR push_bit 9 m OR (v AND 0xFFFF0000)"
  shows "w AND 0x1FF = l" "drop_bit 9 w AND 0x7F = m" "drop_bit 16 w = drop_bit 16 v"
proof -
  have l: "n < 9" if "bit l n" for n using bounded_bits [OF _ _ that, of 9] assms(1) by (simp add: word_le_nat_alt word_less_nat_alt)
  have m: "n < 7" if "bit m n" for n using bounded_bits [OF _ _ that, of 7] assms(2) by (simp add: word_le_nat_alt word_less_nat_alt)
  have c: "(0x1FF :: u32) = mask 9" "(0x7F :: u32) = mask 7" "(0xFFFF0000 :: u32) = push_bit 16 (mask 16)" by (simp_all add: mask_eq_exp_minus_1)
  show "w AND 0x1FF = l" "drop_bit 9 w AND 0x7F = m" "drop_bit 16 w = drop_bit 16 v"
    unfolding w_def c by (rule bit_word_eqI, auto simp: bit_simps dest: l m bit_imp_le_length)+
qed

lemma ucast_u64_u32 [simp]: "(ucast (ucast (x :: u32) :: u64) :: u32) = x"
  by (rule bit_word_eqI) (simp add: bit_simps)

lemma features_check_lengths:
  assumes "NETIF_F_HW_CSUM \<in> ixgbevf_features_check skb enc f"
  shows "sk_network_offset skb \<le> 127" "sk_csum_start_offset skb - sk_network_offset skb \<le> 511"
  using assms by (auto simp: ixgbevf_features_check_def Let_def not_less split: if_splits)

text \<open>C40: The context descriptor of a checked frame is exact. If \<open>ixgbevf_features_check\<close> leaves checksum offload to a frame, and
  the driver offloads its checksum, then the context descriptor that \<open>ixgbevf_tx_csum\<close> writes at \<open>next_to_use\<close> decodes to the
  lengths of the frame's headers and its VLAN tag: 9 bits of network header, 7 bits of MAC header, 16 bits of tag, none of which
  spills into its neighbour.\<close>

theorem checked_context_exact:
  assumes f: "NETIF_F_HW_CSUM \<in> ixgbevf_features_check skb enc fs" and p: "sk_partial skb"
    and t: "csum_type skb (tx_buffer_info r ! first) = Some ty"
    and b: "first < length (tx_buffer_info r)" and d: "next_to_use r < length (tx_descs r)"
  defines "w \<equiv> (ucast (buffer_addr (tx_descs (snd (run_state (ixgbevf_tx_csum skb first) r)) ! next_to_use r)) :: u32)"
  shows "w AND 0x1FF = sk_csum_start_offset skb - sk_network_offset skb \<and> drop_bit 9 w AND 0x7F = sk_network_offset skb \<and>
    drop_bit 16 w = drop_bit 16 (tb_tx_flags (tx_buffer_info r ! first))"
proof -
  let ?v = "tb_tx_flags (tx_buffer_info r ! first) OR IXGBE_TX_FLAGS_CSUM"
  have w: "w = (sk_csum_start_offset skb - sk_network_offset skb) OR push_bit 9 (sk_network_offset skb) OR (?v AND 0xFFFF0000)"
    using p t b d by (simp add: w_def ixgbevf_tx_csum_def ixgbevf_tx_ctxtdesc_def get_buf_def upd_buf_def upd_desc_def Let_def case_prod_beta)
  have "drop_bit 16 ?v = drop_bit 16 (tb_tx_flags (tx_buffer_info r ! first))"
    by (rule bit_word_eqI) (auto simp: bit_simps)
  with fields_decode [OF features_check_lengths(2) [OF f] features_check_lengths(1) [OF f], of ?v, folded w]
  show ?thesis by simp
qed

definition checked_ring :: ixgbevf_ring where
  "checked_ring = sample_ring\<lparr>tx_buffer_info := map (\<lambda>b. b\<lparr>tb_protocol := ETH_P_IP, tb_tx_flags := 0x50000\<rparr>) (tx_buffer_info sample_ring)\<rparr>"

definition checked_skb :: sk_buff where
  "checked_skb = sample_skb\<lparr>sk_partial := True, sk_csum_offset := 16, sk_network_offset := 14, sk_csum_start_offset := 34\<rparr>"

theorem checked_context_exact_witness:
  "(let w = (ucast (buffer_addr (tx_descs (snd (run_state (ixgbevf_tx_csum checked_skb 0) checked_ring)) ! next_to_use checked_ring)) :: u32)
    in w AND 0x1FF = 20 \<and> drop_bit 9 w AND 0x7F = 14 \<and> drop_bit 16 w = 5)"
proof -
  have f: "NETIF_F_HW_CSUM \<in> ixgbevf_features_check checked_skb False {NETIF_F_HW_CSUM}"
    by (simp add: ixgbevf_features_check_def checked_skb_def)
  have t: "csum_type checked_skb (tx_buffer_info checked_ring ! 0) = Some IXGBE_ADVTXD_TUCMD_L4T_TCP" by code_simp
  have b: "0 < length (tx_buffer_info checked_ring)" "next_to_use checked_ring < length (tx_descs checked_ring)" by code_simp+
  have v: "tb_tx_flags (tx_buffer_info checked_ring ! 0) = 0x50000" by code_simp
  show ?thesis
    using checked_context_exact [OF f _ t b] by (simp add: Let_def v) (simp add: checked_skb_def)
qed

subsection \<open>Statistics\<close>

text \<open>The statistics of the interface are sums over its rings.\<close>

lemma fold_rx_stats:
  "fold (\<lambda>i. get_rx_ring_stats (map_option (\<lambda>_. f i) (t i))) is st =
     st\<lparr>s_rx_bytes := s_rx_bytes st + (\<Sum>i\<leftarrow>is. if t i = None then 0 else rx_bytes (f i)),
        s_rx_packets := s_rx_packets st + (\<Sum>i\<leftarrow>is. if t i = None then 0 else rx_packets (f i))\<rparr>"
  by (induction "is" arbitrary: st) (auto simp: get_rx_ring_stats_def add.assoc split: option.splits)

lemma fold_tx_stats:
  "fold (\<lambda>i. ixgbevf_get_tx_ring_stats (map_option (\<lambda>_. f i) (t i))) is st =
     st\<lparr>s_tx_bytes := s_tx_bytes st + (\<Sum>i\<leftarrow>is. if t i = None then 0 else st_bytes (f i)),
        s_tx_packets := s_tx_packets st + (\<Sum>i\<leftarrow>is. if t i = None then 0 else st_packets (f i))\<rparr>"
  by (induction "is" arbitrary: st) (auto simp: ixgbevf_get_tx_ring_stats_def add.assoc split: option.splits)

lemma get_stats64_sums:
  "s_rx_packets (ixgbevf_get_stats64 a st) = s_rx_packets st + (\<Sum>i\<leftarrow>[0..<num_rx_queues (ad_q a)]. if rx_ring_tab (ad_q a) i = None then 0 else rx_packets (rx_rings a i))"
  "s_tx_packets (ixgbevf_get_stats64 a st) = s_tx_packets st
     + (\<Sum>i\<leftarrow>[0..<num_tx_queues (ad_q a)]. if tx_ring_tab (ad_q a) i = None then 0 else st_packets (tx_rings a i))
     + (\<Sum>i\<leftarrow>[0..<num_xdp_queues (ad_q a)]. if xdp_ring_tab (ad_q a) i = None then 0 else st_packets (xdp_ring (rx_rings a i)))"
  unfolding ixgbevf_get_stats64_def Let_def fold_rx_stats fold_tx_stats by simp_all

end
