(* ===== verification/Ethtool.thy ===== *)
theory Ethtool
  imports Net_Props
begin

text \<open>
  The requests of \<open>ethtool\<close> (\<open>ixgbevf_ethtool.c\<close>): link settings, register dump, statistics with their names, the
  self test, interrupt coalescing, receive-side-scaling options and the private flags. Names of the user interface of
  the kernel are datatypes (\<open>stringset\<close>, \<open>flow_type\<close>, \<open>link_mode\<close>) or numbers with the values of its headers (\<open>RXH_\<dots>\<close>).
  The driver is built without \<open>BP_EXTENDED_STATS\<close>. The code runs under the locks it takes; messages to the log are
  left out.
\<close>

definition ETH_GSTRING_LEN :: nat where [simp]: "ETH_GSTRING_LEN = 32"
definition IXGBE_VFRXMEMWRAP :: u32 where [simp]: "IXGBE_VFRXMEMWRAP = 0x03190"
definition IXGBE_VFFRTIMER :: u32 where [simp]: "IXGBE_VFFRTIMER = 0x00048"
definition IXGBE_LINK_SPEED_25GB_FULL :: u32 where [simp]: "IXGBE_LINK_SPEED_25GB_FULL = 0x4000"
definition IXGBE_MRQC_RSS_FIELD_IPV4_UDP :: u32 where [simp]: "IXGBE_MRQC_RSS_FIELD_IPV4_UDP = 0x00400000"
definition IXGBE_MRQC_RSS_FIELD_IPV6_UDP :: u32 where [simp]: "IXGBE_MRQC_RSS_FIELD_IPV6_UDP = 0x00800000"
definition IXGBE_VF_GET_RETA :: u32 where [simp]: "IXGBE_VF_GET_RETA = 0x0a"
definition IXGBE_VF_GET_RSS_KEY :: u32 where [simp]: "IXGBE_VF_GET_RSS_KEY = 0x0b"
definition IXGBEVF_82599_RETA_SIZE :: nat where [simp]: "IXGBEVF_82599_RETA_SIZE = 128"
definition IXGBEVF_RSS_HASH_KEY_SIZE :: nat where [simp]: "IXGBEVF_RSS_HASH_KEY_SIZE = 40"

subsection \<open>Link settings\<close>

datatype link_mode = Mode_25000baseCR | Mode_10000baseT | Mode_5000baseT | Mode_2500baseT | Mode_1000baseT
  | Mode_100baseT | Mode_10baseT

datatype duplex = DUPLEX_FULL | DUPLEX_UNKNOWN

record link_ksettings =
  ks_supported :: "link_mode set"
  ks_speed :: int
  ks_duplex :: duplex
  ks_autoneg :: bool
  ks_port :: int

definition SPEED_UNKNOWN :: int where [simp]: "SPEED_UNKNOWN = - 1"

definition speed_mode :: "u32 \<Rightarrow> int \<times> link_mode set" where
  "speed_mode s = (
     if s = IXGBE_LINK_SPEED_25GB_FULL then (25000, {Mode_25000baseCR})
     else if s = IXGBE_LINK_SPEED_10GB_FULL then (10000, {Mode_10000baseT})
     else if s = IXGBE_LINK_SPEED_5GB_FULL then (5000, {Mode_5000baseT})
     else if s = IXGBE_LINK_SPEED_2_5GB_FULL then (2500, {Mode_2500baseT})
     else if s = IXGBE_LINK_SPEED_1GB_FULL then (1000, {Mode_1000baseT})
     else if s = IXGBE_LINK_SPEED_100_FULL then (100, {Mode_100baseT})
     else if s = IXGBE_LINK_SPEED_10_FULL then (10, {Mode_10baseT})
     else (SPEED_UNKNOWN, {}))"

definition ixgbevf_get_link_ksettings :: "adapter \<Rightarrow> link_ksettings" where
  "ixgbevf_get_link_ksettings a = (
     if link_up a
     then \<lparr>ks_supported = snd (speed_mode (link_speed a)), ks_speed = fst (speed_mode (link_speed a)),
       ks_duplex = DUPLEX_FULL, ks_autoneg = False, ks_port = - 1\<rparr>
     else \<lparr>ks_supported = {}, ks_speed = SPEED_UNKNOWN, ks_duplex = DUPLEX_UNKNOWN, ks_autoneg = False, ks_port = - 1\<rparr>)"

subsection \<open>Register dump\<close>

text \<open>The registers in the order of the buffer, from entry 1 on; entry 0 is 0 because \<open>VFCTRL\<close> cannot be read.\<close>

definition dumped_regs :: "u32 list" where
  "dumped_regs = [IXGBE_VFSTATUS, IXGBE_VFLINKS, IXGBE_VFRXMEMWRAP, IXGBE_VFFRTIMER,
     IXGBE_VTEICS, IXGBE_VTEICS, IXGBE_VTEIMS, IXGBE_VTEIMC, IXGBE_VTEIAC, IXGBE_VTEIAM,
     IXGBE_VTEITR 0, IXGBE_VTIVAR 0, IXGBE_VTIVAR_MISC]
   @ map IXGBE_VFRDBAL [0, 1] @ map IXGBE_VFRDBAH [0, 1] @ map IXGBE_VFRDLEN [0, 1] @ map IXGBE_VFRDH [0, 1]
   @ map IXGBE_VFRDT [0, 1] @ map IXGBE_VFRXDCTL [0, 1] @ map IXGBE_VFSRRCTL [0, 1] @ [IXGBE_VFPSRTYPE]
   @ map IXGBE_VFTDBAL [0, 1] @ map IXGBE_VFTDBAH [0, 1] @ map IXGBE_VFTDLEN [0, 1] @ map IXGBE_VFTDH [0, 1]
   @ map IXGBE_VFTDT [0, 1] @ map IXGBE_VFTXDCTL [0, 1] @ map IXGBE_VFTDWBAL [0, 1] @ map IXGBE_VFTDWBAH [0, 1]"

definition ixgbevf_get_regs :: "env \<Rightarrow> u8 \<Rightarrow> u16 \<Rightarrow> (u32 \<times> u32 list) adop" where
  "ixgbevf_get_regs E revision_id device_id = do {
     let version = push_bit 24 1 OR push_bit 16 (ucast revision_id) OR ucast device_id;
     vs \<leftarrow> mapM dumped_regs (rd E);
     ret (version, 0 # vs) }"

subsection \<open>Statistics and their names\<close>

text \<open>
  A row of \<open>ixgbe_gstrings_stats\<close>: the name and the field it stands for; 32-bit fields of the adapter are widened.
\<close>

datatype stat_field = Netdev_stat "rtnl_link_stats64 \<Rightarrow> u64" | Ixgbevf_stat64 "adapter \<Rightarrow> u64" | Ixgbevf_stat32 "adapter \<Rightarrow> u32"

definition ixgbe_gstrings_stats :: "(string \<times> stat_field) list" where
  "ixgbe_gstrings_stats = [
     (''rx_packets'', Netdev_stat s_rx_packets), (''tx_packets'', Netdev_stat s_tx_packets),
     (''rx_bytes'', Netdev_stat s_rx_bytes), (''tx_bytes'', Netdev_stat s_tx_bytes),
     (''tx_busy'', Ixgbevf_stat64 ad_tx_busy), (''tx_restart_queue'', Ixgbevf_stat64 ad_restart_queue),
     (''tx_timeout_count'', Ixgbevf_stat32 tx_timeout_count), (''multicast'', Netdev_stat s_multicast),
     (''rx_csum_offload_errors'', Ixgbevf_stat64 hw_csum_rx_error), (''alloc_rx_page'', Ixgbevf_stat64 ad_alloc_rx_page),
     (''alloc_rx_page_failed'', Ixgbevf_stat64 ad_alloc_rx_page_failed),
     (''alloc_rx_buff_failed'', Ixgbevf_stat64 ad_alloc_rx_buff_failed)]"

definition IXGBEVF_QUEUE_STATS_LEN :: "adapter \<Rightarrow> nat" where
  "IXGBEVF_QUEUE_STATS_LEN a = (num_tx_queues (ad_q a) + num_xdp_queues (ad_q a) + num_rx_queues (ad_q a)) * 2"

definition IXGBEVF_STATS_LEN :: "adapter \<Rightarrow> nat" where
  "IXGBEVF_STATS_LEN a = length ixgbe_gstrings_stats + IXGBEVF_QUEUE_STATS_LEN a"

fun stat_value :: "adapter \<Rightarrow> rtnl_link_stats64 \<Rightarrow> stat_field \<Rightarrow> u64" where
  "stat_value a net (Netdev_stat f) = f net"
| "stat_value a net (Ixgbevf_stat64 f) = f a"
| "stat_value a net (Ixgbevf_stat32 f) = ucast (f a)"

definition tx_pair :: "ixgbevf_ring option \<Rightarrow> u64 list" where
  "tx_pair ring = (case ring of None \<Rightarrow> [0, 0] | Some ring \<Rightarrow> [st_packets ring, st_bytes ring])"

definition rx_pair :: "rx_ring option \<Rightarrow> u64 list" where
  "rx_pair ring = (case ring of None \<Rightarrow> [0, 0] | Some ring \<Rightarrow> [rx_packets ring, rx_bytes ring])"

text \<open>\<open>dev_get_stats\<close> is the kernel's: it fills the structure through \<open>ixgbevf_get_stats64\<close>.\<close>

definition ixgbevf_get_ethtool_stats :: "env \<Rightarrow> (adapter \<Rightarrow> rtnl_link_stats64) \<Rightarrow> u64 list adop" where
  "ixgbevf_get_ethtool_stats E dev_get_stats = do {
     ixgbevf_update_stats E;
     a \<leftarrow> gets id;
     let net_stats = dev_get_stats a;
     let data = map (\<lambda>(_, f). stat_value a net_stats f) ixgbe_gstrings_stats;
     let data = data @ concat (map (\<lambda>j. tx_pair (map_option (\<lambda>_. tx_rings a j) (tx_ring_tab (ad_q a) j))) [0..<num_tx_queues (ad_q a)]);
     let data = data @ concat (map (\<lambda>j. tx_pair (map_option (\<lambda>_. xdp_ring (rx_rings a j)) (xdp_ring_tab (ad_q a) j)))
       [0..<num_xdp_queues (ad_q a)]);
     let data = data @ concat (map (\<lambda>j. rx_pair (map_option (\<lambda>_. rx_rings a j) (rx_ring_tab (ad_q a) j))) [0..<num_rx_queues (ad_q a)]);
     ret data }"

text \<open>\<open>%u\<close> and \<open>snprintf\<close> into a name of \<open>ETH_GSTRING_LEN\<close> characters, the last one the terminating zero.\<close>

fun decimal :: "nat \<Rightarrow> string" where
  "decimal n = (if n < 10 then [char_of (48 + n)] else decimal (n div 10) @ [char_of (48 + n mod 10)])"

declare decimal.simps [simp del]

definition queue_name :: "string \<Rightarrow> nat \<Rightarrow> string \<Rightarrow> string" where
  "queue_name prefix i suffix = take (ETH_GSTRING_LEN - 1) (prefix @ decimal i @ suffix)"

datatype stringset = ETH_SS_TEST | ETH_SS_STATS | ETH_SS_PRIV_FLAGS | ETH_SS_other nat

definition ixgbe_gstrings_test :: "string list" where
  "ixgbe_gstrings_test = [''Register test  (offline)'', ''Link test   (on/offline)'']"

definition ixgbevf_priv_flags_strings :: "string list" where
  "ixgbevf_priv_flags_strings = [''legacy-rx'']"

definition ixgbevf_get_strings :: "adapter \<Rightarrow> stringset \<Rightarrow> string list" where
  "ixgbevf_get_strings a ss = (case ss of
     ETH_SS_TEST \<Rightarrow> ixgbe_gstrings_test
   | ETH_SS_STATS \<Rightarrow> map fst ixgbe_gstrings_stats
       @ concat (map (\<lambda>i. [queue_name ''tx_queue_'' i ''_packets'', queue_name ''tx_queue_'' i ''_bytes'']) [0..<num_tx_queues (ad_q a)])
       @ concat (map (\<lambda>i. [queue_name ''xdp_queue_'' i ''_packets'', queue_name ''xdp_queue_'' i ''_bytes'']) [0..<num_xdp_queues (ad_q a)])
       @ concat (map (\<lambda>i. [queue_name ''rx_queue_'' i ''_packets'', queue_name ''rx_queue_'' i ''_bytes'']) [0..<num_rx_queues (ad_q a)])
   | ETH_SS_PRIV_FLAGS \<Rightarrow> ixgbevf_priv_flags_strings
   | ETH_SS_other _ \<Rightarrow> [])"

definition ixgbevf_get_sset_count :: "adapter \<Rightarrow> stringset \<Rightarrow> int" where
  "ixgbevf_get_sset_count a ss = (case ss of
     ETH_SS_TEST \<Rightarrow> int (length ixgbe_gstrings_test)
   | ETH_SS_STATS \<Rightarrow> int (IXGBEVF_STATS_LEN a)
   | ETH_SS_PRIV_FLAGS \<Rightarrow> int (length ixgbevf_priv_flags_strings)
   | ETH_SS_other _ \<Rightarrow> - EINVAL)"

subsection \<open>Self test\<close>

text \<open>
  The link test passes on what the check reports of the link. The variable starts uninitialised and the check
  does not always write it.
\<close>

definition ixgbevf_link_test :: "host \<Rightarrow> u64 adop" where
  "ixgbevf_link_test X = do {
     (err, speed, up) \<leftarrow> hw_op (call_check_link (host_env X) (host_mmconfig X) 0 (host_stack X ''ixgbevf_link_test'' 0 \<noteq> 0) True);
     ret (if up then 0 else 1) }"

datatype reg_test_type = PATTERN_TEST | SET_READ_TEST | WRITE_NO_TEST | TABLE32_TEST | TABLE64_TEST_LO | TABLE64_TEST_HI

record reg_test_row =
  rt_reg :: u16
  rt_array_len :: nat
  rt_test_type :: reg_test_type
  rt_mask :: u32
  rt_write :: u32

definition pattern_row :: "u32 \<Rightarrow> u32 \<Rightarrow> u32 \<Rightarrow> reg_test_row" where
  "pattern_row r m w = \<lparr>rt_reg = ucast r, rt_array_len = 2, rt_test_type = PATTERN_TEST, rt_mask = m, rt_write = w\<rparr>"

definition write_row :: "u32 \<Rightarrow> u32 \<Rightarrow> reg_test_row" where
  "write_row r w = \<lparr>rt_reg = ucast r, rt_array_len = 2, rt_test_type = WRITE_NO_TEST, rt_mask = 0, rt_write = w\<rparr>"

text \<open>The rows before the null entry.\<close>

definition reg_test_vf :: "reg_test_row list" where
  "reg_test_vf = [
     pattern_row (IXGBE_VFRDBAL 0) 0xFFFFFF80 0xFFFFFF80,
     pattern_row (IXGBE_VFRDBAH 0) 0xFFFFFFFF 0xFFFFFFFF,
     pattern_row (IXGBE_VFRDLEN 0) 0x000FFF80 0x000FFFFF,
     write_row (IXGBE_VFRXDCTL 0) IXGBE_RXDCTL_ENABLE,
     pattern_row (IXGBE_VFRDT 0) 0x0000FFFF 0x0000FFFF,
     write_row (IXGBE_VFRXDCTL 0) 0,
     pattern_row (IXGBE_VFTDBAL 0) 0xFFFFFF80 0xFFFFFFFF,
     pattern_row (IXGBE_VFTDBAH 0) 0xFFFFFFFF 0xFFFFFFFF,
     pattern_row (IXGBE_VFTDLEN 0) 0x000FFF80 0x000FFF80]"

text \<open>A test returns 0 or 1 and what it leaves in \<open>*data\<close>.\<close>

primrec pattern_loop :: "env \<Rightarrow> u32 \<Rightarrow> u32 \<Rightarrow> u32 \<Rightarrow> u32 list \<Rightarrow> u64 \<Rightarrow> (int \<times> u64) hwop" where
  "pattern_loop E r m w [] data = ret (0, data)"
| "pattern_loop E r m w (t # ts) data = do {
     before \<leftarrow> ixgbe_read_reg E r;
     IXGBE_WRITE_REG r (t AND w);
     val \<leftarrow> ixgbe_read_reg E r;
     if val \<noteq> t AND w AND m then do { IXGBE_WRITE_REG r before; ret (1, ucast r) }
     else do { IXGBE_WRITE_REG r before; pattern_loop E r m w ts data } }"

definition reg_pattern_test :: "env \<Rightarrow> u32 \<Rightarrow> u32 \<Rightarrow> u32 \<Rightarrow> u64 \<Rightarrow> (int \<times> u64) hwop" where
  "reg_pattern_test E r m w data = do {
     addr \<leftarrow> gets hw_addr;
     if addr = 0 then ret (1, 1)
     else pattern_loop E r m w [0x5A5A5A5A, 0xA5A5A5A5, 0x00000000, 0xFFFFFFFF] data }"

definition reg_set_and_check :: "env \<Rightarrow> u32 \<Rightarrow> u32 \<Rightarrow> u32 \<Rightarrow> u64 \<Rightarrow> (int \<times> u64) hwop" where
  "reg_set_and_check E r m w data = do {
     addr \<leftarrow> gets hw_addr;
     if addr = 0 then ret (1, 1)
     else do {
       before \<leftarrow> ixgbe_read_reg E r;
       IXGBE_WRITE_REG r (w AND m);
       val \<leftarrow> ixgbe_read_reg E r;
       if w AND m \<noteq> val AND m then do { IXGBE_WRITE_REG r before; ret (1, ucast r) }
       else do { IXGBE_WRITE_REG r before; ret (0, data) } } }"

definition reg_test_once :: "env \<Rightarrow> reg_test_row \<Rightarrow> u32 \<Rightarrow> u64 \<Rightarrow> (int \<times> u64) hwop" where
  "reg_test_once E t i data = (
     let reg = ucast (rt_reg t); m = rt_mask t; w = rt_write t in
     case rt_test_type t of
       PATTERN_TEST \<Rightarrow> reg_pattern_test E (reg + i * 0x40) m w data
     | SET_READ_TEST \<Rightarrow> reg_set_and_check E (reg + i * 0x40) m w data
     | WRITE_NO_TEST \<Rightarrow> do { IXGBE_WRITE_REG (reg + i * 0x40) w; ret (0, data) }
     | TABLE32_TEST \<Rightarrow> reg_pattern_test E (reg + i * 4) m w data
     | TABLE64_TEST_LO \<Rightarrow> reg_pattern_test E (reg + i * 8) m w data
     | TABLE64_TEST_HI \<Rightarrow> reg_pattern_test E (reg + 4 + i * 8) m w data)"

text \<open>The loops over the entries of a row and over the rows stop at the first failure.\<close>

primrec run_tests :: "(u64 \<Rightarrow> (int \<times> u64) hwop) list \<Rightarrow> u64 \<Rightarrow> (int \<times> u64) hwop" where
  "run_tests [] data = ret (0, data)"
| "run_tests (t # ts) data = do {
     (rc, data) \<leftarrow> t data;
     if rc \<noteq> 0 then ret (rc, data) else run_tests ts data }"

definition row_tests :: "env \<Rightarrow> reg_test_row \<Rightarrow> (u64 \<Rightarrow> (int \<times> u64) hwop) list" where
  "row_tests E t = map (\<lambda>i. reg_test_once E t (of_nat i)) [0..<rt_array_len t]"

definition ixgbevf_reg_test :: "env \<Rightarrow> u64 \<Rightarrow> (int \<times> u64) hwop" where
  "ixgbevf_reg_test E data = do {
     addr \<leftarrow> gets hw_addr;
     if addr = 0 then ret (1, 1)
     else do {
       (rc, data) \<leftarrow> run_tests (concat (map (row_tests E) reg_test_vf)) data;
       if rc \<noteq> 0 then ret (rc, data) else ret (0, 0) } }"

definition ETH_TEST_FL_OFFLINE :: u32 where [simp]: "ETH_TEST_FL_OFFLINE = 1"
definition ETH_TEST_FL_FAILED :: u32 where [simp]: "ETH_TEST_FL_FAILED = 2"

text \<open>The flags after the test and the two results.\<close>

definition ixgbevf_diag_test :: "host \<Rightarrow> u32 \<Rightarrow> u64 \<times> u64 \<Rightarrow> (u32 \<times> u64 \<times> u64) adop" where
  "ixgbevf_diag_test X flags data = do {
     if_running \<leftarrow> gets nd_running;
     addr \<leftarrow> gets (\<lambda>a. hw_addr (ad_hw a));
     if addr = 0 then ret (flags OR ETH_TEST_FL_FAILED, 1, 1)
     else do {
       set_bits (insert IXGBEVF_TESTING);
       link \<leftarrow> ixgbevf_link_test X;
       let flags' = (if link \<noteq> 0 then flags OR ETH_TEST_FL_FAILED else flags);
       r \<leftarrow> (if flags = ETH_TEST_FL_OFFLINE then do {
           (if if_running then do { ixgbevf_close X; ret () } else ixgbevf_reset X);
           (rc, reg) \<leftarrow> hw_op (ixgbevf_reg_test (host_env X) (fst data));
           let flags' = (if rc \<noteq> 0 then flags' OR ETH_TEST_FL_FAILED else flags');
           ixgbevf_reset X;
           set_bits (\<lambda>s. s - {IXGBEVF_TESTING});
           whenM if_running (do { ixgbevf_open X; ret () });
           ret (flags', reg, link)
         } else do {
           set_bits (\<lambda>s. s - {IXGBEVF_TESTING});
           ret (flags', 0, link) });
       kernel_call ''msleep_interruptible'' [4000];
       ret r } }"

definition ixgbevf_nway_reset :: "host \<Rightarrow> int option adop" where
  "ixgbevf_nway_reset X = do {
     running \<leftarrow> gets nd_running;
     if running then do { r \<leftarrow> ixgbevf_reinit_locked X; ret (map_option (\<lambda>_. 0) r) } else ret (Some 0) }"

subsection \<open>Interrupt coalescing\<close>

record ethtool_coalesce =
  rx_coalesce_usecs :: u32
  tx_coalesce_usecs :: u32

definition itr_usecs :: "u16 \<Rightarrow> u32" where
  "itr_usecs s = (if s \<le> 1 then ucast s else drop_bit 2 (ucast s))"

text \<open>Transmit and receive rings share the vectors.\<close>

definition mixed_vectors :: "adapter \<Rightarrow> bool" where
  "mixed_vectors a \<longleftrightarrow> (let q = the (q_vector_tab (ad_q a) 0) in qvec_tx q \<noteq> [] \<and> qvec_rx q \<noteq> [])"

definition ixgbevf_get_coalesce :: "adapter \<Rightarrow> ethtool_coalesce \<Rightarrow> ethtool_coalesce" where
  "ixgbevf_get_coalesce a ec = (
     let ec = ec\<lparr>rx_coalesce_usecs := itr_usecs (ad_rx_itr_setting a)\<rparr> in
     if mixed_vectors a then ec else ec\<lparr>tx_coalesce_usecs := itr_usecs (tx_itr_setting a)\<rparr>)"

definition usecs_itr :: "u32 \<Rightarrow> u16" where
  "usecs_itr u = (if u > 1 then ucast (push_bit 2 u) else ucast u)"

definition set_vector_itr :: "u16 \<Rightarrow> u16 \<Rightarrow> nat \<Rightarrow> unit adop" where
  "set_vector_itr tx_itr_param rx_itr_param i = do {
     q \<leftarrow> gets (\<lambda>a. the (q_vector_tab (ad_q a) i));
     set_itr_of i (if qvec_tx q \<noteq> [] \<and> qvec_rx q = [] then tx_itr_param else rx_itr_param);
     v \<leftarrow> gets (\<lambda>a. vecs a i);
     hw_op (ixgbevf_write_eitr v) }"

definition ixgbevf_set_coalesce :: "ethtool_coalesce \<Rightarrow> int adop" where
  "ixgbevf_set_coalesce ec = do {
     mixed \<leftarrow> gets mixed_vectors;
     if mixed \<and> tx_coalesce_usecs ec \<noteq> 0 then ret (- EINVAL)
     else if rx_coalesce_usecs ec > drop_bit 2 IXGBE_MAX_EITR \<or> tx_coalesce_usecs ec > drop_bit 2 IXGBE_MAX_EITR
     then ret (- EINVAL)
     else do {
       let rx = usecs_itr (rx_coalesce_usecs ec);
       modify (\<lambda>a. a\<lparr>ad_rx_itr_setting := rx\<rparr>);
       let rx_itr_param = (if rx = 1 then ucast IXGBE_20K_ITR else rx);
       let tx = usecs_itr (tx_coalesce_usecs ec);
       modify (\<lambda>a. a\<lparr>tx_itr_setting := tx\<rparr>);
       let tx_itr_param = (if tx = 1 then ucast IXGBE_12K_ITR else tx);
       n \<leftarrow> gets (\<lambda>a. num_q_vectors (ad_q a));
       for_each [0..<n] (set_vector_itr tx_itr_param rx_itr_param);
       ret 0 } }"

subsection \<open>Receive-side scaling: which fields are hashed\<close>

definition RXH_IP_SRC :: u64 where [simp]: "RXH_IP_SRC = 0x10"
definition RXH_IP_DST :: u64 where [simp]: "RXH_IP_DST = 0x20"
definition RXH_L4_B_0_1 :: u64 where [simp]: "RXH_L4_B_0_1 = 0x40"
definition RXH_L4_B_2_3 :: u64 where [simp]: "RXH_L4_B_2_3 = 0x80"

datatype flow_type = TCP_V4_FLOW | UDP_V4_FLOW | SCTP_V4_FLOW | AH_ESP_V4_FLOW | AH_V4_FLOW | ESP_V4_FLOW | IPV4_FLOW
  | TCP_V6_FLOW | UDP_V6_FLOW | SCTP_V6_FLOW | AH_ESP_V6_FLOW | AH_V6_FLOW | ESP_V6_FLOW | IPV6_FLOW | Flow_other nat

datatype rxnfc_cmd = ETHTOOL_SRXFH | ETHTOOL_GRXFH | ETHTOOL_GRXRINGS | Rxnfc_other nat

text \<open>The two flags of the adapter, and what they become: an error, or the new flags.\<close>

type_synonym udp_flags = "bool \<times> bool"

definition udp_ports :: "u64 \<Rightarrow> bool option" where
  "udp_ports d = (let l4 = d AND (RXH_L4_B_0_1 OR RXH_L4_B_2_3) in
     if d AND RXH_IP_SRC = 0 \<or> d AND RXH_IP_DST = 0 then None
     else if l4 = 0 then Some False
     else if l4 = RXH_L4_B_0_1 OR RXH_L4_B_2_3 then Some True
     else None)"

definition new_udp_flags :: "flow_type \<Rightarrow> u64 \<Rightarrow> udp_flags \<Rightarrow> udp_flags option" where
  "new_udp_flags flow d flags = (
     if flow \<in> {TCP_V4_FLOW, TCP_V6_FLOW} then
       (if d AND RXH_IP_SRC = 0 \<or> d AND RXH_IP_DST = 0 \<or> d AND RXH_L4_B_0_1 = 0 \<or> d AND RXH_L4_B_2_3 = 0 then None else Some flags)
     else if flow = UDP_V4_FLOW then map_option (\<lambda>p. (p, snd flags)) (udp_ports d)
     else if flow = UDP_V6_FLOW then map_option (\<lambda>p. (fst flags, p)) (udp_ports d)
     else if flow \<in> {AH_ESP_V4_FLOW, AH_V4_FLOW, ESP_V4_FLOW, SCTP_V4_FLOW, AH_ESP_V6_FLOW, AH_V6_FLOW, ESP_V6_FLOW, SCTP_V6_FLOW} then
       (if d AND RXH_IP_SRC = 0 \<or> d AND RXH_IP_DST = 0 \<or> d AND RXH_L4_B_0_1 \<noteq> 0 \<or> d AND RXH_L4_B_2_3 \<noteq> 0 then None else Some flags)
     else None)"

definition adapter_udp_flags :: "adapter \<Rightarrow> udp_flags" where
  "adapter_udp_flags a = (rss_field_ipv4_udp a, rss_field_ipv6_udp a)"

definition hashed_fields :: "udp_flags \<Rightarrow> u32 \<Rightarrow> u32" where
  "hashed_fields flags vfmrqc = (
     let vfmrqc = vfmrqc OR (IXGBE_MRQC_RSS_FIELD_IPV4 OR IXGBE_MRQC_RSS_FIELD_IPV4_TCP OR IXGBE_MRQC_RSS_FIELD_IPV6
           OR IXGBE_MRQC_RSS_FIELD_IPV6_TCP);
         vfmrqc = vfmrqc AND NOT (IXGBE_MRQC_RSS_FIELD_IPV4_UDP OR IXGBE_MRQC_RSS_FIELD_IPV6_UDP);
         vfmrqc = (if fst flags then vfmrqc OR IXGBE_MRQC_RSS_FIELD_IPV4_UDP else vfmrqc)
     in if snd flags then vfmrqc OR IXGBE_MRQC_RSS_FIELD_IPV6_UDP else vfmrqc)"

definition ixgbevf_set_rss_hash_opt :: "env \<Rightarrow> flow_type \<Rightarrow> u64 \<Rightarrow> int adop" where
  "ixgbevf_set_rss_hash_opt E flow d = do {
     a \<leftarrow> gets id;
     if mac_type (mac (ad_hw a)) < Ixgbe_mac_X550 then ret (- EOPNOTSUPP)
     else if d AND NOT (RXH_IP_SRC OR RXH_IP_DST OR RXH_L4_B_0_1 OR RXH_L4_B_2_3) \<noteq> 0 then ret (- EINVAL)
     else case new_udp_flags flow d (adapter_udp_flags a) of None \<Rightarrow> ret (- EINVAL)
     | Some flags \<Rightarrow>
         if flags \<noteq> adapter_udp_flags a then do {
           vfmrqc \<leftarrow> rd E IXGBE_VFMRQC;
           modify (\<lambda>a. a\<lparr>rss_field_ipv4_udp := fst flags, rss_field_ipv6_udp := snd flags\<rparr>);
           wr IXGBE_VFMRQC (hashed_fields flags vfmrqc);
           ret 0 }
         else ret 0 }"

text \<open>The error and the fields.\<close>

definition ixgbevf_get_rss_hash_opts :: "adapter \<Rightarrow> flow_type \<Rightarrow> int \<times> u64" where
  "ixgbevf_get_rss_hash_opts a flow = (
     let ports = RXH_L4_B_0_1 OR RXH_L4_B_2_3; addrs = RXH_IP_SRC OR RXH_IP_DST;
         udp4 = (if rss_field_ipv4_udp a then ports else 0); udp6 = (if rss_field_ipv6_udp a then ports else 0) in
     if flow = TCP_V4_FLOW then (0, ports OR udp4 OR addrs)
     else if flow = UDP_V4_FLOW then (0, udp4 OR addrs)
     else if flow \<in> {SCTP_V4_FLOW, AH_ESP_V4_FLOW, AH_V4_FLOW, ESP_V4_FLOW, IPV4_FLOW} then (0, addrs)
     else if flow = TCP_V6_FLOW then (0, ports OR udp6 OR addrs)
     else if flow = UDP_V6_FLOW then (0, udp6 OR addrs)
     else if flow \<in> {SCTP_V6_FLOW, AH_ESP_V6_FLOW, AH_V6_FLOW, ESP_V6_FLOW, IPV6_FLOW} then (0, addrs)
     else (- EINVAL, 0))"

definition ixgbevf_set_rxnfc :: "env \<Rightarrow> rxnfc_cmd \<Rightarrow> flow_type \<Rightarrow> u64 \<Rightarrow> int adop" where
  "ixgbevf_set_rxnfc E cmd flow d = (if cmd = ETHTOOL_SRXFH then ixgbevf_set_rss_hash_opt E flow d else ret (- EOPNOTSUPP))"

definition ixgbevf_get_rxnfc :: "adapter \<Rightarrow> rxnfc_cmd \<Rightarrow> flow_type \<Rightarrow> u64 \<Rightarrow> int \<times> u64" where
  "ixgbevf_get_rxnfc a cmd flow d = (case cmd of
     ETHTOOL_GRXRINGS \<Rightarrow> (0, of_nat (num_rx_queues (ad_q a)))
   | ETHTOOL_GRXFH \<Rightarrow> ixgbevf_get_rss_hash_opts a flow
   | _ \<Rightarrow> (- EOPNOTSUPP, d))"

subsection \<open>Receive-side scaling: redirection table and key\<close>

text \<open>Only over a mailbox of version 1.2 or later of the older devices; otherwise the request is not supported.\<close>

definition queries_rss :: "ixgbe_hw \<Rightarrow> bool" where
  "queries_rss hw \<longleftrightarrow> api_version hw \<in> {ixgbe_mbox_api_17, ixgbe_mbox_api_16, ixgbe_mbox_api_15, ixgbe_mbox_api_13, ixgbe_mbox_api_12}
     \<and> mac_type (mac hw) < Ixgbe_mac_X550_vf"

text \<open>
  A query: the request word, the buffer of which the other words are uninitialised (\<open>stk\<close>), the answer of \<open>n\<close>
  words. The result is the error and the buffer.
\<close>

definition rss_query :: "env \<Rightarrow> (nat \<Rightarrow> u32) \<Rightarrow> u32 \<Rightarrow> u16 \<Rightarrow> (int \<times> u32 list) hwop" where
  "rss_query E stk req n = do {
     hw \<leftarrow> gets id;
     let msgbuf = req # map stk [1..<unat IXGBE_VFMAILBOX_SIZE];
     if \<not> queries_rss hw then ret (- EOPNOTSUPP, msgbuf)
     else do {
       err \<leftarrow> ixgbe_write_mbx E msgbuf 1 0;
       if err \<noteq> 0 then ret (err, msgbuf)
       else do {
         (err, msgbuf) \<leftarrow> ixgbe_poll_mbx E msgbuf n 0;
         if err \<noteq> 0 then ret (err, msgbuf)
         else
           let reply = msgbuf ! 0 AND NOT IXGBE_VT_MSGTYPE_CTS in
           if reply = req OR IXGBE_VT_MSGTYPE_FAILURE then ret (- EPERM, msgbuf)
           else if reply \<noteq> req OR IXGBE_VT_MSGTYPE_SUCCESS then ret (IXGBE_ERR_MBX, msgbuf)
           else ret (0, msgbuf) } } }"

definition ixgbevf_get_reta_locked :: "env \<Rightarrow> (nat \<Rightarrow> u32) \<Rightarrow> u32 list \<Rightarrow> nat \<Rightarrow> (int \<times> u32 list) hwop" where
  "ixgbevf_get_reta_locked E stk reta rx_queues = do {
     let dwords = IXGBEVF_82599_RETA_SIZE div 16;
     (err, msgbuf) \<leftarrow> rss_query E stk IXGBE_VF_GET_RETA (of_nat dwords + 1);
     if err \<noteq> 0 then ret (err, reta)
     else
       let mask = (if rx_queues > 1 then 1 else 0) in
       ret (0, concat (map (\<lambda>i. map (\<lambda>j. drop_bit (2 * j) (msgbuf ! (1 + i)) AND mask) [0..<16]) [0..<dwords])
         @ drop (16 * dwords) reta) }"

definition bytes_of :: "u32 list \<Rightarrow> u8 list" where
  "bytes_of ws = concat (map (\<lambda>w. map (\<lambda>i. byte_of i w) [0..<4]) ws)"

definition ixgbevf_get_rss_key_locked :: "env \<Rightarrow> (nat \<Rightarrow> u32) \<Rightarrow> u8 list \<Rightarrow> (int \<times> u8 list) hwop" where
  "ixgbevf_get_rss_key_locked E stk key = do {
     (err, msgbuf) \<leftarrow> rss_query E stk IXGBE_VF_GET_RSS_KEY 11;
     ret (err, if err \<noteq> 0 then key else take IXGBEVF_RSS_HASH_KEY_SIZE (bytes_of (drop 1 msgbuf)) @ drop IXGBEVF_RSS_HASH_KEY_SIZE key) }"

definition ixgbevf_get_rxfh_indir_size :: "adapter \<Rightarrow> nat" where
  "ixgbevf_get_rxfh_indir_size a = (if mac_type (mac (ad_hw a)) \<ge> Ixgbe_mac_X550_vf then IXGBEVF_X550_VFRETA_SIZE else IXGBEVF_82599_RETA_SIZE)"

definition ixgbevf_get_rxfh_key_size :: nat where
  "ixgbevf_get_rxfh_key_size = IXGBEVF_RSS_HASH_KEY_SIZE"

text \<open>The caller's buffers, \<open>None\<close> when it does not want the answer; the hash function is always the Toeplitz hash.\<close>

definition ixgbevf_get_rxfh :: "host \<Rightarrow> u32 list option \<Rightarrow> u8 list option \<Rightarrow> (int \<times> u32 list option \<times> u8 list option) adop" where
  "ixgbevf_get_rxfh X indir key = do {
     a \<leftarrow> gets id;
     if mac_type (mac (ad_hw a)) \<ge> Ixgbe_mac_X550_vf then
       ret (0, map_option (\<lambda>b. map ucast (take IXGBEVF_X550_VFRETA_SIZE (rss_indir_tbl a)) @ drop IXGBEVF_X550_VFRETA_SIZE b) indir,
         map_option (\<lambda>b. take ixgbevf_get_rxfh_key_size (bytes_of (the (rss_key a))) @ drop ixgbevf_get_rxfh_key_size b) key)
     else do {
       (err, indir) \<leftarrow> (case indir of None \<Rightarrow> ret (0, None)
         | Some b \<Rightarrow> do {
             (err, b) \<leftarrow> hw_op (ixgbevf_get_reta_locked (host_env X) (host_stack X ''ixgbevf_get_reta_locked'') b (num_rx_queues (ad_q a)));
             ret (err, Some b) });
       case key of None \<Rightarrow> ret (err, indir, None)
       | Some k \<Rightarrow>
           if err \<noteq> 0 then ret (err, indir, Some k)
           else do {
             (err, k) \<leftarrow> hw_op (ixgbevf_get_rss_key_locked (host_env X) (host_stack X ''ixgbevf_get_rss_key_locked'') k);
             ret (err, indir, Some k) } } }"

subsection \<open>Private flags\<close>

definition IXGBEVF_PRIV_FLAGS_LEGACY_RX :: u32 where [simp]: "IXGBEVF_PRIV_FLAGS_LEGACY_RX = 1"

definition ixgbevf_get_priv_flags :: "adapter \<Rightarrow> u32" where
  "ixgbevf_get_priv_flags a = (if legacy_rx a then IXGBEVF_PRIV_FLAGS_LEGACY_RX else 0)"

definition ixgbevf_set_priv_flags :: "host \<Rightarrow> u32 \<Rightarrow> int option adop" where
  "ixgbevf_set_priv_flags X priv_flags = do {
     let flag = (priv_flags AND IXGBEVF_PRIV_FLAGS_LEGACY_RX \<noteq> 0);
     a \<leftarrow> gets id;
     if flag = legacy_rx a then ret (Some 0)
     else do {
       modify (\<lambda>a. a\<lparr>legacy_rx := flag\<rparr>);
       if nd_running a then do { r \<leftarrow> ixgbevf_reinit_locked X; ret (map_option (\<lambda>_. 0) r) }
       else ret (Some 0) } }"

end
