(* ===== verification/Ring_Param.thy ===== *)
theory Ring_Param
  imports Ethtool
begin

text \<open>
  Reading and changing the length of the rings (\<open>ixgbevf_get_ringparam\<close>, \<open>ixgbevf_set_ringparam\<close>).

  While the interface runs, the code allocates the new rings beside the old ones: it copies each ring structure, changes
  the length and calls the set-up function on the copy; after \<open>ixgbevf_down\<close> each ring is released and overwritten by
  its copy. The functions that act on ring \<open>(k, i)\<close> find it in the adapter, so \<open>on_copy\<close> runs them with the copy
  in the place of the ring and puts the ring back. The histories of the environment (\<open>ring_ev\<close>, \<open>rx_ev\<close>, \<open>io\<close>)
  are not part of a ring structure and go on growing. The buffer records of a copy are in fresh memory of \<open>vmalloc\<close>,
  which is not cleared: the parameter \<open>J\<close> says what it holds.
\<close>

definition IXGBEVF_MAX_NUM_DESCRIPTORS :: u32 where [simp]: "IXGBEVF_MAX_NUM_DESCRIPTORS = 4096"
definition IXGBEVF_MIN_NUM_DESCRIPTORS :: u32 where [simp]: "IXGBEVF_MIN_NUM_DESCRIPTORS = 64"
definition IXGBE_REQ_TX_DESCRIPTOR_MULTIPLE :: u32 where [simp]: "IXGBE_REQ_TX_DESCRIPTOR_MULTIPLE = 8"
definition IXGBE_REQ_RX_DESCRIPTOR_MULTIPLE :: u32 where [simp]: "IXGBE_REQ_RX_DESCRIPTOR_MULTIPLE = 8"

record ethtool_ringparam =
  rx_max_pending :: u32
  tx_max_pending :: u32
  rx_pending :: u32
  rx_mini_pending :: u32
  rx_jumbo_pending :: u32
  tx_pending :: u32

definition ixgbevf_get_ringparam :: "adapter \<Rightarrow> ethtool_ringparam \<Rightarrow> ethtool_ringparam" where
  "ixgbevf_get_ringparam a ring = ring\<lparr>rx_max_pending := IXGBEVF_MAX_NUM_DESCRIPTORS, tx_max_pending := IXGBEVF_MAX_NUM_DESCRIPTORS,
     rx_pending := ucast (rx_ring_count (ad_q a)), tx_pending := ucast (tx_ring_count (ad_q a))\<rparr>"

text \<open>\<open>ALIGN(x, a)\<close> for a power of two.\<close>

definition ALIGN :: "u32 \<Rightarrow> u32 \<Rightarrow> u32" where
  "ALIGN x a = (x + (a - 1)) AND NOT (a - 1)"

subsection \<open>Ring structures and their copies\<close>

record ring_struct =
  cp_ring :: "qring option"
  cp_tx :: ixgbevf_ring
  cp_rx :: rx_ring
  cp_mem :: ring_mem

definition set_table :: "ring_kind \<Rightarrow> nat \<Rightarrow> qring option \<Rightarrow> queues \<Rightarrow> queues" where
  "set_table k i c q = (case k of
     Tx_ring \<Rightarrow> q\<lparr>tx_ring_tab := (tx_ring_tab q)(i := c)\<rparr>
   | Xdp_ring \<Rightarrow> q\<lparr>xdp_ring_tab := (xdp_ring_tab q)(i := c)\<rparr>
   | Rx_ring \<Rightarrow> q\<lparr>rx_ring_tab := (rx_ring_tab q)(i := c)\<rparr>)"

definition get_struct :: "ring_kind \<Rightarrow> nat \<Rightarrow> adapter \<Rightarrow> ring_struct" where
  "get_struct k i a = \<lparr>cp_ring = table k (ad_q a) i, cp_tx = (if k = Xdp_ring then xdp_ring (rx_rings a i) else tx_rings a i),
     cp_rx = rx_rings a i, cp_mem = ring_mems a k i\<rparr>"

text \<open>
  Overwriting a ring; of a receive ring, the fields that stand for other objects (the XDP ring of the index, the totals
  of the vector, the polling mark) stay.
\<close>

definition set_rings :: "ring_kind \<Rightarrow> nat \<Rightarrow> ring_struct \<Rightarrow> adapter \<Rightarrow> adapter" where
  "set_rings k i c a = (case k of
     Tx_ring \<Rightarrow> a\<lparr>tx_rings := (tx_rings a)(i := (cp_tx c)\<lparr>ring_ev := ring_ev (tx_rings a i)\<rparr>)\<rparr>
   | Xdp_ring \<Rightarrow> a\<lparr>rx_rings := (rx_rings a)(i := (rx_rings a i)\<lparr>xdp_ring := (cp_tx c)\<lparr>ring_ev := ring_ev (xdp_ring (rx_rings a i))\<rparr>\<rparr>)\<rparr>
   | Rx_ring \<Rightarrow> let r = rx_rings a i in
       a\<lparr>rx_rings := (rx_rings a)(i := (cp_rx c)\<lparr>qv_packets := qv_packets r, qv_bytes := qv_bytes r,
         netpoll_rx := netpoll_rx r, xdp_ring := xdp_ring r, rx_ev := rx_ev r\<rparr>)\<rparr>)"

definition set_struct :: "ring_kind \<Rightarrow> nat \<Rightarrow> ring_struct \<Rightarrow> adapter \<Rightarrow> adapter" where
  "set_struct k i c a = (set_rings k i c a)\<lparr>ad_q := set_table k i (cp_ring c) (ad_q a),
     ring_mems := (ring_mems a)(k := (ring_mems a k)(i := cp_mem c))\<rparr>"

definition on_copy :: "ring_kind \<Rightarrow> nat \<Rightarrow> ring_struct \<Rightarrow> 'a adop \<Rightarrow> ('a \<times> ring_struct) adop" where
  "on_copy k i c m = State (\<lambda>a. case run_state m (set_struct k i c a) of (x, a') \<Rightarrow>
     ((x, get_struct k i a'), set_struct k i (get_struct k i a) a'))"

text \<open>A ring with a new length; the registration of a copied receive queue is cleared.\<close>

definition with_count :: "u16 \<Rightarrow> ring_struct \<Rightarrow> ring_struct" where
  "with_count n c = c\<lparr>cp_ring := map_option (\<lambda>r. r\<lparr>qr_count := n\<rparr>) (cp_ring c), cp_tx := (cp_tx c)\<lparr>count := unat n\<rparr>, cp_rx := (cp_rx c)\<lparr>rx_count := unat n\<rparr>\<rparr>"

definition clone :: "ring_kind \<Rightarrow> nat \<Rightarrow> u16 \<Rightarrow> adapter \<Rightarrow> ring_struct" where
  "clone k i n a = (let c = get_struct k i a in
     with_count n (if k = Rx_ring then c\<lparr>cp_mem := (cp_mem c)\<lparr>rm_xdp_reg := False\<rparr>\<rparr> else c))"

text \<open>What memory of \<open>vmalloc\<close> holds: buffer records for each ring.\<close>

record junk =
  junk_tx :: "ring_kind \<Rightarrow> nat \<Rightarrow> ixgbevf_tx_buffer list"
  junk_rx :: "nat \<Rightarrow> ixgbevf_rx_buffer list"

definition fresh_buffers :: "junk \<Rightarrow> ring_kind \<Rightarrow> nat \<Rightarrow> unit adop" where
  "fresh_buffers J k i = (if k = Rx_ring then on_rx i (modify (\<lambda>r. r\<lparr>rx_buffer_info := junk_rx J i\<rparr>))
     else on_ring_of k i (modify (\<lambda>r. r\<lparr>tx_buffer_info := junk_tx J k i\<rparr>)))"

definition setup_struct :: "env \<Rightarrow> junk \<Rightarrow> ring_kind \<Rightarrow> nat \<Rightarrow> int adop" where
  "setup_struct E J k i = do {
     err \<leftarrow> (if k = Rx_ring then ixgbevf_setup_rx_resources E i else ixgbevf_setup_tx_resources E k i);
     whenM (err = 0) (fresh_buffers J k i);
     ret err }"

definition free_struct :: "(nat \<Rightarrow> rxenv) \<Rightarrow> ring_kind \<Rightarrow> nat \<Rightarrow> unit adop" where
  "free_struct R k i = (if k = Rx_ring then ixgbevf_free_rx_resources R i else ixgbevf_free_tx_resources k i)"

subsection \<open>The new rings\<close>

type_synonym clones = "(ring_kind \<times> nat \<times> ring_struct) list"

definition free_clones :: "(nat \<Rightarrow> rxenv) \<Rightarrow> clones \<Rightarrow> unit adop" where
  "free_clones R cs = for_each cs (\<lambda>(k, i, c). do { on_copy k i c (free_struct R k i); ret () })"

text \<open>Copy and set up each ring; at a failure the copies made so far are released, the last one first.\<close>

primrec setup_clones :: "env \<Rightarrow> (nat \<Rightarrow> rxenv) \<Rightarrow> junk \<Rightarrow> u16 \<Rightarrow> (ring_kind \<times> nat) list \<Rightarrow> clones \<Rightarrow> (int \<times> clones) adop" where
  "setup_clones E R J n [] cs = ret (0, cs)"
| "setup_clones E R J n (r # rs) cs = do {
     c \<leftarrow> gets (clone (fst r) (snd r) n);
     (err, c) \<leftarrow> on_copy (fst r) (snd r) c (setup_struct E J (fst r) (snd r));
     if err \<noteq> 0 then do { free_clones R (rev cs); kernel_call ''vfree'' []; ret (err, []) }
     else setup_clones E R J n rs (cs @ [(fst r, snd r, c)]) }"

definition tx_slots :: "adapter \<Rightarrow> (ring_kind \<times> nat) list" where
  "tx_slots a = map (Pair Tx_ring) [0..<num_tx_queues (ad_q a)] @ map (Pair Xdp_ring) [0..<num_xdp_queues (ad_q a)]"

definition rx_slots :: "adapter \<Rightarrow> (ring_kind \<times> nat) list" where
  "rx_slots a = map (Pair Rx_ring) [0..<num_rx_queues (ad_q a)]"

text \<open>The array of copies and its contents, unless the length stays: the error and the copies.\<close>

definition new_rings :: "env \<Rightarrow> (nat \<Rightarrow> rxenv) \<Rightarrow> junk \<Rightarrow> bool \<Rightarrow> u16 \<Rightarrow> (ring_kind \<times> nat) list \<Rightarrow> (int \<times> clones option) adop" where
  "new_rings E R J changed n rs = (
     if \<not> changed then ret (0, None)
     else do {
       p \<leftarrow> hw_op (kcall E ''vmalloc'' [int (length rs)]);
       if p = 0 then ret (- ENOMEM, None)
       else do {
         (err, cs) \<leftarrow> setup_clones E R J n rs [];
         ret (err, if err \<noteq> 0 then None else Some cs) } })"

text \<open>
  \<open>*adapter->tx_ring[i] = tx_ring[i]\<close>: the ring structure changes where it is, so the vector that points to it sees
  the new length, too.
\<close>

definition vector_sees :: "ring_kind \<Rightarrow> nat \<Rightarrow> u16 \<Rightarrow> qvec \<Rightarrow> qvec" where
  "vector_sees k i n v = (let f = (\<lambda>c. if qr_kind c = k \<and> queue_index c = i then c\<lparr>qr_count := n\<rparr> else c) in
     v\<lparr>qvec_tx := map f (qvec_tx v), qvec_rx := map f (qvec_rx v)\<rparr>)"

definition replace_ring :: "ring_kind \<Rightarrow> nat \<Rightarrow> ring_struct \<Rightarrow> unit adop" where
  "replace_ring k i c = do {
     modify (set_struct k i c);
     on_q (modify (\<lambda>q. q\<lparr>q_vector_tab := (\<lambda>v. map_option (vector_sees k i (qr_count (the (cp_ring c)))) (q_vector_tab q v))\<rparr>)) }"

definition swap_rings :: "(nat \<Rightarrow> rxenv) \<Rightarrow> clones \<Rightarrow> unit adop" where
  "swap_rings R cs = for_each cs (\<lambda>(k, i, c). do { free_struct R k i; replace_ring k i c })"

definition set_counts :: "u16 \<Rightarrow> (ring_kind \<times> nat) list \<Rightarrow> unit adop" where
  "set_counts n rs = for_each rs (\<lambda>(k, i). do { c \<leftarrow> gets (get_struct k i); replace_ring k i (with_count n c) })"

definition set_tx_count :: "u16 \<Rightarrow> unit adop" where
  "set_tx_count n = on_q (modify (\<lambda>q. q\<lparr>tx_ring_count := n\<rparr>))"

definition set_rx_count :: "u16 \<Rightarrow> unit adop" where
  "set_rx_count n = on_q (modify (\<lambda>q. q\<lparr>rx_ring_count := n\<rparr>))"

text \<open>The new rings are in place of the old ones after this; \<open>xdp_ring_count\<close> is written but never read.\<close>

definition install_rings :: "(nat \<Rightarrow> rxenv) \<Rightarrow> (u16 \<Rightarrow> unit adop) \<Rightarrow> u16 \<Rightarrow> clones option \<Rightarrow> unit adop" where
  "install_rings R set_count n cs = (case cs of None \<Rightarrow> ret ()
     | Some cs \<Rightarrow> do { swap_rings R cs; set_count n; kernel_call ''vfree'' [] })"

definition resize_running :: "host \<Rightarrow> junk \<Rightarrow> u16 \<Rightarrow> u16 \<Rightarrow> int adop" where
  "resize_running X J new_tx_count new_rx_count = do {
     a \<leftarrow> gets id;
     let R = host_rx X;
     (err, tx) \<leftarrow> new_rings (host_env X) R J (new_tx_count \<noteq> tx_ring_count (ad_q a)) new_tx_count (tx_slots a);
     if err \<noteq> 0 then ret err
     else do {
       (err, rx) \<leftarrow> new_rings (host_env X) R J (new_rx_count \<noteq> rx_ring_count (ad_q a)) new_rx_count (rx_slots a);
       if err \<noteq> 0 then do {
         (case tx of None \<Rightarrow> ret () | Some cs \<Rightarrow> do { free_clones R cs; kernel_call ''vfree'' [] });
         ret err }
       else do {
         ixgbevf_down X;
         install_rings R set_tx_count new_tx_count tx;
         install_rings R set_rx_count new_rx_count rx;
         ixgbevf_up X;
         ret 0 } } }"

definition resize_stopped :: "u16 \<Rightarrow> u16 \<Rightarrow> unit adop" where
  "resize_stopped new_tx_count new_rx_count = do {
     a \<leftarrow> gets id;
     set_counts new_tx_count (tx_slots a);
     set_counts new_rx_count (rx_slots a);
     set_tx_count new_tx_count;
     set_rx_count new_rx_count }"

definition ring_request_ok :: "ethtool_ringparam \<Rightarrow> bool" where
  "ring_request_ok ring \<longleftrightarrow> \<not> (rx_mini_pending ring \<noteq> 0 \<or> rx_jumbo_pending ring \<noteq> 0) \<and>
     \<not> (tx_pending ring > IXGBEVF_MAX_NUM_DESCRIPTORS \<or> tx_pending ring < IXGBEVF_MIN_NUM_DESCRIPTORS \<or>
        rx_pending ring > IXGBEVF_MAX_NUM_DESCRIPTORS \<or> rx_pending ring < IXGBEVF_MIN_NUM_DESCRIPTORS)"

text \<open>\<open>None\<close> when another thread is resetting the device: the loop waits for it.\<close>

definition ixgbevf_set_ringparam :: "host \<Rightarrow> junk \<Rightarrow> ethtool_ringparam \<Rightarrow> int option adop" where
  "ixgbevf_set_ringparam X J ring = do {
     if \<not> ring_request_ok ring then ret (Some (- EINVAL))
     else do {
       let new_tx_count = ucast (ALIGN (tx_pending ring) IXGBE_REQ_TX_DESCRIPTOR_MULTIPLE);
       let new_rx_count = ucast (ALIGN (rx_pending ring) IXGBE_REQ_RX_DESCRIPTOR_MULTIPLE);
       a \<leftarrow> gets id;
       if new_tx_count = tx_ring_count (ad_q a) \<and> new_rx_count = rx_ring_count (ad_q a) then ret (Some 0)
       else if IXGBEVF_RESETTING \<in> ad_bits a then ret None
       else do {
         set_bits (insert IXGBEVF_RESETTING);
         err \<leftarrow> (if nd_running a then resize_running X J new_tx_count new_rx_count
           else do { resize_stopped new_tx_count new_rx_count; ret 0 });
         set_bits (\<lambda>s. s - {IXGBEVF_RESETTING});
         ret (Some err) } } }"

end
