(* ===== verification/Ethtool_Props.thy ===== *)
theory Ethtool_Props
  imports Ring_Param
begin

text \<open>
  Facts about the requests of \<open>ethtool\<close>: setting and reading back interrupt coalescing and receive-side-scaling
  options, what the register test detects, which registers a dump touches, the names and values of the statistics.
\<close>

subsection \<open>Interrupt coalescing\<close>

lemma itr_usecs_usecs_itr: "u \<le> drop_bit 2 IXGBE_MAX_EITR \<Longrightarrow> itr_usecs (usecs_itr u) = u"
proof -
  assume "u \<le> drop_bit 2 IXGBE_MAX_EITR"
  then have u: "unat u \<le> 1022" by (simp add: word_le_nat_alt)
  show ?thesis
  proof (cases "u \<le> 1")
    case True
    then have "unat u = 0 \<or> unat u = 1" by (auto simp: word_le_nat_alt)
    then have "u = 0 \<or> u = 1" by (auto simp: word_unat_eq_iff)
    then show ?thesis by (auto simp: itr_usecs_def usecs_itr_def)
  next
    case False
    then have g: "unat u > 1" by (simp add: word_le_nat_alt)
    have v: "unat (ucast (push_bit 2 u) :: u16) = 4 * unat u"
      using u by (simp add: unsigned_ucast_eq push_bit_eq_mult unat_word_ariths take_bit_eq_mod)
    have "unat (drop_bit 2 x) = unat x div 4" for x :: u32
      using unat_drop_bit_eq [of 2 x] by (simp add: drop_bit_eq_div [where 'a = nat])
    moreover have "unat (ucast y :: u32) = unat y" for y :: u16
      using unsigned_less [of y, where 'a = nat] by (simp add: unsigned_ucast_eq take_bit_nat_eq_self)
    ultimately have "unat (drop_bit 2 (ucast (ucast (push_bit 2 u) :: u16) :: u32)) = unat u" using v by presburger
    then have "drop_bit 2 (ucast (ucast (push_bit 2 u) :: u16) :: u32) = u" by (simp only: word_unat_eq_iff)
    moreover have "\<not> (ucast (push_bit 2 u) :: u16) \<le> 1" using v g by (simp add: word_le_nat_alt)
    ultimately show ?thesis using False by (auto simp: itr_usecs_def usecs_itr_def not_le)
  qed
qed

lemma run_set_vector_itr:
  "\<exists>h. run_state (set_vector_itr t r i) a = ((), a\<lparr>vecs := (vecs a)(i := (vecs a i)\<lparr>qv_itr :=
      if qvec_tx (the (q_vector_tab (ad_q a) i)) \<noteq> [] \<and> qvec_rx (the (q_vector_tab (ad_q a) i)) = [] then t else r\<rparr>),
      ad_q := (ad_q a)\<lparr>qs_hw := h\<rparr>\<rparr>)"
  by (auto simp: set_vector_itr_def set_itr_of_def run_hw_op)

text \<open>The value a vector gets: transmit only, or with receive rings.\<close>

definition vector_itr :: "queues \<Rightarrow> u16 \<Rightarrow> u16 \<Rightarrow> nat \<Rightarrow> u16" where
  "vector_itr q t r i = (if qvec_tx (the (q_vector_tab q i)) \<noteq> [] \<and> qvec_rx (the (q_vector_tab q i)) = [] then t else r)"

lemma run_set_vectors:
  "\<exists>h. snd (run_state (for_each [0..<n] (set_vector_itr t r)) a) =
     a\<lparr>vecs := (\<lambda>i. if i < n then (vecs a i)\<lparr>qv_itr := vector_itr (ad_q a) t r i\<rparr> else vecs a i), ad_q := (ad_q a)\<lparr>qs_hw := h\<rparr>\<rparr>"
proof (induction n)
  case 0
  show ?case by (auto intro!: exI [of _ "ad_hw a"])
next
  case (Suc n)
  then obtain h where h: "snd (run_state (for_each [0..<n] (set_vector_itr t r)) a) =
     a\<lparr>vecs := (\<lambda>i. if i < n then (vecs a i)\<lparr>qv_itr := vector_itr (ad_q a) t r i\<rparr> else vecs a i), ad_q := (ad_q a)\<lparr>qs_hw := h\<rparr>\<rparr>" (is "_ = ?b")
    by auto
  obtain h' where "run_state (set_vector_itr t r n) ?b = ((), ?b\<lparr>vecs := (vecs ?b)(n := (vecs ?b n)\<lparr>qv_itr :=
      if qvec_tx (the (q_vector_tab (ad_q ?b) n)) \<noteq> [] \<and> qvec_rx (the (q_vector_tab (ad_q ?b) n)) = [] then t else r\<rparr>),
      ad_q := (ad_q ?b)\<lparr>qs_hw := h'\<rparr>\<rparr>)"
    using run_set_vector_itr by blast
  then have "snd (run_state (for_each [0..<Suc n] (set_vector_itr t r)) a) =
     a\<lparr>vecs := (\<lambda>i. if i < Suc n then (vecs a i)\<lparr>qv_itr := vector_itr (ad_q a) t r i\<rparr> else vecs a i), ad_q := (ad_q a)\<lparr>qs_hw := h'\<rparr>\<rparr>"
    by (auto simp: run_for_each_append h vector_itr_def less_Suc_eq fun_eq_iff)
  then show ?case by blast
qed


subsection \<open>Receive-side-scaling options\<close>

lemma and_bit: "(d :: u64) AND 0x10 = (if bit d 4 then 0x10 else 0)" "d AND 0x20 = (if bit d 5 then 0x20 else 0)"
  "d AND 0x40 = (if bit d 6 then 0x40 else 0)" "d AND 0x80 = (if bit d 7 then 0x80 else 0)"
proof -
  have "d AND push_bit n 1 = (if bit d n then push_bit n 1 else 0)" for n
    by (auto intro!: bit_word_eqI simp: bit_simps)
  from this [of 4] this [of 5] this [of 6] this [of 7]
  show "d AND 0x10 = (if bit d 4 then 0x10 else 0)" "d AND 0x20 = (if bit d 5 then 0x20 else 0)"
    "d AND 0x40 = (if bit d 6 then 0x40 else 0)" "d AND 0x80 = (if bit d 7 then 0x80 else 0)" by (simp_all add: push_bit_eq_mult)
qed

lemma four_fields:
  assumes "(d :: u64) AND NOT (RXH_IP_SRC OR RXH_IP_DST OR RXH_L4_B_0_1 OR RXH_L4_B_2_3) = 0"
  shows "d = (if bit d 4 then 0x10 else 0) OR (if bit d 5 then 0x20 else 0) OR (if bit d 6 then 0x40 else 0) OR (if bit d 7 then 0x80 else 0)"
proof -
  have "d = d AND (0x10 OR 0x20 OR 0x40 OR 0x80)"
  proof -
    have "d = (d AND m) OR (d AND NOT m)" for m by (auto intro!: bit_word_eqI simp: bit_simps)
    from this [of "0x10 OR 0x20 OR 0x40 OR 0x80"] assms show ?thesis by simp
  qed
  also have "\<dots> = (d AND 0x10) OR (d AND 0x20) OR (d AND 0x40) OR (d AND 0x80)" by (simp only: bit.conj_disj_distrib)
  finally show ?thesis by (simp only: and_bit)
qed

lemma rd_flags:
  "adapter_udp_flags (snd (run_state (rd E r) a)) = adapter_udp_flags a"
  by (simp add: rd_def run_hw_op adapter_udp_flags_def)

lemma and_ports: "(d :: u64) AND 192 = (if bit d 6 then 0x40 else 0) OR (if bit d 7 then 0x80 else 0)"
proof -
  have "d AND 192 = (d AND 0x40) OR (d AND 0x80)" by (simp add: bit.conj_disj_distrib [symmetric])
  then show ?thesis by (simp only: and_bit)
qed

text \<open>What an accepted request does: the flags, and what the options read back.\<close>

lemma accepted_options:
  assumes "d AND NOT (RXH_IP_SRC OR RXH_IP_DST OR RXH_L4_B_0_1 OR RXH_L4_B_2_3) = 0"
    and "new_udp_flags flow d (adapter_udp_flags a) = Some (f4, f6)" and "adapter_udp_flags b = (f4, f6)"
  shows "ixgbevf_get_rss_hash_opts b flow = (0, d)"
    and "f \<noteq> flow \<Longrightarrow> ixgbevf_get_rss_hash_opts b f = ixgbevf_get_rss_hash_opts a f"
proof -
  note d = four_fields [OF assms(1)]
  show "ixgbevf_get_rss_hash_opts b flow = (0, d)"
    apply (rule subst [OF d [symmetric], of "\<lambda>x. ixgbevf_get_rss_hash_opts b flow = (0, x)"])
    using assms(2,3)
    by (cases flow; cases "bit d 4"; cases "bit d 5"; cases "bit d 6"; cases "bit d 7")
      (auto simp: new_udp_flags_def udp_ports_def Let_def and_bit and_ports adapter_udp_flags_def ixgbevf_get_rss_hash_opts_def
        split: if_splits)
  show "f \<noteq> flow \<Longrightarrow> ixgbevf_get_rss_hash_opts b f = ixgbevf_get_rss_hash_opts a f"
    using assms(2,3)
    by (cases flow; cases f) (auto simp: new_udp_flags_def adapter_udp_flags_def ixgbevf_get_rss_hash_opts_def Let_def split: if_splits)
qed

lemma hashed_fields_udp:
  "hashed_fields fl v AND IXGBE_MRQC_RSS_FIELD_IPV4_UDP \<noteq> 0 \<longleftrightarrow> fst fl"
  "hashed_fields fl v AND IXGBE_MRQC_RSS_FIELD_IPV6_UDP \<noteq> 0 \<longleftrightarrow> snd fl"
proof -
  have b: "(x :: u32) AND 0x400000 \<noteq> 0 \<longleftrightarrow> bit x 22" "(x :: u32) AND 0x800000 \<noteq> 0 \<longleftrightarrow> bit x 23" for x
  proof -
    from and_exp_eq_0_iff_not_bit [of x 22] and_exp_eq_0_iff_not_bit [of x 23] show "x AND 0x400000 \<noteq> 0 \<longleftrightarrow> bit x 22" "x AND 0x800000 \<noteq> 0 \<longleftrightarrow> bit x 23"
      by simp_all
  qed
  show "hashed_fields fl v AND IXGBE_MRQC_RSS_FIELD_IPV4_UDP \<noteq> 0 \<longleftrightarrow> fst fl"
    "hashed_fields fl v AND IXGBE_MRQC_RSS_FIELD_IPV6_UDP \<noteq> 0 \<longleftrightarrow> snd fl"
    unfolding IXGBE_MRQC_RSS_FIELD_IPV4_UDP_def IXGBE_MRQC_RSS_FIELD_IPV6_UDP_def b
    by (simp_all add: hashed_fields_def Let_def bit_simps)
qed
lemma run_wr: "run_state (wr r v) a = ((), if hw_addr (ad_hw a) = 0 then a
    else a\<lparr>ad_q := (ad_q a)\<lparr>qs_hw := (ad_hw a)\<lparr>io := MMIO_Write r v # io (ad_hw a)\<rparr>\<rparr>\<rparr>)"
  by (simp add: wr_def run_hw_op IXGBE_WRITE_REG_def writel_def log_io_def)


definition rss_adapter :: adapter where
  "rss_adapter = sample_adapter\<lparr>ad_q := (ad_q sample_adapter)\<lparr>qs_hw := (ad_hw sample_adapter)\<lparr>mac :=
     (mac (ad_hw sample_adapter))\<lparr>mac_type := Ixgbe_mac_X550_vf\<rparr>\<rparr>\<rparr>\<rparr>"


text \<open>
  Bringing the interface up programs the hash control register again, but without the bits for UDP, whatever the
  flags say: after a reset the device no longer hashes UDP ports that the driver still reports as hashed.
\<close>

lemma udp_hashing_lost:
  assumes "hw_addr (ad_hw (snd (run_state ixgbevf_setup_vfmrqc a))) \<noteq> 0"
  shows "\<exists>v. hd (io (ad_hw (snd (run_state ixgbevf_setup_vfmrqc a)))) = MMIO_Write IXGBE_VFMRQC v \<and>
    v AND IXGBE_MRQC_RSS_FIELD_IPV4_UDP = 0 \<and> v AND IXGBE_MRQC_RSS_FIELD_IPV6_UDP = 0"
    and "adapter_udp_flags (snd (run_state ixgbevf_setup_vfmrqc a)) = adapter_udp_flags a"
proof -
  show "\<exists>v. hd (io (ad_hw (snd (run_state ixgbevf_setup_vfmrqc a)))) = MMIO_Write IXGBE_VFMRQC v \<and>
    v AND IXGBE_MRQC_RSS_FIELD_IPV4_UDP = 0 \<and> v AND IXGBE_MRQC_RSS_FIELD_IPV6_UDP = 0"
    using assms unfolding ixgbevf_setup_vfmrqc_def by (auto simp: case_prod_beta run_wr Let_def split: if_splits)
  have wr: "keeps adapter_udp_flags (wr r v)" for r v
    by (simp add: keeps_def run_wr adapter_udp_flags_def)
  have "keeps adapter_udp_flags (fill_reta s n i j v)" for s n i j v
    by (induction n arbitrary: i j v) (auto simp: Let_def adapter_udp_flags_def intro!: keeps_rules wr)
  then have "keeps adapter_udp_flags ixgbevf_setup_vfmrqc"
    unfolding ixgbevf_setup_vfmrqc_def by (intro keeps_rules wr)
  then show "adapter_udp_flags (snd (run_state ixgbevf_setup_vfmrqc a)) = adapter_udp_flags a" by (rule keeps_snd)
qed
subsection \<open>Self test\<close>

text \<open>A register read yields what the device showed at some point, or all ones when the device is gone.\<close>

lemma dead_loop_shown: "fst (run_state (dead_read_loop E r n v) hw) = v \<or> (\<exists>h. fst (run_state (dead_read_loop E r n v) hw) = mmio E h r)"
proof (induction n arbitrary: v hw)
  case 0
  show ?case by simp
next
  case (Suc n)
  let ?w = "mmio E (io hw) r"
  from Suc.IH [of ?w "hw\<lparr>io := MMIO_Read r ?w # io hw\<rparr>"] show ?case by (auto simp: readl_def log_io_def)
qed

lemma dead_loop_shown': "\<exists>h. fst (run_state (dead_read_loop E r (Suc n) v) hw) = mmio E h r"
  using dead_loop_shown [of E r n "mmio E (io hw) r" "hw\<lparr>io := MMIO_Read r (mmio E (io hw) r) # io hw\<rparr>"]
  by (auto simp: readl_def log_io_def)

lemma read_reg_shown: "fst (run_state (ixgbe_read_reg E r) hw) = IXGBE_FAILED_READ_REG \<or> (\<exists>h. fst (run_state (ixgbe_read_reg E r) hw) = mmio E h r)"
proof (cases "hw_addr hw = 0 \<or> mmio E (io hw) r \<noteq> IXGBE_DEAD_READ_REG")
  case True
  then show ?thesis by (subst (1 2) ixgbe_read_reg.simps) (auto simp: readl_def log_io_def case_prod_beta)
next
  case False
  have "run_state (ixgbe_read_reg E r) hw = run_state (dead_read_loop E r (Suc 9) 0) (hw\<lparr>io := MMIO_Read r IXGBE_DEAD_READ_REG # io hw\<rparr>)"
    using False by (subst ixgbe_read_reg.simps)
      (simp add: ixgbevf_validate_register_read_def readl_def log_io_def del: dead_read_loop.simps)
  then show ?thesis using dead_loop_shown' by metis
qed

text \<open>Bit \<open>k\<close> of register \<open>r\<close> always reads as \<open>b\<close>.\<close>

definition stuck :: "env \<Rightarrow> u32 \<Rightarrow> nat \<Rightarrow> bool \<Rightarrow> bool" where
  "stuck E r k b \<longleftrightarrow> (\<forall>h. bit (mmio E h r) k = b)"

lemma stuck_read:
  assumes "stuck E r k b" and "k < 32"
  shows "fst (run_state (ixgbe_read_reg E r) hw) = 0xFFFFFFFF \<or> bit (fst (run_state (ixgbe_read_reg E r) hw)) k = b"
  using read_reg_shown [of E r hw] assms by (auto simp: stuck_def)

lemma pattern_loop_head:
  "fst (run_state (pattern_loop E r m w (t # ts) data) hw) = (1, ucast r) \<or>
    (\<exists>h h'. fst (run_state (ixgbe_read_reg E r) h) = t AND w AND m \<and>
      run_state (pattern_loop E r m w (t # ts) data) hw = run_state (pattern_loop E r m w ts data) h')"
  by (auto simp: case_prod_beta)

text \<open>The first two patterns are complements of each other.\<close>

lemma complement_patterns:
  assumes "k < 32"
  shows "bit (0x5A5A5A5A :: u32) k \<noteq> bit (0xA5A5A5A5 :: u32) k"
proof -
  have "(0xA5A5A5A5 :: u32) = NOT 0x5A5A5A5A" by simp
  then show ?thesis using assms by (simp only: bit_not_iff) simp
qed

lemma pattern_test_stuck:
  assumes st: "stuck E r k b" and k: "bit (m AND w) k"
  shows "fst (fst (run_state (reg_pattern_test E r m w data) hw)) = 1 \<and> snd (fst (run_state (reg_pattern_test E r m w data) hw)) \<in> {1, ucast r}"
proof (cases "hw_addr hw = 0")
  case True
  then show ?thesis by (simp add: reg_pattern_test_def)
next
  case False
  have k32: "k < 32" using bit_imp_le_length [OF k] by simp
  let ?a = "0x5A5A5A5A :: u32" and ?b = "0xA5A5A5A5 :: u32" and ?ts = "[0, 0xFFFFFFFF :: u32]"
  have no_ones: "\<not> t AND w AND m = 0xFFFFFFFF" if "t \<noteq> 0xFFFFFFFF" for t :: u32
  proof
    assume "t AND w AND m = 0xFFFFFFFF"
    moreover have "(0xFFFFFFFF :: u32) = - 1" by simp
    ultimately have "bit (t AND w AND m) n = bit (- 1 :: u32) n" for n by (simp only:)
    then have "t = - 1" by (intro bit_word_eqI) (auto simp: bit_simps)
    then show False using that by simp
  qed
  have same: "bit (t AND w AND m) k = bit t k" for t :: u32 using k by (simp add: bit_simps)
  have run: "run_state (reg_pattern_test E r m w data) hw = run_state (pattern_loop E r m w (?a # ?b # ?ts) data) hw"
    using False by (simp add: reg_pattern_test_def)
  show ?thesis
  proof (rule disjE [OF pattern_loop_head [of E r m w ?a "?b # ?ts" data hw]])
    assume "fst (run_state (pattern_loop E r m w (?a # ?b # ?ts) data) hw) = (1, ucast r)"
    then show ?thesis unfolding run by simp
  next
    assume "\<exists>h h'. fst (run_state (ixgbe_read_reg E r) h) = ?a AND w AND m \<and>
      run_state (pattern_loop E r m w (?a # ?b # ?ts) data) hw = run_state (pattern_loop E r m w (?b # ?ts) data) h'"
    then obtain h h' where 1: "fst (run_state (ixgbe_read_reg E r) h) = ?a AND w AND m"
      and 2: "run_state (pattern_loop E r m w (?a # ?b # ?ts) data) hw = run_state (pattern_loop E r m w (?b # ?ts) data) h'" by blast
    have ba: "b = bit ?a k" using stuck_read [OF st k32, of h] no_ones [of ?a] same [of ?a] unfolding 1 by auto
    show ?thesis
    proof (rule disjE [OF pattern_loop_head [of E r m w ?b ?ts data h']])
      assume "fst (run_state (pattern_loop E r m w (?b # ?ts) data) h') = (1, ucast r)"
      then show ?thesis unfolding run 2 by simp
    next
      assume "\<exists>g g'. fst (run_state (ixgbe_read_reg E r) g) = ?b AND w AND m \<and>
        run_state (pattern_loop E r m w (?b # ?ts) data) h' = run_state (pattern_loop E r m w ?ts data) g'"
      then obtain g where 3: "fst (run_state (ixgbe_read_reg E r) g) = ?b AND w AND m" by blast
      have "b = bit ?b k" using stuck_read [OF st k32, of g] no_ones [of ?b] same [of ?b] unfolding 3 by auto
      then show ?thesis using ba complement_patterns [OF k32] by simp
    qed
  qed
qed
lemma run_tests_fail:
  assumes "t \<in> set ts" and "\<And>data hw. fst (fst (run_state (t data) hw)) \<noteq> 0"
  shows "fst (fst (run_state (run_tests ts data) hw)) \<noteq> 0"
  using assms(1)
proof (induction ts arbitrary: data hw)
  case (Cons u ts)
  then show ?case using assms(2) by (auto simp: case_prod_beta)
qed simp

lemma reg_test_stuck:
  assumes t: "t \<in> set reg_test_vf" "rt_test_type t = PATTERN_TEST" and i: "i < rt_array_len t"
    and k: "bit (rt_mask t AND rt_write t) k" and st: "stuck E (ucast (rt_reg t) + of_nat i * 0x40) k b"
  shows "fst (fst (run_state (ixgbevf_reg_test E data) hw)) \<noteq> 0"
proof -
  have "fst (fst (run_state (reg_test_once E t (of_nat i) d) h)) \<noteq> 0" for d h
    using pattern_test_stuck [OF st k, of d h] t(2) by (simp add: reg_test_once_def)
  moreover have "reg_test_once E t (of_nat i) \<in> set (concat (map (row_tests E) reg_test_vf))"
    using t(1) i by (auto simp: row_tests_def intro!: bexI [of _ t])
  ultimately have "fst (fst (run_state (run_tests (concat (map (row_tests E) reg_test_vf)) data) hw)) \<noteq> 0"
    by (intro run_tests_fail)
  then show ?thesis by (auto simp: ixgbevf_reg_test_def case_prod_beta)
qed

text \<open>C22: Self test: if one bit of a register in the test table always reads as 0 or always as 1, within the bits that its test writes and
  compares, then the offline test of \<open>ixgbevf_diag_test\<close> reports a failure, from every state of the adapter, of the link and of the device.\<close>

theorem diag_test_finds_stuck_bit:
  assumes "t \<in> set reg_test_vf" and "rt_test_type t = PATTERN_TEST" and "i < rt_array_len t"
    and "bit (rt_mask t AND rt_write t) k" and "stuck (host_env X) (ucast (rt_reg t) + of_nat i * 0x40) k b"
  shows "fst (fst (run_state (ixgbevf_diag_test X ETH_TEST_FL_OFFLINE data) a)) AND ETH_TEST_FL_FAILED \<noteq> 0"
proof -
  have failed: "(f OR 2 :: u32) AND 2 \<noteq> 0" for f
  proof -
    have "bit ((f OR 2) AND 2) 1" by (simp add: bit_simps)
    then show ?thesis by auto
  qed
  have rc: "fst (fst (run_state (hw_op (ixgbevf_reg_test (host_env X) d)) s)) \<noteq> 0" for d s
    using reg_test_stuck [OF assms] by (simp add: run_hw_op)
  show ?thesis
    unfolding ixgbevf_diag_test_def using rc failed by (auto simp: case_prod_beta Let_def)
qed

theorem diag_test_finds_stuck_bit_witness:
  "fst (fst (run_state (ixgbevf_diag_test sample_host ETH_TEST_FL_OFFLINE (0, 0)) sample_adapter)) AND ETH_TEST_FL_FAILED \<noteq> 0"
proof (rule diag_test_finds_stuck_bit)
  show "reg_test_vf ! 1 \<in> set reg_test_vf" by (simp add: reg_test_vf_def)
  show "rt_test_type (reg_test_vf ! 1) = PATTERN_TEST" "1 < rt_array_len (reg_test_vf ! 1)"
    "bit (rt_mask (reg_test_vf ! 1) AND rt_write (reg_test_vf ! 1)) 5"
    by (simp_all add: reg_test_vf_def pattern_row_def)
  show "stuck (host_env sample_host) (ucast (rt_reg (reg_test_vf ! 1)) + of_nat 1 * 0x40) 5 False"
    by (simp add: stuck_def sample_host_def sample_env_def reg_test_vf_def pattern_row_def)
qed
subsection \<open>Register dump\<close>

lemma run_mapM_hw: "run_state (mapM rs (rd E)) a = run_state (hw_op (mapM rs (ixgbe_read_reg E))) a"
  by (induction rs arbitrary: a) (simp_all add: rd_def run_hw_op case_prod_beta)

lemma mapM_length: "length (fst (run_state (mapM xs f) s)) = length xs"
  by (induction xs arbitrary: s) (simp_all add: case_prod_beta)

lemma emits_mapM_on: "(\<And>x. x \<in> set xs \<Longrightarrow> emits Q (g x)) \<Longrightarrow> emits Q (mapM xs g)"
  by (induction xs) (auto intro!: emits_rules)

text \<open>C25: Register dump: \<open>ixgbevf_get_regs\<close> fills the 45 entries of the buffer, the first with 0, and has no effect on the device but reads:
  no register is written, and the interrupt cause register, which a read would clear, is not read, not even by the detection
  of a removed device; only the hardware structure of the adapter can change.\<close>

theorem get_regs_harmless:
  assumes "run_state (ixgbevf_get_regs E revision_id device_id) a = ((version, regs), a')"
  shows "length regs = 45 \<and> regs ! 0 = 0 \<and> (\<exists>h. a' = a\<lparr>ad_q := (ad_q a)\<lparr>qs_hw := h\<rparr>\<rparr>) \<and>
    (\<exists>evs. io (ad_hw a') = evs @ io (ad_hw a) \<and> (\<forall>ev \<in> set evs. no_mmio_write ev \<and> no_read_of IXGBE_VTEICR ev))"
proof -
  let ?m = "mapM dumped_regs (ixgbe_read_reg E)"
  have run: "a' = a\<lparr>ad_q := (ad_q a)\<lparr>qs_hw := snd (run_state ?m (ad_hw a))\<rparr>\<rparr>" "regs = 0 # fst (run_state ?m (ad_hw a))"
    using assms unfolding ixgbevf_get_regs_def
    by (auto simp: run_mapM_hw run_hw_op case_prod_beta Let_def)
  have e: "emits no_mmio_write ?m" by (intro emits_rules)
  have "IXGBE_VTEICR \<notin> set dumped_regs" "IXGBE_VTEICR \<noteq> IXGBE_VFSTATUS" by (simp_all add: dumped_regs_def)
  then have r: "emits (no_read_of IXGBE_VTEICR) ?m" by (intro emits_mapM_on read_reg_no_read_of(1)) auto
  obtain evs where evs: "io (snd (run_state ?m (ad_hw a))) = evs @ io (ad_hw a)" "list_all no_mmio_write evs"
    using e by (rule emitsE)
  have "list_all (no_read_of IXGBE_VTEICR) evs" using emitsD [OF r _ evs(1)] by (metis prod.collapse)
  moreover have "length dumped_regs = 44" by (simp add: dumped_regs_def)
  ultimately show ?thesis using run evs by (auto simp: mapM_length list_all_iff)
qed

theorem get_regs_harmless_witness:
  "\<exists>version regs a'. run_state (ixgbevf_get_regs sample_env 1 0x1565) sample_adapter = ((version, regs), a') \<and> length regs = 45 \<and> regs ! 0 = 0"
proof -
  obtain version regs a' where run: "run_state (ixgbevf_get_regs sample_env 1 0x1565) sample_adapter = ((version, regs), a')"
    by (metis surj_pair)
  from get_regs_harmless [OF run] run show ?thesis by auto
qed

subsection \<open>Statistics\<close>

text \<open>The kernel's buffer has as many entries as \<open>ixgbevf_get_sset_count\<close> says: names and values fill it.\<close>

lemma pairs_length: "length (concat (map (\<lambda>i. [f i, g i]) xs)) = 2 * length xs"
  by (induction xs) auto

lemma stats_fill_buffer:
  "int (length (ixgbevf_get_strings a ETH_SS_STATS)) = ixgbevf_get_sset_count a ETH_SS_STATS"
  "run_state (ixgbevf_get_ethtool_stats E D) a = (data, a') \<Longrightarrow> int (length data) = ixgbevf_get_sset_count a' ETH_SS_STATS"
proof -
  have p: "length (concat (map (\<lambda>i. tx_pair (F i)) xs)) = 2 * length xs" "length (concat (map (\<lambda>i. rx_pair (G i)) xs)) = 2 * length xs" for F G and xs :: "nat list"
    by (induction xs) (auto simp: tx_pair_def rx_pair_def split: option.splits)
  show "int (length (ixgbevf_get_strings a ETH_SS_STATS)) = ixgbevf_get_sset_count a ETH_SS_STATS"
    by (simp add: ixgbevf_get_strings_def ixgbevf_get_sset_count_def IXGBEVF_STATS_LEN_def IXGBEVF_QUEUE_STATS_LEN_def pairs_length
        del: map_map length_concat)
  show "run_state (ixgbevf_get_ethtool_stats E D) a = (data, a') \<Longrightarrow> int (length data) = ixgbevf_get_sset_count a' ETH_SS_STATS"
    by (auto simp: ixgbevf_get_ethtool_stats_def ixgbevf_get_sset_count_def IXGBEVF_STATS_LEN_def IXGBEVF_QUEUE_STATS_LEN_def p case_prod_beta
        Let_def simp del: map_map length_concat)
qed

subsection \<open>Redirection table\<close>

text \<open>Every entry of the table that the physical function reports names a receive queue.\<close>

lemma reta_in_range:
  assumes "run_state (ixgbevf_get_reta_locked E stk reta n) hw = ((0, reta'), hw')" and "length reta = IXGBEVF_82599_RETA_SIZE" and "n > 0"
  shows "\<forall>q \<in> set reta'. unat q < n"
proof -
  have one: "unat ((x :: u32) AND 1) \<le> 1" for x
    using word_and_le1 [of x 1] by (simp add: word_le_nat_alt)
  obtain msgbuf where "reta' = concat (map (\<lambda>i. map (\<lambda>j. drop_bit (2 * j) (msgbuf ! (1 + i)) AND (if n > 1 then 1 else 0)) [0..<16]) [0..<8])"
    using assms(1,2) by (auto simp: ixgbevf_get_reta_locked_def case_prod_beta Let_def split: if_splits)
  then have "\<exists>x. q = x AND (if n > 1 then 1 else 0)" if "q \<in> set reta'" for q
    using that by (auto simp del: upt.simps upt_rec_numeral)
  then show ?thesis using one \<open>n > 0\<close> by (fastforce intro: le_less_trans)
qed

end
