(* ===== verification/Ring_Param_Props.thy ===== *)
theory Ring_Param_Props
  imports Ethtool_Props
begin

text \<open>
  Changing the length of the rings either fails and leaves everything as it was, or the lengths read back as requested,
  rounded up. Two facts show what can go wrong in between: the unwinding releases buffers that were never set up,
  and a partly received frame is forgotten by the ring that is released but not by its copy.
\<close>

subsection \<open>Nothing but the histories\<close>

definition mute_tx :: "ixgbevf_ring \<Rightarrow> ixgbevf_ring" where
  "mute_tx r = r\<lparr>ring_ev := []\<rparr>"

definition mute_rx :: "rx_ring \<Rightarrow> rx_ring" where
  "mute_rx r = r\<lparr>rx_ev := [], xdp_ring := mute_tx (xdp_ring r)\<rparr>"

text \<open>The adapter without the histories of its environment.\<close>

definition muted :: "adapter \<Rightarrow> adapter" where
  "muted a = a\<lparr>ad_q := (ad_q a)\<lparr>qs_hw := (ad_hw a)\<lparr>io := []\<rparr>\<rparr>,
     tx_rings := mute_tx \<circ> tx_rings a, rx_rings := mute_rx \<circ> rx_rings a\<rparr>"

lemma comp_upd: "g \<circ> f(i := x) = (g \<circ> f)(i := g x)"
  by auto

lemma comp_idem: "(g \<circ> f)(i := g (f i)) = g \<circ> f"
  by auto

lemma mute_simps [simp]:
  "mute_tx (r\<lparr>ring_ev := e\<rparr>) = mute_tx r" "mute_rx (r'\<lparr>rx_ev := e'\<rparr>) = mute_rx r'"
  "mute_rx (r'\<lparr>xdp_ring := x\<lparr>ring_ev := e\<rparr>\<rparr>) = mute_rx (r'\<lparr>xdp_ring := x\<rparr>)"
  by (simp_all add: mute_tx_def mute_rx_def)

lemmas struct_defs = muted_def set_struct_def set_rings_def set_table_def Let_def comp_upd comp_idem

text \<open>Code that, histories apart, only acts on ring \<open>(k, i)\<close>: whatever is put in its place.\<close>

definition acts_on :: "ring_kind \<Rightarrow> nat \<Rightarrow> 'a adop \<Rightarrow> bool" where
  "acts_on k i m \<longleftrightarrow> (\<forall>c. keeps (\<lambda>a. muted (set_struct k i c a)) m)"

named_theorems acts_rules

lemma acts_bind [acts_rules]: "acts_on k i m \<Longrightarrow> (\<And>x. acts_on k i (f x)) \<Longrightarrow> acts_on k i (State_Monad.bind m f)"
  unfolding acts_on_def by (blast intro: keeps_bind)

lemma acts_basic [acts_rules]:
  "acts_on k i (ret x)" "acts_on k i (gets g)"
  "(b \<Longrightarrow> acts_on k i m) \<Longrightarrow> (\<not> b \<Longrightarrow> acts_on k i m') \<Longrightarrow> acts_on k i (if b then m else m')"
  "(b \<Longrightarrow> acts_on k i p) \<Longrightarrow> acts_on k i (whenM b p)"
  "(\<And>x. acts_on k i (h x)) \<Longrightarrow> acts_on k i (let x = v in h x)"
  unfolding acts_on_def by (auto intro: keeps_rules)

lemma acts_io [acts_rules]: "acts_on k i (hw_op (kcall E s l))" "acts_on k i (kernel_call s l)"
  by (cases k; simp add: acts_on_def keeps_def kernel_call_def run_hw_op kcall_def log_io_def struct_defs)+

lemma acts_mem [acts_rules]: "acts_on k i (upd_mem k i f)"
  by (cases k) (simp_all add: acts_on_def keeps_def upd_mem_def struct_defs)

lemma acts_tx [acts_rules]: "k \<noteq> Rx_ring \<Longrightarrow> acts_on k i (on_ring_of k i m)"
  by (cases k) (simp_all add: acts_on_def keeps_def on_ring_of_def on_tx_def on_rx_def on_xdp_ring_def case_prod_beta struct_defs)

text \<open>What a receive ring shares with other objects.\<close>

definition rx_shared :: "rx_ring \<Rightarrow> u32 \<times> u32 \<times> bool \<times> ixgbevf_ring" where
  "rx_shared r = (qv_packets r, qv_bytes r, netpoll_rx r, xdp_ring r)"

lemma acts_rx: "keeps rx_shared m \<Longrightarrow> acts_on Rx_ring i (on_rx i m)"
  by (simp add: acts_on_def keeps_def on_rx_def case_prod_beta rx_shared_def struct_defs)

lemma rx_shared_modify: "(\<And>r. rx_shared (f r) = rx_shared r) \<Longrightarrow> keeps rx_shared (modify f)"
  by (rule keeps_modify)

lemma rx_shared_clean: "keeps rx_shared (ixgbevf_clean_rx_ring R)"
proof -
  have [keeps_rules]: "keeps rx_shared (rx_log e)" for e
    unfolding rx_log_def by (rule keeps_modify) (simp add: rx_shared_def)
  have [keeps_rules]: "keeps rx_shared (rx_drain_loop R n i)" for n i
    by (induction n arbitrary: i) (auto simp: rx_buf_def intro!: keeps_rules)
  show ?thesis
    unfolding ixgbevf_clean_rx_ring_def by (intro keeps_rules) (simp_all add: rx_shared_def)
qed

lemma acts_setup [acts_rules]: "acts_on k i (setup_struct E J k i)"
proof -
  have rx: "acts_on Rx_ring i (on_rx i (modify (\<lambda>r. r\<lparr>xdp_prog := p\<rparr>)))"
    "acts_on Rx_ring i (on_rx i (modify (\<lambda>r. r\<lparr>rx_buffer_info := b\<rparr>)))" for p b
    by (intro acts_rx keeps_modify; simp add: rx_shared_def)+
  show ?thesis
    unfolding setup_struct_def fresh_buffers_def ixgbevf_setup_rx_resources_def ixgbevf_setup_tx_resources_def setup_failed_def
    by (cases k) (auto intro!: acts_rules rx)
qed

lemma acts_free [acts_rules]: "acts_on k i (free_struct R k i)"
proof -
  have rx: "acts_on Rx_ring i (on_rx i (modify (\<lambda>r. r\<lparr>xdp_prog := p\<rparr>)))" "acts_on Rx_ring i (on_rx i (ixgbevf_clean_rx_ring (R i)))" for p
    by (intro acts_rx rx_shared_clean keeps_modify; simp add: rx_shared_def)+
  show ?thesis
    unfolding free_struct_def ixgbevf_free_rx_resources_def ixgbevf_free_tx_resources_def
    by (cases k) (auto intro!: acts_rules rx)
qed

text \<open>Putting a ring back where it was.\<close>

lemma set_get_struct: "muted (set_struct k i (get_struct k i a) (set_struct k i c a)) = muted a"
  by (cases k) (simp_all add: get_struct_def table_def struct_defs)

lemma on_copy_silent: "acts_on k i m \<Longrightarrow> keeps muted (on_copy k i c m)"
  unfolding keeps_def
proof
  fix a assume "acts_on k i m"
  then have "muted (set_struct k i (get_struct k i a) (snd (run_state m (set_struct k i c a)))) =
      muted (set_struct k i (get_struct k i a) (set_struct k i c a))"
    unfolding acts_on_def keeps_def by blast
  then show "muted (snd (run_state (on_copy k i c m) a)) = muted a"
    by (simp add: on_copy_def case_prod_beta set_get_struct)
qed

lemma silent_free_clones: "keeps muted (free_clones R cs)"
  unfolding free_clones_def by (intro keeps_rules on_copy_silent acts_rules)

lemma silent_vfree: "keeps muted (kernel_call s l)" "keeps muted (hw_op (kcall E s l))"
  by (simp_all add: keeps_def kernel_call_def kcall_def run_hw_op log_io_def muted_def)

lemma silent_setup_clones: "keeps muted (setup_clones E R J n rs cs)"
proof (induction rs arbitrary: cs)
  case Nil
  show ?case by (simp add: keeps_ret)
next
  case (Cons r rs)
  show ?case
    unfolding setup_clones.simps by (intro keeps_rules on_copy_silent acts_rules silent_free_clones silent_vfree Cons.IH)
qed

lemma silent_new_rings: "keeps muted (new_rings E R J changed n rs)"
  unfolding new_rings_def by (intro keeps_rules silent_setup_clones silent_vfree)

lemma muted_eqs:
  assumes "muted b = muted a"
  shows "ad_bits b = ad_bits a" "tx_ring_count (ad_q b) = tx_ring_count (ad_q a)" "rx_ring_count (ad_q b) = rx_ring_count (ad_q a)"
proof -
  have q: "(ad_q b)\<lparr>qs_hw := (ad_hw b)\<lparr>io := []\<rparr>\<rparr> = (ad_q a)\<lparr>qs_hw := (ad_hw a)\<lparr>io := []\<rparr>\<rparr>"
    using arg_cong [OF assms, of ad_q] by (simp add: muted_def)
  show "ad_bits b = ad_bits a" using arg_cong [OF q, of "\<lambda>q. back_state (qs_hw q)"] by simp
  show "tx_ring_count (ad_q b) = tx_ring_count (ad_q a)" using arg_cong [OF q, of tx_ring_count] by simp
  show "rx_ring_count (ad_q b) = rx_ring_count (ad_q a)" using arg_cong [OF q, of rx_ring_count] by simp
qed

subsection \<open>The lengths after a change\<close>

definition lengths :: "adapter \<Rightarrow> u16 \<times> u16" where
  "lengths a = (tx_ring_count (ad_q a), rx_ring_count (ad_q a))"

lemma lengths_assets: "keeps assets m \<Longrightarrow> keeps lengths m"
  by (simp add: keeps_def lengths_def assets_def rest_assets_def)

lemma lengths_others: "keeps (others k I) m \<Longrightarrow> keeps lengths m"
  by (simp add: keeps_def lengths_def others_def rest_assets_def)

lemma lengths_free: "keeps lengths (free_struct R k i)"
  using lengths_others [OF rx_memory_laws(2)] lengths_others [OF tx_memory_laws(2)] by (simp add: free_struct_def)

lemma lengths_replace: "keeps lengths (replace_ring k i c)"
  unfolding replace_ring_def
  by (intro keeps_rules) (cases k; simp add: keeps_def run_on_q lengths_def set_struct_def set_rings_def set_table_def Let_def)+

lemma lengths_swap: "keeps lengths (swap_rings R cs)" "keeps lengths (set_counts n rs)"
  unfolding swap_rings_def set_counts_def by (intro keeps_rules lengths_free lengths_replace)+

lemma lengths_install:
  "lengths (snd (run_state (install_rings R set_tx_count n cs) a)) = (if cs = None then tx_ring_count (ad_q a) else n, rx_ring_count (ad_q a))"
  "lengths (snd (run_state (install_rings R set_rx_count n cs) a)) = (tx_ring_count (ad_q a), if cs = None then rx_ring_count (ad_q a) else n)"
proof -
  have "keeps lengths (kernel_call s l)" for s l by (intro lengths_assets life_io)
  note k = keeps_snd [OF this] and s = keeps_snd [OF lengths_swap(1)]
  show "lengths (snd (run_state (install_rings R set_tx_count n cs) a)) = (if cs = None then tx_ring_count (ad_q a) else n, rx_ring_count (ad_q a))"
    "lengths (snd (run_state (install_rings R set_rx_count n cs) a)) = (tx_ring_count (ad_q a), if cs = None then rx_ring_count (ad_q a) else n)"
    using s by (auto simp: install_rings_def set_tx_count_def set_rx_count_def case_prod_beta k run_on_q split: option.splits)
      (simp_all add: lengths_def)
qed

lemma new_rings_some: "run_state (new_rings E R J changed n rs) a = ((0, cs), a') \<Longrightarrow> cs = None \<longleftrightarrow> \<not> changed"
  unfolding new_rings_def by (auto simp: case_prod_beta split: if_splits)

lemma lengths_stopped: "lengths (snd (run_state (resize_stopped t r) a)) = (t, r)"
  by (simp add: resize_stopped_def case_prod_beta set_tx_count_def set_rx_count_def run_on_q lengths_def)

lemma resize_running_outcome:
  assumes run: "run_state (resize_running X J t r) a = (e, a')"
  shows "if e = 0 then lengths a' = (t, r) else muted a' = muted a"
proof -
  define E R where "E = host_env X" and "R = host_rx X"
  obtain e1 tx a1 where s1: "run_state (new_rings E R J (t \<noteq> tx_ring_count (ad_q a)) t (tx_slots a)) a = ((e1, tx), a1)"
    by (metis prod.exhaust)
  have m1: "muted a1 = muted a" using keepsD [OF silent_new_rings s1] .
  show ?thesis
  proof (cases "e1 = 0")
    case False
    then have "e = e1" "a' = a1" using run s1 by (simp_all add: resize_running_def Let_def E_def R_def)
    then show ?thesis using False m1 by simp
  next
    case True
    obtain e2 rx a2 where s2: "run_state (new_rings E R J (r \<noteq> rx_ring_count (ad_q a)) r (rx_slots a)) a1 = ((e2, rx), a2)"
      by (metis prod.exhaust)
    have m2: "muted a2 = muted a" using keepsD [OF silent_new_rings s2] m1 by simp
    show ?thesis
    proof (cases "e2 = 0")
      case False
      define undo where "undo = (case tx of None \<Rightarrow> ret () | Some cs \<Rightarrow> do { free_clones R cs; kernel_call ''vfree'' [] })"
      have "keeps muted undo"
        unfolding undo_def by (cases tx) (auto intro!: keeps_rules silent_free_clones silent_vfree)
      moreover have "e = e2" "a' = snd (run_state undo a2)"
        using run s1 s2 True False unfolding undo_def R_def by (auto simp: resize_running_def Let_def E_def R_def case_prod_beta)
      ultimately show ?thesis using False m2 keeps_snd [of muted undo a2] by simp
    next
      case ok: True
      define a3 where "a3 = snd (run_state (ixgbevf_down X) a2)"
      define a4 where "a4 = snd (run_state (install_rings R set_tx_count t tx) a3)"
      define a5 where "a5 = snd (run_state (install_rings R set_rx_count r rx) a4)"
      have a': "e = 0" "a' = snd (run_state (ixgbevf_up X) a5)"
        using run s1 s2 True ok by (auto simp: resize_running_def Let_def E_def R_def case_prod_beta a3_def a4_def a5_def)
      have "lengths a3 = lengths a"
        using keeps_snd [OF lengths_assets [OF life_down], of X a2] muted_eqs [OF m2] by (simp add: a3_def lengths_def)
      then have "lengths a5 = (t, r)"
        using lengths_install(1) [of R t tx a3] lengths_install(2) [of R r rx a4] new_rings_some [of E R J _ t "tx_slots a" a tx a1]
          new_rings_some [of E R J _ r "rx_slots a" a1 rx a2] s1 s2 True ok
        by (auto simp: lengths_def a4_def a5_def split: if_splits)
      moreover have "keeps assets (ixgbevf_up X)" unfolding ixgbevf_up_def by (intro keeps_rules)
      ultimately show ?thesis using a' keeps_snd [OF lengths_assets, of "ixgbevf_up X" a5] by simp
    qed
  qed
qed

subsection \<open>All or nothing\<close>

lemma align_bounds: "unat x \<le> 4096 \<Longrightarrow> unat (ALIGN x 8) = (unat x + 7) div 8 * 8"
proof -
  assume x: "unat x \<le> 4096"
  have "w AND NOT (mask 3) = push_bit 3 (drop_bit 3 w)" for w :: u32
    by (auto intro!: bit_word_eqI simp: bit_simps not_less)
  moreover have "ALIGN x 8 = (x + 7) AND NOT (mask 3)" by (simp add: ALIGN_def mask_eq_exp_minus_1)
  moreover have "unat (push_bit 3 (drop_bit 3 w)) = unat w div 8 * 8" if "unat w < 2 ^ 16" for w :: u32
  proof -
    have "unat (drop_bit 3 w) = unat w div 8" using unat_drop_bit_eq [of 3 w] by (simp add: drop_bit_eq_div [where 'a = nat])
    moreover have "unat w div 8 * 8 < 2 ^ 32" using that by (simp add: less_trans)
    ultimately show ?thesis by (simp add: push_bit_eq_mult unat_word_ariths)
  qed
  moreover have "unat (x + 7) = unat x + 7" using x by (simp add: unat_word_ariths)
  ultimately show ?thesis using x by simp
qed

lemma align_small: "unat x \<le> 4096 \<Longrightarrow> ucast (ucast (ALIGN x 8) :: u16) = ALIGN x 8"
proof -
  assume x: "unat x \<le> 4096"
  have "unat (ALIGN x 8) < 2 ^ 16" using align_bounds [OF x] x by simp
  then have "unat (ucast (ALIGN x 8) :: u16) = unat (ALIGN x 8)" by (simp add: unsigned_ucast_eq take_bit_nat_eq_self)
  moreover have "unat (ucast y :: u32) = unat y" for y :: u16
    using unsigned_less [of y, where 'a = nat] by (simp add: unsigned_ucast_eq take_bit_nat_eq_self)
  ultimately have "unat (ucast (ucast (ALIGN x 8) :: u16) :: u32) = unat (ALIGN x 8)" by presburger
  then show ?thesis by (simp only: word_unat_eq_iff)
qed


definition sample_junk :: junk where
  "sample_junk = \<lparr>junk_tx = (\<lambda>_ _. []), junk_rx = (\<lambda>_. [])\<rparr>"

definition sample_request :: ethtool_ringparam where
  "sample_request = \<lparr>rx_max_pending = 0, tx_max_pending = 0, rx_pending = 100, rx_mini_pending = 0, rx_jumbo_pending = 0,
     tx_pending = 4096\<rparr>"


subsection \<open>What the copies carry along\<close>

text \<open>A copy has the indices and the unfinished frame of the ring, and buffer records that were never set up.\<close>

lemma copied_rx_ring:
  assumes "run_state (on_copy Rx_ring i (clone Rx_ring i n a) (setup_struct E J Rx_ring i)) b = ((0, c), b')"
  shows "rx_buffer_info (cp_rx c) = junk_rx J i" "rx_next_to_clean (cp_rx c) = rx_next_to_clean (rx_rings a i)"
    "next_to_alloc (cp_rx c) = next_to_alloc (rx_rings a i)" "rx_skb_p (cp_rx c) = rx_skb_p (rx_rings a i)" "rx_count (cp_rx c) = unat n"
proof -
  define a0 where "a0 = snd (run_state (setup_struct E J Rx_ring i) (set_struct Rx_ring i (clone Rx_ring i n a) b))"
  have a0: "run_state (setup_struct E J Rx_ring i) (set_struct Rx_ring i (clone Rx_ring i n a) b) = (0, a0)" "c = get_struct Rx_ring i a0"
    using assms unfolding a0_def by (auto simp: on_copy_def case_prod_beta prod_eq_iff)
  define s where "s = set_struct Rx_ring i (clone Rx_ring i n a) b"
  have s: "rx_next_to_clean (rx_rings s i) = rx_next_to_clean (rx_rings a i)" "next_to_alloc (rx_rings s i) = next_to_alloc (rx_rings a i)"
    "rx_skb_p (rx_rings s i) = rx_skb_p (rx_rings a i)" "rx_count (rx_rings s i) = unat n"
    by (simp_all add: s_def set_struct_def set_rings_def clone_def get_struct_def with_count_def Let_def)
  have "\<exists>p. rx_rings a0 i = (rx_rings s i)\<lparr>xdp_prog := p, rx_buffer_info := junk_rx J i\<rparr>"
    using a0(1) unfolding setup_struct_def ixgbevf_setup_rx_resources_def setup_failed_def fresh_buffers_def s_def [symmetric]
    by (auto simp: case_prod_beta Let_def run_hw_op run_upd_mem on_rx_def split: if_splits)
  then show "rx_buffer_info (cp_rx c) = junk_rx J i" "rx_next_to_clean (cp_rx c) = rx_next_to_clean (rx_rings a i)"
    "next_to_alloc (cp_rx c) = next_to_alloc (rx_rings a i)" "rx_skb_p (cp_rx c) = rx_skb_p (rx_rings a i)" "rx_count (cp_rx c) = unat n"
    using s by (auto simp: a0(2) get_struct_def)
qed

text \<open>Emptying a ring that still has buffers unmaps the one at \<open>next_to_clean\<close>.\<close>

lemma clean_grows: "\<exists>evs. rx_ev (snd (run_state (rx_drain_loop R n i) r)) = evs @ rx_ev r"
proof (induction n arbitrary: i r)
  case (Suc n)
  let ?m = "\<lambda>i. rx_drain_loop R n i"
  show ?case
  proof (cases "i = next_to_alloc r")
    case False
    obtain r' j where r': "run_state (rx_drain_loop R (Suc n) i) r = run_state (?m j) r'" and "\<exists>evs. rx_ev r' = evs @ rx_ev r"
      using False by (auto simp: rx_buf_def rx_log_def case_prod_beta split: option.splits)
    then show ?thesis using Suc.IH [of j r'] by (auto simp: r')
  qed (auto intro: exI [of _ "[]"])
qed (auto intro: exI [of _ "[]"])

lemma clean_unmaps:
  assumes "rx_next_to_clean r \<noteq> next_to_alloc r" and "rx_count r > 0"
  shows "Rx_unmap (rb_dma (rx_buffer_info r ! rx_next_to_clean r)) \<in> set (rx_ev (snd (run_state (ixgbevf_clean_rx_ring R) r)))"
proof -
  obtain n where n: "rx_count r = Suc n" using assms(2) by (cases "rx_count r") auto
  let ?i = "rx_next_to_clean r" and ?b = "rx_buffer_info r ! rx_next_to_clean r"
  obtain r1 where r1: "snd (run_state (ixgbevf_clean_rx_ring R) r) =
      (snd (run_state (rx_drain_loop R (Suc n) ?i) r1))\<lparr>next_to_alloc := 0, rx_next_to_clean := 0, rx_next_to_use := 0\<rparr>"
    "next_to_alloc r1 = next_to_alloc r" "rx_buffer_info r1 = rx_buffer_info r"
    by (rule that [of "snd (run_state (whenM (rx_skb_p r \<noteq> Skb_null) (do { rx_log (Skb_freed (rx_skb_p r)); modify (\<lambda>r. r\<lparr>rx_skb_p := Skb_null\<rparr>) })) r)"])
      (auto simp: ixgbevf_clean_rx_ring_def case_prod_beta run_whenM rx_log_def n simp del: rx_drain_loop.simps)
  obtain r2 j where r2: "run_state (rx_drain_loop R (Suc n) ?i) r1 = run_state (rx_drain_loop R n j) r2" "Rx_unmap (rb_dma ?b) \<in> set (rx_ev r2)"
    using assms(1) r1(2,3) by (auto simp: rx_buf_def rx_log_def case_prod_beta split: option.splits)
  then show ?thesis using clean_grows [of R n j r2] r1(1) by auto
qed

text \<open>
  If the set-up of a later ring fails while receive ring \<open>i\<close> has buffers with the device, releasing the copy of ring \<open>i\<close>
  unmaps whatever address the fresh memory holds.
\<close>

lemma unwinding_releases_junk:
  assumes run: "run_state (on_copy Rx_ring i (clone Rx_ring i n a) (setup_struct E J Rx_ring i)) b = ((0, c), b')"
    and "rx_next_to_clean (rx_rings a i) \<noteq> next_to_alloc (rx_rings a i)" and "unat n > 0"
  shows "Rx_unmap (rb_dma (junk_rx J i ! rx_next_to_clean (rx_rings a i))) \<in>
    set (rx_ev (rx_rings (snd (run_state (free_clones R [(Rx_ring, i, c)]) a')) i))"
proof -
  note c = copied_rx_ring [OF run]
  define s where "s = set_struct Rx_ring i c a'"
  define r where "r = rx_rings s i"
  have r: "rx_buffer_info r = rx_buffer_info (cp_rx c)" "rx_next_to_clean r = rx_next_to_clean (cp_rx c)"
    "next_to_alloc r = next_to_alloc (cp_rx c)" "rx_count r = rx_count (cp_rx c)"
    by (simp_all add: r_def s_def set_struct_def set_rings_def Let_def)
  have "rx_ev (rx_rings (snd (run_state (free_struct R Rx_ring i) s)) i) = rx_ev (snd (run_state (ixgbevf_clean_rx_ring (R i)) r))"
    by (simp add: free_struct_def ixgbevf_free_rx_resources_def case_prod_beta run_upd_mem kernel_call_def run_hw_op on_rx_def r_def)
  then have "rx_ev (rx_rings (snd (run_state (free_clones R [(Rx_ring, i, c)]) a')) i) = rx_ev (snd (run_state (ixgbevf_clean_rx_ring (R i)) r))"
    by (simp add: free_clones_def on_copy_def case_prod_beta s_def [symmetric] set_struct_def [of Rx_ring i "get_struct Rx_ring i a'"] set_rings_def Let_def)
  then show ?thesis using clean_unmaps [of r "R i"] r c assms(2,3) by simp
qed

text \<open>
  A frame that was being received when the copy was made: \<open>ixgbevf_down\<close> and the release of the old ring free it and forget
  it, the copy that takes the place of the ring still points to it, and bringing the ring up does not clear the pointer.
\<close>

lemma resize_keeps_freed_frame:
  assumes run: "run_state (on_copy Rx_ring i (clone Rx_ring i n a) (setup_struct E J Rx_ring i)) b = ((0, c), b')"
  shows "rx_skb_p (snd (run_state (ixgbevf_clean_rx_ring R) r)) = Skb_null"
    and "rx_skb_p (rx_rings (snd (run_state (replace_ring Rx_ring i c) a')) i) = rx_skb_p (rx_rings a i)"
    and "rx_skb_p (snd (run_state rx_ring_reinit r)) = rx_skb_p r"
proof -
  have "keeps rx_skb_p (rx_drain_loop R' n i)" for R' n i
    by (induction n arbitrary: i) (auto simp: rx_buf_def rx_log_def intro!: keeps_rules)
  then show "rx_skb_p (snd (run_state (ixgbevf_clean_rx_ring R) r)) = Skb_null"
    by (auto simp: ixgbevf_clean_rx_ring_def case_prod_beta run_whenM rx_log_def keeps_snd)
  show "rx_skb_p (rx_rings (snd (run_state (replace_ring Rx_ring i c) a')) i) = rx_skb_p (rx_rings a i)"
    using copied_rx_ring(4) [OF run] by (simp add: replace_ring_def run_on_q set_struct_def set_rings_def Let_def)
  show "rx_skb_p (snd (run_state rx_ring_reinit r)) = rx_skb_p r"
    by (simp add: rx_ring_reinit_def rx_log_def)
qed

end
