(* ===== verification/Spec2Isabelle.thy ===== *)
theory Spec2Isabelle
  imports Ring_Param_Props
begin

text \<open>
  Verification of the Linux driver of Intel virtual functions, \<open>src/src\<close> of the repository: the driver of one PCI function
  that shares a physical network port with the physical function (PF) and with other virtual functions.

  \<^bold>\<open>How the driver is put together.\<close> At the bottom are register access (\<open>ixgbevf_osdep2.h\<close>, \<open>ixgbe_read_reg\<close>), the
  mailbox to the PF (\<open>ixgbe_mbx.c\<close>), the MAC operations, most of which are requests over the mailbox
  (\<open>ixgbe_vf.c\<close>), and their Hyper-V variants (\<open>ixgbe_hv_vf.c\<close>). \<open>ixgbevf_main.c\<close> builds on them: rings of descriptors
  in memory shared with the device, interrupt vectors that own rings and poll them, the configuration of the device, and the
  life of an interface (open, close, reset, the service task).

  \<^bold>\<open>The model.\<close> Code is translated function by function, under its own names, into the state monad of the library. The
  state of the shared code is \<open>ixgbe_hw\<close>; that of a ring \<open>ixgbevf_ring\<close> or \<open>rx_ring\<close>; that of the driver \<open>adapter\<close>, which holds the
  others. The device, the clock, PCI configuration space and the kernel services are the functions of a record \<open>env\<close> over
  the history of everything done so far (\<open>io_event list\<close>, newest first): a theorem for every \<open>env\<close> holds for every device,
  every PF and every kernel answer. What a theorem needs of them is a named hypothesis (\<open>honest_msix\<close>, \<open>honest_device\<close>,
  \<open>register_backed\<close>). Registers, counters and indices are words of their C width; error codes and Linux \<open>int\<close>s are \<open>int\<close>.
  A call through a null function pointer is the event \<open>Null_call\<close>; a fatal \<open>BUG_ON\<close>, a division by zero or an unfinished loop
  is \<open>None\<close>.

  \<^bold>\<open>Theories, in the order they build on each other.\<close>
  \<^item> Prelude: integer types, monad operations, and calculi for frames (\<open>keeps\<close>), results (\<open>ensures\<close>) and state invariants
    (\<open>preserves\<close>), each with a collection of rules that proofs apply by \<open>intro\<close>.
  \<^item> Hw: structures of the shared headers, register access with the detection of a removed device.
  \<^item> Mailbox, Mailbox\_Facts, Mailbox\_Props: \<open>ixgbe_mbx.c\<close>, both sides. Facts hold the frame, the I/O a call performs, the cache of
    read-to-clear bits, time bounds, and the locale \<open>mbx_transport\<close> for what the MAC layer relies on.
  \<^item> Mac\_VF, Mac\_Facts: \<open>ixgbe_vf.c\<close>. Mac\_HV: \<open>ixgbe_hv_vf.c\<close>, the operation tables and their dispatch.
    Mode\_Facts: none of this code touches the life-cycle bits of the adapter.
  \<^item> Tx\_Ring, Tx\_Facts, Tx\_Xmit, Tx\_Props: transmission. The ring is shown to be a queue of packets (\<open>ring_inv\<close>, \<open>q_clean\<close>).
  \<^item> Ledger: the locale of resources acquired and given back, interpreted on transmit rings (mappings) and receive rings (pages).
  \<^item> Rx\_Ring, Rx\_Facts, Rx\_Props: reception with page recycling and XDP; pages of 4096 bytes in two halves.
  \<^item> Q\_Vector: the lock between NAPI and busy polling as a step relation; dynamic interrupt throttling.
    Poll: \<open>ixgbevf_poll\<close>.
  \<^item> Queues, Queue\_Facts: queue counts, MSI-X vectors, which vector owns which ring (\<open>spread\<close>, \<open>linked\<close>).
  \<^item> Adapter, Interrupts, Irq\_Props, Stats, Configure, Config\_Props, Filters: the operations of \<open>ixgbevf_main.c\<close> on the adapter.
  \<^item> Resources, Ring\_Memory: memory of rings; the locale \<open>ring_memory\<close> for loops that set up all or nothing, interpreted for
    transmit, XDP and receive rings.
  \<^item> Lifecycle, Life\_Facts, Life\_Props, Service\_Props: up, down, open, close, reset, the service task and its subtasks.
  \<^item> Probe, Probe\_Props: device tables, probe with its error labels, removal, suspend, resume, PCI error recovery; what each path
    takes from the kernel and gives back (\<open>res_held\<close>).
  \<^item> Net\_Ops, Net\_Props: entry points of the network stack: a frame, the features check, 64-bit statistics, XDP programs.
  \<^item> Ethtool, Ethtool\_Props: the requests of \<open>ixgbevf_ethtool.c\<close>: register dump, self test, coalescing, receive-side-scaling
    options, statistics. Ring\_Param, Ring\_Param\_Props: changing the length of the rings with copies of the ring structures; \<open>muted\<close> is
    the adapter without the histories, \<open>acts_on\<close> the code that touches one ring only.

  \<^bold>\<open>Bounds and fuel.\<close> Countdown loops recurse on the countdown of the code. The receive loop of \<open>ixgbevf_clean_rx_irq\<close>
  ends only when the device stops completing descriptors or the budget is used, and skipped descriptors do not count: it has fuel,
  and \<open>clean_rx_irq_returns\<close> shows that fuel for one iteration more than the device reports descriptors is enough. Loops that
  empty a ring have as fuel the size of the ring; \<open>clean_tx_ring_releases_all\<close> and \<open>clean_rx_ring_releases_all\<close> show that all is
  released with it. Everything else is structural recursion.

  \<^bold>\<open>Configuration modelled.\<close> Current kernels: MSI-X, XDP, receive with \<open>build_skb\<close> or the legacy path on 4096-byte pages,
  PCI error recovery, no \<open>BP_EXTENDED_STATS\<close>, no FCoE or netpoll beyond \<open>ixgbevf_netpoll\<close>. One thread at a time runs an operation; interleavings are modelled where
  the code has its own protocol for them (the vector lock, the mailbox lock against the PF, the scheduled bit of the service task).

  \<^bold>\<open>Not modelled.\<close> The compatibility layer (\<open>kcompat*\<close>, \<open>auxiliary_compat.h\<close>, \<open>kcompat_xarray.c\<close>): copies of kernel code selected per kernel
  version. Module glue and messages, with the message level and driver information of \<open>ethtool\<close>. Tracing and self-contained debugging (\<open>ixgbevf_dump\<close>). The network stack, DMA
  mapping, memory allocation and BPF are the kernel's and appear through the results the code reads; so
  do the padding of short frames, \<open>dev_get_stats\<close>, and the callbacks of \<open>unregister_netdev\<close>, which are parameters.
\<close>

end
